(* ===== verification/Prelude.thy ===== *)
theory Prelude
  imports Complex_Main
    "HOL-Library.Char_ord" "HOL-Library.List_Lexorder" "HOL-Library.Product_Lexorder"
    "HOL-Library.Sublist" "HOL-Library.Multiset"
begin

text \<open>
  What the components share: errors as values, the sum type as the result of a fallible
  operation, JSON values and Go's dynamic values, the pieces of the Go standard library the
  sources call (decimal printing, trimming, integer parsing, hex encoding), and a small set
  of table operations with their laws, since every component keeps its state in SQL tables.
  Strings are byte strings (\<open>char list\<close>), ordered bytewise as Go and SQLite order them.
\<close>

section \<open>Automation collections\<close>

named_theorems tx_simps \<open>unfolding of transaction-scoped operations\<close>
named_theorems frame \<open>what an operation leaves unchanged\<close>
named_theorems table_simps \<open>laws of the table operations\<close>

section \<open>Errors and results\<close>

text \<open>
  The sentinel errors the code tests with \<open>errors.Is\<close> are constructors; every other error
  is \<open>Err\<close> with the fixed part of its message. A fallible operation returns \<open>err + 'a\<close>.
\<close>

datatype err =
    ErrFenced          \<comment> \<open>\<open>store.ErrFenced\<close>\<close>
  | ErrLeaseHeld       \<comment> \<open>\<open>store.ErrLeaseHeld\<close>\<close>
  | ErrNoWork          \<comment> \<open>\<open>store.ErrNoWork\<close>\<close>
  | ErrNoRows          \<comment> \<open>\<open>sql.ErrNoRows\<close>\<close>
  | ErrCrashed         \<comment> \<open>\<open>crashpoint.ErrCrashed\<close>\<close>
  | ErrConstraint      \<comment> \<open>a primary key violation reported by the database\<close>
  | Err string

type_synonym 'a res = "err + 'a"

fun bindR :: "'a res \<Rightarrow> ('a \<Rightarrow> 'b res) \<Rightarrow> 'b res" where
  "bindR (Inl e) f = Inl e"
| "bindR (Inr x) f = f x"

lemma bindR_Inr_iff [simp]:
  "bindR m f = Inr y \<longleftrightarrow> (\<exists>x. m = Inr x \<and> f x = Inr y)"
  by (cases m) auto

lemma bindR_Inl_iff:
  "bindR m f = Inl e \<longleftrightarrow> m = Inl e \<or> (\<exists>x. m = Inr x \<and> f x = Inl e)"
  by (cases m) auto

lemma bindR_cong [fundef_cong]:
  "m = m' \<Longrightarrow> (\<And>x. m' = Inr x \<Longrightarrow> f x = g x) \<Longrightarrow> bindR m f = bindR m' g"
  by (cases m') auto

definition guardR :: "bool \<Rightarrow> err \<Rightarrow> unit res" where
  "guardR ok e = (if ok then Inr () else Inl e)"

lemma guardR_Inr [simp]: "guardR ok e = Inr u \<longleftrightarrow> ok"
  by (simp add: guardR_def)

lemma guardR_Inl [simp]: "guardR ok e = Inl e' \<longleftrightarrow> \<not> ok \<and> e' = e"
  by (auto simp: guardR_def)

text \<open>Left-to-right loop over a list that stops at the first error.\<close>

fun foldR :: "('a \<Rightarrow> 's \<Rightarrow> 's res) \<Rightarrow> 'a list \<Rightarrow> 's \<Rightarrow> 's res" where
  "foldR f [] s = Inr s"
| "foldR f (x # xs) s = bindR (f x s) (foldR f xs)"

lemma foldR_append: "foldR f (xs @ ys) s = bindR (foldR f xs s) (foldR f ys)"
proof (induction xs arbitrary: s)
  case Nil
  then show ?case by simp
next
  case (Cons x xs)
  then show ?case by (cases "f x s") auto
qed

lemma foldR_invariant:
  assumes "foldR f xs s = Inr t" and "I s"
    and "\<And>x s s'. x \<in> set xs \<Longrightarrow> I s \<Longrightarrow> f x s = Inr s' \<Longrightarrow> I s'"
  shows "I t"
  using assms
proof (induction xs arbitrary: s)
  case Nil
  then show ?case by simp
next
  case (Cons x xs)
  from Cons.prems(1) obtain s' where s': "f x s = Inr s'" and rest: "foldR f xs s' = Inr t"
    by auto
  from Cons.prems(2) s' Cons.prems(3) [of x s s'] have "I s'" by simp
  with rest Cons.IH Cons.prems(3) show ?case by (meson list.set_intros(2))
qed

text \<open>A list mapped by a function that may fail.\<close>

fun mapR :: "('a \<Rightarrow> 'b res) \<Rightarrow> 'a list \<Rightarrow> 'b list res" where
  "mapR f [] = Inr []"
| "mapR f (x # xs) = bindR (f x) (\<lambda>y. bindR (mapR f xs) (\<lambda>ys. Inr (y # ys)))"

lemma mapR_total: "(\<And>x. x \<in> set xs \<Longrightarrow> \<exists>y. f x = Inr y) \<Longrightarrow> \<exists>ys. mapR f xs = Inr ys"
  by (induction xs) fastforce+

lemma mapR_known: "mapR f xs = Inr ys \<Longrightarrow> y \<in> set ys \<Longrightarrow> \<exists>x \<in> set xs. f x = Inr y"
  by (induction xs arbitrary: ys) auto

section \<open>Decimal and hexadecimal text\<close>

fun show_nat :: "nat \<Rightarrow> string" where
  "show_nat n =
     (if n < 10 then [char_of (48 + n)] else show_nat (n div 10) @ [char_of (48 + n mod 10)])"

declare show_nat.simps [simp del]

text \<open>\<open>strconv.Itoa\<close>.\<close>

definition show_int :: "int \<Rightarrow> string" where
  "show_int i = (if i < 0 then CHR ''-'' # show_nat (nat (- i)) else show_nat (nat i))"

definition hex_digit :: "nat \<Rightarrow> char" where
  "hex_digit n = (if n < 10 then char_of (48 + n) else char_of (87 + n))"

text \<open>\<open>hex.EncodeToString\<close>.\<close>

definition hex_encode :: "nat list \<Rightarrow> string" where
  "hex_encode bs = concat (map (\<lambda>b. [hex_digit (b div 16 mod 16), hex_digit (b mod 16)]) bs)"

definition digit_char :: "char \<Rightarrow> bool" where
  "digit_char c \<longleftrightarrow> 48 \<le> (of_char c :: nat) \<and> (of_char c :: nat) \<le> 57"

definition digits_val :: "string \<Rightarrow> nat" where
  "digits_val s = foldl (\<lambda>a c. 10 * a + (of_char c - 48)) 0 s"

lemma digits_val_snoc: "digits_val (s @ [c]) = 10 * digits_val s + (of_char c - 48)"
  by (simp add: digits_val_def)

lemma of_char_digit: "d < 10 \<Longrightarrow> (of_char (char_of (48 + d) :: char) :: nat) = 48 + d"
  by (simp add: of_char_of)

lemma digits_val_show_nat: "digits_val (show_nat n) = n"
proof (induction n rule: show_nat.induct)
  case (1 n)
  show ?case
  proof (cases "n < 10")
    case True
    then show ?thesis
      by (subst show_nat.simps) (simp add: digits_val_def of_char_digit)
  next
    case False
    have "digits_val (show_nat n) = 10 * digits_val (show_nat (n div 10)) + n mod 10"
      using False
      by (subst show_nat.simps) (simp add: digits_val_snoc of_char_digit)
    also have "\<dots> = n" using 1 False by simp
    finally show ?thesis .
  qed
qed

lemma show_nat_inj: "show_nat m = show_nat n \<Longrightarrow> m = n"
  by (metis digits_val_show_nat)

lemma show_nat_digits: "c \<in> set (show_nat n) \<Longrightarrow> digit_char c"
proof (induction n rule: show_nat.induct)
  case (1 n)
  then show ?case
    by (subst (asm) show_nat.simps)
      (auto simp: digit_char_def of_char_digit split: if_splits)
qed

lemma show_nat_nonempty [simp]: "show_nat n \<noteq> []"
  by (subst show_nat.simps) simp

section \<open>JSON values and Go's dynamic values\<close>

text \<open>
  A column or payload that holds JSON text holds the JSON value it encodes. Numbers keep
  their literal, as the text does. \<open>json.Marshal\<close> writes the keys of a Go map in sorted
  order and the fields of a struct in declaration order, so two texts it wrote are equal
  exactly when these values are equal.
\<close>

datatype json =
    JNull
  | JBool bool
  | JNum string
  | JStr string
  | JArr "json list"
  | JObj "(string \<times> json) list"

text \<open>A JSON object written from a Go map literal (keys sorted), and an integer literal.\<close>

definition jmap :: "(string \<times> json) list \<Rightarrow> json" where
  "jmap kvs = JObj (sort_key fst kvs)"

definition jint :: "int \<Rightarrow> json" where
  "jint i = JNum (show_int i)"

definition json_field :: "string \<Rightarrow> json \<Rightarrow> json option" where
  "json_field k j = (case j of JObj kvs \<Rightarrow> map_of kvs k | _ \<Rightarrow> None)"

text \<open>
  A Go value of type \<open>any\<close> as tool arguments hold it: \<open>VInt\<close> stands for \<open>int\<close> and
  \<open>int64\<close>, \<open>VFloat\<close> for a (finite) \<open>float64\<close>, \<open>VNumber\<close> for \<open>json.Number\<close>. A
  \<open>map[string]any\<close> is an association list with distinct keys.
\<close>

datatype val =
    VNil
  | VBool bool
  | VInt int
  | VFloat rat
  | VNumber string
  | VStr string
  | VArr "val list"
  | VObj "(string \<times> val) list"

type_synonym args = "(string \<times> val) list"

text \<open>
  The standard library functions the model is parametric in. \<open>sha256\<close> is the digest as
  bytes; \<open>ftoa\<close> and \<open>atof\<close> are how \<open>encoding/json\<close> prints and reads a \<open>float64\<close>;
  \<open>int64_oor\<close> is what \<open>int64(x)\<close> gives for a \<open>float64\<close> outside the range of
  \<open>int64\<close>, which the Go specification leaves to the implementation, together with whether
  converting that back gives \<open>x\<close>; \<open>parse_rfc3339\<close> and \<open>format_rfc3339\<close> are
  \<open>time.Parse(time.RFC3339, _)\<close> and \<open>Format(time.RFC3339)\<close> in seconds since the epoch;
  \<open>parse_json\<close> is the value a JSON text encodes (\<open>json.Valid\<close> holds when there is one)
  and \<open>print_json\<close> the text \<open>json.Marshal\<close> writes for a value;
  \<open>rand_intn seed n\<close> is the first \<open>IntN(n)\<close> of the \<open>math/rand/v2\<close> PCG generator the
  program seeds with \<open>seed\<close>; \<open>real_text\<close> is the text a database compares a floating
  point parameter as, against a text column.
  Every theorem holds for every choice of these functions unless it names a law of one.
\<close>

record golib =
  sha256 :: "string \<Rightarrow> nat list"
  ftoa :: "rat \<Rightarrow> string"
  atof :: "string \<Rightarrow> rat"
  int64_oor :: "rat \<Rightarrow> int \<times> bool"
  parse_rfc3339 :: "string \<Rightarrow> int option"
  format_rfc3339 :: "int \<Rightarrow> string"
  parse_json :: "string \<Rightarrow> json option"
  rand_intn :: "int \<Rightarrow> nat \<Rightarrow> nat"
  real_text :: "rat \<Rightarrow> string"
  print_json :: "json \<Rightarrow> string"

fun marshal :: "'x golib_scheme \<Rightarrow> val \<Rightarrow> json" where
  "marshal L VNil = JNull"
| "marshal L (VBool b) = JBool b"
| "marshal L (VInt i) = jint i"
| "marshal L (VFloat r) = JNum (ftoa L r)"
| "marshal L (VNumber s) = JNum s"
| "marshal L (VStr s) = JStr s"
| "marshal L (VArr xs) = JArr (map (marshal L) xs)"
| "marshal L (VObj kvs) = JObj (sort_key fst (map (\<lambda>(k, v). (k, marshal L v)) kvs))"

text \<open>\<open>json.Unmarshal\<close> into \<open>any\<close>: every number becomes a \<open>float64\<close>.\<close>

fun unmarshal :: "'x golib_scheme \<Rightarrow> json \<Rightarrow> val" where
  "unmarshal L JNull = VNil"
| "unmarshal L (JBool b) = VBool b"
| "unmarshal L (JNum s) = VFloat (atof L s)"
| "unmarshal L (JStr s) = VStr s"
| "unmarshal L (JArr xs) = VArr (map (unmarshal L) xs)"
| "unmarshal L (JObj kvs) = VObj (map (\<lambda>(k, v). (k, unmarshal L v)) kvs)"

definition marshal_args :: "'x golib_scheme \<Rightarrow> args \<Rightarrow> json" where
  "marshal_args L a = marshal L (VObj a)"

definition hex_digest :: "'x golib_scheme \<Rightarrow> string \<Rightarrow> string" where
  "hex_digest L s = hex_encode (sha256 L s)"

section \<open>Integers in dynamic values\<close>

definition int64_min :: int where "int64_min = - (2 ^ 63)"
definition int64_max :: int where "int64_max = 2 ^ 63 - 1"

text \<open>Conversion of a \<open>float64\<close> to \<open>int64\<close> and whether the value was whole.\<close>

definition trunc_rat :: "rat \<Rightarrow> int" where
  "trunc_rat r = (if 0 \<le> r then \<lfloor>r\<rfloor> else \<lceil>r\<rceil>)"

definition float_int64 :: "'x golib_scheme \<Rightarrow> rat \<Rightarrow> int \<times> bool" where
  "float_int64 L r =
     (let t = trunc_rat r in
      if int64_min \<le> t \<and> t \<le> int64_max then (t, of_int t = r) else int64_oor L r)"

text \<open>
  \<open>strconv.ParseInt(s, 10, 64)\<close>: the parsed value and whether there was no error. On a
  range error the value is the nearest bound, on a syntax error it is zero.
\<close>

definition parse_int64 :: "string \<Rightarrow> int \<times> bool" where
  "parse_int64 s =
     (let neg = (s \<noteq> [] \<and> hd s = CHR ''-'');
          ds = (if s \<noteq> [] \<and> (hd s = CHR ''-'' \<or> hd s = CHR ''+'') then tl s else s)
      in if ds = [] \<or> \<not> list_all digit_char ds then (0, False)
         else let n = int (digits_val ds); v = (if neg then - n else n) in
           if v < int64_min then (int64_min, False)
           else if int64_max < v then (int64_max, False)
           else (v, True))"

section \<open>Trimming and searching text\<close>

text \<open>
  \<open>strings.TrimSpace\<close> removes leading and trailing white space runes; in UTF-8 these are
  the ASCII blanks and the byte sequences below.
\<close>

definition bytes_of :: "string \<Rightarrow> nat list" where
  "bytes_of s = map of_char s"

definition wide_spaces :: "nat list list" where
  "wide_spaces =
     [[194, 133], [194, 160], [225, 154, 128], [226, 128, 168], [226, 128, 169],
      [226, 128, 175], [226, 129, 159], [227, 128, 128]]
     @ map (\<lambda>b. [226, 128, b]) [128 ..< 139]"

definition ascii_space :: "nat \<Rightarrow> bool" where
  "ascii_space b \<longleftrightarrow> b = 9 \<or> b = 10 \<or> b = 11 \<or> b = 12 \<or> b = 13 \<or> b = 32"

text \<open>The length of the white space rune a byte sequence starts with, zero for none.\<close>

definition space_len :: "nat list list \<Rightarrow> nat list \<Rightarrow> nat" where
  "space_len ws bs =
     (case bs of [] \<Rightarrow> 0
      | b # _ \<Rightarrow> if ascii_space b then 1
          else (case find (\<lambda>w. take (length w) bs = w) ws of None \<Rightarrow> 0 | Some w \<Rightarrow> length w))"

lemma space_len_le: "space_len ws bs \<le> length bs"
proof (cases bs)
  case Nil
  then show ?thesis by (simp add: space_len_def)
next
  case (Cons b bs')
  have "length w \<le> length bs" if "take (length w) bs = w" for w
    using that by (metis length_take min.cobounded1)
  then show ?thesis
    using Cons by (auto simp: space_len_def find_Some_iff split: option.splits)
qed

function trim_front :: "nat list list \<Rightarrow> string \<Rightarrow> string" where
  "trim_front ws s =
     (let n = space_len ws (bytes_of s) in if n = 0 then s else trim_front ws (drop n s))"
  by pat_completeness auto
termination
proof (relation "measure (length \<circ> snd)")
  fix ws s n
  assume n: "n = space_len ws (bytes_of s)" and "n \<noteq> 0"
  then have "s \<noteq> []" by (auto simp: space_len_def bytes_of_def)
  with \<open>n \<noteq> 0\<close> show "((ws, drop n s), (ws, s)) \<in> measure (length \<circ> snd)" by simp
qed simp

declare trim_front.simps [simp del]

definition TrimSpace :: "string \<Rightarrow> string" where
  "TrimSpace s =
     rev (trim_front (map rev wide_spaces) (rev (trim_front wide_spaces s)))"

definition blank :: "string \<Rightarrow> bool" where
  "blank s \<longleftrightarrow> TrimSpace s = []"

lemma blank_Nil [simp]: "blank []"
  by (simp add: blank_def TrimSpace_def trim_front.simps space_len_def bytes_of_def)

text \<open>SQL \<open>lower\<close> on ASCII letters and \<open>instr(a, b) > 0\<close>.\<close>

definition lower_char :: "char \<Rightarrow> char" where
  "lower_char c = (let n = (of_char c :: nat) in if 65 \<le> n \<and> n \<le> 90 then char_of (n + 32) else c)"

definition sql_lower :: "string \<Rightarrow> string" where
  "sql_lower s = map lower_char s"

definition instr_pos :: "string \<Rightarrow> string \<Rightarrow> bool" where
  "instr_pos hay needle \<longleftrightarrow> needle \<noteq> [] \<and> sublist needle hay"

section \<open>Division and order\<close>

text \<open>A smaller number has a smaller quotient, or the same quotient and a smaller remainder.\<close>

lemma div_mod_less:
  fixes a b k :: nat
  assumes "a < b"
  obtains "a div k < b div k" | "a div k = b div k" "a mod k < b mod k"
proof (cases "a div k < b div k")
  case True
  then show ?thesis by (rule that(1))
next
  case False
  with div_le_mono [of a b k] assms have eq: "a div k = b div k" by simp
  have "a div k * k + a mod k < b div k * k + b mod k" using assms by (simp only: div_mult_mod_eq)
  then have "a mod k < b mod k" by (simp only: eq nat_add_left_cancel_less)
  with eq show ?thesis by (rule that(2))
qed

section \<open>Text order\<close>

text \<open>
  Text compares by bytes. \<open>order_by\<close> is \<open>ORDER BY\<close> on a list of text columns; rows that
  agree on all of them keep table order.
\<close>

definition text_le :: "string \<Rightarrow> string \<Rightarrow> bool" where
  "text_le a b \<longleftrightarrow> lexordp_eq (map of_char a :: nat list) (map of_char b)"

fun texts_le :: "string list \<Rightarrow> string list \<Rightarrow> bool" where
  "texts_le (a # as) (b # bs) = (if a = b then texts_le as bs else text_le a b)"
| "texts_le [] _ = True"
| "texts_le _ [] = False"

fun insert_by :: "('r \<Rightarrow> string list) \<Rightarrow> 'r \<Rightarrow> 'r list \<Rightarrow> 'r list" where
  "insert_by k r [] = [r]"
| "insert_by k r (x # xs) = (if texts_le (k r) (k x) then r # x # xs else x # insert_by k r xs)"

definition order_by :: "('r \<Rightarrow> string list) \<Rightarrow> 'r list \<Rightarrow> 'r list" where
  "order_by k t = foldr (insert_by k) t []"

lemma insert_by_mset: "mset (insert_by k r t) = add_mset r (mset t)"
  by (induction t) auto

lemma order_by_mset: "mset (order_by k t) = mset t"
  unfolding order_by_def by (induction t) (auto simp: insert_by_mset)

lemma order_by_set [simp]: "set (order_by k t) = set t"
  using order_by_mset [of k t] by (metis set_mset_mset)

section \<open>Tables\<close>

text \<open>
  A table is a list of rows in insertion order. \<open>sel k x t\<close> is \<open>SELECT \<dots> WHERE key = x\<close>
  for a key \<open>k\<close>, \<open>upd\<close> is \<open>UPDATE \<dots> WHERE\<close>, \<open>ins\<close> is \<open>INSERT\<close>, which
  reports a violated primary key, and \<open>upsert\<close> is \<open>INSERT \<dots> ON CONFLICT DO UPDATE\<close>.
\<close>

definition sel :: "('r \<Rightarrow> 'k) \<Rightarrow> 'k \<Rightarrow> 'r list \<Rightarrow> 'r option" where
  "sel k x t = find (\<lambda>r. k r = x) t"

definition upd :: "('r \<Rightarrow> bool) \<Rightarrow> ('r \<Rightarrow> 'r) \<Rightarrow> 'r list \<Rightarrow> 'r list" where
  "upd p f t = map (\<lambda>r. if p r then f r else r) t"

definition ins :: "('r \<Rightarrow> 'k) \<Rightarrow> 'r \<Rightarrow> 'r list \<Rightarrow> 'r list res" where
  "ins k r t = (if k r \<in> set (map k t) then Inl ErrConstraint else Inr (t @ [r]))"

definition upsert :: "('r \<Rightarrow> 'k) \<Rightarrow> 'r \<Rightarrow> ('r \<Rightarrow> 'r) \<Rightarrow> 'r list \<Rightarrow> 'r list" where
  "upsert k r f t =
     (if k r \<in> set (map k t) then upd (\<lambda>x. k x = k r) f t else t @ [r])"

text \<open>The primary key of a table identifies its rows.\<close>

definition keyed :: "('r \<Rightarrow> 'k) \<Rightarrow> 'r list \<Rightarrow> bool" where
  "keyed k t \<longleftrightarrow> distinct (map k t)"

lemma sel_Nil [simp]: "sel k x [] = None"
  by (simp add: sel_def)

lemma sel_Cons [simp]: "sel k x (r # t) = (if k r = x then Some r else sel k x t)"
  by (simp add: sel_def)

lemma sel_SomeD: "sel k x t = Some r \<Longrightarrow> r \<in> set t \<and> k r = x"
  by (induction t) (auto split: if_splits)

lemma sel_None_iff: "sel k x t = None \<longleftrightarrow> x \<notin> set (map k t)"
  by (induction t) auto

lemma sel_append [table_simps]:
  "sel k x (t @ u) = (case sel k x t of None \<Rightarrow> sel k x u | Some r \<Rightarrow> Some r)"
  by (induction t) auto

lemma sel_keyed: "keyed k t \<Longrightarrow> r \<in> set t \<Longrightarrow> sel k (k r) t = Some r"
  by (induction t) (auto simp: keyed_def image_iff)

lemma sel_upd_other [table_simps]:
  assumes "\<And>r. p r \<Longrightarrow> k (f r) = k r" and "\<And>r. k r = x \<Longrightarrow> \<not> p r"
  shows "sel k x (upd p f t) = sel k x t"
  using assms by (induction t) (auto simp: upd_def)

lemma sel_upd_key [table_simps]:
  assumes "\<And>r. k r = x \<Longrightarrow> k (f r) = x"
  shows "sel k y (upd (\<lambda>r. k r = x) f t) =
     (if y = x then map_option f (sel k x t) else sel k y t)"
  using assms by (induction t) (auto simp: upd_def)

lemma map_upd [table_simps]:
  "(\<And>r. p r \<Longrightarrow> k (f r) = k r) \<Longrightarrow> map k (upd p f t) = map k t"
  by (induction t) (auto simp: upd_def)

lemma keyed_upd [table_simps]:
  "(\<And>r. p r \<Longrightarrow> k (f r) = k r) \<Longrightarrow> keyed k (upd p f t) = keyed k t"
  by (simp add: keyed_def map_upd)

lemma ins_Inr [table_simps]:
  "ins k r t = Inr t' \<longleftrightarrow> k r \<notin> set (map k t) \<and> t' = t @ [r]"
  by (auto simp: ins_def)

lemma keyed_snoc [table_simps]:
  "keyed k (t @ [r]) \<longleftrightarrow> keyed k t \<and> k r \<notin> set (map k t)"
  by (auto simp: keyed_def)

lemma keyed_upsert [table_simps]:
  assumes "\<And>x. k x = k r \<Longrightarrow> k (f x) = k x" and "keyed k t"
  shows "keyed k (upsert k r f t)"
proof (cases "k r \<in> set (map k t)")
  case True
  have "keyed k (upd (\<lambda>x. k x = k r) f t)"
    using assms by (subst keyed_upd) auto
  with True show ?thesis by (simp add: upsert_def)
next
  case False
  with assms show ?thesis by (simp add: upsert_def keyed_snoc)
qed

lemma sel_upsert [table_simps]:
  assumes "\<And>x. k x = k r \<Longrightarrow> k (f x) = k x"
  shows "sel k y (upsert k r f t) =
     (if y = k r then Some (case sel k (k r) t of None \<Rightarrow> r | Some x \<Rightarrow> f x)
      else sel k y t)"
proof (cases "k r \<in> set (map k t)")
  case True
  with sel_None_iff [of k "k r" t] obtain x where x: "sel k (k r) t = Some x" by auto
  from True have u: "upsert k r f t = upd (\<lambda>x. k x = k r) f t" by (simp add: upsert_def)
  have "sel k y (upd (\<lambda>x. k x = k r) f t) =
      (if y = k r then map_option f (sel k (k r) t) else sel k y t)"
    using assms by (intro sel_upd_key) simp
  with u x show ?thesis by simp
next
  case False
  then have u: "upsert k r f t = t @ [r]" and n: "sel k (k r) t = None"
    by (simp_all add: upsert_def sel_None_iff)
  then show ?thesis
    by (simp add: sel_append split: option.splits)
qed

lemma upd_id: "(\<And>r. r \<in> set t \<Longrightarrow> \<not> p r) \<Longrightarrow> upd p f t = t"
  by (induction t) (auto simp: upd_def)

lemma upd_filter_other [table_simps]:
  "(\<And>r. p r \<Longrightarrow> \<not> q r) \<Longrightarrow> (\<And>r. p r \<Longrightarrow> \<not> q (f r)) \<Longrightarrow> filter q (upd p f t) = filter q t"
  by (induction t) (auto simp: upd_def)

lemma set_updD: "x \<in> set (upd p f t) \<Longrightarrow> x \<in> set t \<or> (\<exists>r \<in> set t. p r \<and> x = f r)"
  by (auto simp: upd_def split: if_splits)

text \<open>\<open>SELECT COALESCE(MAX(seq), 0) + 1 FROM \<dots> WHERE run_id = ?\<close>.\<close>

definition next_seq :: "('r \<Rightarrow> 'k) \<Rightarrow> ('r \<Rightarrow> nat) \<Rightarrow> 'k \<Rightarrow> 'r list \<Rightarrow> nat" where
  "next_seq k s x t = Suc (foldr max (map s (filter (\<lambda>r. k r = x) t)) 0)"

lemma foldr_max_ge: "n \<in> set ns \<Longrightarrow> n \<le> foldr max ns (0::nat)"
  by (induction ns) (auto simp: max_def)

lemma next_seq_fresh: "(x, next_seq k s x t) \<notin> set (map (\<lambda>r. (k r, s r)) t)"
proof
  assume "(x, next_seq k s x t) \<in> set (map (\<lambda>r. (k r, s r)) t)"
  then obtain r where r: "r \<in> set t" "k r = x" and n: "s r = next_seq k s x t" by auto
  from r have "s r \<in> set (map s (filter (\<lambda>r. k r = x) t))" by auto
  from foldr_max_ge [OF this] n show False by (simp add: next_seq_def)
qed

text \<open>The rows of one key numbered from one without a gap, in table order.\<close>

definition contiguous :: "('r \<Rightarrow> 'k) \<Rightarrow> ('r \<Rightarrow> nat) \<Rightarrow> 'k \<Rightarrow> 'r list \<Rightarrow> bool" where
  "contiguous k s x t \<longleftrightarrow>
     map s (filter (\<lambda>r. k r = x) t) = [1 ..< Suc (length (filter (\<lambda>r. k r = x) t))]"

lemma foldr_max_upt: "foldr max [1 ..< Suc n] 0 = n"
proof -
  have "foldr max [1 ..< Suc n] a = max n a" for a
    by (induction n arbitrary: a) auto
  then show ?thesis by simp
qed

lemma next_seq_contiguous:
  "contiguous k s x t \<Longrightarrow> next_seq k s x t = Suc (length (filter (\<lambda>r. k r = x) t))"
  by (simp only: next_seq_def contiguous_def foldr_max_upt)

lemma contiguous_snoc:
  assumes "contiguous k s x t" and "k r = x \<longrightarrow> s r = next_seq k s x t"
  shows "contiguous k s x (t @ [r])"
  using assms next_seq_contiguous [OF assms(1)] by (auto simp: contiguous_def)

text \<open>A value of a keyed table determined by its row; used for sums over a column.\<close>

lemma sum_list_upd_key:
  fixes g :: "'r \<Rightarrow> int"
  assumes "keyed k t" and "sel k x t = Some r"
  shows "sum_list (map g (upd (\<lambda>s. k s = x) f t)) = sum_list (map g t) + g (f r) - g r"
  using assms
proof (induction t)
  case Nil
  then show ?case by simp
next
  case (Cons s t)
  show ?case
  proof (cases "k s = x")
    case True
    with Cons.prems have "r = s" and "x \<notin> set (map k t)" by (auto simp: keyed_def)
    then have "upd (\<lambda>s. k s = x) f t = t" by (induction t) (auto simp: upd_def)
    with True \<open>r = s\<close> show ?thesis by (simp add: upd_def)
  next
    case False
    with Cons show ?thesis by (simp add: upd_def keyed_def)
  qed
qed

end
