(* ===== verification/Timestamp.thy ===== *)
theory Timestamp
  imports Prelude
begin

text \<open>
  The text form of coordination times (\<open>internal/store/timestamp.go\<close>). The lease, queue
  and worker tables hold times as text and compare them inside SQL, so the one thing the
  form has to guarantee is that text order is time order. An instant is a number of
  nanoseconds since the Unix epoch, as \<open>time.Time\<close> in UTC; the calendar is the proleptic
  Gregorian one that \<open>Time.Format\<close> uses. The other theories work with instants directly,
  which the theorem at the end justifies.
\<close>

section \<open>Calendar\<close>

type_synonym instant = int

definition ns_per_day :: nat where "ns_per_day = 86400 * 10 ^ 9"

text \<open>Days between 0000-01-01 and the Unix epoch, and the zero value \<open>time.Time{}\<close>.\<close>

definition epoch_days :: int where "epoch_days = 719528"
definition zero_time :: instant where "zero_time = - 62135596800 * 10 ^ 9"

definition days_before_year :: "nat \<Rightarrow> nat" where
  "days_before_year y = 365 * y + (y + 3) div 4 + (y + 399) div 400 - (y + 99) div 100"

function year_from :: "nat \<Rightarrow> nat \<Rightarrow> nat" where
  "year_from y d = (if days_before_year (Suc y) \<le> d then year_from (Suc y) d else y)"
  by pat_completeness auto
termination
  by (relation "measure (\<lambda>(y, d). d - y)") (auto simp: days_before_year_def)

declare year_from.simps [simp del]

definition leap :: "nat \<Rightarrow> bool" where
  "leap y \<longleftrightarrow> y mod 4 = 0 \<and> (y mod 100 \<noteq> 0 \<or> y mod 400 = 0)"

definition month_lengths :: "nat \<Rightarrow> nat list" where
  "month_lengths y = [31, if leap y then 29 else 28, 31, 30, 31, 30, 31, 31, 30, 31, 30, 31]"

fun split_month :: "nat \<Rightarrow> nat list \<Rightarrow> nat \<Rightarrow> nat list" where
  "split_month m [] n = [m, Suc n]"
| "split_month m (l # ls) n = (if n < l then [m, Suc n] else split_month (Suc m) ls (n - l))"

text \<open>Year, month and day of a day number counted from 0000-01-01.\<close>

definition civil :: "nat \<Rightarrow> nat list" where
  "civil d = (let y = year_from (d div 366) d in
     y # split_month 1 (month_lengths y) (d - days_before_year y))"

definition clock :: "nat \<Rightarrow> nat list" where
  "clock n = [n div (3600 * 10 ^ 9), n div (60 * 10 ^ 9) mod 60, n div 10 ^ 9 mod 60, n mod 10 ^ 9]"

definition time_fields :: "instant \<Rightarrow> nat list" where
  "time_fields t = (let n = nat (t + epoch_days * int ns_per_day)
     in civil (n div ns_per_day) @ clock (n mod ns_per_day))"

section \<open>The layout\<close>

fun pad :: "nat \<Rightarrow> nat \<Rightarrow> string" where
  "pad 0 n = []"
| "pad (Suc w) n = pad w (n div 10) @ [char_of (48 + n mod 10)]"

text \<open>\<open>CoordinationLayout\<close>: each field's width and the text that follows it.\<close>

definition CoordinationLayout :: "(nat \<times> string) list" where
  "CoordinationLayout =
     [(4, ''-''), (2, ''-''), (2, ''T''), (2, '':''), (2, '':''), (2, ''.''), (9, ''Z'')]"

fun render :: "(nat \<times> string) list \<Rightarrow> nat list \<Rightarrow> string" where
  "render ((w, sep) # fs) (n # ns) = pad w n @ sep @ render fs ns"
| "render _ _ = []"

definition CoordinationTime :: "instant \<Rightarrow> string" where
  "CoordinationTime t = render CoordinationLayout (time_fields t)"

text \<open>
  \<open>Format(time.RFC3339Nano)\<close>, which trims the fraction's trailing zeros. The ownership
  log's detail and ledger timestamps use it; as text it does not sort the way times do.
\<close>

definition RFC3339Nano :: "instant \<Rightarrow> string" where
  "RFC3339Nano t =
     (let fs = time_fields t; frac = rev (dropWhile (\<lambda>c. c = CHR ''0'') (rev (pad 9 (last fs))))
      in render [(4, ''-''), (2, ''-''), (2, ''T''), (2, '':''), (2, '':''), (2, [])] (butlast fs)
         @ (if frac = [] then [] else CHR ''.'' # frac) @ ''Z'')"

text \<open>The years 0000 to 9999, the ones a four digit year can show.\<close>

definition printable_time :: "instant \<Rightarrow> bool" where
  "printable_time t \<longleftrightarrow>
     0 \<le> t + epoch_days * int ns_per_day \<and>
     t + epoch_days * int ns_per_day < 3652425 * int ns_per_day"

section \<open>Order of padded numbers and of rendered fields\<close>

lemma less_append_same_length:
  fixes a b x y :: "'a::order list"
  assumes "length a = length b"
  shows "a @ x < b @ y \<longleftrightarrow> a < b \<or> (a = b \<and> x < y)"
  using assms by (induction a b rule: list_induct2) auto

lemma length_pad [simp]: "length (pad w n) = w"
  by (induction w arbitrary: n) auto

lemma char_less_nat: "c < d \<longleftrightarrow> (of_char c :: nat) < of_char d"
  by (simp add: less_char_def)

lemma pad_less: "n < m \<Longrightarrow> m < 10 ^ w \<Longrightarrow> pad w n < pad w m"
proof (induction w arbitrary: n m)
  case 0
  then show ?case by simp
next
  case (Suc w)
  show ?case
  proof (cases "n div 10 < m div 10")
    case True
    moreover have "m div 10 < 10 ^ w" using Suc.prems(2) by (simp add: less_mult_imp_div_less)
    ultimately have "pad w (n div 10) < pad w (m div 10)" by (rule Suc.IH)
    then show ?thesis by (simp add: less_append_same_length)
  next
    case False
    then have "n div 10 = m div 10" and "n mod 10 < m mod 10"
      using div_mod_less [OF Suc.prems(1), of 10] by blast+
    then show ?thesis
      by (simp add: less_append_same_length char_less_nat of_char_digit)
  qed
qed

lemma render_less:
  assumes "list_all2 (\<lambda>(w, sep) n. n < 10 ^ w) fs xs"
    and "list_all2 (\<lambda>(w, sep) n. n < 10 ^ w) fs ys" and "xs < ys"
  shows "render fs xs < render fs ys"
  using assms
proof (induction fs arbitrary: xs ys)
  case Nil
  then show ?case by auto
next
  case (Cons f fs)
  obtain w sep where f: "f = (w, sep)" by (cases f)
  from Cons.prems f obtain n xs' where xs: "xs = n # xs'" and n: "n < 10 ^ w"
      and xs': "list_all2 (\<lambda>(w, sep) n. n < 10 ^ w) fs xs'"
    by (auto simp: list_all2_Cons1)
  from Cons.prems f obtain m ys' where ys: "ys = m # ys'" and m: "m < 10 ^ w"
      and ys': "list_all2 (\<lambda>(w, sep) n. n < 10 ^ w) fs ys'"
    by (auto simp: list_all2_Cons1)
  from Cons.prems(3) xs ys consider "n < m" | "n = m" "xs' < ys'" by auto
  then show ?case
  proof cases
    case 1
    then have "pad w n < pad w m" using m by (rule pad_less)
    then show ?thesis by (simp add: f xs ys less_append_same_length)
  next
    case 2
    then have "render fs xs' < render fs ys'" using xs' ys' by (intro Cons.IH)
    then show ?thesis using 2(1) by (simp add: f xs ys less_append_same_length)
  qed
qed

section \<open>Order of calendar fields\<close>

lemma ceil_div_Suc:
  assumes "0 < k"
  shows "(Suc y + (k - 1)) div k = (y + (k - 1)) div k + (if y mod k = 0 then 1 else (0::nat))"
proof -
  have "Suc (y + (k - 1)) = y + k" using assms by simp
  then show ?thesis using div_Suc [of "y + (k - 1)" k] by simp
qed

lemma days_before_year_Suc:
  "days_before_year (Suc y) = days_before_year y + (if leap y then 366 else 365)"
proof -
  define a b c where "a = (y + 3) div 4" and "b = (y + 399) div 400" and "c = (y + 99) div 100"
  have a: "(Suc y + 3) div 4 = a + (if y mod 4 = 0 then 1 else 0)"
    using ceil_div_Suc [of 4 y] by (simp add: a_def)
  have b: "(Suc y + 399) div 400 = b + (if y mod 400 = 0 then 1 else 0)"
    using ceil_div_Suc [of 400 y] by (simp add: b_def)
  have c: "(Suc y + 99) div 100 = c + (if y mod 100 = 0 then 1 else 0)"
    using ceil_div_Suc [of 100 y] by (simp add: c_def)
  have "c < Suc y" unfolding c_def by (rule less_mult_imp_div_less) simp
  moreover have "y mod 100 = 0" if "y mod 400 = 0"
    using that dvd_trans [of 100 400 y] by (simp add: mod_eq_0_iff_dvd)
  moreover have "y mod 4 = 0" if "y mod 100 = 0"
    using that dvd_trans [of 4 100 y] by (simp add: mod_eq_0_iff_dvd)
  ultimately show ?thesis
    unfolding days_before_year_def leap_def a b c a_def [symmetric] b_def [symmetric]
      c_def [symmetric]
    by (cases "y mod 4 = 0"; cases "y mod 100 = 0"; cases "y mod 400 = 0") simp_all
qed

lemma days_before_year_mono: "y \<le> z \<Longrightarrow> days_before_year y \<le> days_before_year z"
  by (rule lift_Suc_mono_le [of days_before_year]) (simp_all add: days_before_year_Suc)

lemma year_from_bounds:
  "days_before_year y \<le> d \<Longrightarrow>
     days_before_year (year_from y d) \<le> d \<and> d < days_before_year (Suc (year_from y d))"
proof (induction y d rule: year_from.induct)
  case (1 y d)
  show ?case
  proof (cases "days_before_year (Suc y) \<le> d")
    case True
    then have "days_before_year (year_from (Suc y) d) \<le> d
        \<and> d < days_before_year (Suc (year_from (Suc y) d))"
      using 1 by blast
    with True show ?thesis by (simp add: year_from.simps [of y d])
  next
    case False
    with 1(2) show ?thesis by (simp add: year_from.simps [of y d])
  qed
qed

abbreviation year_of :: "nat \<Rightarrow> nat" where
  "year_of d \<equiv> year_from (d div 366) d"

lemma year_of_bounds:
  "days_before_year (year_of d) \<le> d" "d < days_before_year (Suc (year_of d))"
proof -
  have "days_before_year n \<le> 366 * n" for n
    by (induction n) (simp_all add: days_before_year_Suc days_before_year_def [of 0])
  then have "days_before_year (d div 366) \<le> d"
    by (meson le_trans times_div_less_eq_dividend)
  from year_from_bounds [OF this]
  show "days_before_year (year_of d) \<le> d" "d < days_before_year (Suc (year_of d))" by auto
qed

lemma year_of_mono: "d < e \<Longrightarrow> year_of d \<le> year_of e"
proof (rule ccontr)
  assume "d < e" and "\<not> year_of d \<le> year_of e"
  then have "Suc (year_of e) \<le> year_of d" by simp
  from days_before_year_mono [OF this] year_of_bounds(1) [of d] year_of_bounds(2) [of e] \<open>d < e\<close>
  show False by simp
qed

lemma split_month_less: "n < n' \<Longrightarrow> split_month m ls n < split_month m ls n'"
proof (induction m ls n arbitrary: n' rule: split_month.induct)
  case (1 m n)
  then show ?case by simp
next
  case (2 m l ls n)
  have later: "[m, k] < split_month (Suc m') ls n''" if "m \<le> m'" for k m' n''
    using that
  proof (induction "Suc m'" ls n'' arbitrary: m' rule: split_month.induct)
    case (1 n)
    then show ?case by simp
  next
    case (2 l ls n)
    then show ?case by simp
  qed
  show ?case
  proof (cases "n < l")
    case True
    with 2 later [of m] show ?thesis by simp
  next
    case False
    then have "n - l < n' - l" and "\<not> n' < l" using 2(2) by auto
    with False 2(1) show ?thesis by simp
  qed
qed

lemma civil_less: "d < e \<Longrightarrow> civil d < civil e"
proof -
  assume "d < e"
  then consider "year_of d < year_of e" | "year_of d = year_of e"
    using year_of_mono by fastforce
  then show ?thesis
  proof cases
    case 1
    then show ?thesis by (simp add: civil_def Let_def)
  next
    case 2
    with \<open>d < e\<close> year_of_bounds(1) [of d] year_of_bounds(1) [of e]
    have "d - days_before_year (year_of d) < e - days_before_year (year_of d)" by simp
    with 2 split_month_less show ?thesis by (simp add: civil_def Let_def)
  qed
qed

lemma clock_less: "n < m \<Longrightarrow> clock n < clock m"
proof -
  assume "n < m"
  have c: "clock n = [n div 10 ^ 9 div 60 div 60, n div 10 ^ 9 div 60 mod 60, n div 10 ^ 9 mod 60,
      n mod 10 ^ 9]" for n
    by (simp add: clock_def div_mult2_eq [symmetric])
  from \<open>n < m\<close> show ?thesis
  proof (cases rule: div_mod_less [of n m "10 ^ 9"])
    case 1
    then show ?thesis
    proof (cases rule: div_mod_less [of _ _ 60])
      case 1
      then show ?thesis
        by (cases rule: div_mod_less [of _ _ 60]) (simp_all add: c)
    next
      case 2
      then show ?thesis by (simp add: c)
    qed
  next
    case 2
    then show ?thesis by (simp add: c)
  qed
qed

lemma length_civil: "length (civil d) = 3"
proof -
  have "length (split_month m ls n) = 2" for m ls n
    by (induction m ls n rule: split_month.induct) auto
  then show ?thesis by (simp add: civil_def Let_def)
qed

lemma time_fields_less:
  assumes "printable_time t" and "t < u"
  shows "time_fields t < time_fields u"
proof -
  define n m where "n = nat (t + epoch_days * int ns_per_day)"
    and "m = nat (u + epoch_days * int ns_per_day)"
  have "n < m" using assms by (simp add: n_def m_def printable_time_def)
  then show ?thesis
    unfolding time_fields_def Let_def n_def [symmetric] m_def [symmetric]
    by (cases rule: div_mod_less [of n m ns_per_day])
      (simp_all add: less_append_same_length length_civil civil_less clock_less)
qed

lemma month_lengths_sum:
  "sum_list (month_lengths y) = (if leap y then 366 else 365)"
  "length (month_lengths y) = 12" "\<forall>l \<in> set (month_lengths y). l \<le> 31"
  by (simp_all add: month_lengths_def)

lemma split_month_bounds:
  assumes "n < sum_list ls" and "\<forall>l \<in> set ls. l \<le> 31" and "m + length ls \<le> 99"
  shows "list_all2 (\<lambda>(w, sep) n. n < 10 ^ w) [(2, s1), (2, s2)] (split_month m ls n)"
  using assms
proof (induction m ls n rule: split_month.induct)
  case (1 m n)
  then show ?case by simp
next
  case (2 m l ls n)
  then show ?case by auto
qed

lemma time_fields_bounds:
  assumes "printable_time t"
  shows "list_all2 (\<lambda>(w, sep) n. n < 10 ^ w) CoordinationLayout (time_fields t)"
proof -
  define n where "n = nat (t + epoch_days * int ns_per_day)"
  define d r where "d = n div ns_per_day" and "r = n mod ns_per_day"
  have "int n < 3652425 * int ns_per_day" using assms by (simp add: n_def printable_time_def)
  then have "n < 3652425 * ns_per_day" by (metis of_nat_less_iff of_nat_mult of_nat_numeral)
  then have d: "d < 3652425" unfolding d_def by (simp add: less_mult_imp_div_less)
  have y: "year_of d < 10000"
  proof (rule ccontr)
    assume "\<not> year_of d < 10000"
    then have "days_before_year 10000 \<le> days_before_year (year_of d)"
      by (intro days_before_year_mono) simp
    with year_of_bounds(1) [of d] d show False by (simp add: days_before_year_def)
  qed
  have "d - days_before_year (year_of d) < sum_list (month_lengths (year_of d))"
    using year_of_bounds [of d] by (auto simp: month_lengths_sum(1) days_before_year_Suc)
  then have c: "list_all2 (\<lambda>(w, sep) n. n < 10 ^ w) [(4, ''-''), (2, ''-''), (2, ''T'')] (civil d)"
    using split_month_bounds [of _ "month_lengths (year_of d)" 1] y month_lengths_sum
    by (simp add: civil_def Let_def)
  have "r < ns_per_day" by (simp add: r_def ns_per_day_def)
  then have "r div (3600 * 10 ^ 9) < 24"
    by (simp add: ns_per_day_def less_mult_imp_div_less)
  then have k: "list_all2 (\<lambda>(w, sep) n. n < 10 ^ w)
      [(2, '':''), (2, '':''), (2, ''.''), (9, ''Z'')] (clock r)"
    by (auto simp: clock_def intro: order.strict_trans [OF mod_less_divisor])
  have "time_fields t = civil d @ clock r"
    by (simp add: time_fields_def Let_def n_def d_def r_def)
  with list_all2_appendI [OF c k] show ?thesis by (simp add: CoordinationLayout_def)
qed

lemma CoordinationTime_less:
  "printable_time t \<Longrightarrow> printable_time u \<Longrightarrow> t < u \<Longrightarrow> CoordinationTime t < CoordinationTime u"
  unfolding CoordinationTime_def
  by (intro render_less time_fields_bounds time_fields_less)

text \<open>
  Text order is time order: for any two instants of the years 0000 to 9999, the text
  \<open>CoordinationTime\<close> writes for one sorts before the text it writes for the other exactly
  when the first instant is earlier, and the texts are equal exactly when the instants are.
\<close>

theorem CoordinationTime_order:
  assumes "printable_time t" and "printable_time u"
  shows "(CoordinationTime t < CoordinationTime u \<longleftrightarrow> t < u)
       \<and> (CoordinationTime t = CoordinationTime u \<longleftrightarrow> t = u)"
  using CoordinationTime_less [OF assms] CoordinationTime_less [OF assms(2,1)]
  by (metis less_irrefl linorder_cases order.asym)

theorem CoordinationTime_order_witness:
  "printable_time 1793188801000000000 \<and> printable_time 1793188801500000000
   \<and> CoordinationTime 1793188801000000000 < CoordinationTime 1793188801500000000"
proof -
  have "printable_time 1793188801000000000" and "printable_time 1793188801500000000"
    by (simp_all add: printable_time_def epoch_days_def ns_per_day_def)
  from this CoordinationTime_order [OF this] show ?thesis by simp
qed

end
