(* ===== verification/Schema.thy ===== *)
theory Schema
  imports Timestamp
begin

text \<open>
  The database as \<open>internal/store/migrate.go\<close> lays it out: one record per table row, one
  field per column, and the tables grouped by the component that owns them. A table is a
  list of rows in insertion order. Columns that hold JSON text hold the value it encodes,
  columns of the coordination tables that hold times hold instants (theory \<open>Timestamp\<close>
  shows that text order is instant order). \<open>events.recorded_at\<close>, the wall clock reading of
  an append, is left out: only the checkpoint digests read it, and they take it as an argument.
\<close>

section \<open>The simulated world\<close>

record world_row =
  w_id :: string
  w_seed :: int
  w_digest :: string
  w_base_at :: string

record customer_row =
  cu_world :: string
  cu_id :: string
  cu_name :: string

record invoice_row =
  in_world :: string
  in_id :: string
  in_customer :: string
  in_amount :: int
  in_subscription :: string

record charge_row =
  ch_world :: string
  ch_id :: string
  ch_invoice :: string
  ch_amount :: int
  ch_refunded :: int
  ch_created :: string

record refund_row =
  rf_world :: string
  rf_id :: string
  rf_charge :: string
  rf_amount :: int
  rf_reason :: string
  rf_created :: string

record subscription_row =
  su_world :: string
  su_id :: string
  su_customer :: string
  su_status :: string
  su_plan :: string

record account_row =
  ac_world :: string
  ac_id :: string
  ac_customer :: string
  ac_status :: string
  ac_rep :: string

record contact_row =
  ct_world :: string
  ct_id :: string
  ct_account :: string
  ct_name :: string
  ct_email :: string

record note_row =
  no_world :: string
  no_id :: string
  no_account :: string
  no_body :: string
  no_created :: string

record project_row =
  pj_world :: string
  pj_id :: string
  pj_key :: string
  pj_name :: string

record issue_row =
  is_world :: string
  is_id :: string
  is_project :: string
  is_account :: string
  is_title :: string
  is_status :: string
  is_priority :: string

record comment_row =
  cm_world :: string
  cm_id :: string
  cm_issue :: string
  cm_body :: string
  cm_created :: string

record workspace_row =
  wk_world :: string
  wk_id :: string
  wk_name :: string

record channel_row =
  cn_world :: string
  cn_id :: string
  cn_workspace :: string
  cn_name :: string

record member_row =
  me_world :: string
  me_channel :: string
  me_principal :: string

record message_row =
  ms_world :: string
  ms_id :: string
  ms_channel :: string
  ms_body :: string
  ms_created :: string

record world_tables =
  worlds :: "world_row list"
  customers :: "customer_row list"
  invoices :: "invoice_row list"
  charges :: "charge_row list"
  refunds :: "refund_row list"
  subscriptions :: "subscription_row list"
  crm_accounts :: "account_row list"
  crm_contacts :: "contact_row list"
  crm_notes :: "note_row list"
  ticket_projects :: "project_row list"
  ticket_issues :: "issue_row list"
  ticket_comments :: "comment_row list"
  message_workspaces :: "workspace_row list"
  message_channels :: "channel_row list"
  message_members :: "member_row list"
  message_messages :: "message_row list"

section \<open>Runs, the ledger and saved results\<close>

text \<open>
  A transcript is a list of messages. A tool call's arguments are the JSON object the text
  holds; \<open>m_meta\<close> collects the optional fields of a provider's own account of a turn
  (raw output, usage, response ID, server model, finish reason, HTTP status), and
  \<open>m_content\<close> of a tool message is the JSON value whose text the message carries.
\<close>

record tool_call =
  tc_id :: string
  tc_operation :: string
  tc_arguments :: json

record interruption =
  ip_kind :: string
  ip_attempt :: int
  ip_reason :: string
  ip_deadline_ms :: int
  ip_status :: int
  ip_retry_after_ms :: int

record message =
  m_role :: string
  m_content :: json
  m_tool_calls :: "tool_call list"
  m_call_id :: string
  m_operation :: string
  m_status :: int
  m_meta :: "(string \<times> json) list"
  m_interruptions :: "interruption list"

record run_row =
  r_id :: string
  r_world :: string
  r_scenario :: string
  r_provider :: string
  r_model :: string
  r_task :: string
  r_status :: string
  r_step :: nat
  r_transcript :: "message list"
  r_fault_operation :: string
  r_fault_consumed :: nat
  r_principal :: string

record event_row =
  e_run :: string
  e_seq :: nat
  e_id :: string
  e_world_at :: string
  e_type :: string
  e_payload :: json

record tool_result_row =
  tr_run :: string
  tr_call :: string
  tr_operation :: string
  tr_arguments :: json
  tr_status :: int
  tr_body :: json

record run_tables =
  runs :: "run_row list"
  events :: "event_row list"
  tool_results :: "tool_result_row list"

section \<open>Chaos and authorization state\<close>

record run_policy_row =
  rp_run :: string
  rp_json :: string
  rp_digest :: string

record rule_state_row =
  cs_run :: string
  cs_rule :: string
  cs_calls :: nat
  cs_injections :: int

record snapshot_row =
  sn_run :: string
  sn_rule :: string
  sn_arguments_digest :: string
  sn_status :: int
  sn_body :: json

record hidden_row =
  hd_run :: string
  hd_call :: string
  hd_rule :: string
  hd_status :: int
  hd_body :: json

record auth_state_row =
  as_run :: string
  as_call :: nat

record policy_tables =
  run_chaos :: "run_policy_row list"
  chaos_rule_state :: "rule_state_row list"
  chaos_snapshots :: "snapshot_row list"
  chaos_hidden_outcomes :: "hidden_row list"
  run_auth :: "run_policy_row list"
  auth_state :: "auth_state_row list"

section \<open>Coordination\<close>

datatype queue_state = QueueRunnable | QueueLeased | QueueFinished | QueueFailed

datatype ownership_kind =
    OwnershipAcquired | OwnershipReleased | OwnershipRenewed
  | OwnershipFenced | OwnershipFailed | OwnershipFinished

record lease_row =
  l_run :: string
  l_owner :: string
  l_fence :: int
  l_committed :: int
  l_expires :: instant
  l_acquired :: instant
  l_heartbeat :: instant

record queue_row =
  q_run :: string
  q_state :: queue_state
  q_max_steps :: int
  q_attempts :: int
  q_enqueued :: instant
  q_available :: instant
  q_last_error :: string

record worker_row =
  wr_id :: string
  wr_host :: string
  wr_started :: instant
  wr_last_seen :: instant
  wr_claims :: int

record ownership_row =
  ow_run :: string
  ow_seq :: nat
  ow_at :: instant
  ow_kind :: ownership_kind
  ow_owner :: string
  ow_fence :: int
  ow_detail :: json

record coord_tables =
  run_leases :: "lease_row list"
  work_queue :: "queue_row list"
  workers :: "worker_row list"
  run_ownership_log :: "ownership_row list"

section \<open>The database\<close>

record db =
  db_world :: world_tables
  db_runs :: run_tables
  db_policy :: policy_tables
  db_coord :: coord_tables

text \<open>
  A transaction body takes the database it reads and returns its result with the database
  to commit, or an error. \<open>BeginTx\<close>, the deferred \<open>Rollback\<close> and \<open>Commit\<close> make
  \<open>commit\<close> below: the new state on success, the old one on any error.
\<close>

type_synonym 'a tx = "db \<Rightarrow> ('a \<times> db) res"

definition commit :: "'a tx \<Rightarrow> db \<Rightarrow> 'a res \<times> db" where
  "commit body d = (case body d of Inl e \<Rightarrow> (Inl e, d) | Inr (x, d') \<Rightarrow> (Inr x, d'))"

lemma commit_Inl [simp]: "fst (commit body d) = Inl e \<Longrightarrow> snd (commit body d) = d"
  by (auto simp: commit_def split: sum.splits)

lemma commit_error_iff: "fst (commit body d) = Inl e \<longleftrightarrow> body d = Inl e"
  by (auto simp: commit_def split: sum.splits)

lemma commit_ok_iff:
  "commit body d = (Inr x, d') \<longleftrightarrow> body d = Inr (x, d')"
  by (auto simp: commit_def split: sum.splits)

section \<open>Primary keys\<close>

text \<open>The primary key constraints the schema declares, for the tables the runtime writes.\<close>

definition world_keys :: "world_tables \<Rightarrow> bool" where
  "world_keys w \<longleftrightarrow>
     keyed w_id (worlds w)
   \<and> keyed (\<lambda>r. (cu_world r, cu_id r)) (customers w)
   \<and> keyed (\<lambda>r. (ch_world r, ch_id r)) (charges w)
   \<and> keyed (\<lambda>r. (rf_world r, rf_id r)) (refunds w)
   \<and> keyed (\<lambda>r. (ac_world r, ac_id r)) (crm_accounts w)
   \<and> keyed (\<lambda>r. (no_world r, no_id r)) (crm_notes w)
   \<and> keyed (\<lambda>r. (is_world r, is_id r)) (ticket_issues w)
   \<and> keyed (\<lambda>r. (cm_world r, cm_id r)) (ticket_comments w)
   \<and> keyed (\<lambda>r. (cn_world r, cn_id r)) (message_channels w)
   \<and> keyed (\<lambda>r. (ms_world r, ms_id r)) (message_messages w)"

definition coord_keys :: "coord_tables \<Rightarrow> bool" where
  "coord_keys c \<longleftrightarrow>
     keyed l_run (run_leases c) \<and> keyed q_run (work_queue c) \<and> keyed wr_id (workers c)
   \<and> keyed (\<lambda>r. (ow_run r, ow_seq r)) (run_ownership_log c)"

definition run_keys :: "run_tables \<Rightarrow> bool" where
  "run_keys t \<longleftrightarrow>
     keyed r_id (runs t) \<and> keyed (\<lambda>e. (e_run e, e_seq e)) (events t)
   \<and> keyed (\<lambda>r. (tr_run r, tr_call r)) (tool_results t)"

end
