(* ===== verification/Lease.thy ===== *)
theory Lease
  imports Schema
begin

text \<open>
  Fenced run ownership (\<open>internal/store/lease.go\<close>, \<open>ownership.go\<close> and the guard of
  \<open>guarded.go\<close>). A lease row names a run's owner, its fence and the highest fence that has
  committed; the ownership log records every transition. Each operation below is one
  transaction body over the whole database; \<open>commit\<close> turns it into the committed effect.
  Times are read from a clock the caller supplies, so every \<open>now\<close> is an argument and the
  theorems hold for clocks that disagree.
\<close>

section \<open>Leases and fences\<close>

record run_lease =
  rl_run :: string
  rl_owner :: string
  rl_token :: int
  rl_expires :: instant

record fence =
  f_run :: string
  f_owner :: string
  f_token :: int

definition Fence :: "run_lease \<Rightarrow> fence" where
  "Fence l = \<lparr>f_run = rl_run l, f_owner = rl_owner l, f_token = rl_token l\<rparr>"

definition second :: int where "second = 10 ^ 9"

section \<open>Statements on the coordination tables\<close>

definition map_leases :: "(lease_row list \<Rightarrow> lease_row list) \<Rightarrow> db \<Rightarrow> db" where
  "map_leases f d = d\<lparr>db_coord := (db_coord d)\<lparr>run_leases := f (run_leases (db_coord d))\<rparr>\<rparr>"

definition map_log :: "(ownership_row list \<Rightarrow> ownership_row list) \<Rightarrow> db \<Rightarrow> db" where
  "map_log f d = d\<lparr>db_coord := (db_coord d)\<lparr>run_ownership_log := f (run_ownership_log (db_coord d))\<rparr>\<rparr>"

abbreviation leases :: "db \<Rightarrow> lease_row list" where "leases d \<equiv> run_leases (db_coord d)"
abbreviation olog :: "db \<Rightarrow> ownership_row list" where "olog d \<equiv> run_ownership_log (db_coord d)"

lemma map_leases_simps [simp, frame]:
  "leases (map_leases f d) = f (leases d)" "olog (map_leases f d) = olog d"
  "work_queue (db_coord (map_leases f d)) = work_queue (db_coord d)"
  "workers (db_coord (map_leases f d)) = workers (db_coord d)"
  "db_runs (map_leases f d) = db_runs d" "db_world (map_leases f d) = db_world d"
  "db_policy (map_leases f d) = db_policy d"
  by (simp_all add: map_leases_def)

lemma map_log_simps [simp, frame]:
  "leases (map_log f d) = leases d" "olog (map_log f d) = f (olog d)"
  "work_queue (db_coord (map_log f d)) = work_queue (db_coord d)"
  "workers (db_coord (map_log f d)) = workers (db_coord d)"
  "db_runs (map_log f d) = db_runs d" "db_world (map_log f d) = db_world d"
  "db_policy (map_log f d) = db_policy d"
  by (simp_all add: map_log_def)

section \<open>The ownership log\<close>

definition appendOwnershipTx ::
    "string \<Rightarrow> ownership_kind \<Rightarrow> string \<Rightarrow> int \<Rightarrow> instant \<Rightarrow> json \<Rightarrow> unit tx" where
  "appendOwnershipTx runID kind owner fence now detail d =
     (let seq = next_seq ow_run ow_seq runID (olog d);
          row = \<lparr>ow_run = runID, ow_seq = seq, ow_at = now, ow_kind = kind, ow_owner = owner,
                 ow_fence = fence, ow_detail = detail\<rparr>
      in bindR (ins (\<lambda>r. (ow_run r, ow_seq r)) row (olog d))
           (\<lambda>log. Inr ((), map_log (\<lambda>_. log) d)))"

text \<open>In its own transaction; the lease row lock it takes on PostgreSQL only orders it.\<close>

definition AppendOwnership ::
    "string \<Rightarrow> ownership_kind \<Rightarrow> string \<Rightarrow> int \<Rightarrow> instant \<Rightarrow> json \<Rightarrow> unit tx" where
  "AppendOwnership runID kind owner fence now detail =
     appendOwnershipTx runID kind owner fence now detail"

definition RecordFenceRejection :: "fence \<Rightarrow> instant \<Rightarrow> string \<Rightarrow> unit tx" where
  "RecordFenceRejection f now reason =
     AppendOwnership (f_run f) OwnershipFenced (f_owner f) (f_token f) now
       (jmap [(''reason'', JStr reason)])"

definition Ownership :: "string \<Rightarrow> db \<Rightarrow> ownership_row list" where
  "Ownership runID d =
     sort_key ow_seq (filter (\<lambda>r. ow_run r = runID) (olog d))"

section \<open>Acquire, renew, release\<close>

text \<open>
  The placeholder row a first acquisition creates, so that concurrent claimers have a row
  to queue on. A run that does not exist is an error.
\<close>

definition ensureLeaseRow :: "string \<Rightarrow> db \<Rightarrow> db res" where
  "ensureLeaseRow runID d =
     (case sel l_run runID (leases d) of
        Some _ \<Rightarrow> Inr d
      | None \<Rightarrow>
          if filter (\<lambda>r. r_id r = runID) (runs (db_runs d)) = [] then Inl (Err ''run does not exist'')
          else let row = \<lparr>l_run = runID, l_owner = [], l_fence = 0, l_committed = 0,
                          l_expires = zero_time, l_acquired = zero_time, l_heartbeat = zero_time\<rparr>
               in Inr (map_leases (upsert l_run row id) d))"

text \<open>The upsert of an acquisition: everything but \<open>committed_fence\<close> is replaced.\<close>

definition storeLease :: "run_lease \<Rightarrow> int \<Rightarrow> instant \<Rightarrow> lease_row list \<Rightarrow> lease_row list" where
  "storeLease next committed now =
     upsert l_run
       \<lparr>l_run = rl_run next, l_owner = rl_owner next, l_fence = rl_token next,
        l_committed = committed, l_expires = rl_expires next, l_acquired = now, l_heartbeat = now\<rparr>
       (\<lambda>x. x\<lparr>l_owner := rl_owner next, l_fence := rl_token next, l_expires := rl_expires next,
              l_acquired := now, l_heartbeat := now\<rparr>)"

definition acquireRunLeaseTx ::
    "string \<Rightarrow> string \<Rightarrow> int \<Rightarrow> instant \<Rightarrow> bool \<Rightarrow> run_lease tx" where
  "acquireRunLeaseTx runID owner ttl now takeover d =
     (if runID = [] \<or> owner = [] then Inl (Err ''run ID and owner are required'')
      else if ttl < second then Inl (Err ''lease ttl must be at least one second'')
      else bindR (ensureLeaseRow runID d) (\<lambda>d1.
        case sel l_run runID (leases d1) of
          None \<Rightarrow> Inl ErrNoRows
        | Some cur \<Rightarrow>
            if l_owner cur \<noteq> [] \<and> l_owner cur \<noteq> owner \<and> now < l_expires cur then Inl ErrLeaseHeld
            else
              let next = \<lparr>rl_run = runID, rl_owner = owner, rl_token = l_fence cur + 1,
                          rl_expires = now + ttl\<rparr>;
                  detail = jmap [(''expires_at'', JStr (RFC3339Nano (rl_expires next))),
                                 (''previous_owner'', JStr (l_owner cur)),
                                 (''takeover'', JBool (takeover \<or>
                                    (l_owner cur \<noteq> [] \<and> l_owner cur \<noteq> owner)))]
              in bindR (appendOwnershipTx runID OwnershipAcquired owner (rl_token next) now detail
                         (map_leases (storeLease next (l_committed cur) now) d1))
                   (\<lambda>(_, d2). Inr (next, d2))))"

definition AcquireRunLease :: "string \<Rightarrow> string \<Rightarrow> int \<Rightarrow> instant \<Rightarrow> run_lease tx" where
  "AcquireRunLease runID owner ttl now = acquireRunLeaseTx runID owner ttl now False"

definition RenewRunLease :: "run_lease \<Rightarrow> int \<Rightarrow> instant \<Rightarrow> run_lease tx" where
  "RenewRunLease lease ttl now d =
     (if ttl < second then Inl (Err ''lease ttl must be at least one second'')
      else let expires = now + ttl;
               hit = (\<lambda>r. l_run r = rl_run lease \<and> l_owner r = rl_owner lease
                          \<and> l_fence r = rl_token lease \<and> now < l_expires r)
           in if length (filter hit (leases d)) \<noteq> 1 then Inl ErrFenced
              else Inr (lease\<lparr>rl_expires := expires\<rparr>,
                     map_leases (upd hit (\<lambda>r. r\<lparr>l_expires := expires, l_heartbeat := now\<rparr>)) d))"

definition ReleaseRunLease :: "run_lease \<Rightarrow> instant \<Rightarrow> unit tx" where
  "ReleaseRunLease lease now d =
     (let hit = (\<lambda>r. l_run r = rl_run lease \<and> l_owner r = rl_owner lease \<and> l_fence r = rl_token lease)
      in if length (filter hit (leases d)) \<noteq> 1 then Inl ErrFenced
         else appendOwnershipTx (rl_run lease) OwnershipReleased (rl_owner lease) (rl_token lease)
                now (JObj [])
                (map_leases (upd hit (\<lambda>r. r\<lparr>l_owner := [], l_expires := now, l_heartbeat := now\<rparr>)) d))"

definition RunLease :: "string \<Rightarrow> db \<Rightarrow> run_lease res" where
  "RunLease runID d =
     (case sel l_run runID (leases d) of
        None \<Rightarrow> Inl ErrNoRows
      | Some r \<Rightarrow> Inr \<lparr>rl_run = l_run r, rl_owner = l_owner r, rl_token = l_fence r,
                       rl_expires = l_expires r\<rparr>)"

section \<open>The guard\<close>

definition GuardFenceTx :: "fence \<Rightarrow> instant \<Rightarrow> unit tx" where
  "GuardFenceTx f now d =
     (if f_run f = [] \<or> f_owner f = [] then Inl (Err ''fence requires a run ID and owner'')
      else case sel l_run (f_run f) (leases d) of
        None \<Rightarrow> Inl ErrFenced
      | Some r \<Rightarrow>
          if f_token f < l_committed r then Inl ErrFenced
          else if l_owner r \<noteq> f_owner f \<or> l_fence r \<noteq> f_token f then Inl ErrFenced
          else if \<not> now < l_expires r then Inl ErrFenced
          else if l_committed r \<noteq> f_token f then
            Inr ((), map_leases (upd (\<lambda>x. l_run x = f_run f) (\<lambda>x. x\<lparr>l_committed := f_token f\<rparr>)) d)
          else Inr ((), d))"

definition withGuardedTx :: "fence \<Rightarrow> instant \<Rightarrow> 'a tx \<Rightarrow> 'a tx" where
  "withGuardedTx f now body d = bindR (GuardFenceTx f now d) (\<lambda>(_, d1). body d1)"

definition GuardFence :: "fence \<Rightarrow> instant \<Rightarrow> unit tx" where
  "GuardFence f now = withGuardedTx f now (\<lambda>d. Inr ((), d))"

text \<open>A nil fence (a local run) skips the ownership check (\<open>guarded.go\<close>).\<close>

definition guarded :: "fence option \<Rightarrow> instant \<Rightarrow> 'a tx \<Rightarrow> 'a tx" where
  "guarded f now body d =
     (case f of None \<Rightarrow> body d | Some f \<Rightarrow> withGuardedTx f now body d)"

section \<open>The lease of a run, as a function of the database\<close>

definition lease_of :: "db \<Rightarrow> string \<Rightarrow> lease_row option" where
  "lease_of d runID = sel l_run runID (leases d)"

definition issued :: "db \<Rightarrow> string \<Rightarrow> int" where
  "issued d runID = (case lease_of d runID of None \<Rightarrow> 0 | Some r \<Rightarrow> l_fence r)"

definition admits :: "db \<Rightarrow> fence \<Rightarrow> instant \<Rightarrow> bool" where
  "admits d f now \<longleftrightarrow> (\<exists>d'. GuardFenceTx f now d = Inr ((), d'))"

text \<open>
  The invariant of the lease tables: keys are unique, the committed fence never passes the
  issued one, the ownership log of a run is numbered without a gap, and the fences it says
  were acquired are exactly one, two, three and so on up to the one the lease row holds.
\<close>

definition acquired_fences :: "db \<Rightarrow> string \<Rightarrow> int list" where
  "acquired_fences d runID =
     map ow_fence (filter (\<lambda>r. ow_run r = runID \<and> ow_kind r = OwnershipAcquired) (olog d))"

definition fences_upto :: "int \<Rightarrow> int list" where
  "fences_upto n = map int [1 ..< Suc (nat n)]"

definition lease_inv :: "db \<Rightarrow> bool" where
  "lease_inv d \<longleftrightarrow>
     keyed l_run (leases d)
   \<and> (\<forall>r \<in> set (leases d). 0 \<le> l_committed r \<and> l_committed r \<le> l_fence r)
   \<and> (\<forall>runID. contiguous ow_run ow_seq runID (olog d))
   \<and> (\<forall>runID. acquired_fences d runID = fences_upto (issued d runID))"

section \<open>What each operation does to the lease tables\<close>

lemma appendOwnershipTx_eq [tx_simps]:
  "appendOwnershipTx runID kind owner fence now detail d =
   Inr ((), map_log (\<lambda>log. log @
     [\<lparr>ow_run = runID, ow_seq = next_seq ow_run ow_seq runID log, ow_at = now,
       ow_kind = kind, ow_owner = owner, ow_fence = fence, ow_detail = detail\<rparr>]) d)"
  using next_seq_fresh [of runID ow_run ow_seq "olog d"]
  by (simp add: appendOwnershipTx_def ins_def Let_def map_log_def)

lemma lease_of_run: "lease_of d runID = Some r \<Longrightarrow> l_run r = runID"
  by (auto simp: lease_of_def dest: sel_SomeD)

lemma lease_of_in: "lease_of d runID = Some r \<Longrightarrow> r \<in> set (leases d)"
  by (auto simp: lease_of_def dest: sel_SomeD)

lemma lease_of_map_log [simp]: "lease_of (map_log f d) = lease_of d"
  by (simp add: lease_of_def fun_eq_iff)

text \<open>
  A quiet change leaves every run's fence as it was, may raise a committed fence to the
  fence, and appends to the ownership log only rows that are not acquisitions, in sequence.
  Every operation but an acquisition is quiet.
\<close>

definition lease_quiet :: "db \<Rightarrow> db \<Rightarrow> bool" where
  "lease_quiet d d' \<longleftrightarrow>
     (\<exists>f. leases d' = map f (leases d)
        \<and> (\<forall>r. l_run (f r) = l_run r \<and> l_fence (f r) = l_fence r
              \<and> (l_committed (f r) = l_committed r \<or> l_committed (f r) = l_fence r)))
   \<and> (\<exists>rows. olog d' = olog d @ rows \<and> (\<forall>r \<in> set rows. ow_kind r \<noteq> OwnershipAcquired))
   \<and> (\<forall>runID. contiguous ow_run ow_seq runID (olog d) \<longrightarrow> contiguous ow_run ow_seq runID (olog d'))"

lemma lease_quiet_same: "leases d' = leases d \<Longrightarrow> olog d' = olog d \<Longrightarrow> lease_quiet d d'"
  unfolding lease_quiet_def by (auto intro!: exI [of _ "\<lambda>r. r"])

lemma lease_quiet_refl [simp]: "lease_quiet d d"
  by (simp add: lease_quiet_same)

lemma lease_quiet_trans [trans]:
  assumes "lease_quiet d d'" and "lease_quiet d' d''"
  shows "lease_quiet d d''"
proof -
  from assms(1) obtain f rows where f: "leases d' = map f (leases d)"
      "\<And>r. l_run (f r) = l_run r" "\<And>r. l_fence (f r) = l_fence r"
      "\<And>r. l_committed (f r) = l_committed r \<or> l_committed (f r) = l_fence r"
      and rows: "olog d' = olog d @ rows" "\<forall>r \<in> set rows. ow_kind r \<noteq> OwnershipAcquired"
    by (auto simp: lease_quiet_def)
  from assms(2) obtain g rows' where g: "leases d'' = map g (leases d')"
      "\<And>r. l_run (g r) = l_run r" "\<And>r. l_fence (g r) = l_fence r"
      "\<And>r. l_committed (g r) = l_committed r \<or> l_committed (g r) = l_fence r"
      and rows': "olog d'' = olog d' @ rows'" "\<forall>r \<in> set rows'. ow_kind r \<noteq> OwnershipAcquired"
    by (auto simp: lease_quiet_def)
  have "leases d'' = map (g \<circ> f) (leases d)" by (simp add: f(1) g(1))
  moreover have "l_run ((g \<circ> f) r) = l_run r \<and> l_fence ((g \<circ> f) r) = l_fence r
      \<and> (l_committed ((g \<circ> f) r) = l_committed r \<or> l_committed ((g \<circ> f) r) = l_fence r)" for r
    using f(2-4) g(2-4) by (metis comp_apply)
  ultimately show ?thesis
    unfolding lease_quiet_def using assms rows rows'
    by (intro conjI) (blast, auto simp: lease_quiet_def)
qed

lemma lease_quiet_upd:
  assumes "\<And>r. p r \<Longrightarrow> l_run (f r) = l_run r \<and> l_fence (f r) = l_fence r
      \<and> (l_committed (f r) = l_committed r \<or> l_committed (f r) = l_fence r)"
  shows "lease_quiet d (map_leases (upd p f) d)"
proof -
  let ?f = "\<lambda>r. if p r then f r else r"
  have "leases (map_leases (upd p f) d) = map ?f (leases d)" by (simp add: upd_def)
  moreover have "\<forall>r. l_run (?f r) = l_run r \<and> l_fence (?f r) = l_fence r
      \<and> (l_committed (?f r) = l_committed r \<or> l_committed (?f r) = l_fence r)"
    using assms by auto
  ultimately show ?thesis unfolding lease_quiet_def by (intro conjI exI) auto
qed

lemma lease_quiet_log:
  assumes "ow_kind row \<noteq> OwnershipAcquired"
    and "ow_seq row = next_seq ow_run ow_seq (ow_run row) (olog d)"
  shows "lease_quiet d (map_log (\<lambda>log. log @ [row]) d)"
  unfolding lease_quiet_def using assms
  by (auto intro!: exI [of _ "\<lambda>r. r"] contiguous_snoc)

lemma sel_map_keys:
  assumes "\<And>r. k (f r) = k r"
  shows "sel k x (map f t) = map_option f (sel k x t)"
  using assms by (induction t) auto

lemma lease_quiet_lease_of:
  assumes "lease_quiet d d'"
  obtains "lease_of d runID = None" "lease_of d' runID = None"
  | r r' where "lease_of d runID = Some r" "lease_of d' runID = Some r'" "l_fence r' = l_fence r"
      "l_committed r' = l_committed r \<or> l_committed r' = l_fence r"
proof -
  from assms obtain f where f: "leases d' = map f (leases d)" "\<And>r. l_run (f r) = l_run r"
      "\<And>r. l_fence (f r) = l_fence r"
      "\<And>r. l_committed (f r) = l_committed r \<or> l_committed (f r) = l_fence r"
    by (auto simp: lease_quiet_def)
  have "lease_of d' runID = map_option f (lease_of d runID)"
    using f(1,2) by (simp add: lease_of_def sel_map_keys)
  then show ?thesis using that f(3,4) by (cases "lease_of d runID") auto
qed

lemma lease_quiet_issued: "lease_quiet d d' \<Longrightarrow> issued d' runID = issued d runID"
  by (erule lease_quiet_lease_of [of d d' runID]) (simp_all add: issued_def)

lemma lease_quiet_inv:
  assumes "lease_quiet d d'" and "lease_inv d"
  shows "lease_inv d'"
proof -
  from assms(1) obtain f rows where f: "leases d' = map f (leases d)" "\<And>r. l_run (f r) = l_run r"
      "\<And>r. l_fence (f r) = l_fence r"
      "\<And>r. l_committed (f r) = l_committed r \<or> l_committed (f r) = l_fence r"
      and rows: "olog d' = olog d @ rows" "\<forall>r \<in> set rows. ow_kind r \<noteq> OwnershipAcquired"
    by (auto simp: lease_quiet_def)
  have "map l_run (leases d') = map l_run (leases d)" using f(1,2) by simp
  then have "keyed l_run (leases d')" using assms(2) by (simp add: lease_inv_def keyed_def)
  moreover have "\<forall>r \<in> set (leases d'). 0 \<le> l_committed r \<and> l_committed r \<le> l_fence r"
  proof
    fix r' assume "r' \<in> set (leases d')"
    then obtain r where r: "r \<in> set (leases d)" "r' = f r" using f(1) by auto
    with assms(2) have "0 \<le> l_committed r \<and> l_committed r \<le> l_fence r" by (simp add: lease_inv_def)
    with f(3) [of r] f(4) [of r] r(2) show "0 \<le> l_committed r' \<and> l_committed r' \<le> l_fence r'" by auto
  qed
  moreover have "acquired_fences d' runID = acquired_fences d runID" for runID
    using rows by (auto simp: acquired_fences_def filter_empty_conv)
  ultimately show ?thesis
    using assms lease_quiet_issued [OF assms(1)] by (auto simp: lease_inv_def lease_quiet_def)
qed


section \<open>The operations\<close>

lemma GuardFenceTx_ok:
  assumes "GuardFenceTx f now d = Inr ((), d')"
  obtains r where "lease_of d (f_run f) = Some r" "l_owner r = f_owner f" "l_fence r = f_token f"
    "now < l_expires r" "l_committed r \<le> f_token f" "f_run f \<noteq> []" "f_owner f \<noteq> []"
    "d' = d \<or> d' = map_leases (upd (\<lambda>x. l_run x = f_run f) (\<lambda>x. x\<lparr>l_committed := f_token f\<rparr>)) d"
  using assms that
  by (auto simp: GuardFenceTx_def lease_of_def split: if_splits option.splits)

lemma GuardFenceTx_quiet:
  assumes "keyed l_run (leases d)" and "GuardFenceTx f now d = Inr ((), d')"
  shows "lease_quiet d d'"
proof -
  from assms(2) obtain r where r: "lease_of d (f_run f) = Some r" "l_fence r = f_token f"
      and d': "d' = d \<or> d' = map_leases (upd (\<lambda>x. l_run x = f_run f) (\<lambda>x. x\<lparr>l_committed := f_token f\<rparr>)) d"
    by (rule GuardFenceTx_ok)
  let ?p = "\<lambda>x. l_run x = f_run f \<and> l_fence x = f_token f"
  have "upd (\<lambda>x. l_run x = f_run f) g (leases d) = upd ?p g (leases d)" for g
    using r sel_keyed [OF assms(1)]
    by (force simp: upd_def lease_of_def intro!: map_cong)
  then have "d' = d \<or> d' = map_leases (upd ?p (\<lambda>x. x\<lparr>l_committed := f_token f\<rparr>)) d"
    using d' by (auto simp: map_leases_def)
  then show ?thesis by (auto intro!: lease_quiet_upd)
qed

lemma AppendOwnership_quiet:
  assumes "kind \<noteq> OwnershipAcquired"
    and "appendOwnershipTx runID kind owner fence now detail d = Inr ((), d')"
  shows "lease_quiet d d'"
proof -
  have "d' = map_log (\<lambda>log. log @
     [\<lparr>ow_run = runID, ow_seq = next_seq ow_run ow_seq runID (olog d), ow_at = now,
       ow_kind = kind, ow_owner = owner, ow_fence = fence, ow_detail = detail\<rparr>]) d"
    using assms(2) by (simp add: appendOwnershipTx_eq map_log_def)
  then show ?thesis using assms(1) by (simp add: lease_quiet_log)
qed

lemma RecordFenceRejection_quiet:
  "RecordFenceRejection f now reason d = Inr ((), d') \<Longrightarrow> lease_quiet d d'"
  by (auto simp: RecordFenceRejection_def AppendOwnership_def intro: AppendOwnership_quiet)

lemma RenewRunLease_quiet:
  "RenewRunLease lease ttl now d = Inr (lease', d') \<Longrightarrow> lease_quiet d d'"
  by (auto simp: RenewRunLease_def Let_def split: if_splits intro!: lease_quiet_upd)

lemma ReleaseRunLease_quiet:
  assumes "ReleaseRunLease lease now d = Inr ((), d')"
  shows "lease_quiet d d'"
proof -
  let ?u = "map_leases (upd (\<lambda>r. l_run r = rl_run lease \<and> l_owner r = rl_owner lease
      \<and> l_fence r = rl_token lease) (\<lambda>r. r\<lparr>l_owner := [], l_expires := now, l_heartbeat := now\<rparr>)) d"
  have "appendOwnershipTx (rl_run lease) OwnershipReleased (rl_owner lease) (rl_token lease)
        now (JObj []) ?u = Inr ((), d')"
    using assms by (simp add: ReleaseRunLease_def Let_def split: if_splits)
  then have "lease_quiet ?u d'" by (rule AppendOwnership_quiet [rotated]) simp
  moreover have "lease_quiet d ?u" by (rule lease_quiet_upd) simp
  ultimately show ?thesis by (rule lease_quiet_trans [rotated])
qed

text \<open>
  The one operation that is not quiet. It needs the lease free, expired or already the
  claimer's, and its token is one more than any fence issued before.
\<close>

lemma ensureLeaseRow_ok:
  assumes "ensureLeaseRow runID d = Inr d1"
  obtains "d1 = d" "lease_of d runID \<noteq> None"
  | row where "lease_of d runID = None" "d1 = map_leases (\<lambda>t. t @ [row]) d" "l_run row = runID"
      "l_owner row = []" "l_fence row = 0" "l_committed row = 0"
proof (cases "lease_of d runID")
  case (Some r)
  then show ?thesis using assms that(1) by (simp add: ensureLeaseRow_def lease_of_def)
next
  case None
  let ?row = "\<lparr>l_run = runID, l_owner = [], l_fence = 0, l_committed = 0,
      l_expires = zero_time, l_acquired = zero_time, l_heartbeat = zero_time\<rparr>"
  have "d1 = map_leases (\<lambda>t. t @ [?row]) d"
    using assms None sel_None_iff [of l_run runID "leases d"]
    by (simp add: ensureLeaseRow_def lease_of_def upsert_def Let_def map_leases_def split: if_splits)
  then show ?thesis using None that(2) by simp
qed

lemma acquireRunLeaseTx_ok:
  assumes "acquireRunLeaseTx runID owner ttl now takeover d = Inr (l, d')"
  obtains d1 cur detail where "ensureLeaseRow runID d = Inr d1" "lease_of d1 runID = Some cur"
    "l = \<lparr>rl_run = runID, rl_owner = owner, rl_token = l_fence cur + 1, rl_expires = now + ttl\<rparr>"
    "l_owner cur = [] \<or> l_owner cur = owner \<or> \<not> now < l_expires cur"
    "runID \<noteq> []" "owner \<noteq> []" "second \<le> ttl"
    "d' = map_log (\<lambda>log. log @
       [\<lparr>ow_run = runID, ow_seq = next_seq ow_run ow_seq runID (olog d1), ow_at = now,
         ow_kind = OwnershipAcquired, ow_owner = owner, ow_fence = l_fence cur + 1,
         ow_detail = detail\<rparr>]) (map_leases (storeLease l (l_committed cur) now) d1)"
  using assms that
  by (auto simp: acquireRunLeaseTx_def lease_of_def appendOwnershipTx_eq Let_def map_log_def
      split: if_splits option.splits)

lemma storeLease_row:
  assumes "sel l_run (rl_run l) t = Some cur"
  shows "sel l_run x (storeLease l c now t) =
    (if x = rl_run l then Some (cur\<lparr>l_owner := rl_owner l, l_fence := rl_token l,
       l_expires := rl_expires l, l_acquired := now, l_heartbeat := now\<rparr>) else sel l_run x t)"
  using assms by (simp add: storeLease_def sel_upsert)

lemma acquireRunLeaseTx_lease_of:
  assumes "acquireRunLeaseTx runID owner ttl now takeover d = Inr (l, d')"
  shows "rl_run l = runID" and "rl_token l = issued d runID + 1"
    and "rl_owner l = owner" and "rl_expires l = now + ttl"
    and "\<And>x. x \<noteq> runID \<Longrightarrow> lease_of d' x = lease_of d x"
    and "\<exists>r'. lease_of d' runID = Some r' \<and> l_owner r' = owner \<and> l_fence r' = rl_token l
       \<and> l_expires r' = rl_expires l
       \<and> l_committed r' = (case lease_of d runID of None \<Rightarrow> 0 | Some r \<Rightarrow> l_committed r)"
    and "\<And>r. lease_of d runID = Some r \<Longrightarrow> l_owner r = [] \<or> l_owner r = owner \<or> \<not> now < l_expires r"
proof -
  from assms obtain d1 cur where e: "ensureLeaseRow runID d = Inr d1"
      and cur: "lease_of d1 runID = Some cur"
      and l: "l = \<lparr>rl_run = runID, rl_owner = owner, rl_token = l_fence cur + 1, rl_expires = now + ttl\<rparr>"
      and free: "l_owner cur = [] \<or> l_owner cur = owner \<or> \<not> now < l_expires cur"
      and d': "lease_of d' = lease_of (map_leases (storeLease l (l_committed cur) now) d1)"
    by (rule acquireRunLeaseTx_ok) auto
  have new: "lease_of d' x = (if x = runID then Some (cur\<lparr>l_owner := owner, l_fence := rl_token l,
       l_expires := rl_expires l, l_acquired := now, l_heartbeat := now\<rparr>) else lease_of d1 x)" for x
    using cur l by (simp add: d' lease_of_def storeLease_row)
  have old: "x \<noteq> runID \<Longrightarrow> lease_of d1 x = lease_of d x" for x
    by (rule ensureLeaseRow_ok [OF e]) (auto simp: lease_of_def sel_append split: option.splits)
  have was: "lease_of d runID = Some cur
      \<or> lease_of d runID = None \<and> l_fence cur = 0 \<and> l_committed cur = 0"
    by (rule ensureLeaseRow_ok [OF e]) (use cur in \<open>auto simp: lease_of_def sel_append split: option.splits\<close>)
  show "rl_run l = runID" "rl_owner l = owner" "rl_expires l = now + ttl" using l by simp_all
  show "rl_token l = issued d runID + 1" using was l by (auto simp: issued_def)
  show "\<And>x. x \<noteq> runID \<Longrightarrow> lease_of d' x = lease_of d x" using new old by simp
  show "\<exists>r'. lease_of d' runID = Some r' \<and> l_owner r' = owner \<and> l_fence r' = rl_token l
       \<and> l_expires r' = rl_expires l
       \<and> l_committed r' = (case lease_of d runID of None \<Rightarrow> 0 | Some r \<Rightarrow> l_committed r)"
    using new was by auto
  show "\<And>r. lease_of d runID = Some r \<Longrightarrow> l_owner r = [] \<or> l_owner r = owner \<or> \<not> now < l_expires r"
    using was free by auto
qed

lemma acquireRunLeaseTx_issued:
  assumes "acquireRunLeaseTx runID owner ttl now takeover d = Inr (l, d')"
  shows "issued d' x = (if x = runID then issued d x + 1 else issued d x)"
  using acquireRunLeaseTx_lease_of [OF assms] by (auto simp: issued_def)

lemma acquireRunLeaseTx_log:
  assumes "acquireRunLeaseTx runID owner ttl now takeover d = Inr (l, d')"
  shows "\<exists>row. olog d' = olog d @ [row] \<and> ow_run row = runID \<and> ow_kind row = OwnershipAcquired
     \<and> ow_owner row = owner \<and> ow_fence row = rl_token l
     \<and> ow_seq row = next_seq ow_run ow_seq runID (olog d)"
proof -
  from assms obtain d1 detail and cur :: lease_row where e: "ensureLeaseRow runID d = Inr d1"
      and l: "l = \<lparr>rl_run = runID, rl_owner = owner, rl_token = l_fence cur + 1, rl_expires = now + ttl\<rparr>"
      and d': "d' = map_log (\<lambda>log. log @
       [\<lparr>ow_run = runID, ow_seq = next_seq ow_run ow_seq runID (olog d1), ow_at = now,
         ow_kind = OwnershipAcquired, ow_owner = owner, ow_fence = l_fence cur + 1,
         ow_detail = detail\<rparr>]) (map_leases (storeLease l (l_committed cur) now) d1)"
    by (rule acquireRunLeaseTx_ok)
  have "olog d1 = olog d" by (rule ensureLeaseRow_ok [OF e]) auto
  then show ?thesis using d' l by simp
qed

lemma acquireRunLeaseTx_keyed:
  assumes "acquireRunLeaseTx runID owner ttl now takeover d = Inr (l, d')" and "keyed l_run (leases d)"
  shows "keyed l_run (leases d')"
proof -
  from assms(1) obtain d1 and cur :: lease_row where e: "ensureLeaseRow runID d = Inr d1"
      and d': "leases d' = storeLease l (l_committed cur) now (leases d1)"
    by (rule acquireRunLeaseTx_ok) auto
  have "keyed l_run (leases d1)"
    by (rule ensureLeaseRow_ok [OF e]) (use assms(2) in \<open>auto simp: keyed_snoc lease_of_def sel_None_iff\<close>)
  then show ?thesis by (simp add: d' storeLease_def keyed_upsert)
qed

lemma fences_upto_Suc: "0 \<le> n \<Longrightarrow> fences_upto (n + 1) = fences_upto n @ [n + 1]"
  by (simp add: fences_upto_def nat_add_distrib)

lemma lease_inv_rows:
  "keyed l_run (leases d) \<Longrightarrow>
   (\<forall>r \<in> set (leases d). P r) \<longleftrightarrow> (\<forall>x r. lease_of d x = Some r \<longrightarrow> P r)"
  using sel_keyed [of l_run "leases d"] by (force simp: lease_of_def dest: sel_SomeD)

lemma issued_nonneg: "lease_inv d \<Longrightarrow> 0 \<le> issued d runID"
  by (force simp: lease_inv_def issued_def dest: lease_of_in split: option.splits)

lemma acquireRunLeaseTx_inv:
  assumes "acquireRunLeaseTx runID owner ttl now takeover d = Inr (l, d')" and "lease_inv d"
  shows "lease_inv d'"
proof -
  note row = acquireRunLeaseTx_lease_of [OF assms(1)]
  have k: "keyed l_run (leases d)" "keyed l_run (leases d')"
    using assms acquireRunLeaseTx_keyed by (auto simp: lease_inv_def)
  from assms(2) have old: "lease_of d x = Some r \<Longrightarrow> 0 \<le> l_committed r \<and> l_committed r \<le> l_fence r" for x r
    by (auto simp: lease_inv_def lease_inv_rows [OF k(1)])
  have "lease_of d' x = Some r \<Longrightarrow> 0 \<le> l_committed r \<and> l_committed r \<le> l_fence r" for x r
    using row(5) [of x] row(2,6) old [of x] by (cases "x = runID") (force simp: issued_def split: option.splits)+
  then have rows: "\<forall>r \<in> set (leases d'). 0 \<le> l_committed r \<and> l_committed r \<le> l_fence r"
    by (auto simp: lease_inv_rows [OF k(2)])
  obtain r where log: "olog d' = olog d @ [r]" "ow_run r = runID" "ow_kind r = OwnershipAcquired"
      "ow_fence r = rl_token l" "ow_seq r = next_seq ow_run ow_seq runID (olog d)"
    using acquireRunLeaseTx_log [OF assms(1)] by blast
  have "contiguous ow_run ow_seq x (olog d')" for x
    using assms(2) log by (auto simp: lease_inv_def intro!: contiguous_snoc)
  moreover have "acquired_fences d' x = fences_upto (issued d' x)" for x
    using assms(2) log row(2) issued_nonneg [OF assms(2)]
    by (simp add: acquireRunLeaseTx_issued [OF assms(1)] acquired_fences_def lease_inv_def fences_upto_Suc)
  ultimately show ?thesis using k(2) rows by (simp add: lease_inv_def)
qed

end
