(* ===== verification/Samples.thy ===== *)
theory Samples
  imports Lease
begin

text \<open>
  A small concrete database and a concrete choice of the standard library functions, on
  which the witnesses of the development evaluate: one billing world with two customers and
  one run in it. Nothing but the witnesses refers to them.
\<close>

definition sample_lib :: golib where
  "sample_lib = \<lparr>sha256 = (\<lambda>s. map of_char s), ftoa = (\<lambda>r. show_int (floor r)), atof = (\<lambda>_. 0),
     int64_oor = (\<lambda>_. (0, False)), parse_rfc3339 = (\<lambda>_. Some 0),
     format_rfc3339 = (\<lambda>t. show_int t), parse_json = (\<lambda>s. Some (JStr s)),
     rand_intn = (\<lambda>_ _. 0), real_text = (\<lambda>r. show_int (floor r)),
     print_json = (\<lambda>_. [])\<rparr>"

definition empty_world :: world_tables where
  "empty_world = \<lparr>worlds = [], customers = [], invoices = [], charges = [], refunds = [],
     subscriptions = [], crm_accounts = [], crm_contacts = [], crm_notes = [],
     ticket_projects = [], ticket_issues = [], ticket_comments = [], message_workspaces = [],
     message_channels = [], message_members = [], message_messages = []\<rparr>"

definition empty_policy :: policy_tables where
  "empty_policy = \<lparr>run_chaos = [], chaos_rule_state = [], chaos_snapshots = [],
     chaos_hidden_outcomes = [], run_auth = [], auth_state = []\<rparr>"

definition empty_coord :: coord_tables where
  "empty_coord = \<lparr>run_leases = [], work_queue = [], workers = [], run_ownership_log = []\<rparr>"

definition sample_world :: world_tables where
  "sample_world = empty_world\<lparr>
     worlds := [\<lparr>w_id = ''W'', w_seed = 1, w_digest = ''D'', w_base_at = ''2026''\<rparr>],
     customers := [\<lparr>cu_world = ''W'', cu_id = ''C-104'', cu_name = ''Morgan Vale''\<rparr>,
                   \<lparr>cu_world = ''W'', cu_id = ''C-205'', cu_name = ''Taylor Reed''\<rparr>],
     invoices := [\<lparr>in_world = ''W'', in_id = ''INV-104'', in_customer = ''C-104'', in_amount = 4000,
                   in_subscription = ''SUB-104''\<rparr>],
     charges := [\<lparr>ch_world = ''W'', ch_id = ''CH-1001'', ch_invoice = ''INV-104'', ch_amount = 4000,
                  ch_refunded = 0, ch_created = ''t''\<rparr>],
     crm_accounts := [\<lparr>ac_world = ''W'', ac_id = ''A-104'', ac_customer = ''C-104'', ac_status = ''active'',
                       ac_rep = ''REP-1''\<rparr>],
     ticket_projects := [\<lparr>pj_world = ''W'', pj_id = ''PROJ-ENG'', pj_key = ''ENG'', pj_name = ''Engineering''\<rparr>],
     ticket_issues := [\<lparr>is_world = ''W'', is_id = ''ISS-1'', is_project = ''PROJ-ENG'', is_account = ''A-104'',
                        is_title = ''t'', is_status = ''open'', is_priority = ''high''\<rparr>],
     message_channels := [\<lparr>cn_world = ''W'', cn_id = ''CH-SUPPORT'', cn_workspace = ''WS-1'', cn_name = ''support''\<rparr>]\<rparr>"

definition sample_run :: run_row where
  "sample_run = \<lparr>r_id = ''R'', r_world = ''W'', r_scenario = ''s'', r_provider = ''p'', r_model = ''m'',
     r_task = ''t'', r_status = ''running'', r_step = 0, r_transcript = [], r_fault_operation = [],
     r_fault_consumed = 0, r_principal = ''local-unrestricted''\<rparr>"

definition sample_db :: db where
  "sample_db = \<lparr>db_world = sample_world,
     db_runs = \<lparr>runs = [sample_run], events = [], tool_results = []\<rparr>,
     db_policy = empty_policy, db_coord = empty_coord\<rparr>"

text \<open>
  The run queued; then claimed by worker \<open>a\<close>; then taken over by worker \<open>b\<close> once that lease
  had expired. Instants count nanoseconds, a lease lasts one second.
\<close>

definition sample_lease :: "string \<Rightarrow> int \<Rightarrow> instant \<Rightarrow> run_lease" where
  "sample_lease owner token expires =
     \<lparr>rl_run = ''R'', rl_owner = owner, rl_token = token, rl_expires = expires\<rparr>"

definition sample_fence :: "string \<Rightarrow> int \<Rightarrow> fence" where
  "sample_fence owner token = \<lparr>f_run = ''R'', f_owner = owner, f_token = token\<rparr>"

definition queue_row_R :: "queue_state \<Rightarrow> int \<Rightarrow> queue_row" where
  "queue_row_R state attempts = \<lparr>q_run = ''R'', q_state = state, q_max_steps = 5, q_attempts = attempts,
     q_enqueued = 0, q_available = 0, q_last_error = []\<rparr>"

definition lease_row_R :: "string \<Rightarrow> int \<Rightarrow> int \<Rightarrow> instant \<Rightarrow> lease_row" where
  "lease_row_R owner fence committed expires = \<lparr>l_run = ''R'', l_owner = owner, l_fence = fence,
     l_committed = committed, l_expires = expires, l_acquired = 0, l_heartbeat = 0\<rparr>"

definition acquired_row_R :: "nat \<Rightarrow> string \<Rightarrow> int \<Rightarrow> ownership_row" where
  "acquired_row_R seq owner fence = \<lparr>ow_run = ''R'', ow_seq = seq, ow_at = 0, ow_kind = OwnershipAcquired,
     ow_owner = owner, ow_fence = fence, ow_detail = JNull\<rparr>"

definition queued_db :: db where
  "queued_db = sample_db\<lparr>db_coord := empty_coord\<lparr>work_queue := [queue_row_R QueueRunnable 0]\<rparr>\<rparr>"

definition leased_db :: db where
  "leased_db = sample_db\<lparr>db_coord := empty_coord\<lparr>work_queue := [queue_row_R QueueLeased 1],
     run_leases := [lease_row_R ''a'' 1 1 1000000000],
     run_ownership_log := [acquired_row_R 1 ''a'' 1]\<rparr>\<rparr>"

definition taken_db :: db where
  "taken_db = sample_db\<lparr>db_coord := empty_coord\<lparr>work_queue := [queue_row_R QueueLeased 2],
     run_leases := [lease_row_R ''b'' 2 1 3000000000],
     run_ownership_log := [acquired_row_R 1 ''a'' 1, acquired_row_R 2 ''b'' 2]\<rparr>\<rparr>"

lemmas sample_defs = sample_db_def sample_world_def empty_world_def empty_policy_def empty_coord_def
  sample_run_def sample_lib_def sample_lease_def sample_fence_def queue_row_R_def lease_row_R_def
  acquired_row_R_def queued_db_def leased_db_def taken_db_def

end
