(* ===== verification/Ledger.thy ===== *)
theory Ledger
  imports Samples
begin

text \<open>
  Runs and the event ledger (\<open>internal/store/store.go\<close>, \<open>guarded.go\<close>): creating a run,
  appending numbered events, saving a model turn and moving a run's status, each with and
  without an ownership check. The lemmas show that the ledger of every run is numbered
  one, two, three and so on without a gap, that nothing is ever removed from it, and that a
  guarded write by a worker that lost its run changes nothing.
\<close>

section \<open>Statements on the run tables\<close>

definition map_runs :: "(run_row list \<Rightarrow> run_row list) \<Rightarrow> db \<Rightarrow> db" where
  "map_runs f d = d\<lparr>db_runs := (db_runs d)\<lparr>runs := f (runs (db_runs d))\<rparr>\<rparr>"

definition map_events :: "(event_row list \<Rightarrow> event_row list) \<Rightarrow> db \<Rightarrow> db" where
  "map_events f d = d\<lparr>db_runs := (db_runs d)\<lparr>events := f (events (db_runs d))\<rparr>\<rparr>"

definition map_policy :: "(policy_tables \<Rightarrow> policy_tables) \<Rightarrow> db \<Rightarrow> db" where
  "map_policy f d = d\<lparr>db_policy := f (db_policy d)\<rparr>"

abbreviation run_rows :: "db \<Rightarrow> run_row list" where "run_rows d \<equiv> runs (db_runs d)"
abbreviation ledger :: "db \<Rightarrow> event_row list" where "ledger d \<equiv> events (db_runs d)"
abbreviation results :: "db \<Rightarrow> tool_result_row list" where "results d \<equiv> tool_results (db_runs d)"

lemma map_runs_simps [simp, frame]:
  "run_rows (map_runs f d) = f (run_rows d)" "ledger (map_runs f d) = ledger d"
  "results (map_runs f d) = results d" "db_world (map_runs f d) = db_world d"
  "db_policy (map_runs f d) = db_policy d" "db_coord (map_runs f d) = db_coord d"
  by (simp_all add: map_runs_def)

lemma map_events_simps [simp, frame]:
  "run_rows (map_events f d) = run_rows d" "ledger (map_events f d) = f (ledger d)"
  "results (map_events f d) = results d" "db_world (map_events f d) = db_world d"
  "db_policy (map_events f d) = db_policy d" "db_coord (map_events f d) = db_coord d"
  by (simp_all add: map_events_def)

lemma map_policy_simps [simp, frame]:
  "db_runs (map_policy f d) = db_runs d" "db_world (map_policy f d) = db_world d"
  "db_policy (map_policy f d) = f (db_policy d)" "db_coord (map_policy f d) = db_coord d"
  by (simp_all add: map_policy_def)

section \<open>Appending an event\<close>

definition event_id :: "string \<Rightarrow> nat \<Rightarrow> string" where
  "event_id runID seq = runID @ ''/'' @ show_nat seq"

definition AppendEventTx :: "'x golib_scheme \<Rightarrow> string \<Rightarrow> string \<Rightarrow> json \<Rightarrow> unit tx" where
  "AppendEventTx L runID typ payload d =
     (case sel r_id runID (run_rows d) of
        None \<Rightarrow> Inl ErrNoRows
      | Some r \<Rightarrow>
          (case sel w_id (r_world r) (worlds (db_world d)) of
             None \<Rightarrow> Inl ErrNoRows
           | Some w \<Rightarrow>
               let seq = next_seq e_run e_seq runID (ledger d) in
               (case parse_rfc3339 L (w_base_at w) of
                  None \<Rightarrow> Inl (Err ''parsing time'')
                | Some base \<Rightarrow>
                    let row = \<lparr>e_run = runID, e_seq = seq, e_id = event_id runID seq,
                               e_world_at = format_rfc3339 L (base + int seq),
                               e_type = typ, e_payload = payload\<rparr>
                    in bindR (ins (\<lambda>e. (e_run e, e_seq e)) row (ledger d)) (\<lambda>log.
                         if e_id row \<in> set (map e_id (ledger d)) then Inl ErrConstraint
                         else Inr ((), map_events (\<lambda>_. log) d)))))"

definition Append :: "'x golib_scheme \<Rightarrow> string \<Rightarrow> string \<Rightarrow> json \<Rightarrow> unit tx" where
  "Append L runID typ payload = AppendEventTx L runID typ payload"

definition Events :: "string \<Rightarrow> db \<Rightarrow> event_row list" where
  "Events runID d = sort_key e_seq (filter (\<lambda>e. e_run e = runID) (ledger d))"

definition LastEvent :: "string \<Rightarrow> db \<Rightarrow> event_row res" where
  "LastEvent runID d =
     (case rev (sort_key e_seq (filter (\<lambda>e. e_run e = runID) (ledger d))) of
        [] \<Rightarrow> Inl ErrNoRows
      | e # _ \<Rightarrow> Inr e)"

definition Run :: "string \<Rightarrow> db \<Rightarrow> run_row res" where
  "Run runID d = (case sel r_id runID (run_rows d) of None \<Rightarrow> Inl ErrNoRows | Some r \<Rightarrow> Inr r)"

definition StartModelCall :: "'x golib_scheme \<Rightarrow> string \<Rightarrow> json \<Rightarrow> unit tx" where
  "StartModelCall L runID request = Append L runID ''model.request'' request"

section \<open>Saving turns and status\<close>

definition update_run :: "string \<Rightarrow> (run_row \<Rightarrow> run_row) \<Rightarrow> db \<Rightarrow> db" where
  "update_run runID f = map_runs (upd (\<lambda>r. r_id r = runID) f)"

fun appendInterruptionsTx :: "'x golib_scheme \<Rightarrow> string \<Rightarrow> json list \<Rightarrow> unit tx" where
  "appendInterruptionsTx L runID [] d = Inr ((), d)"
| "appendInterruptionsTx L runID (i # is) d =
     bindR (AppendEventTx L runID ''provider.interrupted'' i d)
       (\<lambda>(_, d1). appendInterruptionsTx L runID is d1)"

definition SaveTurn :: "'x golib_scheme \<Rightarrow> string \<Rightarrow> nat \<Rightarrow> message list \<Rightarrow> json \<Rightarrow> json list \<Rightarrow> unit tx" where
  "SaveTurn L runID step transcript response interruptions d =
     bindR (appendInterruptionsTx L runID interruptions d) (\<lambda>(_, d1).
     bindR (AppendEventTx L runID ''model.response'' response d1) (\<lambda>(_, d2).
     Inr ((), update_run runID
       (\<lambda>r. r\<lparr>r_step := step, r_transcript := transcript, r_status := ''running''\<rparr>) d2)))"

definition provider_error :: "string \<Rightarrow> json" where
  "provider_error msg = jmap [(''kind'', JStr ''provider''), (''message'', JStr msg)]"

definition FailModelTurn :: "'x golib_scheme \<Rightarrow> string \<Rightarrow> json \<Rightarrow> string \<Rightarrow> unit tx" where
  "FailModelTurn L runID response msg d =
     bindR (AppendEventTx L runID ''model.response'' response d) (\<lambda>(_, d1).
     bindR (AppendEventTx L runID ''error'' (provider_error msg) d1) (\<lambda>(_, d2).
     Inr ((), update_run runID (\<lambda>r. r\<lparr>r_status := ''failed''\<rparr>) d2)))"

definition SaveStatus :: "'x golib_scheme \<Rightarrow> string \<Rightarrow> string \<Rightarrow> string \<Rightarrow> json \<Rightarrow> unit tx" where
  "SaveStatus L runID status typ payload d =
     AppendEventTx L runID typ payload (update_run runID (\<lambda>r. r\<lparr>r_status := status\<rparr>) d)"

text \<open>The same writes under an ownership check; without a fence there is none.\<close>

definition AppendGuarded ::
    "'x golib_scheme \<Rightarrow> fence option \<Rightarrow> instant \<Rightarrow> string \<Rightarrow> string \<Rightarrow> json \<Rightarrow> unit tx" where
  "AppendGuarded L f now runID typ payload = guarded f now (AppendEventTx L runID typ payload)"

definition SaveTurnGuarded ::
    "'x golib_scheme \<Rightarrow> fence option \<Rightarrow> instant \<Rightarrow> string \<Rightarrow> nat \<Rightarrow> message list \<Rightarrow> json \<Rightarrow> json list \<Rightarrow> unit tx" where
  "SaveTurnGuarded L f now runID step transcript response interruptions =
     guarded f now (\<lambda>d.
       bindR (appendInterruptionsTx L runID interruptions d) (\<lambda>(_, d1).
       bindR (AppendEventTx L runID ''model.response'' response d1) (\<lambda>(_, d2).
       Inr ((), update_run runID
         (\<lambda>r. r\<lparr>r_step := step, r_transcript := transcript, r_status := ''running''\<rparr>) d2))))"

definition FailModelTurnGuarded ::
    "'x golib_scheme \<Rightarrow> fence option \<Rightarrow> instant \<Rightarrow> string \<Rightarrow> json \<Rightarrow> json list \<Rightarrow> string \<Rightarrow> unit tx" where
  "FailModelTurnGuarded L f now runID response interruptions msg =
     guarded f now (\<lambda>d.
       bindR (appendInterruptionsTx L runID interruptions d) (\<lambda>(_, d1).
       bindR (AppendEventTx L runID ''model.response'' response d1) (\<lambda>(_, d2).
       bindR (AppendEventTx L runID ''error'' (provider_error msg) d2) (\<lambda>(_, d3).
       Inr ((), update_run runID (\<lambda>r. r\<lparr>r_status := ''failed''\<rparr>) d3)))))"

definition SaveStatusGuarded ::
    "'x golib_scheme \<Rightarrow> fence option \<Rightarrow> instant \<Rightarrow> string \<Rightarrow> string \<Rightarrow> string \<Rightarrow> json \<Rightarrow> unit tx" where
  "SaveStatusGuarded L f now runID status typ payload =
     guarded f now (\<lambda>d.
       AppendEventTx L runID typ payload (update_run runID (\<lambda>r. r\<lparr>r_status := status\<rparr>) d))"

section \<open>Creating a run\<close>

definition UnrestrictedPrincipal :: string where "UnrestrictedPrincipal = ''local-unrestricted''"
definition LegacyPrincipal :: string where "LegacyPrincipal = ''legacy-local''"

record run_options =
  o_fault :: string
  o_chaos :: string
  o_chaos_digest :: string
  o_auth :: string
  o_auth_digest :: string

definition checkDigest :: "'x golib_scheme \<Rightarrow> string \<Rightarrow> string \<Rightarrow> string \<Rightarrow> unit res" where
  "checkDigest L kind encoded digest =
     (if parse_json L encoded = None then Inl (Err (''invalid '' @ kind @ '' policy JSON''))
      else if hex_digest L encoded \<noteq> digest then Inl (Err (kind @ '' policy digest mismatch''))
      else Inr ())"

text \<open>Decoding into a struct: an absent or null field is the zero value.\<close>

definition struct_field :: "string \<Rightarrow> json \<Rightarrow> json res" where
  "struct_field k j =
     (case j of JNull \<Rightarrow> Inr JNull
      | JObj fs \<Rightarrow> Inr (case json_field k j of None \<Rightarrow> JNull | Some v \<Rightarrow> v)
      | _ \<Rightarrow> Inl (Err ''json: cannot unmarshal into struct''))"

definition string_field :: "string \<Rightarrow> json \<Rightarrow> string res" where
  "string_field k j =
     bindR (struct_field k j) (\<lambda>v. case v of JNull \<Rightarrow> Inr [] | JStr s \<Rightarrow> Inr s
       | _ \<Rightarrow> Inl (Err ''json: cannot unmarshal into string''))"

definition int_field :: "string \<Rightarrow> json \<Rightarrow> int res" where
  "int_field k j =
     bindR (struct_field k j) (\<lambda>v. case v of JNull \<Rightarrow> Inr 0
       | JNum s \<Rightarrow> if snd (parse_int64 s) then Inr (fst (parse_int64 s))
                  else Inl (Err ''json: cannot unmarshal number'')
       | _ \<Rightarrow> Inl (Err ''json: cannot unmarshal into int''))"

definition policy_principal :: "json \<Rightarrow> string res" where
  "policy_principal j =
     bindR (struct_field ''principal'' j) (\<lambda>p.
     bindR (struct_field ''id'' p) (\<lambda>v.
     case v of JNull \<Rightarrow> Inr [] | JStr s \<Rightarrow> Inr s
     | _ \<Rightarrow> Inl (Err ''json: cannot unmarshal into string'')))"

definition authPrincipal :: "'x golib_scheme \<Rightarrow> string \<Rightarrow> string \<Rightarrow> string res" where
  "authPrincipal L encoded digest =
     bindR (checkDigest L ''authorization'' encoded digest) (\<lambda>_.
     bindR (case parse_json L encoded of None \<Rightarrow> Inl (Err ''json'') | Some j \<Rightarrow> policy_principal j) (\<lambda>p.
     if p = [] \<or> p = UnrestrictedPrincipal \<or> p = LegacyPrincipal
     then Inl (Err ''authorization policy requires a principal ID'') else Inr p))"

definition started_payload :: "string \<Rightarrow> string \<Rightarrow> string \<Rightarrow> string \<Rightarrow> json" where
  "started_payload scenario provider model worldID =
     jmap [(''model'', JStr model), (''provider'', JStr provider), (''scenario'', JStr scenario),
           (''world_id'', JStr worldID)]"

text \<open>\<open>random\<close> is the twelve bytes the operating system's generator returned.\<close>

definition CreateRunConfigured ::
    "'x golib_scheme \<Rightarrow> nat list \<Rightarrow> string \<Rightarrow> string \<Rightarrow> string \<Rightarrow> string \<Rightarrow> string \<Rightarrow> run_options \<Rightarrow> run_row tx" where
  "CreateRunConfigured L random worldID scenario provider model task opts d =
     bindR (if o_chaos opts \<noteq> [] then
              (if o_fault opts \<noteq> [] then Inl (Err ''legacy fault and chaos policy cannot be combined'')
               else checkDigest L ''chaos'' (o_chaos opts) (o_chaos_digest opts))
            else Inr ()) (\<lambda>_.
     bindR (if o_auth opts \<noteq> [] then authPrincipal L (o_auth opts) (o_auth_digest opts)
            else Inr UnrestrictedPrincipal) (\<lambda>principal.
     let r = \<lparr>r_id = ''R-'' @ hex_encode random, r_world = worldID, r_scenario = scenario,
              r_provider = provider, r_model = model, r_task = task, r_status = ''running'',
              r_step = 0, r_transcript = [], r_fault_operation = o_fault opts,
              r_fault_consumed = 0, r_principal = principal\<rparr>
     in bindR (ins r_id r (run_rows d)) (\<lambda>rs.
        let d1 = map_runs (\<lambda>_. rs) d in
        bindR (if o_chaos opts \<noteq> [] then
                 bindR (ins rp_run \<lparr>rp_run = r_id r, rp_json = o_chaos opts, rp_digest = o_chaos_digest opts\<rparr>
                          (run_chaos (db_policy d1)))
                   (\<lambda>t. Inr (map_policy (\<lambda>p. p\<lparr>run_chaos := t\<rparr>) d1))
               else Inr d1) (\<lambda>d2.
        bindR (if o_auth opts \<noteq> [] then
                 bindR (ins rp_run \<lparr>rp_run = r_id r, rp_json = o_auth opts, rp_digest = o_auth_digest opts\<rparr>
                          (run_auth (db_policy d2)))
                   (\<lambda>t. Inr (map_policy (\<lambda>p. p\<lparr>run_auth := t\<rparr>) d2))
               else Inr d2) (\<lambda>d3.
        bindR (AppendEventTx L (r_id r) ''execution.started''
                 (started_payload scenario provider model worldID) d3)
          (\<lambda>(_, d4). Inr (r, d4)))))))"

definition CreateRun ::
    "'x golib_scheme \<Rightarrow> nat list \<Rightarrow> string \<Rightarrow> string \<Rightarrow> string \<Rightarrow> string \<Rightarrow> string \<Rightarrow> string \<Rightarrow> run_row tx" where
  "CreateRun L random worldID scenario provider model task faultOperation =
     CreateRunConfigured L random worldID scenario provider model task
       \<lparr>o_fault = faultOperation, o_chaos = [], o_chaos_digest = [], o_auth = [], o_auth_digest = []\<rparr>"

definition ChaosPolicy :: "string \<Rightarrow> db \<Rightarrow> (string \<times> string) res" where
  "ChaosPolicy runID d =
     (case sel rp_run runID (run_chaos (db_policy d)) of
        None \<Rightarrow> Inl ErrNoRows | Some p \<Rightarrow> Inr (rp_json p, rp_digest p))"

definition AuthPolicy :: "string \<Rightarrow> db \<Rightarrow> (string \<times> string) res" where
  "AuthPolicy runID d =
     (case sel rp_run runID (run_auth (db_policy d)) of
        None \<Rightarrow> Inl ErrNoRows | Some p \<Rightarrow> Inr (rp_json p, rp_digest p))"

definition AttachChaos :: "'x golib_scheme \<Rightarrow> string \<Rightarrow> string \<Rightarrow> string \<Rightarrow> unit tx" where
  "AttachChaos L runID policyJSON digest d =
     bindR (checkDigest L ''chaos'' policyJSON digest) (\<lambda>_.
     bindR (ins rp_run \<lparr>rp_run = runID, rp_json = policyJSON, rp_digest = digest\<rparr>
              (run_chaos (db_policy d)))
       (\<lambda>t. Inr ((), map_policy (\<lambda>p. p\<lparr>run_chaos := t\<rparr>) d)))"

definition AttachAuth :: "'x golib_scheme \<Rightarrow> string \<Rightarrow> string \<Rightarrow> string \<Rightarrow> unit tx" where
  "AttachAuth L runID policyJSON digest d =
     bindR (checkDigest L ''authorization'' policyJSON digest) (\<lambda>_.
     bindR (ins rp_run \<lparr>rp_run = runID, rp_json = policyJSON, rp_digest = digest\<rparr>
              (run_auth (db_policy d)))
       (\<lambda>t. Inr ((), map_policy (\<lambda>p. p\<lparr>run_auth := t\<rparr>) d)))"

definition CreateReplayRun :: "'x golib_scheme \<Rightarrow> run_row \<Rightarrow> string \<Rightarrow> run_row tx" where
  "CreateReplayRun L original worldID d =
     (let r = original\<lparr>r_world := worldID, r_status := ''running'', r_step := 0, r_transcript := [],
                        r_fault_consumed := 0,
                        r_principal := (if r_principal original = [] then LegacyPrincipal
                                        else r_principal original)\<rparr>
      in bindR (ins r_id r (run_rows d)) (\<lambda>rs.
         bindR (AppendEventTx L (r_id r) ''execution.started''
                  (started_payload (r_scenario r) (r_provider r) (r_model r) worldID)
                  (map_runs (\<lambda>_. rs) d))
           (\<lambda>(_, d1). Inr (r, d1))))"

section \<open>The ledger invariant\<close>

lemma digit_not_slash: "digit_char c \<Longrightarrow> c \<noteq> CHR ''/''"
  by (auto simp: digit_char_def)

text \<open>An event's ID determines its run and its number: the number has no slash.\<close>

lemma event_id_inj:
  assumes "event_id r n = event_id r' n'"
  shows "r = r' \<and> n = n'"
proof -
  have split: "takeWhile (\<lambda>c. c \<noteq> CHR ''/'') (rev (event_id x k)) = rev (show_nat k)"
    "dropWhile (\<lambda>c. c \<noteq> CHR ''/'') (rev (event_id x k)) = CHR ''/'' # rev x" for x k
    using show_nat_digits [of _ k] digit_not_slash
    by (fastforce simp: event_id_def takeWhile_append dropWhile_append)+
  from assms split [of r n] split [of r' n'] show ?thesis
    by (auto dest: show_nat_inj)
qed

definition ledger_inv :: "db \<Rightarrow> bool" where
  "ledger_inv d \<longleftrightarrow>
     (\<forall>runID. contiguous e_run e_seq runID (ledger d))
   \<and> (\<forall>e \<in> set (ledger d). e_id e = event_id (e_run e) (e_seq e))"

definition ledger_grows :: "db \<Rightarrow> db \<Rightarrow> bool" where
  "ledger_grows d d' \<longleftrightarrow>
     (\<exists>rows. ledger d' = ledger d @ rows) \<and> (ledger_inv d \<longrightarrow> ledger_inv d')"

lemma ledger_grows_same: "ledger d' = ledger d \<Longrightarrow> ledger_grows d d'"
  by (simp add: ledger_grows_def ledger_inv_def)

lemma ledger_grows_refl [simp]: "ledger_grows d d"
  by (simp add: ledger_grows_same)

lemma ledger_grows_trans [trans]: "ledger_grows d d' \<Longrightarrow> ledger_grows d' d'' \<Longrightarrow> ledger_grows d d''"
  by (auto simp: ledger_grows_def)

lemma AppendEventTx_ok:
  assumes "AppendEventTx L runID typ payload d = Inr (u, d')"
  obtains row where "d' = map_events (\<lambda>log. log @ [row]) d" "e_run row = runID"
    "e_seq row = next_seq e_run e_seq runID (ledger d)"
    "e_id row = event_id runID (next_seq e_run e_seq runID (ledger d))"
    "e_type row = typ" "e_payload row = payload"
    "sel r_id runID (run_rows d) \<noteq> None"
  using assms
  by (auto simp: AppendEventTx_def Let_def ins_def map_events_def
      split: option.splits if_splits intro: that)

lemma AppendEventTx_grows:
  assumes "AppendEventTx L runID typ payload d = Inr (u, d')"
  shows "ledger_grows d d'"
proof -
  obtain row where row: "d' = map_events (\<lambda>log. log @ [row]) d" "e_run row = runID"
      "e_seq row = next_seq e_run e_seq runID (ledger d)"
      "e_id row = event_id runID (next_seq e_run e_seq runID (ledger d))"
    using assms by (rule AppendEventTx_ok)
  show ?thesis
    using row by (auto simp: ledger_grows_def ledger_inv_def intro!: contiguous_snoc)
qed

lemma AppendEventTx_frame:
  assumes "AppendEventTx L runID typ payload d = Inr (u, d')"
  shows "run_rows d' = run_rows d" "results d' = results d" "db_world d' = db_world d"
    "db_policy d' = db_policy d" "db_coord d' = db_coord d"
  by (rule AppendEventTx_ok [OF assms], simp)+

text \<open>An append on a run whose world has a readable start time always succeeds.\<close>

definition appendable :: "'x golib_scheme \<Rightarrow> string \<Rightarrow> db \<Rightarrow> bool" where
  "appendable L runID d \<longleftrightarrow>
     (\<exists>r w t. sel r_id runID (run_rows d) = Some r \<and> sel w_id (r_world r) (worlds (db_world d)) = Some w
        \<and> parse_rfc3339 L (w_base_at w) = Some t)"

lemma AppendEventTx_succeeds:
  assumes "ledger_inv d" and "appendable L runID d"
  shows "\<exists>d'. AppendEventTx L runID typ payload d = Inr ((), d')"
proof -
  have "event_id runID (next_seq e_run e_seq runID (ledger d)) \<notin> set (map e_id (ledger d))"
    using assms(1) next_seq_fresh [of runID e_run e_seq "ledger d"]
    by (force simp: ledger_inv_def dest: event_id_inj)
  then show ?thesis
    using assms(2) next_seq_fresh [of runID e_run e_seq "ledger d"]
    by (auto simp: AppendEventTx_def appendable_def ins_def Let_def)
qed

lemma Events_ledger:
  assumes "contiguous e_run e_seq runID (ledger d)"
  shows "Events runID d = filter (\<lambda>e. e_run e = runID) (ledger d)"
proof -
  have "sorted (map e_seq (filter (\<lambda>e. e_run e = runID) (ledger d)))"
    using assms by (simp add: contiguous_def del: upt_Suc)
  then show ?thesis by (simp add: Events_def sorted_sort_id sort_key_id_if_sorted)
qed

lemma Events_seq:
  assumes "ledger_inv d"
  shows "map e_seq (Events runID d) = [1 ..< Suc (length (Events runID d))]"
  using assms by (simp add: ledger_inv_def Events_ledger contiguous_def del: upt_Suc)

lemma Events_append:
  assumes "ledger_inv d" and "AppendEventTx L runID typ payload d = Inr (u, d')"
  shows "\<exists>row. Events runID d' = Events runID d @ [row] \<and> e_type row = typ \<and> e_payload row = payload
     \<and> (\<forall>x. x \<noteq> runID \<longrightarrow> Events x d' = Events x d)"
proof -
  have inv: "ledger_inv d'" using assms(1) AppendEventTx_grows [OF assms(2)] by (simp add: ledger_grows_def)
  obtain row where row: "d' = map_events (\<lambda>log. log @ [row]) d" "e_run row = runID"
      "e_type row = typ" "e_payload row = payload"
    using assms(2) by (rule AppendEventTx_ok)
  show ?thesis
    using assms(1) inv row by (auto simp: Events_ledger ledger_inv_def)
qed

lemma update_run_simps [simp, frame]:
  "ledger (update_run runID f d) = ledger d" "results (update_run runID f d) = results d"
  "run_rows (update_run runID f d) = upd (\<lambda>r. r_id r = runID) f (run_rows d)"
  "db_world (update_run runID f d) = db_world d" "db_policy (update_run runID f d) = db_policy d"
  "db_coord (update_run runID f d) = db_coord d"
  by (simp_all add: update_run_def)

lemma Events_update_run [simp]: "Events x (update_run runID f d) = Events x d"
  by (simp add: Events_def)

lemma appendInterruptionsTx_frame:
  "appendInterruptionsTx L runID ps d = Inr (u, d') \<Longrightarrow>
   run_rows d' = run_rows d \<and> results d' = results d \<and> db_world d' = db_world d
   \<and> db_policy d' = db_policy d \<and> db_coord d' = db_coord d \<and> ledger_grows d d'"
proof (induction ps arbitrary: d)
  case Nil
  then show ?case by simp
next
  case (Cons p ps)
  then obtain d1 where d1: "AppendEventTx L runID ''provider.interrupted'' p d = Inr ((), d1)"
      "appendInterruptionsTx L runID ps d1 = Inr (u, d')" by auto
  from Cons.IH [OF d1(2)] AppendEventTx_frame [OF d1(1)] AppendEventTx_grows [OF d1(1)]
  show ?case using ledger_grows_trans by simp
qed

lemma appendInterruptionsTx_events:
  assumes "ledger_inv d" and "appendInterruptionsTx L runID ps d = Inr (u, d')"
  shows "\<exists>rows. Events runID d' = Events runID d @ rows
     \<and> map (\<lambda>e. (e_type e, e_payload e)) rows = map (Pair ''provider.interrupted'') ps"
  using assms
proof (induction ps arbitrary: d)
  case Nil
  then show ?case by simp
next
  case (Cons p ps)
  then obtain d1 where d1: "AppendEventTx L runID ''provider.interrupted'' p d = Inr ((), d1)"
      "appendInterruptionsTx L runID ps d1 = Inr (u, d')" by auto
  have inv: "ledger_inv d1" using Cons.prems(1) AppendEventTx_grows [OF d1(1)] by (simp add: ledger_grows_def)
  obtain rows where rows: "Events runID d' = Events runID d1 @ rows"
      "map (\<lambda>e. (e_type e, e_payload e)) rows = map (Pair ''provider.interrupted'') ps"
    using Cons.IH [OF inv d1(2)] by blast
  obtain row where "Events runID d1 = Events runID d @ [row]" "e_type row = ''provider.interrupted''"
      "e_payload row = p"
    using Events_append [OF Cons.prems(1) d1(1)] by blast
  then show ?case using rows by (intro exI [of _ "row # rows"]) simp
qed


section \<open>Guarded writes\<close>

lemma guarded_ok:
  assumes "guarded f now body d = Inr (x, d')"
  obtains "f = None" "body d = Inr (x, d')"
  | g d1 where "f = Some g" "GuardFenceTx g now d = Inr ((), d1)" "body d1 = Inr (x, d')"
  using assms that by (cases f) (auto simp: guarded_def withGuardedTx_def)

lemma GuardFenceTx_frame:
  assumes "GuardFenceTx f now d = Inr (u, d')"
  shows "db_runs d' = db_runs d" "db_world d' = db_world d" "db_policy d' = db_policy d"
    "olog d' = olog d" "work_queue (db_coord d') = work_queue (db_coord d)"
    "workers (db_coord d') = workers (db_coord d)"
  using assms by (auto simp: GuardFenceTx_def split: if_splits option.splits)

lemma ledger_inv_runs: "db_runs d' = db_runs d \<Longrightarrow> ledger_inv d' = ledger_inv d"
  by (simp add: ledger_inv_def)

lemma Events_runs: "db_runs d' = db_runs d \<Longrightarrow> Events x d' = Events x d"
  by (simp add: Events_def)

lemma guarded_events:
  assumes "guarded f now body d = Inr (x, d')"
    and "\<And>d1. db_runs d1 = db_runs d \<Longrightarrow> body d1 = Inr (x, d') \<Longrightarrow> P"
  shows P
  using assms(1) by (rule guarded_ok) (auto dest: GuardFenceTx_frame(1) intro: assms(2))

text \<open>A saved turn is one record: the interruptions, then the response, then the run row.\<close>

lemma SaveTurn_events:
  assumes "ledger_inv d" and "SaveTurn L runID step transcript response ps d = Inr (u, d')"
  shows "\<exists>rows. Events runID d' = Events runID d @ rows
     \<and> map (\<lambda>e. (e_type e, e_payload e)) rows =
        map (Pair ''provider.interrupted'') ps @ [(''model.response'', response)]"
proof -
  from assms(2) obtain d1 d2 where d1: "appendInterruptionsTx L runID ps d = Inr ((), d1)"
      and d2: "AppendEventTx L runID ''model.response'' response d1 = Inr ((), d2)"
      and d': "Events runID d' = Events runID d2"
    by (auto simp: SaveTurn_def)
  have "ledger_inv d1"
    using assms(1) appendInterruptionsTx_frame [OF d1] by (simp add: ledger_grows_def)
  then obtain row where "Events runID d2 = Events runID d1 @ [row]" "e_type row = ''model.response''"
      "e_payload row = response"
    using Events_append [OF _ d2] by blast
  moreover obtain rows where "Events runID d1 = Events runID d @ rows"
      "map (\<lambda>e. (e_type e, e_payload e)) rows = map (Pair ''provider.interrupted'') ps"
    using appendInterruptionsTx_events [OF assms(1) d1] by blast
  ultimately show ?thesis using d' by (intro exI [of _ "rows @ [row]"]) simp
qed

lemma SaveTurnGuarded_SaveTurn:
  "SaveTurnGuarded L f now runID step transcript response ps =
   guarded f now (SaveTurn L runID step transcript response ps)"
  by (simp add: SaveTurnGuarded_def SaveTurn_def [abs_def])

lemma SaveStatusGuarded_SaveStatus:
  "SaveStatusGuarded L f now runID status typ payload = guarded f now (SaveStatus L runID status typ payload)"
  by (simp add: SaveStatusGuarded_def SaveStatus_def [abs_def])

lemma SaveTurn_grows:
  assumes "SaveTurn L runID step transcript response ps d = Inr (u, d')"
  shows "ledger_grows d d'" and "db_coord d' = db_coord d" and "db_world d' = db_world d"
    and "db_policy d' = db_policy d" and "results d' = results d"
proof -
  from assms obtain d1 d2 where d1: "appendInterruptionsTx L runID ps d = Inr ((), d1)"
      and d2: "AppendEventTx L runID ''model.response'' response d1 = Inr ((), d2)"
      and d': "d' = update_run runID
         (\<lambda>r. r\<lparr>r_step := step, r_transcript := transcript, r_status := ''running''\<rparr>) d2"
    by (auto simp: SaveTurn_def)
  note f = appendInterruptionsTx_frame [OF d1] AppendEventTx_frame [OF d2] AppendEventTx_grows [OF d2]
  from f have "ledger_grows d d2" using ledger_grows_trans by blast
  also have "ledger_grows d2 d'" by (simp add: d' ledger_grows_same)
  finally show "ledger_grows d d'" .
  show "db_coord d' = db_coord d" "db_world d' = db_world d" "db_policy d' = db_policy d"
      "results d' = results d"
    using f d' by simp_all
qed

lemma SaveStatus_grows:
  assumes "SaveStatus L runID status typ payload d = Inr (u, d')"
  shows "ledger_grows d d'" and "db_coord d' = db_coord d" and "db_world d' = db_world d"
    and "db_policy d' = db_policy d" and "results d' = results d"
proof -
  note a = assms [unfolded SaveStatus_def]
  have "ledger_grows d (update_run runID (\<lambda>r. r\<lparr>r_status := status\<rparr>) d)"
    by (simp add: ledger_grows_same)
  also note AppendEventTx_grows [OF a]
  finally show "ledger_grows d d'" .
  show "db_coord d' = db_coord d" "db_world d' = db_world d" "db_policy d' = db_policy d"
      "results d' = results d"
    using AppendEventTx_frame [OF a] by simp_all
qed


text \<open>
  A model turn is recorded whole or not at all. A guarded save that commits appends
  exactly the interruptions of the turn followed by its response, numbered without a gap
  after what the run's ledger held; one that fails, because the worker lost the run or for
  any other reason, leaves the database as it was.
\<close>

theorem saved_turn_is_atomic:
  assumes "ledger_inv d"
  shows "case commit (SaveTurnGuarded L f now runID step transcript response ps) d of
      (Inl e, d') \<Rightarrow> d' = d
    | (Inr _, d') \<Rightarrow>
        map (\<lambda>e. (e_type e, e_payload e)) (Events runID d') =
          map (\<lambda>e. (e_type e, e_payload e)) (Events runID d)
            @ map (Pair ''provider.interrupted'') ps @ [(''model.response'', response)]
      \<and> take (length (Events runID d)) (Events runID d') = Events runID d
      \<and> map e_seq (Events runID d') = [1 ..< Suc (length (Events runID d'))]"
proof (cases "SaveTurnGuarded L f now runID step transcript response ps d")
  case (Inl e)
  then show ?thesis by (simp add: commit_def)
next
  case (Inr x)
  then obtain d' where d': "SaveTurnGuarded L f now runID step transcript response ps d = Inr ((), d')"
    by (cases x) simp
  obtain d1 where d1: "db_runs d1 = db_runs d" "SaveTurn L runID step transcript response ps d1 = Inr ((), d')"
    using d' unfolding SaveTurnGuarded_SaveTurn by (rule guarded_events)
  have inv: "ledger_inv d1" "ledger_inv d'"
    using assms d1 ledger_inv_runs [OF d1(1)] SaveTurn_grows(1) [OF d1(2)] by (auto simp: ledger_grows_def)
  obtain rows where "Events runID d' = Events runID d @ rows"
      "map (\<lambda>e. (e_type e, e_payload e)) rows =
        map (Pair ''provider.interrupted'') ps @ [(''model.response'', response)]"
    using SaveTurn_events [OF inv(1) d1(2)] Events_runs [OF d1(1)] by auto
  then show ?thesis
    using d' Events_seq [OF inv(2), of runID] by (simp add: commit_def del: upt_Suc)
qed

theorem saved_turn_is_atomic_witness:
  "\<exists>d'. commit (SaveTurnGuarded sample_lib None 0 ''R'' 1 [] JNull [JNull]) sample_db = (Inr (), d')
     \<and> map e_type (Events ''R'' d') = [''provider.interrupted'', ''model.response'']"
proof -
  have "ledger_inv sample_db" by (simp add: ledger_inv_def contiguous_def sample_defs)
  note saved_turn_is_atomic [OF this, where L = sample_lib and f = None and now = 0 and runID = "''R''"
      and step = 1 and transcript = "[]" and response = JNull and ps = "[JNull]"]
  moreover obtain d' where "commit (SaveTurnGuarded sample_lib None 0 ''R'' 1 [] JNull [JNull]) sample_db = (Inr (), d')"
    by (simp add: commit_def SaveTurnGuarded_def guarded_def AppendEventTx_def sample_defs Let_def ins_def
        event_id_def next_seq_def show_nat.simps)
  moreover have "Events ''R'' sample_db = []" by (simp add: Events_def sample_defs)
  ultimately have "map (\<lambda>e. (e_type e, e_payload e)) (Events ''R'' d') =
      [(''provider.interrupted'', JNull), (''model.response'', JNull)]" by simp
  then have "map fst (map (\<lambda>e. (e_type e, e_payload e)) (Events ''R'' d')) =
      [''provider.interrupted'', ''model.response'']" by simp
  then show ?thesis
    using \<open>commit _ _ = (Inr (), d')\<close> by (intro exI [of _ d']) (simp add: comp_def)
qed

end
