(* ===== verification/Queue.thy ===== *)
theory Queue
  imports Ledger
begin

text \<open>
  The work queue and the fleet table (\<open>internal/store/queue.go\<close>): making a run claimable,
  claiming the oldest claimable run under a fenced lease, and every way a claim ends. Each
  operation is one transaction body; a claim's row locks are left out because a transaction
  is atomic here.
\<close>

section \<open>Statements on the queue tables\<close>

definition map_queue :: "(queue_row list \<Rightarrow> queue_row list) \<Rightarrow> db \<Rightarrow> db" where
  "map_queue f d = d\<lparr>db_coord := (db_coord d)\<lparr>work_queue := f (work_queue (db_coord d))\<rparr>\<rparr>"

definition map_workers :: "(worker_row list \<Rightarrow> worker_row list) \<Rightarrow> db \<Rightarrow> db" where
  "map_workers f d = d\<lparr>db_coord := (db_coord d)\<lparr>workers := f (workers (db_coord d))\<rparr>\<rparr>"

abbreviation queue :: "db \<Rightarrow> queue_row list" where "queue d \<equiv> work_queue (db_coord d)"
abbreviation fleet :: "db \<Rightarrow> worker_row list" where "fleet d \<equiv> workers (db_coord d)"

lemma map_queue_simps [simp, frame]:
  "queue (map_queue f d) = f (queue d)" "leases (map_queue f d) = leases d"
  "olog (map_queue f d) = olog d" "fleet (map_queue f d) = fleet d"
  "db_runs (map_queue f d) = db_runs d" "db_world (map_queue f d) = db_world d"
  "db_policy (map_queue f d) = db_policy d"
  by (simp_all add: map_queue_def)

lemma map_workers_simps [simp, frame]:
  "queue (map_workers f d) = queue d" "leases (map_workers f d) = leases d"
  "olog (map_workers f d) = olog d" "fleet (map_workers f d) = f (fleet d)"
  "db_runs (map_workers f d) = db_runs d" "db_world (map_workers f d) = db_world d"
  "db_policy (map_workers f d) = db_policy d"
  by (simp_all add: map_workers_def)

section \<open>Enqueue\<close>

record queue_entry =
  qe_run :: string
  qe_state :: queue_state
  qe_max_steps :: int
  qe_attempts :: int
  qe_enqueued :: instant
  qe_available :: instant
  qe_last_error :: string
  qe_takeover :: bool

definition Enqueue :: "string \<Rightarrow> int \<Rightarrow> instant \<Rightarrow> unit tx" where
  "Enqueue runID maxSteps now d =
     (if maxSteps < 1 then Inl (Err ''maxSteps must be positive'')
      else if filter (\<lambda>r. r_id r = runID) (run_rows d) = [] then Inl (Err ''run does not exist'')
      else Inr ((), map_queue (upsert q_run
             \<lparr>q_run = runID, q_state = QueueRunnable, q_max_steps = maxSteps, q_attempts = 0,
              q_enqueued = now, q_available = now, q_last_error = []\<rparr>
             (\<lambda>x. x\<lparr>q_state := QueueRunnable, q_max_steps := maxSteps, q_attempts := 0,
                    q_available := now, q_last_error := []\<rparr>)) d))"

section \<open>Claiming\<close>

text \<open>
  The condition of \<open>claimableWhere\<close> on a queue row and its lease row, which the
  \<open>LEFT JOIN\<close> leaves out when there is none.
\<close>

definition claimable :: "string \<Rightarrow> instant \<Rightarrow> queue_row \<Rightarrow> lease_row option \<Rightarrow> bool" where
  "claimable owner now q l \<longleftrightarrow>
     q_available q \<le> now
   \<and> (q_state q = QueueRunnable
      \<or> q_state q = QueueLeased \<and> (case l of None \<Rightarrow> True | Some r \<Rightarrow> l_expires r \<le> now))
   \<and> (case l of None \<Rightarrow> True
      | Some r \<Rightarrow> l_owner r = [] \<or> l_owner r = owner \<or> l_expires r \<le> now)"

definition claimable_since :: "queue_row \<Rightarrow> lease_row option \<Rightarrow> instant" where
  "claimable_since q l =
     (case l of
        Some r \<Rightarrow> if l_owner r \<noteq> [] \<and> q_available q < l_expires r then l_expires r else q_available q
      | None \<Rightarrow> q_available q)"

definition OldestClaimableSince :: "instant \<Rightarrow> db \<Rightarrow> instant option" where
  "OldestClaimableSince now d =
     (case sort (map (\<lambda>q. claimable_since q (lease_of d (q_run q)))
             (filter (\<lambda>q. claimable [] now q (lease_of d (q_run q))) (queue d))) of
        [] \<Rightarrow> None | t # _ \<Rightarrow> Some t)"

text \<open>\<open>ORDER BY q.enqueued_at, q.run_id LIMIT 1\<close>; text compares by bytes.\<close>

definition before :: "queue_row \<Rightarrow> queue_row \<Rightarrow> bool" where
  "before q r \<longleftrightarrow>
     q_enqueued q < q_enqueued r
   \<or> q_enqueued q = q_enqueued r \<and> lexordp_eq (map of_char (q_run q) :: nat list) (map of_char (q_run r))"

fun oldest :: "queue_row list \<Rightarrow> queue_row option" where
  "oldest [] = None"
| "oldest (q # qs) =
     (case oldest qs of None \<Rightarrow> Some q | Some r \<Rightarrow> if before q r then Some q else Some r)"

definition candidate :: "string \<Rightarrow> instant \<Rightarrow> string list \<Rightarrow> db \<Rightarrow> queue_row option" where
  "candidate owner now skip d =
     oldest (filter (\<lambda>q. claimable owner now q (lease_of d (q_run q)) \<and> q_run q \<notin> set skip) (queue d))"

definition entry_of :: "queue_row \<Rightarrow> queue_entry" where
  "entry_of q = \<lparr>qe_run = q_run q, qe_state = q_state q, qe_max_steps = q_max_steps q,
     qe_attempts = q_attempts q, qe_enqueued = q_enqueued q, qe_available = q_available q,
     qe_last_error = [], qe_takeover = False\<rparr>"

text \<open>A failed claim also names the run it looked at, which the caller skips next.\<close>

definition claimOnce ::
    "string \<Rightarrow> int \<Rightarrow> instant \<Rightarrow> string list \<Rightarrow> db \<Rightarrow> (err \<times> string) + (run_lease \<times> queue_entry) \<times> db" where
  "claimOnce owner ttl now skip d =
     (case candidate owner now skip d of
        None \<Rightarrow> Inl (ErrNoWork, [])
      | Some q \<Rightarrow>
          let displaced = (case lease_of d (q_run q) of
                             None \<Rightarrow> False
                           | Some r \<Rightarrow> l_owner r \<noteq> [] \<and> l_expires r \<le> now)
          in (case acquireRunLeaseTx (q_run q) owner ttl now displaced d of
                Inl e \<Rightarrow> Inl (e, q_run q)
              | Inr (lease, d1) \<Rightarrow>
                  let d2 = map_queue (upd (\<lambda>x. q_run x = q_run q)
                             (\<lambda>x. x\<lparr>q_state := QueueLeased, q_attempts := q_attempts x + 1\<rparr>)) d1;
                      d3 = map_workers (upd (\<lambda>w. wr_id w = owner)
                             (\<lambda>w. w\<lparr>wr_claims := wr_claims w + 1, wr_last_seen := now\<rparr>)) d2
                  in Inr ((lease, (entry_of q)\<lparr>qe_state := QueueLeased,
                             qe_attempts := q_attempts q + 1, qe_takeover := displaced\<rparr>), d3)))"

definition maxClaimAttempts :: nat where "maxClaimAttempts = 8"

text \<open>
  The claim loop. A poll sees the database anew on each attempt, so the databases it reads
  are a stream of observations \<open>ds\<close>: other workers may commit between two attempts.
\<close>

fun claim_loop ::
    "nat \<Rightarrow> string \<Rightarrow> int \<Rightarrow> instant \<Rightarrow> (nat \<Rightarrow> db) \<Rightarrow> nat \<Rightarrow> string list \<Rightarrow> (run_lease \<times> queue_entry) res \<times> db" where
  "claim_loop 0 owner ttl now ds i skip = (Inl ErrNoWork, ds i)"
| "claim_loop (Suc n) owner ttl now ds i skip =
     (case claimOnce owner ttl now skip (ds i) of
        Inl (e, runID) \<Rightarrow>
          if e = ErrLeaseHeld then claim_loop n owner ttl now ds (Suc i) (skip @ [runID])
          else (Inl e, ds i)
      | Inr (x, d') \<Rightarrow> (Inr x, d'))"

definition ClaimRun ::
    "string \<Rightarrow> int \<Rightarrow> instant \<Rightarrow> (nat \<Rightarrow> db) \<Rightarrow> (run_lease \<times> queue_entry) res \<times> db" where
  "ClaimRun owner ttl now ds =
     (if owner = [] then (Inl (Err ''worker owner is required''), ds 0)
      else claim_loop maxClaimAttempts owner ttl now ds 0 [])"

section \<open>Ending a claim\<close>

definition state_text :: "queue_state \<Rightarrow> string" where
  "state_text s = (case s of QueueRunnable \<Rightarrow> ''runnable'' | QueueLeased \<Rightarrow> ''leased''
     | QueueFinished \<Rightarrow> ''finished'' | QueueFailed \<Rightarrow> ''failed'')"

definition completeQueueEntryTx ::
    "run_lease \<Rightarrow> instant \<Rightarrow> queue_state \<Rightarrow> ownership_kind \<Rightarrow> string \<Rightarrow> instant \<Rightarrow> unit tx" where
  "completeQueueEntryTx lease now state kind reason availableAt d =
     (let available = (if availableAt = zero_time then now else availableAt);
          d1 = map_queue (upd (\<lambda>q. q_run q = rl_run lease)
                 (\<lambda>q. q\<lparr>q_state := state, q_available := available, q_last_error := reason\<rparr>)) d;
          d2 = map_leases (upd (\<lambda>r. l_run r = rl_run lease \<and> l_owner r = rl_owner lease
                                     \<and> l_fence r = rl_token lease)
                 (\<lambda>r. r\<lparr>l_owner := [], l_expires := now, l_heartbeat := now\<rparr>)) d1;
          detail = jmap ((if reason \<noteq> [] then [(''reason'', JStr reason)] else [])
                         @ [(''state'', JStr (state_text state))])
      in appendOwnershipTx (rl_run lease) kind (rl_owner lease) (rl_token lease) now detail d2)"

definition completeQueueEntry ::
    "run_lease \<Rightarrow> instant \<Rightarrow> queue_state \<Rightarrow> ownership_kind \<Rightarrow> string \<Rightarrow> instant \<Rightarrow> unit tx" where
  "completeQueueEntry lease now state kind reason availableAt d =
     bindR (GuardFenceTx (Fence lease) now d)
       (\<lambda>(_, d1). completeQueueEntryTx lease now state kind reason availableAt d1)"

definition FinishRun :: "run_lease \<Rightarrow> instant \<Rightarrow> unit tx" where
  "FinishRun lease now = completeQueueEntry lease now QueueFinished OwnershipFinished [] zero_time"

definition FailRun :: "run_lease \<Rightarrow> instant \<Rightarrow> string \<Rightarrow> unit tx" where
  "FailRun lease now reason = completeQueueEntry lease now QueueFailed OwnershipFailed reason zero_time"

definition RequeueRun :: "run_lease \<Rightarrow> instant \<Rightarrow> instant \<Rightarrow> string \<Rightarrow> unit tx" where
  "RequeueRun lease now availableAt reason =
     completeQueueEntry lease now QueueRunnable OwnershipReleased reason availableAt"

definition ReleaseClaim :: "run_lease \<Rightarrow> instant \<Rightarrow> string \<Rightarrow> unit tx" where
  "ReleaseClaim lease now reason d =
     bindR (GuardFenceTx (Fence lease) now d) (\<lambda>(_, d1).
     bindR (completeQueueEntryTx lease now QueueRunnable OwnershipReleased reason now d1) (\<lambda>(_, d2).
     Inr ((), map_queue (upd (\<lambda>q. q_run q = rl_run lease)
                (\<lambda>q. q\<lparr>q_attempts := (if q_attempts q > 0 then q_attempts q - 1 else 0)\<rparr>)) d2)))"

definition DeliveryLimitReason :: "int \<Rightarrow> int \<Rightarrow> string" where
  "DeliveryLimitReason deliveries maxAttempts =
     ''delivery limit: '' @ show_int deliveries @ '' deliveries without completion (max attempts ''
       @ show_int maxAttempts @ '')''"

definition FailRunAtDeliveryLimit ::
    "'x golib_scheme \<Rightarrow> run_lease \<Rightarrow> instant \<Rightarrow> int \<Rightarrow> int \<Rightarrow> unit tx" where
  "FailRunAtDeliveryLimit L lease now deliveries maxAttempts d =
     bindR (GuardFenceTx (Fence lease) now d) (\<lambda>(_, d1).
     bindR (AppendEventTx L (rl_run lease) ''error''
              (jmap [(''deliveries'', jint deliveries), (''kind'', JStr ''delivery_limit''),
                     (''max_attempts'', jint maxAttempts)])
              (update_run (rl_run lease) (\<lambda>r. r\<lparr>r_status := ''failed''\<rparr>) d1)) (\<lambda>(_, d2).
     completeQueueEntryTx lease now QueueFailed OwnershipFailed
       (DeliveryLimitReason deliveries maxAttempts) zero_time d2))"

section \<open>Reading the queue\<close>

definition QueueEntryFor :: "string \<Rightarrow> db \<Rightarrow> queue_entry res" where
  "QueueEntryFor runID d =
     (case sel q_run runID (queue d) of
        None \<Rightarrow> Inl ErrNoRows
      | Some q \<Rightarrow> Inr ((entry_of q)\<lparr>qe_last_error := q_last_error q\<rparr>))"

text \<open>The Go map has an entry for each state some row is in, and none for the others.\<close>

definition QueueDepth :: "db \<Rightarrow> queue_state \<Rightarrow> nat option" where
  "QueueDepth d s =
     (let n = length (filter (\<lambda>q. q_state q = s) (queue d)) in if n = 0 then None else Some n)"

section \<open>The fleet table\<close>

definition RegisterWorker :: "string \<Rightarrow> string \<Rightarrow> instant \<Rightarrow> unit tx" where
  "RegisterWorker wid host now d =
     Inr ((), map_workers (upsert wr_id
       \<lparr>wr_id = wid, wr_host = host, wr_started = now, wr_last_seen = now, wr_claims = 0\<rparr>
       (\<lambda>w. w\<lparr>wr_host := host, wr_last_seen := now\<rparr>)) d)"

definition TouchWorker :: "string \<Rightarrow> instant \<Rightarrow> unit tx" where
  "TouchWorker wid now d =
     Inr ((), map_workers (upd (\<lambda>w. wr_id w = wid) (\<lambda>w. w\<lparr>wr_last_seen := now\<rparr>)) d)"

definition RemoveWorker :: "string \<Rightarrow> instant \<Rightarrow> bool tx" where
  "RemoveWorker wid now d =
     (let gone = (\<lambda>w. wr_id w = wid \<and> \<not> (\<exists>r \<in> set (leases d). l_owner r = wid \<and> now < l_expires r))
      in Inr (filter gone (fleet d) \<noteq> [], map_workers (filter (\<lambda>w. \<not> gone w)) d))"

text \<open>\<open>ORDER BY last_seen_at DESC, id\<close>.\<close>

fun insert_worker :: "worker_row \<Rightarrow> worker_row list \<Rightarrow> worker_row list" where
  "insert_worker w [] = [w]"
| "insert_worker w (x # xs) =
     (if wr_last_seen x < wr_last_seen w
         \<or> wr_last_seen x = wr_last_seen w \<and> lexordp_eq (map of_char (wr_id w) :: nat list) (map of_char (wr_id x))
      then w # x # xs else x # insert_worker w xs)"

definition Workers :: "db \<Rightarrow> worker_row list" where
  "Workers d = foldr insert_worker (fleet d) []"

section \<open>The claim\<close>

lemma before_total: "before q r \<or> before r q"
  unfolding before_def using lexordp_eq_linear [of "map of_char (q_run q) :: nat list" "map of_char (q_run r)"]
  by auto

lemma before_trans: "before q r \<Longrightarrow> before r s \<Longrightarrow> before q s"
  unfolding before_def by (auto intro: lexordp_eq_trans)

lemma before_refl [simp]: "before q q"
  using before_total by blast

lemma oldest_None [simp]: "oldest qs = None \<longleftrightarrow> qs = []"
  by (cases qs) (auto split: option.splits)

lemma oldest_Some:
  "oldest qs = Some q \<Longrightarrow> q \<in> set qs \<and> (\<forall>r \<in> set qs. before q r)"
proof (induction qs arbitrary: q)
  case Nil
  then show ?case by simp
next
  case (Cons x xs)
  show ?case
  proof (cases "oldest xs")
    case None
    then show ?thesis using Cons.prems by simp
  next
    case (Some r)
    from Cons.IH [OF Some] Cons.prems Some show ?thesis
      using before_total before_trans by (auto split: if_splits)
  qed
qed

lemma candidate_Some:
  assumes "candidate owner now skip d = Some q"
  shows "q \<in> set (queue d)" "claimable owner now q (lease_of d (q_run q))" "q_run q \<notin> set skip"
    "\<And>r. r \<in> set (queue d) \<Longrightarrow> claimable owner now r (lease_of d (q_run r)) \<Longrightarrow>
       q_run r \<notin> set skip \<Longrightarrow> before q r"
  using oldest_Some [OF assms [unfolded candidate_def]] by auto

lemma candidate_None:
  "candidate owner now skip d = None \<longleftrightarrow>
   (\<forall>q \<in> set (queue d). claimable owner now q (lease_of d (q_run q)) \<longrightarrow> q_run q \<in> set skip)"
  by (auto simp: candidate_def filter_empty_conv)

lemma claimOnce_ok:
  assumes "claimOnce owner ttl now skip d = Inr ((lease, entry), d')"
  obtains q takeover d1 where "candidate owner now skip d = Some q"
    "acquireRunLeaseTx (q_run q) owner ttl now takeover d = Inr (lease, d1)"
    "d' = map_workers (upd (\<lambda>w. wr_id w = owner)
            (\<lambda>w. w\<lparr>wr_claims := wr_claims w + 1, wr_last_seen := now\<rparr>))
          (map_queue (upd (\<lambda>x. q_run x = q_run q)
            (\<lambda>x. x\<lparr>q_state := QueueLeased, q_attempts := q_attempts x + 1\<rparr>)) d1)"
    "entry = (entry_of q)\<lparr>qe_state := QueueLeased, qe_attempts := q_attempts q + 1, qe_takeover := takeover\<rparr>"
  using assms
  by (auto simp: claimOnce_def Let_def split: option.splits sum.splits intro: that)

text \<open>A transaction that selects a claimable entry finds its lease free.\<close>

lemma ensureLeaseRow_row:
  assumes "ensureLeaseRow runID d = Inr d1"
  shows "\<exists>cur. sel l_run runID (leases d1) = Some cur \<and>
    (lease_of d runID = Some cur \<or> lease_of d runID = None \<and> l_owner cur = [])"
  by (rule ensureLeaseRow_ok [OF assms]) (auto simp: lease_of_def sel_append)

lemma ensureLeaseRow_error: "ensureLeaseRow runID d \<noteq> Inl ErrLeaseHeld"
  by (simp add: ensureLeaseRow_def Let_def split: option.splits)

lemma acquireRunLeaseTx_held:
  assumes "acquireRunLeaseTx runID owner ttl now takeover d = Inl ErrLeaseHeld"
  shows "\<exists>r. lease_of d runID = Some r \<and> l_owner r \<noteq> [] \<and> l_owner r \<noteq> owner \<and> now < l_expires r"
proof -
  from assms obtain d1 cur where "ensureLeaseRow runID d = Inr d1" "sel l_run runID (leases d1) = Some cur"
      "l_owner cur \<noteq> []" "l_owner cur \<noteq> owner" "now < l_expires cur"
    by (auto simp: acquireRunLeaseTx_def bindR_Inl_iff ensureLeaseRow_error appendOwnershipTx_eq Let_def
        split: if_splits option.splits)
  then show ?thesis using ensureLeaseRow_row [of runID d d1] by auto
qed

lemma acquire_claimable:
  assumes "claimable owner now q (lease_of d (q_run q))"
  shows "acquireRunLeaseTx (q_run q) owner ttl now takeover d \<noteq> Inl ErrLeaseHeld"
  using acquireRunLeaseTx_held [of "q_run q" owner ttl now takeover d] assms
  by (auto simp: claimable_def)

lemma claimOnce_not_held: "claimOnce owner ttl now skip d \<noteq> Inl (ErrLeaseHeld, runID)"
proof
  assume "claimOnce owner ttl now skip d = Inl (ErrLeaseHeld, runID)"
  then obtain q t where q: "candidate owner now skip d = Some q"
      "acquireRunLeaseTx (q_run q) owner ttl now t d = Inl ErrLeaseHeld"
    unfolding claimOnce_def Let_def by (fastforce split: option.splits sum.splits)
  then show False using acquire_claimable candidate_Some(2) by blast
qed

lemma ClaimRun_first:
  "owner \<noteq> [] \<Longrightarrow> ClaimRun owner ttl now ds =
     (case claimOnce owner ttl now [] (ds 0) of Inl (e, _) \<Rightarrow> (Inl e, ds 0) | Inr (x, d') \<Rightarrow> (Inr x, d'))"
  using claimOnce_not_held [of owner ttl now "[]" "ds 0"]
  by (auto simp: ClaimRun_def maxClaimAttempts_def eval_nat_numeral split: sum.splits)

lemma acquire_succeeds:
  assumes "claimable owner now q (lease_of d (q_run q))" and "owner \<noteq> []" and "second \<le> ttl"
    and "q_run q \<noteq> []" and "sel r_id (q_run q) (run_rows d) \<noteq> None"
  shows "\<exists>lease d'. acquireRunLeaseTx (q_run q) owner ttl now takeover d = Inr (lease, d')"
proof -
  have "filter (\<lambda>r. r_id r = q_run q) (run_rows d) \<noteq> []"
    using assms(5) by (auto simp: sel_None_iff filter_empty_conv)
  then have "\<exists>d1. ensureLeaseRow (q_run q) d = Inr d1"
    by (simp add: ensureLeaseRow_def Let_def split: option.splits)
  then obtain d1 cur where d1: "ensureLeaseRow (q_run q) d = Inr d1" "sel l_run (q_run q) (leases d1) = Some cur"
    using ensureLeaseRow_row by blast
  show ?thesis
    using acquire_claimable [OF assms(1), of ttl takeover] assms(2-4) d1
    by (auto simp: acquireRunLeaseTx_def appendOwnershipTx_eq Let_def split: if_splits)
qed

section \<open>Ending a claim\<close>

lemma completeQueueEntryTx_eq:
  "completeQueueEntryTx lease now state kind reason av d =
   appendOwnershipTx (rl_run lease) kind (rl_owner lease) (rl_token lease) now
     (jmap ((if reason \<noteq> [] then [(''reason'', JStr reason)] else []) @ [(''state'', JStr (state_text state))]))
     (map_leases (upd (\<lambda>r. l_run r = rl_run lease \<and> l_owner r = rl_owner lease \<and> l_fence r = rl_token lease)
        (\<lambda>r. r\<lparr>l_owner := [], l_expires := now, l_heartbeat := now\<rparr>))
       (map_queue (upd (\<lambda>q. q_run q = rl_run lease)
          (\<lambda>q. q\<lparr>q_state := state, q_available := (if av = zero_time then now else av), q_last_error := reason\<rparr>)) d))"
  by (simp add: completeQueueEntryTx_def Let_def)

lemma completeQueueEntryTx_quiet:
  assumes "kind \<noteq> OwnershipAcquired" and "completeQueueEntryTx lease now state kind reason av d = Inr ((), d')"
  shows "lease_quiet d d'"
proof -
  let ?d1 = "map_queue (upd (\<lambda>q. q_run q = rl_run lease)
          (\<lambda>q. q\<lparr>q_state := state, q_available := (if av = zero_time then now else av), q_last_error := reason\<rparr>)) d"
  let ?d2 = "map_leases (upd (\<lambda>r. l_run r = rl_run lease \<and> l_owner r = rl_owner lease \<and> l_fence r = rl_token lease)
        (\<lambda>r. r\<lparr>l_owner := [], l_expires := now, l_heartbeat := now\<rparr>)) ?d1"
  have "lease_quiet d ?d1" by (rule lease_quiet_same) simp_all
  also have "lease_quiet ?d1 ?d2" by (rule lease_quiet_upd) simp
  also have "lease_quiet ?d2 d'"
    using assms by (auto simp: completeQueueEntryTx_eq intro: AppendOwnership_quiet)
  finally show ?thesis .
qed

lemma completeQueueEntry_quiet:
  assumes "keyed l_run (leases d)" and "kind \<noteq> OwnershipAcquired"
    and "completeQueueEntry lease now state kind reason av d = Inr ((), d')"
  shows "lease_quiet d d'"
proof -
  from assms(3) obtain d1 where "GuardFenceTx (Fence lease) now d = Inr ((), d1)"
      "completeQueueEntryTx lease now state kind reason av d1 = Inr ((), d')"
    by (auto simp: completeQueueEntry_def)
  then show ?thesis
    using GuardFenceTx_quiet [OF assms(1)] completeQueueEntryTx_quiet [OF assms(2)] lease_quiet_trans by blast
qed

lemma ReleaseClaim_quiet:
  assumes "keyed l_run (leases d)" and "ReleaseClaim lease now reason d = Inr ((), d')"
  shows "lease_quiet d d'"
proof -
  from assms(2) obtain d1 d2 where g: "GuardFenceTx (Fence lease) now d = Inr ((), d1)"
      and c: "completeQueueEntryTx lease now QueueRunnable OwnershipReleased reason now d1 = Inr ((), d2)"
      and d': "d' = map_queue (upd (\<lambda>q. q_run q = rl_run lease)
                (\<lambda>q. q\<lparr>q_attempts := (if q_attempts q > 0 then q_attempts q - 1 else 0)\<rparr>)) d2"
    by (auto simp: ReleaseClaim_def)
  have "lease_quiet d d1" using GuardFenceTx_quiet [OF assms(1) g] .
  also have "lease_quiet d1 d2" using completeQueueEntryTx_quiet [OF _ c] by simp
  also have "lease_quiet d2 d'" unfolding d' by (rule lease_quiet_same) simp_all
  finally show ?thesis .
qed

lemma lease_quiet_coord: "db_coord d' = db_coord d \<Longrightarrow> lease_quiet d d'"
  by (simp add: lease_quiet_same)

lemma FailRunAtDeliveryLimit_quiet:
  assumes "keyed l_run (leases d)" and "FailRunAtDeliveryLimit L lease now n m d = Inr ((), d')"
  shows "lease_quiet d d'"
proof -
  from assms(2) obtain d1 d2 payload where g: "GuardFenceTx (Fence lease) now d = Inr ((), d1)"
      and a: "AppendEventTx L (rl_run lease) ''error'' payload
         (update_run (rl_run lease) (\<lambda>r. r\<lparr>r_status := ''failed''\<rparr>) d1) = Inr ((), d2)"
      and c: "completeQueueEntryTx lease now QueueFailed OwnershipFailed (DeliveryLimitReason n m) zero_time d2
         = Inr ((), d')"
    by (auto simp: FailRunAtDeliveryLimit_def)
  have "lease_quiet d d1" using GuardFenceTx_quiet [OF assms(1) g] .
  also have "lease_quiet d1 d2" using AppendEventTx_frame(5) [OF a] by (simp add: lease_quiet_coord)
  also have "lease_quiet d2 d'" using completeQueueEntryTx_quiet [OF _ c] by simp
  finally show ?thesis .
qed

end
