(* ===== verification/Fleet.thy ===== *)
theory Fleet
  imports Queue
begin

text \<open>
  The fleet: any number of workers, each with its own clock, committing the store's
  operations in any order. A step is one committed transaction; a worker that dies simply
  takes no further step, and a worker that wakes late takes a step with an old lease. The
  contract that makes this safe is an interface of its own, a resource guarded by fencing
  tokens, and the store is shown to provide it.
\<close>

section \<open>Committed transactions\<close>

inductive fleet_step :: "db \<Rightarrow> db \<Rightarrow> bool" where
  acquire: "AcquireRunLease runID owner ttl now d = Inr (lease, d') \<Longrightarrow> fleet_step d d'"
| claim: "claimOnce owner ttl now skip d = Inr (x, d') \<Longrightarrow> fleet_step d d'"
| renew: "RenewRunLease lease ttl now d = Inr (lease', d') \<Longrightarrow> fleet_step d d'"
| release: "ReleaseRunLease lease now d = Inr ((), d') \<Longrightarrow> fleet_step d d'"
| reject: "RecordFenceRejection f now reason d = Inr ((), d') \<Longrightarrow> fleet_step d d'"
| guard: "GuardFence f now d = Inr ((), d') \<Longrightarrow> fleet_step d d'"
| guarded_write:
    "guarded f now body d = Inr ((), d') \<Longrightarrow>
     (\<And>e e'. body e = Inr ((), e') \<Longrightarrow> db_coord e' = db_coord e) \<Longrightarrow> fleet_step d d'"
| enqueue: "Enqueue runID maxSteps now d = Inr ((), d') \<Longrightarrow> fleet_step d d'"
| finish: "FinishRun lease now d = Inr ((), d') \<Longrightarrow> fleet_step d d'"
| fail: "FailRun lease now reason d = Inr ((), d') \<Longrightarrow> fleet_step d d'"
| requeue: "RequeueRun lease now availableAt reason d = Inr ((), d') \<Longrightarrow> fleet_step d d'"
| give_back: "ReleaseClaim lease now reason d = Inr ((), d') \<Longrightarrow> fleet_step d d'"
| limit: "FailRunAtDeliveryLimit (L :: golib) lease now n m d = Inr ((), d') \<Longrightarrow> fleet_step d d'"
| register: "RegisterWorker wid host now d = Inr ((), d') \<Longrightarrow> fleet_step d d'"
| touch: "TouchWorker wid now d = Inr ((), d') \<Longrightarrow> fleet_step d d'"
| remove: "RemoveWorker wid now d = Inr (b, d') \<Longrightarrow> fleet_step d d'"
| elsewhere: "db_coord d' = db_coord d \<Longrightarrow> fleet_step d d'"

inductive_cases fleet_stepE: "fleet_step d d'"

section \<open>Resources guarded by fencing tokens\<close>

text \<open>
  \<open>current s k\<close> is the last token issued for the resource \<open>k\<close>, \<open>grants s k n\<close> that the
  guard lets the token \<open>n\<close> write. Tokens never decrease along a step and only the current
  one is granted.
\<close>

locale fenced_resource =
  fixes inv :: "'s \<Rightarrow> bool"
    and step :: "'s \<Rightarrow> 's \<Rightarrow> bool"
    and current :: "'s \<Rightarrow> 'k \<Rightarrow> int"
    and grants :: "'s \<Rightarrow> 'k \<Rightarrow> int \<Rightarrow> bool"
  assumes step_inv: "inv s \<Longrightarrow> step s s' \<Longrightarrow> inv s'"
    and step_mono: "inv s \<Longrightarrow> step s s' \<Longrightarrow> current s k \<le> current s' k"
    and grants_current: "grants s k n \<Longrightarrow> n = current s k"
begin

lemma reach_inv:
  assumes "step\<^sup>*\<^sup>* s s'" and "inv s"
  shows "inv s'"
  using assms by (induction rule: rtranclp_induct) (auto intro: step_inv)

lemma reach_mono:
  assumes "step\<^sup>*\<^sup>* s s'" and "inv s"
  shows "current s k \<le> current s' k"
  using assms
proof (induction rule: rtranclp_induct)
  case base
  then show ?case by simp
next
  case (step t u)
  then show ?case using step_mono [of t u k] reach_inv [of s t] by fastforce
qed

lemma exclusive: "grants s k m \<Longrightarrow> grants s k n \<Longrightarrow> m = n"
  using grants_current [of s k m] grants_current [of s k n] by simp

lemma stale_forever:
  assumes "inv s" and "n < current s k" and "step\<^sup>*\<^sup>* s s'"
  shows "\<not> grants s' k n"
  using reach_mono [OF assms(3,1), of k] assms(2) grants_current [of s' k n] by auto

lemma handover:
  assumes "inv s" and "grants s k m" and "step\<^sup>*\<^sup>* s s'" and "grants s' k n" and "m \<noteq> n"
    and "step\<^sup>*\<^sup>* s' s''"
  shows "m < n" and "\<not> grants s'' k m"
proof -
  show less: "m < n"
    using reach_mono [OF assms(3,1), of k] grants_current [OF assms(2)] grants_current [OF assms(4)]
      assms(5) by simp
  show "\<not> grants s'' k m"
  proof (rule stale_forever)
    show "inv s'" by (rule reach_inv [OF assms(3,1)])
    show "m < current s' k" using less grants_current [OF assms(4)] by simp
    show "step\<^sup>*\<^sup>* s' s''" by fact
  qed
qed

end

section \<open>The store provides the contract\<close>

definition grants :: "db \<Rightarrow> string \<Rightarrow> int \<Rightarrow> bool" where
  "grants d runID token \<longleftrightarrow>
     (\<exists>owner now. admits d \<lparr>f_run = runID, f_owner = owner, f_token = token\<rparr> now)"

lemma admits_issued: "admits d f now \<Longrightarrow> f_token f = issued d (f_run f)"
  by (auto simp: admits_def issued_def elim: GuardFenceTx_ok)

lemma admits_grants: "admits d f now \<Longrightarrow> grants d (f_run f) (f_token f)"
  unfolding grants_def by (cases f) auto

lemma claimOnce_acquire:
  assumes "claimOnce owner ttl now skip d = Inr (x, d')"
  obtains d1 takeover where "acquireRunLeaseTx (rl_run (fst x)) owner ttl now takeover d = Inr (fst x, d1)"
    "leases d' = leases d1" "olog d' = olog d1"
proof -
  obtain lease entry where x: "x = (lease, entry)" by fastforce
  obtain t d1 and q :: queue_row where a: "acquireRunLeaseTx (q_run q) owner ttl now t d = Inr (lease, d1)"
      "leases d' = leases d1" "olog d' = olog d1"
    using assms unfolding x by (rule claimOnce_ok) simp
  moreover have "rl_run lease = q_run q" using acquireRunLeaseTx_lease_of(1) [OF a(1)] .
  ultimately show ?thesis using that x by simp
qed

text \<open>
  Every step is quiet or an acquisition; that is all the properties need to know of them.
\<close>

lemma fleet_step_kinds:
  assumes "fleet_step d d'" and "keyed l_run (leases d)"
  obtains "lease_quiet d d'"
  | runID owner ttl now takeover lease d1 where
      "acquireRunLeaseTx runID owner ttl now takeover d = Inr (lease, d1)"
      "leases d' = leases d1" "olog d' = olog d1"
  using assms(1)
proof cases
  case (acquire runID owner ttl now lease)
  then show ?thesis using that(2) by (simp add: AcquireRunLease_def)
next
  case (claim owner ttl now skip x)
  then show ?thesis by (rule claimOnce_acquire) (rule that(2))
next
  case (renew lease ttl now lease')
  then show ?thesis by (intro that(1) RenewRunLease_quiet)
next
  case (release lease now)
  then show ?thesis by (intro that(1) ReleaseRunLease_quiet)
next
  case (reject f now reason)
  then show ?thesis by (intro that(1) RecordFenceRejection_quiet)
next
  case (guard f now)
  then have "GuardFenceTx f now d = Inr ((), d')" by (auto simp: GuardFence_def withGuardedTx_def)
  then show ?thesis by (intro that(1) GuardFenceTx_quiet [OF assms(2)])
next
  case (guarded_write f now body)
  from guarded_write(1) show ?thesis
  proof (rule guarded_ok)
    assume "body d = Inr ((), d')"
    then show ?thesis by (intro that(1) lease_quiet_coord guarded_write(2))
  next
    fix g d1 assume g: "GuardFenceTx g now d = Inr ((), d1)" and b: "body d1 = Inr ((), d')"
    have q: "lease_quiet d d1" "lease_quiet d1 d'"
      by (rule GuardFenceTx_quiet [OF assms(2) g], rule lease_quiet_coord [OF guarded_write(2) [OF b]])
    show ?thesis by (rule that(1), rule lease_quiet_trans [OF q])
  qed
next
  case (enqueue runID maxSteps now)
  then show ?thesis by (intro that(1)) (auto simp: Enqueue_def split: if_splits intro: lease_quiet_same)
next
  case (finish lease now)
  then show ?thesis by (intro that(1)) (auto simp: FinishRun_def intro: completeQueueEntry_quiet [OF assms(2), rotated])
next
  case (fail lease now reason)
  then show ?thesis by (intro that(1)) (auto simp: FailRun_def intro: completeQueueEntry_quiet [OF assms(2), rotated])
next
  case (requeue lease now av reason)
  then show ?thesis by (intro that(1)) (auto simp: RequeueRun_def intro: completeQueueEntry_quiet [OF assms(2), rotated])
next
  case (give_back lease now reason)
  then show ?thesis by (intro that(1) ReleaseClaim_quiet [OF assms(2)])
next
  case (limit L lease now n m)
  then show ?thesis by (intro that(1) FailRunAtDeliveryLimit_quiet [OF assms(2)])
next
  case (register wid host now)
  then show ?thesis by (intro that(1)) (auto simp: RegisterWorker_def intro: lease_quiet_same)
next
  case (touch wid now)
  then show ?thesis by (intro that(1)) (auto simp: TouchWorker_def intro: lease_quiet_same)
next
  case (remove wid now b)
  then show ?thesis by (intro that(1)) (auto simp: RemoveWorker_def Let_def intro: lease_quiet_same)
next
  case elsewhere
  then show ?thesis by (intro that(1) lease_quiet_coord)
qed

lemma lease_inv_same: "leases d' = leases d \<Longrightarrow> olog d' = olog d \<Longrightarrow> lease_inv d' = lease_inv d"
  by (simp add: lease_inv_def acquired_fences_def issued_def lease_of_def)

lemma issued_same: "leases d' = leases d \<Longrightarrow> issued d' = issued d"
  by (simp add: issued_def lease_of_def fun_eq_iff)

lemma fleet_step_inv:
  assumes "lease_inv d" and "fleet_step d d'"
  shows "lease_inv d'"
proof -
  have k: "keyed l_run (leases d)" using assms(1) by (simp add: lease_inv_def)
  show ?thesis
    using assms(2) k
  proof (rule fleet_step_kinds)
    assume "lease_quiet d d'"
    then show ?thesis using assms(1) lease_quiet_inv by blast
  next
    fix runID owner ttl now takeover lease d1
    assume "acquireRunLeaseTx runID owner ttl now takeover d = Inr (lease, d1)"
      and "leases d' = leases d1" and "olog d' = olog d1"
    then show ?thesis using acquireRunLeaseTx_inv [OF _ assms(1)] lease_inv_same by blast
  qed
qed

lemma fleet_step_mono:
  assumes "lease_inv d" and "fleet_step d d'"
  shows "issued d runID \<le> issued d' runID"
proof -
  have k: "keyed l_run (leases d)" using assms(1) by (simp add: lease_inv_def)
  show ?thesis
    using assms(2) k
  proof (rule fleet_step_kinds)
    assume "lease_quiet d d'"
    then show ?thesis by (simp add: lease_quiet_issued)
  next
    fix x owner ttl now takeover lease d1
    assume "acquireRunLeaseTx x owner ttl now takeover d = Inr (lease, d1)" and "leases d' = leases d1"
    then show ?thesis using acquireRunLeaseTx_issued [of x owner ttl now takeover d lease d1 runID]
        issued_same [of d' d1]
      by simp
  qed
qed

interpretation fenced: fenced_resource lease_inv fleet_step issued grants
proof
  show "lease_inv d \<Longrightarrow> fleet_step d d' \<Longrightarrow> lease_inv d'" for d d' by (rule fleet_step_inv)
  show "lease_inv d \<Longrightarrow> fleet_step d d' \<Longrightarrow> issued d k \<le> issued d' k" for d d' k by (rule fleet_step_mono)
  show "grants d k n \<Longrightarrow> n = issued d k" for d k n by (auto simp: grants_def dest: admits_issued)
qed

section \<open>What the fleet guarantees\<close>

lemma GuardFenceTx_error:
  assumes "f_run f \<noteq> []" and "f_owner f \<noteq> []" and "\<not> admits d f now"
  shows "GuardFenceTx f now d = Inl ErrFenced"
  using assms by (auto simp: admits_def GuardFenceTx_def split: option.splits if_splits)

lemma GuardFenceTx_issued:
  "GuardFenceTx f now d = Inr ((), d') \<Longrightarrow> issued d' runID = issued d runID"
  using GuardFenceTx_frame [of f now d "()" d']
  by (auto simp: GuardFenceTx_def issued_def lease_of_def sel_upd_key map_option_case
      split: if_splits option.splits)

lemma guard_fleet_step: "GuardFenceTx f now d = Inr ((), d') \<Longrightarrow> fleet_step d d'"
  by (rule fleet_step.guard [of f now]) (simp add: GuardFence_def withGuardedTx_def)


lemma lease_inv_samples: "lease_inv queued_db" "lease_inv leased_db" "lease_inv taken_db"
  by (auto simp: lease_inv_def sample_defs keyed_def contiguous_def acquired_fences_def
      fences_upto_def issued_def lease_of_def numeral_2_eq_2 numeral_3_eq_3)





text \<open>
  C6. From a database with no leases, whatever the fleet commits: the fences the ownership
  log records as acquired for a run are exactly one, two, three and so on up to the one its
  lease row holds, so no fence is issued twice, none is skipped, and the committed fence of
  every lease is at most the issued one.
\<close>

theorem fences_issued_once:
  assumes "leases d0 = []" and "olog d0 = []" and "fleet_step\<^sup>*\<^sup>* d0 d"
  shows "acquired_fences d runID = map int [1 ..< Suc (nat (issued d runID))]
    \<and> distinct (acquired_fences d runID)
    \<and> list_all (\<lambda>r. 0 \<le> l_committed r \<and> l_committed r \<le> l_fence r) (leases d)"
proof -
  have "lease_inv d0"
    using assms(1,2) by (simp add: lease_inv_def keyed_def contiguous_def acquired_fences_def
        fences_upto_def issued_def lease_of_def)
  then have "lease_inv d" using fenced.reach_inv [OF assms(3)] by blast
  then show ?thesis
    by (auto simp: lease_inv_def fences_upto_def list_all_iff distinct_map simp del: upt_Suc)
qed

lemma enqueue_sample: "fleet_step sample_db (map_queue (\<lambda>_. [queue_row_R QueueRunnable 0]) sample_db)"
  by (rule fleet_step.enqueue [of "''R''" 5 0]) (simp add: Enqueue_def upsert_def sample_defs map_queue_def)

theorem fences_issued_once_witness:
  "acquired_fences (map_queue (\<lambda>_. [queue_row_R QueueRunnable 0]) sample_db) ''R'' = []"
proof -
  let ?d = "map_queue (\<lambda>_. [queue_row_R QueueRunnable 0]) sample_db"
  have "fleet_step\<^sup>*\<^sup>* sample_db ?d" using enqueue_sample by blast
  then have "acquired_fences ?d ''R'' = map int [1 ..< Suc (nat (issued ?d ''R''))]"
    using fences_issued_once [of sample_db ?d "''R''"] by (simp add: sample_defs del: upt_Suc)
  then show ?thesis by (simp add: issued_def lease_of_def sample_defs)
qed

lemma claimOnce_facts:
  assumes "claimOnce owner ttl now skip d = Inr ((lease, entry), d')"
  shows "qe_run entry = rl_run lease"
    and "\<And>r. lease_of d (rl_run lease) = Some r \<Longrightarrow>
           l_owner r = [] \<or> l_owner r = owner \<or> l_expires r \<le> now"
    and "rl_token lease = issued d (rl_run lease) + 1"
    and "\<exists>r. lease_of d' (rl_run lease) = Some r \<and> l_owner r = owner
           \<and> l_fence r = rl_token lease \<and> l_expires r = now + ttl"
    and "\<And>x. x \<noteq> rl_run lease \<Longrightarrow> lease_of d' x = lease_of d x"
    and "\<exists>q \<in> set (queue d). q_run q = rl_run lease \<and>
           (\<forall>q' \<in> set (queue d). claimable owner now q' (lease_of d (q_run q')) \<longrightarrow>
              q_run q' \<notin> set skip \<longrightarrow> before q q')"
proof -
  from assms obtain q takeover d1 where q: "candidate owner now skip d = Some q"
      and a: "acquireRunLeaseTx (q_run q) owner ttl now takeover d = Inr (lease, d1)"
      and d': "leases d' = leases d1" and e: "qe_run entry = q_run q"
    by (rule claimOnce_ok) (auto simp: entry_of_def)
  note acq = acquireRunLeaseTx_lease_of [OF a]
  have same: "lease_of d' = lease_of d1" using d' by (simp add: lease_of_def fun_eq_iff)
  show "qe_run entry = rl_run lease" using e acq(1) by simp
  show "\<And>r. lease_of d (rl_run lease) = Some r \<Longrightarrow> l_owner r = [] \<or> l_owner r = owner \<or> l_expires r \<le> now"
    using acq(1,7) by force
  show "rl_token lease = issued d (rl_run lease) + 1" using acq(1,2) by simp
  show "\<exists>r. lease_of d' (rl_run lease) = Some r \<and> l_owner r = owner
      \<and> l_fence r = rl_token lease \<and> l_expires r = now + ttl"
    using acq(1,4,6) same by auto
  show "\<And>x. x \<noteq> rl_run lease \<Longrightarrow> lease_of d' x = lease_of d x" using acq(1,5) same by simp
  show "\<exists>q \<in> set (queue d). q_run q = rl_run lease \<and>
      (\<forall>q' \<in> set (queue d). claimable owner now q' (lease_of d (q_run q')) \<longrightarrow>
         q_run q' \<notin> set skip \<longrightarrow> before q q')"
    using candidate_Some [OF q] acq(1) by (intro bexI [of _ q]) auto
qed

lemma claimOnce_owner:
  assumes "claimOnce owner ttl now skip d = Inr ((lease, entry), d')"
  shows "rl_owner lease = owner"
  using assms by (rule claimOnce_ok) (auto dest: acquireRunLeaseTx_lease_of(3))


lemma sample_takeover:
  "\<exists>entry d'. claimOnce ''b'' second 1000000000 [] leased_db =
     Inr ((sample_lease ''b'' 2 2000000000, entry), d') \<and> qe_takeover entry"
  by (simp add: claimOnce_def candidate_def claimable_def lease_of_def sample_defs
      acquireRunLeaseTx_def ensureLeaseRow_def appendOwnershipTx_eq second_def storeLease_def
      upsert_def upd_def Let_def)





lemma completeQueueEntry_lease:
  assumes "completeQueueEntry lease now state kind reason av d = Inr ((), d')"
  shows "\<exists>r r'. lease_of d (rl_run lease) = Some r \<and> l_owner r = rl_owner lease \<and> l_fence r = rl_token lease
      \<and> now < l_expires r \<and> lease_of d' (rl_run lease) = Some r' \<and> l_owner r' = [] \<and> l_expires r' = now
      \<and> l_fence r' = rl_token lease \<and> l_committed r' = rl_token lease"
    and "queue d' = upd (\<lambda>q. q_run q = rl_run lease) (\<lambda>q. q\<lparr>q_state := state,
         q_available := (if av = zero_time then now else av), q_last_error := reason\<rparr>) (queue d)"
    and "\<exists>row. olog d' = olog d @ [row] \<and> ow_run row = rl_run lease \<and> ow_kind row = kind
       \<and> ow_owner row = rl_owner lease \<and> ow_fence row = rl_token lease"
proof -
  from assms obtain d1 where g: "GuardFenceTx (Fence lease) now d = Inr ((), d1)"
      and c: "completeQueueEntryTx lease now state kind reason av d1 = Inr ((), d')"
    by (auto simp: completeQueueEntry_def)
  from g obtain r where r: "lease_of d (rl_run lease) = Some r" "l_owner r = rl_owner lease"
      "l_fence r = rl_token lease" "now < l_expires r"
    by (rule GuardFenceTx_ok) (auto simp: Fence_def)
  have "\<exists>r1. lease_of d1 (rl_run lease) = Some r1 \<and> l_owner r1 = rl_owner lease
      \<and> l_fence r1 = rl_token lease \<and> l_committed r1 = rl_token lease"
    using g r by (auto simp: GuardFenceTx_def Fence_def lease_of_def sel_upd_key split: if_splits)
  then obtain r1 where r1: "sel l_run (rl_run lease) (leases d1) = Some r1" "l_owner r1 = rl_owner lease"
      "l_fence r1 = rl_token lease" "l_committed r1 = rl_token lease"
    by (auto simp: lease_of_def)
  let ?f = "\<lambda>r. r\<lparr>l_owner := [], l_expires := now, l_heartbeat := now\<rparr>"
  let ?p = "\<lambda>r. l_run r = rl_run lease \<and> l_owner r = rl_owner lease \<and> l_fence r = rl_token lease"
  have d': "leases d' = upd ?p ?f (leases d1)" "queue d' = upd (\<lambda>q. q_run q = rl_run lease)
      (\<lambda>q. q\<lparr>q_state := state, q_available := (if av = zero_time then now else av), q_last_error := reason\<rparr>) (queue d1)"
    "\<exists>row. olog d' = olog d1 @ [row] \<and> ow_run row = rl_run lease \<and> ow_kind row = kind
       \<and> ow_owner row = rl_owner lease \<and> ow_fence row = rl_token lease"
    using c by (auto simp: completeQueueEntryTx_eq appendOwnershipTx_eq)
  have "sel l_run (rl_run lease) (upd ?p ?f t) = Some (?f r1)" if "sel l_run (rl_run lease) t = Some r1" for t
    using that r1(2,3) by (induction t) (auto simp: upd_def split: if_splits)
  then show "\<exists>r r'. lease_of d (rl_run lease) = Some r \<and> l_owner r = rl_owner lease \<and> l_fence r = rl_token lease
      \<and> now < l_expires r \<and> lease_of d' (rl_run lease) = Some r' \<and> l_owner r' = [] \<and> l_expires r' = now
      \<and> l_fence r' = rl_token lease \<and> l_committed r' = rl_token lease"
    using r r1 d'(1) by (auto simp: lease_of_def)
  show "queue d' = upd (\<lambda>q. q_run q = rl_run lease) (\<lambda>q. q\<lparr>q_state := state,
         q_available := (if av = zero_time then now else av), q_last_error := reason\<rparr>) (queue d)"
    using d'(2) GuardFenceTx_frame [OF g] by simp
  show "\<exists>row. olog d' = olog d @ [row] \<and> ow_run row = rl_run lease \<and> ow_kind row = kind
       \<and> ow_owner row = rl_owner lease \<and> ow_fence row = rl_token lease"
    using d'(3) GuardFenceTx_frame [OF g] by simp
qed

text \<open>
  Only the current owner ends a claim. When a completion of a run commits (finish, fail,
  requeue), the worker held the run's live lease with the fence last issued; afterwards the
  lease is free at once, the fence is spent but kept, the queue entry has the state the
  worker gave, and the ownership log has one more row, which names this worker and fence.
\<close>

theorem completion_by_owner:
  assumes "completeQueueEntry lease now state kind reason av d = Inr ((), d')"
  shows "(\<exists>r r'. lease_of d (rl_run lease) = Some r \<and> l_owner r = rl_owner lease \<and> l_fence r = rl_token lease
      \<and> now < l_expires r \<and> lease_of d' (rl_run lease) = Some r' \<and> l_owner r' = [] \<and> l_expires r' = now
      \<and> l_fence r' = rl_token lease \<and> l_committed r' = rl_token lease)
    \<and> queue d' = upd (\<lambda>q. q_run q = rl_run lease) (\<lambda>q. q\<lparr>q_state := state,
         q_available := (if av = zero_time then now else av), q_last_error := reason\<rparr>) (queue d)
    \<and> (\<exists>row. olog d' = olog d @ [row] \<and> ow_run row = rl_run lease \<and> ow_kind row = kind
         \<and> ow_owner row = rl_owner lease \<and> ow_fence row = rl_token lease)"
  using completeQueueEntry_lease [OF assms] by blast

lemma sample_finish: "\<exists>d'. FinishRun (sample_lease ''b'' 2 3000000000) 2000000000 taken_db = Inr ((), d')"
  by (simp add: FinishRun_def completeQueueEntry_def GuardFenceTx_def completeQueueEntryTx_eq
      appendOwnershipTx_eq Fence_def sample_defs)

theorem completion_by_owner_witness:
  "\<exists>d'. FinishRun (sample_lease ''b'' 2 3000000000) 2000000000 taken_db = Inr ((), d')
     \<and> queue d' = [(queue_row_R QueueFinished 2)\<lparr>q_available := 2000000000\<rparr>]"
proof -
  obtain d' where d': "FinishRun (sample_lease ''b'' 2 3000000000) 2000000000 taken_db = Inr ((), d')"
    using sample_finish by blast
  show ?thesis
    using d' completion_by_owner [OF d' [unfolded FinishRun_def]]
    by (auto simp: upd_def sample_defs)
qed

lemma upd_upd: "(\<And>x. p x \<Longrightarrow> p (f x)) \<Longrightarrow> upd p g (upd p f t) = upd p (\<lambda>x. g (f x)) t"
  by (auto simp: upd_def)

lemma ReleaseClaim_queue:
  assumes "ReleaseClaim lease now reason d = Inr ((), d')" and "now \<noteq> zero_time"
  shows "queue d' = upd (\<lambda>q. q_run q = rl_run lease) (\<lambda>q. q\<lparr>q_state := QueueRunnable,
         q_available := now, q_last_error := reason,
         q_attempts := (if q_attempts q > 0 then q_attempts q - 1 else 0)\<rparr>) (queue d)"
proof -
  from assms(1) obtain d1 d2 where g: "GuardFenceTx (Fence lease) now d = Inr ((), d1)"
      and c: "completeQueueEntryTx lease now QueueRunnable OwnershipReleased reason now d1 = Inr ((), d2)"
      and d': "d' = map_queue (upd (\<lambda>q. q_run q = rl_run lease)
                (\<lambda>q. q\<lparr>q_attempts := (if q_attempts q > 0 then q_attempts q - 1 else 0)\<rparr>)) d2"
    by (auto simp: ReleaseClaim_def)
  have "queue d2 = upd (\<lambda>q. q_run q = rl_run lease) (\<lambda>q. q\<lparr>q_state := QueueRunnable,
         q_available := now, q_last_error := reason\<rparr>) (queue d)"
    using c GuardFenceTx_frame [OF g] by (auto simp: completeQueueEntryTx_eq appendOwnershipTx_eq)
  then show ?thesis by (simp add: d' upd_upd cong: if_cong)
qed

lemma claimOnce_queue:
  assumes "claimOnce owner ttl now skip d = Inr ((lease, entry), d')"
  shows "queue d' = upd (\<lambda>q. q_run q = rl_run lease) (\<lambda>q. q\<lparr>q_state := QueueLeased,
     q_attempts := q_attempts q + 1\<rparr>) (queue d)"
proof -
  from assms obtain takeover d1 and q :: queue_row where
      a: "acquireRunLeaseTx (q_run q) owner ttl now takeover d = Inr (lease, d1)"
      and d': "queue d' = upd (\<lambda>x. q_run x = q_run q)
            (\<lambda>x. x\<lparr>q_state := QueueLeased, q_attempts := q_attempts x + 1\<rparr>) (queue d1)"
    by (rule claimOnce_ok) auto
  from a obtain d0 cur detail where "ensureLeaseRow (q_run q) d = Inr d0" "queue d1 = queue d0"
    by (rule acquireRunLeaseTx_ok) auto
  moreover have "queue d0 = queue d" if "ensureLeaseRow (q_run q) d = Inr d0" for d0
    using that by (rule ensureLeaseRow_ok) auto
  ultimately show ?thesis using d' acquireRunLeaseTx_lease_of(1) [OF a] by simp
qed

text \<open>
  A worker told to stop gives its delivery back: after a claim followed by
  \<open>ReleaseClaim\<close> under the lease it returned, the run is runnable again at once and its
  delivery count is what it was before the claim, so restarts do not use up the delivery
  bound. The claim is in the log, and the fence it used up stays used.
\<close>

theorem claim_release_roundtrip:
  assumes "claimOnce owner ttl now skip d = Inr ((lease, entry), d1)"
    and "ReleaseClaim lease later reason d1 = Inr ((), d2)"
    and "list_all (\<lambda>q. 0 \<le> q_attempts q) (queue d)" and "later \<noteq> zero_time"
  shows "queue d2 = upd (\<lambda>q. q_run q = rl_run lease)
           (\<lambda>q. q\<lparr>q_state := QueueRunnable, q_available := later, q_last_error := reason\<rparr>) (queue d)
    \<and> issued d2 (rl_run lease) = issued d (rl_run lease) + 1"
proof
  show "queue d2 = upd (\<lambda>q. q_run q = rl_run lease)
      (\<lambda>q. q\<lparr>q_state := QueueRunnable, q_available := later, q_last_error := reason\<rparr>) (queue d)"
    using assms(3) unfolding ReleaseClaim_queue [OF assms(2,4)] claimOnce_queue [OF assms(1)]
    by (auto simp: upd_upd) (auto simp: upd_def list_all_iff)
  obtain r where r: "lease_of d1 (rl_run lease) = Some r" "l_fence r = rl_token lease"
    using claimOnce_facts(4) [OF assms(1)] by blast
  from assms(2) obtain e1 e2 where g: "GuardFenceTx (Fence lease) later d1 = Inr ((), e1)"
      and c: "completeQueueEntryTx lease later QueueRunnable OwnershipReleased reason later e1 = Inr ((), e2)"
      and d2: "leases d2 = leases e2"
    by (auto simp: ReleaseClaim_def)
  have "issued e2 (rl_run lease) = issued d1 (rl_run lease)"
    using lease_quiet_issued [OF completeQueueEntryTx_quiet [OF _ c]] GuardFenceTx_issued [OF g] by simp
  then show "issued d2 (rl_run lease) = issued d (rl_run lease) + 1"
    using issued_same [OF d2] r claimOnce_facts(3) [OF assms(1)] by (simp add: issued_def)
qed


theorem claim_release_roundtrip_witness:
  "\<exists>lease entry d1 d2. claimOnce ''a'' second 5 [] queued_db = Inr ((lease, entry), d1)
     \<and> ReleaseClaim lease 7 ''stopped'' d1 = Inr ((), d2) \<and> map q_attempts (queue d2) = [0]"
proof -
  let ?l = "sample_lease ''a'' 1 1000000005"
  obtain entry d1 where c: "claimOnce ''a'' second 5 [] queued_db = Inr ((?l, entry), d1)"
      and r: "leases d1 = [(lease_row_R ''a'' 1 0 1000000005)\<lparr>l_acquired := 5, l_heartbeat := 5\<rparr>]"
    by (simp add: claimOnce_def candidate_def claimable_def lease_of_def sample_defs
      acquireRunLeaseTx_def ensureLeaseRow_def appendOwnershipTx_eq second_def storeLease_def
      upsert_def upd_def Let_def)
  obtain d2 where rel: "ReleaseClaim ?l 7 ''stopped'' d1 = Inr ((), d2)"
    by (simp add: ReleaseClaim_def GuardFenceTx_def r completeQueueEntryTx_eq appendOwnershipTx_eq
        Fence_def sample_lease_def lease_row_R_def)
  have "queue d2 = upd (\<lambda>q. q_run q = rl_run ?l)
      (\<lambda>q. q\<lparr>q_state := QueueRunnable, q_available := 7, q_last_error := ''stopped''\<rparr>) (queue queued_db)"
    using claim_release_roundtrip [OF c rel] by (simp add: sample_defs zero_time_def)
  then have "map q_attempts (queue d2) = [0]" by (simp add: upd_def sample_defs)
  then show ?thesis using c rel by (intro exI conjI)
qed

end
