(* ===== verification/Service.thy ===== *)
theory Service
  imports Ledger
begin

text \<open>
  What the four simulated services share: how a handler reads its arguments, the stable
  identifiers and times it derives from a run and a call, and the contract every handler
  keeps, stated as a locale. A handler runs inside the dispatcher's transaction and returns
  a status, a JSON body and, when it wrote something, a mutation record.
\<close>

section \<open>Results and arguments\<close>

type_synonym outcome = "(int \<times> json \<times> json option) \<times> world_tables"

definition reply :: "int \<Rightarrow> json \<Rightarrow> world_tables \<Rightarrow> outcome res" where
  "reply status body w = Inr ((status, body, None), w)"

definition refuse :: "int \<Rightarrow> string \<Rightarrow> world_tables \<Rightarrow> outcome res" where
  "refuse status msg w = reply status (jmap [(''error'', JStr msg)]) w"

definition wrote :: "int \<Rightarrow> json \<Rightarrow> json \<Rightarrow> world_tables \<Rightarrow> outcome res" where
  "wrote status body mutation w = Inr ((status, body, Some mutation), w)"

text \<open>\<open>args[key].(string)\<close>.\<close>

definition string_arg :: "args \<Rightarrow> string \<Rightarrow> string option" where
  "string_arg a key = (case map_of a key of Some (VStr s) \<Rightarrow> Some s | _ \<Rightarrow> None)"

text \<open>
  A dynamic value bound as a statement parameter and compared with a text column; a null
  parameter is equal to nothing.
\<close>

definition sql_param :: "'x golib_scheme \<Rightarrow> val option \<Rightarrow> string option res" where
  "sql_param L v =
     (case v of
        None \<Rightarrow> Inr None
      | Some VNil \<Rightarrow> Inr None
      | Some (VStr s) \<Rightarrow> Inr (Some s)
      | Some (VNumber s) \<Rightarrow> Inr (Some s)
      | Some (VInt i) \<Rightarrow> Inr (Some (show_int i))
      | Some (VBool b) \<Rightarrow> Inr (Some (if b then ''1'' else ''0''))
      | Some (VFloat r) \<Rightarrow> Inr (Some (real_text L r))
      | Some (VArr _) \<Rightarrow> Inl (Err ''unsupported parameter type'')
      | Some (VObj _) \<Rightarrow> Inl (Err ''unsupported parameter type''))"

section \<open>Stable identifiers and times\<close>

definition stable_sum :: "'x golib_scheme \<Rightarrow> string \<Rightarrow> string \<Rightarrow> nat list" where
  "stable_sum L runID callID = sha256 L (runID @ '':'' @ callID)"

definition stableID :: "'x golib_scheme \<Rightarrow> string \<Rightarrow> string \<Rightarrow> string \<Rightarrow> string" where
  "stableID L pre runID callID = pre @ hex_encode (take 6 (stable_sum L runID callID))"

definition uint32_be :: "nat list \<Rightarrow> nat" where
  "uint32_be bs = foldl (\<lambda>a b. a * 256 + b) 0 bs"

definition world_base :: "'x golib_scheme \<Rightarrow> string \<Rightarrow> world_tables \<Rightarrow> int res" where
  "world_base L worldID w =
     (case sel w_id worldID (worlds w) of
        None \<Rightarrow> Inl ErrNoRows
      | Some r \<Rightarrow> (case parse_rfc3339 L (w_base_at r) of
          None \<Rightarrow> Inl (Err ''parsing time'') | Some t \<Rightarrow> Inr t))"

definition stableTime :: "'x golib_scheme \<Rightarrow> string \<Rightarrow> string \<Rightarrow> string \<Rightarrow> world_tables \<Rightarrow> string res" where
  "stableTime L worldID runID callID w =
     bindR (world_base L worldID w) (\<lambda>base.
       Inr (format_rfc3339 L (base + 86400
              + int (uint32_be (take 4 (drop 6 (stable_sum L runID callID))) mod 86400))))"

section \<open>The world invariant\<close>

text \<open>
  Refunds never exceed their charge and the refunded amount of a charge is the sum of its
  refunds.
\<close>

definition refund_total :: "world_tables \<Rightarrow> string \<Rightarrow> string \<Rightarrow> int" where
  "refund_total w worldID chargeID =
     sum_list (map rf_amount (filter (\<lambda>r. rf_world r = worldID \<and> rf_charge r = chargeID) (refunds w)))"

definition billing_ok :: "world_tables \<Rightarrow> bool" where
  "billing_ok w \<longleftrightarrow>
     (\<forall>c \<in> set (charges w). 0 \<le> ch_refunded c \<and> ch_refunded c \<le> ch_amount c
        \<and> ch_refunded c = refund_total w (ch_world c) (ch_id c))
   \<and> (\<forall>r \<in> set (refunds w). 0 < rf_amount r
        \<and> (\<exists>c \<in> set (charges w). ch_world c = rf_world r \<and> ch_id c = rf_charge r))"

definition issue_states :: "string list" where
  "issue_states = [''open'', ''in_progress'', ''resolved'']"

definition legal_transition :: "string \<Rightarrow> string \<Rightarrow> bool" where
  "legal_transition from to \<longleftrightarrow>
     from = ''open'' \<and> to = ''in_progress'' \<or> from = ''in_progress'' \<and> to = ''resolved''"

text \<open>Every issue is kept, and its status moves only along the state machine.\<close>

definition issues_advance :: "world_tables \<Rightarrow> world_tables \<Rightarrow> bool" where
  "issues_advance w w' \<longleftrightarrow>
     (\<forall>k i. sel (\<lambda>i. (is_world i, is_id i)) k (ticket_issues w) = Some i \<longrightarrow>
        (\<exists>i'. sel (\<lambda>i. (is_world i, is_id i)) k (ticket_issues w') = Some i'
            \<and> legal_transition\<^sup>*\<^sup>* (is_status i) (is_status i')))"

lemma issues_advance_same: "ticket_issues w' = ticket_issues w \<Longrightarrow> issues_advance w w'"
  by (auto simp: issues_advance_def)

lemma issues_advance_trans:
  assumes "issues_advance w w'" and "issues_advance w' w''"
  shows "issues_advance w w''"
  using assms unfolding issues_advance_def by (meson rtranclp_trans)

definition world_ok :: "world_tables \<Rightarrow> bool" where
  "world_ok w \<longleftrightarrow> world_keys w \<and> billing_ok w
     \<and> (\<forall>i \<in> set (ticket_issues w). is_status i \<in> set issue_states)"

text \<open>The part of a world's tables that belongs to every other world.\<close>

definition outside :: "string \<Rightarrow> world_tables \<Rightarrow> world_tables" where
  "outside x w =
     \<lparr>worlds = worlds w,
      customers = filter (\<lambda>r. cu_world r \<noteq> x) (customers w),
      invoices = filter (\<lambda>r. in_world r \<noteq> x) (invoices w),
      charges = filter (\<lambda>r. ch_world r \<noteq> x) (charges w),
      refunds = filter (\<lambda>r. rf_world r \<noteq> x) (refunds w),
      subscriptions = filter (\<lambda>r. su_world r \<noteq> x) (subscriptions w),
      crm_accounts = filter (\<lambda>r. ac_world r \<noteq> x) (crm_accounts w),
      crm_contacts = filter (\<lambda>r. ct_world r \<noteq> x) (crm_contacts w),
      crm_notes = filter (\<lambda>r. no_world r \<noteq> x) (crm_notes w),
      ticket_projects = filter (\<lambda>r. pj_world r \<noteq> x) (ticket_projects w),
      ticket_issues = filter (\<lambda>r. is_world r \<noteq> x) (ticket_issues w),
      ticket_comments = filter (\<lambda>r. cm_world r \<noteq> x) (ticket_comments w),
      message_workspaces = filter (\<lambda>r. wk_world r \<noteq> x) (message_workspaces w),
      message_channels = filter (\<lambda>r. cn_world r \<noteq> x) (message_channels w),
      message_members = filter (\<lambda>r. me_world r \<noteq> x) (message_members w),
      message_messages = filter (\<lambda>r. ms_world r \<noteq> x) (message_messages w)\<rparr>"

section \<open>The contract of a handler\<close>

text \<open>
  A call that reports no mutation leaves the world alone; one that does reports success; a
  call keeps the world invariant and writes only in the world it was given.
\<close>

locale service =
  fixes handle :: "string \<Rightarrow> string \<Rightarrow> string \<Rightarrow> string \<Rightarrow> args \<Rightarrow> world_tables \<Rightarrow> outcome res"
  assumes read_only: "handle worldID runID callID behavior args w = Inr ((status, body, None), w') \<Longrightarrow> w' = w"
    and write_succeeds:
      "handle worldID runID callID behavior args w = Inr ((status, body, Some m), w') \<Longrightarrow> status \<in> {200, 201}"
    and keeps_ok:
      "handle worldID runID callID behavior args w = Inr (out, w') \<Longrightarrow> world_ok w \<Longrightarrow> world_ok w'"
    and stays_inside:
      "handle worldID runID callID behavior args w = Inr (out, w') \<Longrightarrow> outside worldID w' = outside worldID w"
    and advances:
      "handle worldID runID callID behavior args w = Inr (out, w') \<Longrightarrow> issues_advance w w'"
    and known_status:
      "handle worldID runID callID behavior args w = Inr ((status, body, mutation), w') \<Longrightarrow>
       status \<in> {200, 201, 400, 404, 409}"
begin

lemma error_status_reads:
  assumes "handle worldID runID callID behavior args w = Inr ((status, body, m), w')" and "400 \<le> status"
  shows "m = None" and "w' = w"
proof -
  show m: "m = None" using write_succeeds assms by (cases m) fastforce+
  show "w' = w" using read_only assms(1) m by blast
qed

lemma calls_ok:
  assumes "foldR (\<lambda>(callID, behavior, args) w. bindR (handle worldID runID callID behavior args w)
      (\<lambda>(_, w'). Inr w')) calls w = Inr w'" and "world_ok w"
  shows "world_ok w' \<and> outside worldID w' = outside worldID w \<and> issues_advance w w'"
  using assms(1)
proof (rule foldR_invariant [where I = "\<lambda>v. world_ok v \<and> outside worldID v = outside worldID w \<and> issues_advance w v"])
  show "world_ok w \<and> outside worldID w = outside worldID w \<and> issues_advance w w"
    using assms(2) by (simp add: issues_advance_same)
next
  fix c v v'
  assume inv: "world_ok v \<and> outside worldID v = outside worldID w \<and> issues_advance w v"
    and step: "(case c of (callID, behavior, args) \<Rightarrow> \<lambda>w. bindR (handle worldID runID callID behavior args w)
      (\<lambda>(_, w'). Inr w')) v = Inr v'"
  obtain callID behavior args out where h: "handle worldID runID callID behavior args v = Inr (out, v')"
    using step by (cases c) auto
  show "world_ok v' \<and> outside worldID v' = outside worldID w \<and> issues_advance w v'"
    using inv keeps_ok [OF h] stays_inside [OF h] advances [OF h] issues_advance_trans by auto
qed

end

section \<open>Proving the contract\<close>

text \<open>The contract of one call, as a predicate on its result; each way of ending a call has a rule.\<close>

definition contract :: "string \<Rightarrow> world_tables \<Rightarrow> outcome res \<Rightarrow> bool" where
  "contract worldID w r \<longleftrightarrow>
     (case r of
        Inl _ \<Rightarrow> True
      | Inr ((status, body, m), w') \<Rightarrow>
          status \<in> {200, 201, 400, 404, 409}
        \<and> (m = None \<longrightarrow> w' = w)
        \<and> (m \<noteq> None \<longrightarrow> status \<in> {200, 201})
        \<and> (world_ok w \<longrightarrow> world_ok w')
        \<and> outside worldID w' = outside worldID w
        \<and> issues_advance w w')"

lemma contract_Inl [simp]: "contract x w (Inl e)"
  by (simp add: contract_def)

lemma contract_reply [simp]: "s \<in> {200, 201, 400, 404, 409} \<Longrightarrow> contract x w (reply s b w)"
  by (auto simp: contract_def reply_def issues_advance_same)

lemma contract_refuse [simp]: "s \<in> {400, 404, 409} \<Longrightarrow> contract x w (refuse s msg w)"
  by (auto simp: refuse_def)

lemma contract_wrote:
  "s \<in> {200, 201} \<Longrightarrow> (world_ok w \<Longrightarrow> world_ok w') \<Longrightarrow> outside x w' = outside x w \<Longrightarrow>
   issues_advance w w' \<Longrightarrow> contract x w (wrote s b m w')"
  by (auto simp: contract_def wrote_def)

lemma contract_bind: "(\<And>v. r = Inr v \<Longrightarrow> contract x w (f v)) \<Longrightarrow> contract x w (bindR r f)"
  by (cases r) auto

lemma service_if_contract:
  assumes "\<And>worldID runID callID behavior args w. contract worldID w (handle worldID runID callID behavior args w)"
  shows "service handle"
proof
  fix worldID runID callID behavior args w status body w'
  note c = assms [of worldID w runID callID behavior args]
  { assume "handle worldID runID callID behavior args w = Inr ((status, body, None), w')"
    with c show "w' = w" by (simp add: contract_def) }
  { fix m assume "handle worldID runID callID behavior args w = Inr ((status, body, Some m), w')"
    with c show "status \<in> {200, 201}" by (simp add: contract_def) }
  { fix out assume "handle worldID runID callID behavior args w = Inr (out, w')"
    with c show "world_ok w \<Longrightarrow> world_ok w'" by (cases out) (simp add: contract_def) }
  { fix out assume "handle worldID runID callID behavior args w = Inr (out, w')"
    with c show "outside worldID w' = outside worldID w" by (cases out) (simp add: contract_def) }
  { fix out assume "handle worldID runID callID behavior args w = Inr (out, w')"
    with c show "issues_advance w w'" by (cases out) (simp add: contract_def) }
  { fix mutation assume "handle worldID runID callID behavior args w = Inr ((status, body, mutation), w')"
    with c show "status \<in> {200, 201, 400, 404, 409}" by (simp add: contract_def) }
qed

text \<open>Writes that touch a table the invariant only knows by its key.\<close>

lemma billing_ok_other:
  assumes "charges w' = charges w" "refunds w' = refunds w"
  shows "billing_ok w' = billing_ok w"
  using assms by (simp add: billing_ok_def refund_total_def)

lemma world_ok_note:
  "world_ok w \<Longrightarrow> ins (\<lambda>x. (no_world x, no_id x)) n (crm_notes w) = Inr t \<Longrightarrow> world_ok (w\<lparr>crm_notes := t\<rparr>)"
  using billing_ok_other [of "w\<lparr>crm_notes := t\<rparr>" w]
  by (auto simp: world_ok_def world_keys_def ins_def keyed_snoc split: if_splits)

lemma world_ok_comment:
  "world_ok w \<Longrightarrow> ins (\<lambda>x. (cm_world x, cm_id x)) n (ticket_comments w) = Inr t \<Longrightarrow>
   world_ok (w\<lparr>ticket_comments := t\<rparr>)"
  using billing_ok_other [of "w\<lparr>ticket_comments := t\<rparr>" w]
  by (auto simp: world_ok_def world_keys_def ins_def keyed_snoc split: if_splits)

lemma world_ok_message:
  "world_ok w \<Longrightarrow> ins (\<lambda>x. (ms_world x, ms_id x)) n (message_messages w) = Inr t \<Longrightarrow>
   world_ok (w\<lparr>message_messages := t\<rparr>)"
  using billing_ok_other [of "w\<lparr>message_messages := t\<rparr>" w]
  by (auto simp: world_ok_def world_keys_def ins_def keyed_snoc split: if_splits)

lemma world_ok_issue:
  "world_ok w \<Longrightarrow> is_status n \<in> set issue_states \<Longrightarrow>
   ins (\<lambda>x. (is_world x, is_id x)) n (ticket_issues w) = Inr t \<Longrightarrow> world_ok (w\<lparr>ticket_issues := t\<rparr>)"
  using billing_ok_other [of "w\<lparr>ticket_issues := t\<rparr>" w]
  by (auto simp: world_ok_def world_keys_def ins_def keyed_snoc split: if_splits)

lemma world_ok_issue_status:
  assumes "world_ok w" and "s \<in> set issue_states"
  shows "world_ok (w\<lparr>ticket_issues := upd p (\<lambda>i. i\<lparr>is_status := s\<rparr>) (ticket_issues w)\<rparr>)"
  using assms billing_ok_other [of "w\<lparr>ticket_issues := upd p (\<lambda>i. i\<lparr>is_status := s\<rparr>) (ticket_issues w)\<rparr>" w]
  by (auto simp: world_ok_def world_keys_def keyed_upd dest!: set_updD)

lemma world_ok_account_status:
  assumes "world_ok w"
  shows "world_ok (w\<lparr>crm_accounts := upd p (\<lambda>a. a\<lparr>ac_status := s\<rparr>) (crm_accounts w)\<rparr>)"
  using assms billing_ok_other [of "w\<lparr>crm_accounts := upd p (\<lambda>a. a\<lparr>ac_status := s\<rparr>) (crm_accounts w)\<rparr>" w]
  by (simp add: world_ok_def world_keys_def keyed_upd)

text \<open>A write that adds or changes rows of one world is not seen outside it.\<close>

lemma filter_ins_inside: "ins k r t = Inr t' \<Longrightarrow> \<not> p r \<Longrightarrow> filter p t' = filter p t"
  by (auto simp: ins_def split: if_splits)

lemma filter_upd_inside:
  "(\<And>r. q r \<Longrightarrow> \<not> p r) \<Longrightarrow> (\<And>r. q r \<Longrightarrow> \<not> p (f r)) \<Longrightarrow> filter p (upd q f t) = filter p t"
  by (induction t) (auto simp: upd_def)

lemmas inside = filter_ins_inside filter_upd_inside

text \<open>The issue writes of the ticketing service.\<close>

lemma issues_advance_insert:
  "ins (\<lambda>x. (is_world x, is_id x)) n (ticket_issues w) = Inr t \<Longrightarrow> issues_advance w (w\<lparr>ticket_issues := t\<rparr>)"
  by (auto simp: issues_advance_def ins_Inr sel_append split: option.split)

lemma issues_advance_move:
  assumes "sel (\<lambda>i. (is_world i, is_id i)) (x, y) (ticket_issues w) = Some i"
    and "legal_transition (is_status i) s"
  shows "issues_advance w (w\<lparr>ticket_issues :=
     upd (\<lambda>i. is_world i = x \<and> is_id i = y) (\<lambda>i. i\<lparr>is_status := s\<rparr>) (ticket_issues w)\<rparr>)"
  using assms sel_upd_key [of "\<lambda>i. (is_world i, is_id i)" "(x, y)" "\<lambda>i. i\<lparr>is_status := s\<rparr>" _ "ticket_issues w"]
  by (auto simp: issues_advance_def)

end
