(* ===== verification/Manifest.thy ===== *)
theory Manifest
  imports Service
begin

text \<open>
  The executable surface (\<open>internal/compiler/compiler.go\<close>): operations, the fixed routes of
  the built-in services, and the checks on an operation's contract and on a whole manifest.
  The dispatcher's validation of a call's arguments against an operation is here too.
\<close>

section \<open>Operations and manifests\<close>

record operation =
  op_id :: string
  op_service :: string
  op_method :: string
  op_path :: string
  op_behavior :: string
  op_required :: "string list"
  op_properties :: "(string \<times> string) list"

record manifest =
  mf_digest :: string
  mf_operations :: "operation list"

definition Operation :: "manifest \<Rightarrow> string \<Rightarrow> operation option" where
  "Operation m oid = find (\<lambda>op. op_id op = oid) (mf_operations m)"

section \<open>Routes\<close>

record route =
  rt_method :: string
  rt_path :: string
  rt_behavior :: string
  rt_properties :: "(string \<times> string) list"

definition get_route :: "string \<Rightarrow> string \<Rightarrow> route" where
  "get_route path behavior = \<lparr>rt_method = ''get'', rt_path = path, rt_behavior = behavior,
     rt_properties = [(''id'', ''string'')]\<rparr>"

definition post_route :: "string \<Rightarrow> string \<Rightarrow> (string \<times> string) list \<Rightarrow> route" where
  "post_route path behavior props = \<lparr>rt_method = ''post'', rt_path = path, rt_behavior = behavior,
     rt_properties = props\<rparr>"

definition routes :: "(string \<times> route) list" where
  "routes =
     [(''getCustomer'', get_route ''/customers/{id}'' ''billing.getCustomer''),
      (''listInvoices'', get_route ''/customers/{id}/invoices'' ''billing.listInvoices''),
      (''listCharges'', get_route ''/invoices/{id}/charges'' ''billing.listCharges''),
      (''getCharge'', get_route ''/charges/{id}'' ''billing.getCharge''),
      (''createRefund'', post_route ''/refunds'' ''billing.createRefund''
         [(''charge_id'', ''string''), (''amount_cents'', ''integer''), (''reason'', ''string'')]),
      (''getSubscription'', get_route ''/subscriptions/{id}'' ''billing.getSubscription''),
      (''crmGetAccount'', get_route ''/crm/accounts/{id}'' ''crm.getAccount''),
      (''crmSearchAccounts'', post_route ''/crm/accounts/search'' ''crm.searchAccounts'' [(''query'', ''string'')]),
      (''crmAddAccountNote'', post_route ''/crm/notes'' ''crm.addAccountNote''
         [(''account_id'', ''string''), (''body'', ''string'')]),
      (''crmUpdateAccountStatus'', post_route ''/crm/accounts/status'' ''crm.updateAccountStatus''
         [(''account_id'', ''string''), (''status'', ''string'')]),
      (''ticketCreateIssue'', post_route ''/tickets/issues'' ''ticket.createIssue''
         [(''project_id'', ''string''), (''account_id'', ''string''), (''title'', ''string''), (''priority'', ''string'')]),
      (''ticketGetIssue'', get_route ''/tickets/issues/{id}'' ''ticket.getIssue''),
      (''ticketSearchIssues'', post_route ''/tickets/issues/search'' ''ticket.searchIssues'' [(''query'', ''string'')]),
      (''ticketAddComment'', post_route ''/tickets/comments'' ''ticket.addComment''
         [(''issue_id'', ''string''), (''body'', ''string'')]),
      (''ticketTransitionIssue'', post_route ''/tickets/issues/transition'' ''ticket.transitionIssue''
         [(''issue_id'', ''string''), (''status'', ''string'')]),
      (''messageListChannels'', get_route ''/messages/workspaces/{id}/channels'' ''messaging.listChannels''),
      (''messageReadChannel'', get_route ''/messages/channels/{id}'' ''messaging.readChannel''),
      (''messagePostMessage'', post_route ''/messages/messages'' ''messaging.postMessage''
         [(''channel_id'', ''string''), (''body'', ''string'')])]"

text \<open>\<open>strings.ToUpper\<close> on the two methods there are.\<close>

definition to_upper :: "string \<Rightarrow> string" where
  "to_upper s = map (\<lambda>c. let n = (of_char c :: nat) in if 97 \<le> n \<and> n \<le> 122 then char_of (n - 32) else c) s"

definition validateContract :: "operation \<Rightarrow> unit res" where
  "validateContract op =
     (case map_of routes (op_id op) of
        None \<Rightarrow> Inl (Err ''unsupported path or binding'')
      | Some r \<Rightarrow>
          if op_method op \<noteq> to_upper (rt_method r) \<or> op_path op \<noteq> rt_path r \<or> op_behavior op \<noteq> rt_behavior r
          then Inl (Err ''unsupported path or binding'')
          else if length (op_properties op) \<noteq> length (rt_properties r)
                \<or> length (op_required op) \<noteq> length (rt_properties r)
          then Inl (Err ''unsupported schema'')
          else if list_all (\<lambda>(name, typ). map_of (op_properties op) name = Some typ
                               \<and> name \<in> set (op_required op)) (rt_properties r)
          then Inr () else Inl (Err ''unsupported schema''))"

section \<open>Manifests\<close>

text \<open>A list of required properties without members is nil, which is written \<open>null\<close>.\<close>

definition operation_json :: "operation \<Rightarrow> json" where
  "operation_json op = JObj ([(''id'', JStr (op_id op))]
     @ (if op_service op = [] then [] else [(''service'', JStr (op_service op))])
     @ [(''method'', JStr (op_method op)), (''path'', JStr (op_path op)), (''behavior'', JStr (op_behavior op)),
        (''required'', if op_required op = [] then JNull else JArr (map JStr (op_required op))),
        (''properties'', jmap (map (\<lambda>(k, v). (k, JStr v)) (op_properties op)))])"

definition digestOperations :: "'x golib_scheme \<Rightarrow> operation list \<Rightarrow> string" where
  "digestOperations L ops = hex_digest L (print_json L (JArr (map operation_json ops)))"

fun check_operations :: "string \<Rightarrow> operation list \<Rightarrow> unit res" where
  "check_operations prev [] = Inr ()"
| "check_operations prev (op # ops) =
     (if text_le (op_id op) prev then Inl (Err ''manifest operations are unsorted or duplicated'')
      else bindR (validateContract op) (\<lambda>_. check_operations (op_id op) ops))"

text \<open>The branch for a manifest without world metadata.\<close>

definition ValidateManifest :: "'x golib_scheme \<Rightarrow> manifest \<Rightarrow> unit res" where
  "ValidateManifest L m =
     (if mf_operations m = [] then Inl (Err ''empty manifest'')
      else bindR (check_operations [] (mf_operations m)) (\<lambda>_.
        if digestOperations L (mf_operations m) \<noteq> mf_digest m then Inl (Err ''manifest digest mismatch'')
        else Inr ()))"

section \<open>Argument validation\<close>

text \<open>
  The argument names in sorted order; the first that fails decides the error. \<open>None\<close> is a
  valid call.
\<close>

definition valid_value :: "'x golib_scheme \<Rightarrow> string \<Rightarrow> val \<Rightarrow> bool" where
  "valid_value L typ v =
     (if typ = ''string'' then (case v of VStr s \<Rightarrow> s \<noteq> [] | _ \<Rightarrow> False)
      else if typ = ''integer'' then
        (case v of VInt _ \<Rightarrow> True | VNumber _ \<Rightarrow> True | VFloat r \<Rightarrow> snd (float_int64 L r) | _ \<Rightarrow> False)
      else True)"

fun validate_names :: "'x golib_scheme \<Rightarrow> operation \<Rightarrow> args \<Rightarrow> string list \<Rightarrow> string option" where
  "validate_names L op args [] = None"
| "validate_names L op args (name # names) =
     (case map_of (op_properties op) name of
        None \<Rightarrow> Some (''unexpected '' @ name)
      | Some typ \<Rightarrow>
          if (case map_of args name of None \<Rightarrow> False | Some v \<Rightarrow> valid_value L typ v)
          then validate_names L op args names
          else Some (''invalid '' @ name))"

definition validate :: "'x golib_scheme \<Rightarrow> operation \<Rightarrow> args \<Rightarrow> string option" where
  "validate L op args =
     (case find (\<lambda>name. map_of args name = None) (op_required op) of
        Some name \<Rightarrow> Some (''missing '' @ name)
      | None \<Rightarrow> validate_names L op args (order_by (\<lambda>k. [k]) (remdups (map fst args))))"

section \<open>What validation establishes\<close>

lemma validate_names_None:
  "validate_names L op args names = None \<longleftrightarrow>
   (\<forall>name \<in> set names. \<exists>typ v. map_of (op_properties op) name = Some typ
      \<and> map_of args name = Some v \<and> valid_value L typ v)"
  by (induction names) (auto split: option.splits)

lemma validate_None:
  "validate L op args = None \<longleftrightarrow>
     (\<forall>name \<in> set (op_required op). map_of args name \<noteq> None)
   \<and> (\<forall>name v. map_of args name = Some v \<longrightarrow>
        (\<exists>typ. map_of (op_properties op) name = Some typ \<and> valid_value L typ v))"
proof -
  have dom: "name \<in> set (order_by (\<lambda>k. [k]) (remdups (map fst args))) \<longleftrightarrow> map_of args name \<noteq> None" for name
    by (force simp: map_of_eq_None_iff)
  have req: "find (\<lambda>name. map_of args name = None) (op_required op) = None \<longleftrightarrow>
      (\<forall>name \<in> set (op_required op). map_of args name \<noteq> None)"
    by (auto simp: find_None_iff)
  have names: "validate_names L op args (order_by (\<lambda>k. [k]) (remdups (map fst args))) = None \<longleftrightarrow>
      (\<forall>name v. map_of args name = Some v \<longrightarrow>
         (\<exists>typ. map_of (op_properties op) name = Some typ \<and> valid_value L typ v))"
    unfolding validate_names_None Ball_def dom by auto
  show ?thesis
  proof (cases "find (\<lambda>name. map_of args name = None) (op_required op)")
    case None
    then show ?thesis using names req by (simp add: validate_def)
  next
    case (Some name)
    then show ?thesis using req by (auto simp: validate_def)
  qed
qed

lemma Operation_id: "Operation m oid = Some op \<Longrightarrow> op_id op = oid \<and> op \<in> set (mf_operations m)"
  unfolding Operation_def by (auto simp: find_Some_iff)

end
