(* ===== verification/Authz.thy ===== *)
theory Authz
  imports Manifest
begin

text \<open>
  Authorization (\<open>internal/authz\<close>): the policy stored with a run, the permission of each
  behavior, the decision on one call, and the operations a provider is shown. A run without a
  stored policy is unrestricted. The stored text is decoded by the standard library, so the
  decoder is a field of the library record.
\<close>

section \<open>Policies\<close>

record temporary_grant =
  tg_permission :: string
  tg_starts :: int
  tg_ends :: int

record revocation =
  rv_permission :: string
  rv_after :: int

record policy =
  po_version :: int
  po_principal :: string
  po_principal_roles :: "string list"
  po_roles :: "(string \<times> string list) list"
  po_allow :: "string list"
  po_customers :: "string list option"
  po_channels :: "string list option"
  po_projects :: "string list option"
  po_refund_max :: "int option"
  po_grants :: "temporary_grant list"
  po_revocations :: "revocation list"

record authlib = golib +
  decode_auth :: "string \<Rightarrow> policy option"

definition permissions :: "(string \<times> string) list" where
  "permissions =
     [(''billing.getCustomer'', ''customers.read''), (''billing.listInvoices'', ''invoices.read''),
      (''billing.listCharges'', ''charges.read''), (''billing.getCharge'', ''charges.read''),
      (''billing.createRefund'', ''refunds.create''), (''billing.getSubscription'', ''subscriptions.read''),
      (''crm.getAccount'', ''crm.accounts.read''), (''crm.searchAccounts'', ''crm.accounts.read''),
      (''crm.addAccountNote'', ''crm.notes.write''), (''crm.updateAccountStatus'', ''crm.accounts.write''),
      (''ticket.createIssue'', ''jira.issues.create''), (''ticket.getIssue'', ''jira.issues.read''),
      (''ticket.searchIssues'', ''jira.issues.read''), (''ticket.addComment'', ''jira.comments.write''),
      (''ticket.transitionIssue'', ''jira.issues.transition''),
      (''messaging.listChannels'', ''slack.channels.read''), (''messaging.readChannel'', ''slack.messages.read''),
      (''messaging.postMessage'', ''slack.messages.write'')]"

definition Permission :: "operation \<Rightarrow> string option" where
  "Permission op = map_of permissions (op_behavior op)"

definition known :: "string \<Rightarrow> bool" where
  "known permission \<longleftrightarrow> permission \<in> set (map snd permissions)"

section \<open>Reasons\<close>

definition ReasonUnmapped :: string where "ReasonUnmapped = ''behavior_unmapped''"
definition ReasonNotGranted :: string where "ReasonNotGranted = ''permission_not_granted''"
definition ReasonRevoked :: string where "ReasonRevoked = ''permission_revoked''"
definition ReasonCustomerScope :: string where "ReasonCustomerScope = ''customer_out_of_scope''"
definition ReasonChannelScope :: string where "ReasonChannelScope = ''channel_out_of_scope''"
definition ReasonProjectScope :: string where "ReasonProjectScope = ''project_out_of_scope''"
definition ReasonBroadSearch :: string where "ReasonBroadSearch = ''broad_search_scoped''"
definition ReasonRefundLimit :: string where "ReasonRefundLimit = ''refund_limit_exceeded''"

lemmas reason_defs = ReasonUnmapped_def ReasonNotGranted_def ReasonRevoked_def ReasonCustomerScope_def
  ReasonChannelScope_def ReasonProjectScope_def ReasonBroadSearch_def ReasonRefundLimit_def

record auth_decision =
  ad_enforced :: bool
  ad_invalid :: bool
  ad_allowed :: bool
  ad_principal :: string
  ad_permission :: string
  ad_reason :: string
  ad_call :: int

definition no_decision :: auth_decision where
  "no_decision = \<lparr>ad_enforced = False, ad_invalid = False, ad_allowed = False, ad_principal = [],
     ad_permission = [], ad_reason = [], ad_call = 0\<rparr>"

section \<open>Arguments the handlers would reject\<close>

definition wholeNumber :: "'x golib_scheme \<Rightarrow> val option \<Rightarrow> int \<times> bool" where
  "wholeNumber L v =
     (case v of
        Some (VInt n) \<Rightarrow> (n, True)
      | Some (VFloat r) \<Rightarrow> float_int64 L r
      | Some (VNumber s) \<Rightarrow> parse_int64 s
      | _ \<Rightarrow> (0, False))"

definition nonBlankArgs :: "(string \<times> string list) list" where
  "nonBlankArgs =
     [(''crm.searchAccounts'', [''query'']), (''crm.getAccount'', [''id'']),
      (''crm.addAccountNote'', [''account_id'', ''body'']), (''crm.updateAccountStatus'', [''account_id'']),
      (''ticket.createIssue'', [''project_id'', ''account_id'', ''title'']), (''ticket.getIssue'', [''id'']),
      (''ticket.searchIssues'', [''query'']), (''ticket.addComment'', [''issue_id'', ''body'']),
      (''ticket.transitionIssue'', [''issue_id'']), (''messaging.postMessage'', [''channel_id'', ''body''])]"

definition allowedValues :: "(string \<times> string \<times> string list) list" where
  "allowedValues =
     [(''crm.updateAccountStatus'', ''status'', [''active'', ''needs_followup'', ''resolved'']),
      (''ticket.createIssue'', ''priority'', [''low'', ''medium'', ''high'']),
      (''ticket.transitionIssue'', ''status'', [''open'', ''in_progress'', ''resolved''])]"

definition entries :: "string \<Rightarrow> (string \<times> 'a list) list \<Rightarrow> 'a list" where
  "entries key t = (case map_of t key of None \<Rightarrow> [] | Some xs \<Rightarrow> xs)"

definition handlerValid :: "'x golib_scheme \<Rightarrow> string \<Rightarrow> args \<Rightarrow> bool" where
  "handlerValid L behavior args \<longleftrightarrow>
     list_all (\<lambda>name. case string_arg args name of None \<Rightarrow> False | Some s \<Rightarrow> \<not> blank s)
       (entries behavior nonBlankArgs)
   \<and> (case map_of allowedValues behavior of
        None \<Rightarrow> True
      | Some (name, values) \<Rightarrow>
          (case string_arg args name of None \<Rightarrow> [] | Some s \<Rightarrow> s) \<in> set values)
   \<and> (behavior = ''billing.createRefund'' \<longrightarrow>
        (case wholeNumber L (map_of args ''amount_cents'') of (amount, whole) \<Rightarrow> whole \<and> amount > 0))"

section \<open>Grants\<close>

definition active_grant :: "policy \<Rightarrow> string \<Rightarrow> int \<Rightarrow> bool" where
  "active_grant p permission call \<longleftrightarrow>
     permission \<in> set (po_allow p)
   \<or> (\<exists>role \<in> set (po_principal_roles p). permission \<in> set (entries role (po_roles p)))
   \<or> (\<exists>g \<in> set (po_grants p). tg_permission g = permission \<and> tg_starts g \<le> call \<and> call \<le> tg_ends g)"

definition grantReason :: "policy \<Rightarrow> string \<Rightarrow> int \<Rightarrow> string" where
  "grantReason p permission call =
     (if \<not> active_grant p permission call then ReasonNotGranted
      else if \<exists>r \<in> set (po_revocations p). rv_permission r = permission \<and> call > rv_after r
      then ReasonRevoked else [])"

definition broad :: "policy \<Rightarrow> string \<Rightarrow> bool" where
  "broad p behavior =
     (if behavior = ''crm.searchAccounts'' \<or> behavior = ''ticket.searchIssues'' then po_customers p \<noteq> None
      else if behavior = ''messaging.listChannels'' then po_channels p \<noteq> None
      else False)"

section \<open>Resources\<close>

text \<open>The queries that resolve a resource to its customer, and the argument that names it.\<close>

definition customer_self :: "world_tables \<Rightarrow> string \<Rightarrow> string option \<Rightarrow> string option" where
  "customer_self w worldID key =
     map_option cu_id (find (\<lambda>c. cu_world c = worldID \<and> Some (cu_id c) = key) (customers w))"

definition subscription_customer :: "world_tables \<Rightarrow> string \<Rightarrow> string option \<Rightarrow> string option" where
  "subscription_customer w worldID key =
     map_option su_customer (find (\<lambda>s. su_world s = worldID \<and> Some (su_id s) = key) (subscriptions w))"

definition invoice_customer :: "world_tables \<Rightarrow> string \<Rightarrow> string option \<Rightarrow> string option" where
  "invoice_customer w worldID key =
     map_option in_customer (find (\<lambda>i. in_world i = worldID \<and> Some (in_id i) = key) (invoices w))"

definition chargeCustomer :: "world_tables \<Rightarrow> string \<Rightarrow> string option \<Rightarrow> string option" where
  "chargeCustomer w worldID key =
     (case find (\<lambda>c. ch_world c = worldID \<and> Some (ch_id c) = key) (charges w) of
        None \<Rightarrow> None
      | Some c \<Rightarrow> invoice_customer w (ch_world c) (Some (ch_invoice c)))"

definition accountCustomer :: "world_tables \<Rightarrow> string \<Rightarrow> string option \<Rightarrow> string option" where
  "accountCustomer w worldID key =
     map_option ac_customer (find (\<lambda>a. ac_world a = worldID \<and> Some (ac_id a) = key) (crm_accounts w))"

definition issueCustomer :: "world_tables \<Rightarrow> string \<Rightarrow> string option \<Rightarrow> string option" where
  "issueCustomer w worldID key =
     (case find (\<lambda>i. is_world i = worldID \<and> Some (is_id i) = key) (ticket_issues w) of
        None \<Rightarrow> None
      | Some i \<Rightarrow> accountCustomer w (is_world i) (Some (is_account i)))"

definition customerLookups ::
    "(string \<times> string \<times> (world_tables \<Rightarrow> string \<Rightarrow> string option \<Rightarrow> string option)) list" where
  "customerLookups =
     [(''billing.getCustomer'', ''id'', customer_self), (''billing.listInvoices'', ''id'', customer_self),
      (''billing.getSubscription'', ''id'', subscription_customer), (''billing.listCharges'', ''id'', invoice_customer),
      (''billing.getCharge'', ''id'', chargeCustomer), (''billing.createRefund'', ''charge_id'', chargeCustomer),
      (''crm.getAccount'', ''id'', accountCustomer), (''crm.addAccountNote'', ''account_id'', accountCustomer),
      (''crm.updateAccountStatus'', ''account_id'', accountCustomer),
      (''ticket.createIssue'', ''account_id'', accountCustomer), (''ticket.getIssue'', ''id'', issueCustomer),
      (''ticket.addComment'', ''issue_id'', issueCustomer), (''ticket.transitionIssue'', ''issue_id'', issueCustomer)]"

text \<open>The customer and whether the behavior has a customer resource at all.\<close>

definition CustomerOf ::
    "'x golib_scheme \<Rightarrow> world_tables \<Rightarrow> string \<Rightarrow> string \<Rightarrow> args \<Rightarrow> (string \<times> bool) res" where
  "CustomerOf L w worldID behavior args =
     (case map_of customerLookups behavior of
        None \<Rightarrow> Inr ([], False)
      | Some (arg, lookup) \<Rightarrow>
          bindR (sql_param L (map_of args arg)) (\<lambda>key.
            Inr (case lookup w worldID key of None \<Rightarrow> ([], True) | Some c \<Rightarrow> (c, True))))"

definition channelArgs :: "(string \<times> string) list" where
  "channelArgs = [(''messaging.readChannel'', ''id''), (''messaging.postMessage'', ''channel_id'')]"

definition arg_text :: "args \<Rightarrow> string \<Rightarrow> string" where
  "arg_text args name = (case string_arg args name of None \<Rightarrow> [] | Some s \<Rightarrow> s)"

definition out_of :: "string list option \<Rightarrow> string \<Rightarrow> bool" where
  "out_of scope x = (case scope of None \<Rightarrow> False | Some xs \<Rightarrow> x \<notin> set xs)"

definition resourceReason ::
    "'x golib_scheme \<Rightarrow> policy \<Rightarrow> world_tables \<Rightarrow> string \<Rightarrow> string \<Rightarrow> args \<Rightarrow> string res" where
  "resourceReason L p w worldID behavior args =
     (if broad p behavior then Inr ReasonBroadSearch
      else bindR (if po_customers p = None then Inr ([], False) else CustomerOf L w worldID behavior args)
        (\<lambda>(customer, scoped).
          if scoped \<and> out_of (po_customers p) customer then Inr ReasonCustomerScope
          else if (case map_of channelArgs behavior of None \<Rightarrow> False
                   | Some arg \<Rightarrow> out_of (po_channels p) (arg_text args arg)) then Inr ReasonChannelScope
          else if behavior = ''ticket.createIssue'' \<and> out_of (po_projects p) (arg_text args ''project_id'')
          then Inr ReasonProjectScope
          else if behavior = ''billing.createRefund'' \<and>
                  (case po_refund_max p of None \<Rightarrow> False
                   | Some limit \<Rightarrow>
                       (case wholeNumber L (map_of args ''amount_cents'') of
                          (amount, whole) \<Rightarrow> \<not> whole \<or> amount > limit))
          then Inr ReasonRefundLimit
          else Inr []))"

section \<open>The decision\<close>

definition Screen ::
    "'x golib_scheme \<Rightarrow> world_tables \<Rightarrow> string \<Rightarrow> policy \<Rightarrow> operation \<Rightarrow> args \<Rightarrow> int \<Rightarrow> auth_decision res" where
  "Screen L w worldID p op args call =
     (if \<not> handlerValid L (op_behavior op) args
      then Inr (no_decision\<lparr>ad_enforced := True, ad_invalid := True, ad_principal := po_principal p\<rparr>)
      else
        let d = no_decision\<lparr>ad_enforced := True, ad_principal := po_principal p, ad_call := call\<rparr> in
        case Permission op of
          None \<Rightarrow> Inr (d\<lparr>ad_reason := ReasonUnmapped\<rparr>)
        | Some permission \<Rightarrow>
            let d1 = d\<lparr>ad_permission := permission, ad_reason := grantReason p permission call\<rparr> in
            if ad_reason d1 \<noteq> [] then Inr d1
            else bindR (resourceReason L p w worldID (op_behavior op) args) (\<lambda>reason.
              Inr (d1\<lparr>ad_reason := reason, ad_allowed := (reason = [])\<rparr>)))"

definition load :: "'x authlib_scheme \<Rightarrow> string \<Rightarrow> db \<Rightarrow> policy option res" where
  "load L runID d =
     (case sel rp_run runID (run_auth (db_policy d)) of
        None \<Rightarrow> Inr None
      | Some row \<Rightarrow>
          if hex_digest L (rp_json row) \<noteq> rp_digest row
          then Inl (Err ''authorization policy digest mismatch'')
          else (case decode_auth L (rp_json row) of
              None \<Rightarrow> Inl (Err ''json'')
            | Some p \<Rightarrow>
                if po_version p \<noteq> 1 then Inl (Err ''unsupported stored authorization policy version'')
                else Inr (Some p)))"

definition next_call :: "string \<Rightarrow> policy_tables \<Rightarrow> policy_tables" where
  "next_call runID t =
     t\<lparr>auth_state := upsert as_run \<lparr>as_run = runID, as_call = 1\<rparr> (\<lambda>r. r\<lparr>as_call := as_call r + 1\<rparr>) (auth_state t)\<rparr>"

definition call_index :: "string \<Rightarrow> policy_tables \<Rightarrow> nat" where
  "call_index runID t = (case sel as_run runID (auth_state t) of None \<Rightarrow> 0 | Some r \<Rightarrow> as_call r)"

definition Decide :: "'x authlib_scheme \<Rightarrow> string \<Rightarrow> string \<Rightarrow> operation \<Rightarrow> args \<Rightarrow> auth_decision tx" where
  "Decide L runID worldID op args d =
     bindR (load L runID d) (\<lambda>stored.
     case stored of
       None \<Rightarrow> Inr (no_decision, d)
     | Some p \<Rightarrow>
         if \<not> handlerValid L (op_behavior op) args
         then Inr (no_decision\<lparr>ad_enforced := True, ad_invalid := True, ad_principal := po_principal p\<rparr>, d)
         else
           let d1 = map_policy (next_call runID) d in
           bindR (Screen L (db_world d1) worldID p op args (int (call_index runID (db_policy d1))))
             (\<lambda>decision. Inr (decision, d1)))"

definition Exposed :: "'x authlib_scheme \<Rightarrow> string \<Rightarrow> operation list \<Rightarrow> db \<Rightarrow> operation list res" where
  "Exposed L runID ops d =
     bindR (load L runID d) (\<lambda>stored.
     case stored of
       None \<Rightarrow> Inr ops
     | Some p \<Rightarrow>
         Inr (filter (\<lambda>op. case Permission op of None \<Rightarrow> False
                | Some permission \<Rightarrow>
                    grantReason p permission (int (call_index runID (db_policy d)) + 1) = []
                  \<and> \<not> broad p (op_behavior op)) ops))"

text \<open>A fork child gets the policy and the call counter of the run it starts from.\<close>

definition auth_CopyRun :: "db \<Rightarrow> string \<Rightarrow> string \<Rightarrow> unit tx" where
  "auth_CopyRun source from to target =
     (case sel rp_run from (run_auth (db_policy source)) of
        None \<Rightarrow> Inr ((), target)
      | Some row \<Rightarrow>
          bindR (ins rp_run \<lparr>rp_run = to, rp_json = rp_json row, rp_digest = rp_digest row\<rparr>
                   (run_auth (db_policy target))) (\<lambda>t.
          let target1 = map_policy (\<lambda>p. p\<lparr>run_auth := t\<rparr>) target in
          case sel as_run from (auth_state (db_policy source)) of
            None \<Rightarrow> Inr ((), target1)
          | Some s \<Rightarrow>
              bindR (ins as_run \<lparr>as_run = to, as_call = as_call s\<rparr> (auth_state (db_policy target1))) (\<lambda>t'.
              Inr ((), map_policy (\<lambda>p. p\<lparr>auth_state := t'\<rparr>) target1))))"

section \<open>What a decision means\<close>

text \<open>
  An independent statement of the scope a policy sets: the customer, channel and project
  limits and the refund cap, each only where the policy has one.
\<close>

definition in_scope :: "'x golib_scheme \<Rightarrow> policy \<Rightarrow> world_tables \<Rightarrow> string \<Rightarrow> string \<Rightarrow> args \<Rightarrow> bool" where
  "in_scope L p w worldID behavior args \<longleftrightarrow>
     (\<forall>ids. po_customers p = Some ids \<longrightarrow>
        behavior \<notin> {''crm.searchAccounts'', ''ticket.searchIssues''}
      \<and> (\<forall>customer. CustomerOf L w worldID behavior args = Inr (customer, True) \<longrightarrow> customer \<in> set ids))
   \<and> (\<forall>ids. po_channels p = Some ids \<longrightarrow>
        behavior \<noteq> ''messaging.listChannels''
      \<and> (behavior = ''messaging.readChannel'' \<longrightarrow> arg_text args ''id'' \<in> set ids)
      \<and> (behavior = ''messaging.postMessage'' \<longrightarrow> arg_text args ''channel_id'' \<in> set ids))
   \<and> (\<forall>ids. po_projects p = Some ids \<longrightarrow> behavior = ''ticket.createIssue'' \<longrightarrow>
        arg_text args ''project_id'' \<in> set ids)
   \<and> (\<forall>limit. po_refund_max p = Some limit \<longrightarrow> behavior = ''billing.createRefund'' \<longrightarrow>
        snd (wholeNumber L (map_of args ''amount_cents''))
      \<and> fst (wholeNumber L (map_of args ''amount_cents'')) \<le> limit)"

lemma reasons_nonempty [simp]:
  "ReasonUnmapped \<noteq> []" "ReasonNotGranted \<noteq> []" "ReasonRevoked \<noteq> []" "ReasonCustomerScope \<noteq> []"
  "ReasonChannelScope \<noteq> []" "ReasonProjectScope \<noteq> []" "ReasonBroadSearch \<noteq> []" "ReasonRefundLimit \<noteq> []"
  by (simp_all add: reason_defs)

lemma grantReason_ok:
  "grantReason p permission call = [] \<longleftrightarrow>
   active_grant p permission call
   \<and> (\<forall>r \<in> set (po_revocations p). rv_permission r = permission \<longrightarrow> call \<le> rv_after r)"
  by (auto simp: grantReason_def)

text \<open>The five checks of a call, in the order they are made.\<close>

definition channel_out :: "policy \<Rightarrow> string \<Rightarrow> args \<Rightarrow> bool" where
  "channel_out p behavior args =
     (case map_of channelArgs behavior of None \<Rightarrow> False
      | Some arg \<Rightarrow> out_of (po_channels p) (arg_text args arg))"

definition over_cap :: "'x golib_scheme \<Rightarrow> policy \<Rightarrow> args \<Rightarrow> bool" where
  "over_cap L p args =
     (case po_refund_max p of None \<Rightarrow> False
      | Some limit \<Rightarrow> (case wholeNumber L (map_of args ''amount_cents'') of
          (amount, whole) \<Rightarrow> \<not> whole \<or> amount > limit))"

lemma channel_out_iff:
  "channel_out p behavior args \<longleftrightarrow>
   (\<exists>ids. po_channels p = Some ids \<and>
      (behavior = ''messaging.readChannel'' \<and> arg_text args ''id'' \<notin> set ids
     \<or> behavior = ''messaging.postMessage'' \<and> arg_text args ''channel_id'' \<notin> set ids))"
  by (auto simp: channel_out_def channelArgs_def out_of_def split: option.splits)

lemma over_cap_iff:
  "over_cap L p args \<longleftrightarrow>
   (\<exists>limit. po_refund_max p = Some limit \<and>
      \<not> (snd (wholeNumber L (map_of args ''amount_cents''))
         \<and> fst (wholeNumber L (map_of args ''amount_cents'')) \<le> limit))"
  by (auto simp: over_cap_def split: option.splits prod.splits)

lemma broad_iff:
  "broad p behavior \<longleftrightarrow>
      (\<exists>ids. po_customers p = Some ids) \<and> behavior \<in> {''crm.searchAccounts'', ''ticket.searchIssues''}
    \<or> (\<exists>ids. po_channels p = Some ids) \<and> behavior = ''messaging.listChannels''"
  by (auto simp: broad_def)

lemma resourceReason_eq:
  "resourceReason L p w worldID behavior args =
     (if broad p behavior then Inr ReasonBroadSearch
      else bindR (if po_customers p = None then Inr ([], False) else CustomerOf L w worldID behavior args)
        (\<lambda>(customer, scoped).
          if scoped \<and> out_of (po_customers p) customer then Inr ReasonCustomerScope
          else if channel_out p behavior args then Inr ReasonChannelScope
          else if behavior = ''ticket.createIssue'' \<and> out_of (po_projects p) (arg_text args ''project_id'')
          then Inr ReasonProjectScope
          else if behavior = ''billing.createRefund'' \<and> over_cap L p args then Inr ReasonRefundLimit
          else Inr []))"
  by (simp only: resourceReason_def channel_out_def over_cap_def)

lemma resourceReason_ok:
  assumes "resourceReason L p w worldID behavior args = Inr reason"
  shows "reason = [] \<longleftrightarrow> in_scope L p w worldID behavior args"
proof (cases "broad p behavior")
  case True
  then have "reason = ReasonBroadSearch" using assms by (simp add: resourceReason_eq)
  moreover have "\<not> in_scope L p w worldID behavior args"
    using True unfolding in_scope_def broad_iff by (elim disjE conjE exE) simp_all
  ultimately show ?thesis by simp
next
  case False
  obtain customer scoped where
    c: "(if po_customers p = None then Inr ([], False) else CustomerOf L w worldID behavior args)
        = Inr (customer, scoped)"
    and r: "reason = [] \<longleftrightarrow>
        \<not> (scoped \<and> out_of (po_customers p) customer) \<and> \<not> channel_out p behavior args
        \<and> \<not> (behavior = ''ticket.createIssue'' \<and> out_of (po_projects p) (arg_text args ''project_id''))
        \<and> \<not> (behavior = ''billing.createRefund'' \<and> over_cap L p args)"
  proof -
    obtain x where x: "(if po_customers p = None then Inr ([], False) else CustomerOf L w worldID behavior args) = Inr x"
      using assms False unfolding resourceReason_eq
      by (cases "if po_customers p = None then Inr ([], False) else CustomerOf L w worldID behavior args")
        (simp_all only: bindR.simps if_False sum.distinct)
    obtain customer scoped where "x = (customer, scoped)" by (cases x)
    then show ?thesis
      using that [of customer scoped] assms x False unfolding resourceReason_eq
      by (simp only: bindR.simps if_False prod.case) (auto split: if_splits)
  qed
  have cust: "scoped \<and> out_of (po_customers p) customer \<longleftrightarrow>
      (\<exists>ids. po_customers p = Some ids \<and>
        \<not> (\<forall>x. CustomerOf L w worldID behavior args = Inr (x, True) \<longrightarrow> x \<in> set ids))"
    using c by (auto simp: out_of_def split: option.splits if_splits)
  have proj: "out_of (po_projects p) (arg_text args ''project_id'') \<longleftrightarrow>
      (\<exists>ids. po_projects p = Some ids \<and> arg_text args ''project_id'' \<notin> set ids)"
    by (auto simp: out_of_def split: option.splits)
  show ?thesis
    unfolding r cust proj channel_out_iff over_cap_iff in_scope_def
    using False unfolding broad_iff by (cases "po_customers p"; cases "po_channels p"; cases "po_projects p"; cases "po_refund_max p") auto
qed

lemma Screen_allowed:
  assumes "Screen L w worldID p op args call = Inr dec"
  shows "ad_allowed dec \<longleftrightarrow>
     handlerValid L (op_behavior op) args
   \<and> (\<exists>permission. Permission op = Some permission \<and> grantReason p permission call = [])
   \<and> in_scope L p w worldID (op_behavior op) args"
  using assms resourceReason_ok [of L p w worldID "op_behavior op" args]
  by (auto simp: Screen_def no_decision_def Let_def split: if_splits option.splits)


lemma call_index_next: "call_index runID (next_call runID t) = call_index runID t + 1"
  by (simp add: call_index_def next_call_def sel_upsert split: option.split)

lemma Decide_ok:
  assumes "Decide L runID worldID op args d = Inr (dec, d')" and "load L runID d = Inr (Some p)"
  shows "\<not> handlerValid L (op_behavior op) args \<Longrightarrow> ad_invalid dec \<and> \<not> ad_allowed dec \<and> d' = d"
    and "handlerValid L (op_behavior op) args \<Longrightarrow> d' = map_policy (next_call runID) d
       \<and> Screen L (db_world d) worldID p op args (int (call_index runID (db_policy d)) + 1) = Inr dec"
  using assms by (auto simp: Decide_def no_decision_def Let_def call_index_next add.commute split: if_splits)

text \<open>
  C28. Authorization is sound and complete. For a run with a stored policy, a call is allowed
  exactly when its arguments are ones the handler accepts, the behavior has a permission, that
  permission is granted directly, through a role of the principal or by a temporary grant
  covering this call number, it has not been revoked by this call number, and the resources
  the call touches are inside the policy's customer, channel, project and refund limits.
\<close>

theorem authorization_exact:
  assumes "load L runID d = Inr (Some p)" and "Decide L runID worldID op args d = Inr (dec, d')"
  shows "ad_allowed dec \<longleftrightarrow>
     handlerValid L (op_behavior op) args
   \<and> (\<exists>permission. map_of permissions (op_behavior op) = Some permission
        \<and> active_grant p permission (int (call_index runID (db_policy d)) + 1)
        \<and> (\<forall>r \<in> set (po_revocations p). rv_permission r = permission \<longrightarrow>
             int (call_index runID (db_policy d)) + 1 \<le> rv_after r))
   \<and> in_scope L p (db_world d) worldID (op_behavior op) args"
proof (cases "handlerValid L (op_behavior op) args")
  case True
  then have "Screen L (db_world d) worldID p op args (int (call_index runID (db_policy d)) + 1) = Inr dec"
    using Decide_ok(2) [OF assms(2,1)] by simp
  from Screen_allowed [OF this] True show ?thesis
    by (simp add: grantReason_ok Permission_def)
next
  case False
  then show ?thesis using Decide_ok(1) [OF assms(2,1)] by simp
qed

definition sample_policy :: policy where
  "sample_policy = \<lparr>po_version = 1, po_principal = ''agent'', po_principal_roles = [''support''],
     po_roles = [(''support'', [''customers.read'', ''refunds.create''])], po_allow = [],
     po_customers = Some [''C-104''], po_channels = None, po_projects = None, po_refund_max = Some 2000,
     po_grants = [], po_revocations = [\<lparr>rv_permission = ''customers.read'', rv_after = 3\<rparr>]\<rparr>"

definition sample_authlib :: authlib where
  "sample_authlib = golib.extend sample_lib \<lparr>decode_auth = (\<lambda>_. Some sample_policy)\<rparr>"

definition secured_db :: db where
  "secured_db = sample_db\<lparr>db_policy := empty_policy\<lparr>run_auth := [\<lparr>rp_run = ''R'', rp_json = [], rp_digest = []\<rparr>]\<rparr>\<rparr>"

definition op_getCustomer :: operation where
  "op_getCustomer = \<lparr>op_id = ''getCustomer'', op_service = [], op_method = ''GET'', op_path = ''/customers/{id}'',
     op_behavior = ''billing.getCustomer'', op_required = [''id''], op_properties = [(''id'', ''string'')]\<rparr>"

definition op_readChannel :: operation where
  "op_readChannel = \<lparr>op_id = ''messageReadChannel'', op_service = [], op_method = ''GET'',
     op_path = ''/messages/channels/{id}'', op_behavior = ''messaging.readChannel'', op_required = [''id''],
     op_properties = [(''id'', ''string'')]\<rparr>"

lemmas auth_sample_defs = sample_policy_def sample_authlib_def secured_db_def op_getCustomer_def
  op_readChannel_def golib.defs

lemma secured_load: "load sample_authlib ''R'' secured_db = Inr (Some sample_policy)"
  by (simp add: load_def auth_sample_defs sample_defs hex_digest_def hex_encode_def)

lemma secured_decide:
  "\<exists>dec d'. Decide sample_authlib ''R'' ''W'' op_getCustomer [(''id'', VStr ''C-104'')] secured_db = Inr (dec, d')
     \<and> ad_allowed dec"
  by (simp add: Decide_def load_def hex_digest_def hex_encode_def Screen_def handlerValid_def entries_def nonBlankArgs_def allowedValues_def
      Permission_def permissions_def grantReason_def active_grant_def resourceReason_def CustomerOf_def
      customerLookups_def customer_self_def sql_param_def broad_def out_of_def channelArgs_def no_decision_def
      next_call_def call_index_def upsert_def Let_def auth_sample_defs sample_defs)

theorem authorization_exact_witness:
  "in_scope sample_authlib sample_policy sample_world ''W'' ''billing.getCustomer'' [(''id'', VStr ''C-104'')]"
proof -
  obtain dec d' where d: "Decide sample_authlib ''R'' ''W'' op_getCustomer [(''id'', VStr ''C-104'')] secured_db = Inr (dec, d')"
      "ad_allowed dec"
    using secured_decide by (elim exE conjE) (rule that)
  have "db_world secured_db = sample_world" "op_behavior op_getCustomer = ''billing.getCustomer''"
    by (simp_all add: auth_sample_defs sample_db_def)
  then show ?thesis using authorization_exact [OF secured_load d(1)] d(2) by simp
qed

text \<open>
  What is hidden is denied. An operation the provider is not shown before its next call
  would be refused at that call, whatever arguments it came with: hiding operations never
  takes away something the policy allows, so the filter is only a convenience.
\<close>

theorem hidden_operations_denied:
  assumes "load L runID d = Inr (Some p)" and "Exposed L runID ops d = Inr shown"
    and "op \<in> set ops" and "op \<notin> set shown"
    and "Decide L runID worldID op args d = Inr (dec, d')"
  shows "\<not> ad_allowed dec"
proof
  assume ok: "ad_allowed dec"
  let ?n = "int (call_index runID (db_policy d)) + 1"
  have v: "handlerValid L (op_behavior op) args" using ok Decide_ok(1) [OF assms(5,1)] by blast
  have s: "Screen L (db_world d) worldID p op args ?n = Inr dec" using Decide_ok(2) [OF assms(5,1) v] by simp
  then obtain permission where perm: "Permission op = Some permission" "grantReason p permission ?n = []"
      and scope: "in_scope L p (db_world d) worldID (op_behavior op) args"
    using Screen_allowed [OF s] ok by auto
  have "\<not> broad p (op_behavior op)"
  proof
    assume "broad p (op_behavior op)"
    then show False using scope unfolding broad_iff in_scope_def by (elim disjE conjE exE) simp_all
  qed
  then have "op \<in> set shown" using assms(1-3) perm by (auto simp: Exposed_def)
  with assms(4) show False by blast
qed

lemma readChannel_hidden:
  "Exposed sample_authlib ''R'' [op_getCustomer, op_readChannel] secured_db = Inr [op_getCustomer]"
  by (simp add: Exposed_def load_def hex_digest_def hex_encode_def Permission_def permissions_def grantReason_def active_grant_def
      entries_def broad_def call_index_def reason_defs auth_sample_defs sample_defs)

lemma readChannel_decided:
  "\<exists>dec d'. Decide sample_authlib ''R'' ''W'' op_readChannel [(''id'', VStr ''CH-SUPPORT'')] secured_db = Inr (dec, d')"
  by (simp add: Decide_def load_def hex_digest_def hex_encode_def Screen_def handlerValid_def entries_def nonBlankArgs_def allowedValues_def
      Permission_def permissions_def grantReason_def active_grant_def resourceReason_def CustomerOf_def
      customerLookups_def broad_def out_of_def channelArgs_def no_decision_def reason_defs
      next_call_def call_index_def upsert_def Let_def auth_sample_defs sample_defs)

theorem hidden_operations_denied_witness:
  "\<exists>dec d'. Decide sample_authlib ''R'' ''W'' op_readChannel [(''id'', VStr ''CH-SUPPORT'')] secured_db = Inr (dec, d')
     \<and> \<not> ad_allowed dec"
proof -
  obtain dec d' where d: "Decide sample_authlib ''R'' ''W'' op_readChannel [(''id'', VStr ''CH-SUPPORT'')] secured_db
      = Inr (dec, d')"
    using readChannel_decided by (elim exE) (rule that)
  have "op_readChannel \<notin> set [op_getCustomer]" by (simp add: op_readChannel_def op_getCustomer_def)
  with hidden_operations_denied [OF secured_load readChannel_hidden _ _ d] have "\<not> ad_allowed dec" by simp
  with d show ?thesis by (intro exI conjI)
qed

end
