(* ===== verification/Chaos.thy ===== *)
theory Chaos
  imports Authz
begin

text \<open>
  Fault injection (\<open>internal/chaos\<close>): the rules stored with a run, the choice of the rule
  that fires on a call, snapshots for stale reads, and copying a run's chaos state to a fork.
  Rule counters live in the database, so a decision is part of the dispatcher's transaction.
\<close>

section \<open>Policies\<close>

record actor =
  at_operation :: string
  at_arguments :: args

record rule =
  cr_id :: string
  cr_type :: string
  cr_operations :: "string list"
  cr_status :: int
  cr_times :: int
  cr_after :: int
  cr_duration :: int
  cr_body :: string
  cr_actor :: "actor option"

record chaos_policy =
  cp_version :: int
  cp_rules :: "rule list"

record lib = authlib +
  decode_chaos :: "string \<Rightarrow> chaos_policy option"

definition zero_rule :: rule where
  "zero_rule = \<lparr>cr_id = [], cr_type = [], cr_operations = [], cr_status = 0, cr_times = 0, cr_after = 0,
     cr_duration = 0, cr_body = [], cr_actor = None\<rparr>"

record decision =
  cd_id :: string
  cd_rule :: rule
  cd_match :: nat
  cd_captures :: "string list"

definition no_rule :: decision where
  "no_rule = \<lparr>cd_id = [], cd_rule = zero_rule, cd_match = 0, cd_captures = []\<rparr>"

section \<open>Snapshots\<close>

definition argumentDigest :: "'x golib_scheme \<Rightarrow> string \<Rightarrow> json \<Rightarrow> string" where
  "argumentDigest L operationID arguments =
     hex_digest L (operationID @ [char_of (0 :: nat)] @ print_json L arguments)"

text \<open>The first observation for an argument set is kept (\<open>ON CONFLICT DO NOTHING\<close>).\<close>

definition SaveSnapshot ::
    "'x golib_scheme \<Rightarrow> string \<Rightarrow> string \<Rightarrow> string \<Rightarrow> json \<Rightarrow> int \<Rightarrow> json \<Rightarrow> db \<Rightarrow> db" where
  "SaveSnapshot L runID ruleID operationID arguments status body d =
     map_policy (\<lambda>t. t\<lparr>chaos_snapshots :=
       upsert (\<lambda>s. (sn_run s, sn_rule s, sn_arguments_digest s))
         \<lparr>sn_run = runID, sn_rule = ruleID, sn_arguments_digest = argumentDigest L operationID arguments,
          sn_status = status, sn_body = body\<rparr> id (chaos_snapshots t)\<rparr>) d"

definition LoadSnapshot ::
    "'x golib_scheme \<Rightarrow> string \<Rightarrow> string \<Rightarrow> string \<Rightarrow> json \<Rightarrow> db \<Rightarrow> (int \<times> json) option" where
  "LoadSnapshot L runID ruleID operationID arguments d =
     map_option (\<lambda>s. (sn_status s, sn_body s))
       (sel (\<lambda>s. (sn_run s, sn_rule s, sn_arguments_digest s))
          (runID, ruleID, argumentDigest L operationID arguments) (chaos_snapshots (db_policy d)))"

section \<open>The decision\<close>

definition rule_state :: "string \<Rightarrow> string \<Rightarrow> db \<Rightarrow> rule_state_row option" where
  "rule_state runID ruleID d =
     sel (\<lambda>s. (cs_run s, cs_rule s)) (runID, ruleID) (chaos_rule_state (db_policy d))"

definition count_call :: "string \<Rightarrow> string \<Rightarrow> db \<Rightarrow> db" where
  "count_call runID ruleID =
     map_policy (\<lambda>t. t\<lparr>chaos_rule_state :=
       upsert (\<lambda>s. (cs_run s, cs_rule s))
         \<lparr>cs_run = runID, cs_rule = ruleID, cs_calls = 1, cs_injections = 0\<rparr>
         (\<lambda>s. s\<lparr>cs_calls := cs_calls s + 1\<rparr>) (chaos_rule_state t)\<rparr>)"

definition add_injection :: "int \<Rightarrow> string \<Rightarrow> string \<Rightarrow> db \<Rightarrow> db" where
  "add_injection n runID ruleID =
     map_policy (\<lambda>t. t\<lparr>chaos_rule_state :=
       upd (\<lambda>s. cs_run s = runID \<and> cs_rule s = ruleID) (\<lambda>s. s\<lparr>cs_injections := cs_injections s + n\<rparr>)
         (chaos_rule_state t)\<rparr>)"

definition rule_step ::
    "'x golib_scheme \<Rightarrow> string \<Rightarrow> string \<Rightarrow> json \<Rightarrow> rule \<Rightarrow> decision \<times> db \<Rightarrow> (decision \<times> db) res" where
  "rule_step L runID operationID arguments rule s =
     (case s of (selected, d) \<Rightarrow>
        if operationID \<notin> set (cr_operations rule) then Inr (selected, d)
        else
          let selected1 = (if cr_type rule = ''stale_read''
                           then selected\<lparr>cd_captures := cd_captures selected @ [cr_id rule]\<rparr> else selected);
              d1 = count_call runID (cr_id rule) d in
          case rule_state runID (cr_id rule) d1 of
            None \<Rightarrow> Inl ErrNoRows
          | Some st \<Rightarrow>
              let active = (cd_id selected = [] \<and> int (cs_calls st) > cr_after rule
                            \<and> (cr_times rule = 0 \<or> cs_injections st < cr_times rule)
                            \<and> (cr_type rule = ''stale_read'' \<longrightarrow>
                                 LoadSnapshot L runID (cr_id rule) operationID arguments d1 \<noteq> None)) in
              if active
              then Inr (selected1\<lparr>cd_id := cr_id rule, cd_rule := rule, cd_match := cs_calls st\<rparr>,
                        add_injection 1 runID (cr_id rule) d1)
              else Inr (selected1, d1))"

definition chaos_load :: "'x lib_scheme \<Rightarrow> string \<Rightarrow> db \<Rightarrow> chaos_policy option res" where
  "chaos_load L runID d =
     (case sel rp_run runID (run_chaos (db_policy d)) of
        None \<Rightarrow> Inr None
      | Some row \<Rightarrow>
          if hex_digest L (rp_json row) \<noteq> rp_digest row then Inl (Err ''chaos policy digest mismatch'')
          else (case decode_chaos L (rp_json row) of
              None \<Rightarrow> Inl (Err ''json'')
            | Some p \<Rightarrow>
                if cp_version p \<noteq> 1 then Inl (Err ''unsupported stored chaos policy version'')
                else Inr (Some p)))"

definition chaos_Decide :: "'x lib_scheme \<Rightarrow> string \<Rightarrow> string \<Rightarrow> json \<Rightarrow> decision tx" where
  "chaos_Decide L runID operationID arguments d =
     bindR (chaos_load L runID d) (\<lambda>stored.
     case stored of
       None \<Rightarrow> Inr (no_rule, d)
     | Some p \<Rightarrow> foldR (rule_step L runID operationID arguments) (cp_rules p) (no_rule, d))"

section \<open>Copying a run's chaos state\<close>

definition ins_all :: "('r \<Rightarrow> 'k) \<Rightarrow> 'r list \<Rightarrow> 'r list \<Rightarrow> 'r list res" where
  "ins_all k rows t = foldR (ins k) rows t"

definition chaos_CopyRun :: "policy_tables \<Rightarrow> string \<Rightarrow> string \<Rightarrow> policy_tables \<Rightarrow> policy_tables res" where
  "chaos_CopyRun source from to t =
     bindR (ins_all rp_run (map (\<lambda>r. r\<lparr>rp_run := to\<rparr>) (filter (\<lambda>r. rp_run r = from) (run_chaos source)))
              (run_chaos t)) (\<lambda>t1.
     bindR (ins_all (\<lambda>s. (cs_run s, cs_rule s))
              (map (\<lambda>r. r\<lparr>cs_run := to\<rparr>) (filter (\<lambda>r. cs_run r = from) (chaos_rule_state source)))
              (chaos_rule_state t)) (\<lambda>t2.
     bindR (ins_all (\<lambda>s. (sn_run s, sn_rule s, sn_arguments_digest s))
              (map (\<lambda>r. r\<lparr>sn_run := to\<rparr>) (filter (\<lambda>r. sn_run r = from) (chaos_snapshots source)))
              (chaos_snapshots t)) (\<lambda>t3.
     bindR (ins_all (\<lambda>s. (hd_run s, hd_call s))
              (map (\<lambda>r. r\<lparr>hd_run := to\<rparr>) (filter (\<lambda>r. hd_run r = from) (chaos_hidden_outcomes source)))
              (chaos_hidden_outcomes t)) (\<lambda>t4.
     Inr (t\<lparr>run_chaos := t1, chaos_rule_state := t2, chaos_snapshots := t3, chaos_hidden_outcomes := t4\<rparr>)))))"

definition CopyRunInTx :: "string \<Rightarrow> string \<Rightarrow> policy_tables \<Rightarrow> policy_tables res" where
  "CopyRunInTx from to t = chaos_CopyRun t from to t"

section \<open>Checking a policy\<close>

definition mutatingBehavior :: "string \<Rightarrow> bool" where
  "mutatingBehavior name \<longleftrightarrow>
     name \<in> {''billing.createRefund'', ''crm.addAccountNote'', ''crm.updateAccountStatus'', ''ticket.createIssue'',
             ''ticket.addComment'', ''ticket.transitionIssue'', ''messaging.postMessage''}"

definition readingBehavior :: "string \<Rightarrow> bool" where
  "readingBehavior name \<longleftrightarrow>
     name \<in> {''billing.getCustomer'', ''billing.getSubscription'', ''billing.listInvoices'', ''billing.listCharges'',
             ''billing.getCharge'', ''crm.getAccount'', ''crm.searchAccounts'', ''ticket.getIssue'',
             ''ticket.searchIssues'', ''messaging.listChannels'', ''messaging.readChannel''}"

fun check_actor_names :: "operation \<Rightarrow> args \<Rightarrow> string list \<Rightarrow> unit res" where
  "check_actor_names op args [] = Inr ()"
| "check_actor_names op args (name # names) =
     (case map_of (op_properties op) name of
        None \<Rightarrow> Inl (Err (''unexpected '' @ name))
      | Some typ \<Rightarrow>
          if typ = ''string'' then
            (case string_arg args name of
               Some s \<Rightarrow> if blank s then Inl (Err (''invalid '' @ name)) else check_actor_names op args names
             | None \<Rightarrow> Inl (Err (''invalid '' @ name)))
          else if typ = ''integer'' then
            (case map_of args name of
               Some (VInt _) \<Rightarrow> check_actor_names op args names
             | _ \<Rightarrow> Inl (Err (''invalid '' @ name)))
          else Inl (Err (''unsupported argument type '' @ typ)))"

definition check_choice :: "args \<Rightarrow> string \<Rightarrow> string list \<Rightarrow> unit res" where
  "check_choice args name values =
     (case string_arg args name of
        None \<Rightarrow> Inl (Err ''interface conversion'')
      | Some v \<Rightarrow> if v \<in> set values then Inr () else Inl (Err (''invalid '' @ name)))"

text \<open>A failed type assertion panics in the source; it is an error here.\<close>

definition validateArguments :: "operation \<Rightarrow> args \<Rightarrow> unit res" where
  "validateArguments op args =
     (case find (\<lambda>name. map_of args name = None) (op_required op) of
        Some name \<Rightarrow> Inl (Err (''missing '' @ name))
      | None \<Rightarrow>
          bindR (check_actor_names op args (order_by (\<lambda>k. [k]) (remdups (map fst args)))) (\<lambda>_.
          if op_behavior op = ''billing.createRefund'' then
            (case map_of args ''amount_cents'' of
               Some (VInt n) \<Rightarrow> if n \<le> 0 then Inl (Err ''invalid amount_cents'') else Inr ()
             | _ \<Rightarrow> Inl (Err ''interface conversion''))
          else if op_behavior op = ''crm.updateAccountStatus''
          then check_choice args ''status'' [''active'', ''needs_followup'', ''resolved'']
          else if op_behavior op = ''ticket.createIssue''
          then check_choice args ''priority'' [''low'', ''medium'', ''high'']
          else if op_behavior op = ''ticket.transitionIssue''
          then check_choice args ''status'' [''open'', ''in_progress'', ''resolved'']
          else Inr ()))"

end
