(* ===== verification/Billing.thy ===== *)
theory Billing
  imports Service
begin

text \<open>
  The billing service (\<open>internal/billing/billing.go\<close>). \<open>Handle\<close> is one definition per
  behavior, composed by the switch on the behavior's name. The lemmas show the service
  contract and what a refund does to the charge it is for.
\<close>

section \<open>Arguments\<close>

definition integer :: "'x golib_scheme \<Rightarrow> val option \<Rightarrow> int" where
  "integer L v =
     (case v of
        Some (VInt n) \<Rightarrow> n
      | Some (VFloat r) \<Rightarrow> (case float_int64 L r of (n, whole) \<Rightarrow> if whole then n else 0)
      | Some (VNumber s) \<Rightarrow> fst (parse_int64 s)
      | _ \<Rightarrow> 0)"

section \<open>Reads\<close>

definition getCustomer :: "'x golib_scheme \<Rightarrow> string \<Rightarrow> args \<Rightarrow> world_tables \<Rightarrow> outcome res" where
  "getCustomer L worldID args w =
     bindR (sql_param L (map_of args ''id'')) (\<lambda>key.
     case find (\<lambda>r. cu_world r = worldID \<and> Some (cu_id r) = key) (customers w) of
       None \<Rightarrow> refuse 404 ''customer not found'' w
     | Some r \<Rightarrow> reply 200 (jmap [(''id'', JStr (cu_id r)), (''name'', JStr (cu_name r))]) w)"

definition getSubscription :: "'x golib_scheme \<Rightarrow> string \<Rightarrow> args \<Rightarrow> world_tables \<Rightarrow> outcome res" where
  "getSubscription L worldID args w =
     bindR (sql_param L (map_of args ''id'')) (\<lambda>key.
     case find (\<lambda>r. su_world r = worldID \<and> Some (su_id r) = key) (subscriptions w) of
       None \<Rightarrow> refuse 404 ''subscription not found'' w
     | Some r \<Rightarrow> reply 200 (jmap [(''id'', JStr (su_id r)), (''customer_id'', JStr (su_customer r)),
                   (''status'', JStr (su_status r)), (''plan'', JStr (su_plan r))]) w)"

definition listInvoices :: "'x golib_scheme \<Rightarrow> string \<Rightarrow> args \<Rightarrow> world_tables \<Rightarrow> outcome res" where
  "listInvoices L worldID args w =
     bindR (sql_param L (map_of args ''id'')) (\<lambda>key.
     reply 200 (JArr (map (\<lambda>r. jmap [(''id'', JStr (in_id r)), (''customer_id'', JStr (in_customer r)),
                               (''amount_cents'', jint (in_amount r)), (''subscription_id'', JStr (in_subscription r))])
       (order_by (\<lambda>r. [in_id r])
         (filter (\<lambda>r. in_world r = worldID \<and> Some (in_customer r) = key) (invoices w))))) w)"

definition scanCharge :: "charge_row \<Rightarrow> json" where
  "scanCharge c = jmap [(''id'', JStr (ch_id c)), (''invoice_id'', JStr (ch_invoice c)),
     (''amount_cents'', jint (ch_amount c)), (''refunded_cents'', jint (ch_refunded c)),
     (''created_at'', JStr (ch_created c))]"

definition listCharges :: "'x golib_scheme \<Rightarrow> string \<Rightarrow> args \<Rightarrow> world_tables \<Rightarrow> outcome res" where
  "listCharges L worldID args w =
     bindR (sql_param L (map_of args ''id'')) (\<lambda>key.
     reply 200 (JArr (map scanCharge (order_by (\<lambda>c. [ch_created c])
         (filter (\<lambda>c. ch_world c = worldID \<and> Some (ch_invoice c) = key) (charges w))))) w)"

definition getCharge :: "'x golib_scheme \<Rightarrow> string \<Rightarrow> args \<Rightarrow> world_tables \<Rightarrow> outcome res" where
  "getCharge L worldID args w =
     bindR (sql_param L (map_of args ''id'')) (\<lambda>key.
     case find (\<lambda>c. ch_world c = worldID \<and> Some (ch_id c) = key) (charges w) of
       None \<Rightarrow> refuse 404 ''charge not found'' w
     | Some c \<Rightarrow> reply 200 (scanCharge c) w)"

section \<open>Refunds\<close>

definition store_refund :: "refund_row \<Rightarrow> world_tables \<Rightarrow> world_tables res" where
  "store_refund r w =
     bindR (ins (\<lambda>x. (rf_world x, rf_id x)) r (refunds w)) (\<lambda>t.
       Inr (w\<lparr>refunds := t,
              charges := upd (\<lambda>c. ch_world c = rf_world r \<and> ch_id c = rf_charge r)
                           (\<lambda>c. c\<lparr>ch_refunded := ch_refunded c + rf_amount r\<rparr>) (charges w)\<rparr>))"

definition createRefund ::
    "'x golib_scheme \<Rightarrow> string \<Rightarrow> string \<Rightarrow> string \<Rightarrow> args \<Rightarrow> world_tables \<Rightarrow> outcome res" where
  "createRefund L worldID runID callID args w =
     (let amount = integer L (map_of args ''amount_cents'') in
      case (string_arg args ''charge_id'', string_arg args ''reason'') of
        (Some chargeID, Some reason) \<Rightarrow>
          if chargeID = [] \<or> reason = [] then refuse 400 ''invalid refund arguments'' w
          else if amount \<le> 0 then refuse 400 ''amount must be positive'' w
          else (case sel (\<lambda>c. (ch_world c, ch_id c)) (worldID, chargeID) (charges w) of
              None \<Rightarrow> refuse 404 ''charge not found'' w
            | Some c \<Rightarrow>
                if amount > ch_amount c - ch_refunded c then refuse 409 ''refund exceeds remaining charge'' w
                else
                  let refundID = ''RF-'' @ hex_encode (take 6 (stable_sum L runID callID)) in
                  bindR (world_base L worldID w) (\<lambda>base.
                  let created = format_rfc3339 L (base + 86400) in
                  bindR (store_refund \<lparr>rf_world = worldID, rf_id = refundID, rf_charge = chargeID,
                           rf_amount = amount, rf_reason = reason, rf_created = created\<rparr> w) (\<lambda>w'.
                  wrote 201
                    (jmap [(''id'', JStr refundID), (''charge_id'', JStr chargeID),
                           (''amount_cents'', jint amount), (''reason'', JStr reason),
                           (''created_at'', JStr created)])
                    (JObj [(''refund_id'', JStr refundID), (''charge_id'', JStr chargeID),
                           (''amount_cents'', jint amount)]) w')))
      | _ \<Rightarrow> refuse 400 ''invalid refund arguments'' w)"

section \<open>The service\<close>

definition billing_Handle ::
    "'x golib_scheme \<Rightarrow> string \<Rightarrow> string \<Rightarrow> string \<Rightarrow> string \<Rightarrow> args \<Rightarrow> world_tables \<Rightarrow> outcome res" where
  "billing_Handle L worldID runID callID behavior args w =
     (if behavior = ''billing.getCustomer'' then getCustomer L worldID args w
      else if behavior = ''billing.getSubscription'' then getSubscription L worldID args w
      else if behavior = ''billing.listInvoices'' then listInvoices L worldID args w
      else if behavior = ''billing.listCharges'' then listCharges L worldID args w
      else if behavior = ''billing.getCharge'' then getCharge L worldID args w
      else if behavior = ''billing.createRefund'' then createRefund L worldID runID callID args w
      else Inl (Err ''unknown behavior''))"

section \<open>The contract\<close>

text \<open>Adding a refund within what remains of its charge keeps the books balanced.\<close>

lemma refund_total_snoc:
  "refund_total (w\<lparr>refunds := refunds w @ [r], charges := t\<rparr>) x c =
   refund_total w x c + (if rf_world r = x \<and> rf_charge r = c then rf_amount r else 0)"
  by (simp add: refund_total_def)

lemma store_refund_ok:
  assumes ok: "world_ok w" and c: "sel (\<lambda>c. (ch_world c, ch_id c)) (rf_world r, rf_charge r) (charges w) = Some c"
    and amount: "0 < rf_amount r" "rf_amount r \<le> ch_amount c - ch_refunded c"
    and w': "store_refund r w = Inr w'"
  shows "world_ok w'"
proof -
  let ?p = "\<lambda>c. ch_world c = rf_world r \<and> ch_id c = rf_charge r"
  let ?f = "\<lambda>c. c\<lparr>ch_refunded := ch_refunded c + rf_amount r\<rparr>"
  have w'_eq: "w' = w\<lparr>refunds := refunds w @ [r], charges := upd ?p ?f (charges w)\<rparr>"
      and fresh: "(rf_world r, rf_id r) \<notin> (\<lambda>x. (rf_world x, rf_id x)) ` set (refunds w)"
    using w' by (auto simp: store_refund_def ins_Inr)
  have keys: "world_keys w" and bill: "billing_ok w" using ok by (auto simp: world_ok_def)
  have only: "c' = c" if "c' \<in> set (charges w)" "?p c'" for c'
    using that c keys sel_keyed [of "\<lambda>c. (ch_world c, ch_id c)" "charges w" c'] by (auto simp: world_keys_def)
  have c_in: "c \<in> set (charges w)" "?p c" using sel_SomeD [OF c] by auto
  have total: "refund_total w' x y = refund_total w x y
      + (if rf_world r = x \<and> rf_charge r = y then rf_amount r else 0)" for x y
    by (simp add: w'_eq refund_total_snoc)
  have old: "0 \<le> ch_refunded x \<and> ch_refunded x \<le> ch_amount x
      \<and> ch_refunded x = refund_total w (ch_world x) (ch_id x)" if "x \<in> set (charges w)" for x
    using that bill unfolding billing_ok_def by blast
  have row: "0 \<le> ch_refunded x \<and> ch_refunded x \<le> ch_amount x
      \<and> ch_refunded x = refund_total w' (ch_world x) (ch_id x)" if x: "x \<in> set (charges w')" for x
  proof -
    from x consider "x \<in> set (charges w)" "\<not> ?p x" | "x = ?f c"
      unfolding w'_eq using only by (auto simp: upd_def split: if_splits)
    then show ?thesis
    proof cases
      case 1
      have ne: "\<not> (rf_world r = ch_world x \<and> rf_charge r = ch_id x)" using 1(2) by auto
      show ?thesis using old [OF 1(1)] ne by (simp only: total if_False) simp
    next
      case 2
      then show ?thesis using old [OF c_in(1)] c_in(2) amount by (simp add: total)
    qed
  qed
  have "\<forall>x \<in> set (refunds w'). 0 < rf_amount x
      \<and> (\<exists>c \<in> set (charges w'). ch_world c = rf_world x \<and> ch_id c = rf_charge x)"
  proof
    fix x assume "x \<in> set (refunds w')"
    then have "0 < rf_amount x \<and> (\<exists>c \<in> set (charges w). ch_world c = rf_world x \<and> ch_id c = rf_charge x)"
      using bill amount(1) c_in by (auto simp: w'_eq billing_ok_def)
    moreover have "\<exists>c' \<in> set (charges w'). ch_world c' = ch_world y \<and> ch_id c' = ch_id y"
      if "y \<in> set (charges w)" for y
      using that by (intro bexI [of _ "if ?p y then ?f y else y"]) (auto simp: w'_eq upd_def)
    ultimately show "0 < rf_amount x
        \<and> (\<exists>c \<in> set (charges w'). ch_world c = rf_world x \<and> ch_id c = rf_charge x)"
      by metis
  qed
  with row have "billing_ok w'" unfolding billing_ok_def by blast
  moreover have "world_keys w'"
    using keys fresh by (simp add: w'_eq world_keys_def keyed_upd keyed_snoc)
  ultimately show ?thesis using ok by (simp add: world_ok_def w'_eq)
qed


lemma store_refund_issues: "store_refund r w = Inr w' \<Longrightarrow> issues_advance w w'"
  by (auto simp: store_refund_def intro!: issues_advance_same)

lemma billing_contract: "contract worldID w (billing_Handle L worldID runID callID behavior args w)"
proof -
  have reads: "contract worldID w (getCustomer L worldID args w)" "contract worldID w (getSubscription L worldID args w)"
    "contract worldID w (listInvoices L worldID args w)" "contract worldID w (listCharges L worldID args w)"
    "contract worldID w (getCharge L worldID args w)"
    by (auto simp: getCustomer_def getSubscription_def listInvoices_def listCharges_def getCharge_def
        intro!: contract_bind split: option.split)
  have refund: "contract worldID w (createRefund L worldID runID callID args w)"
  proof -
    have "outside worldID w' = outside worldID w" if r: "store_refund r w = Inr w'" "rf_world r = worldID" for r w'
    proof -
      have "filter (\<lambda>c. ch_world c \<noteq> worldID) (upd (\<lambda>c. ch_world c = rf_world r \<and> ch_id c = rf_charge r)
          f (charges w)) = filter (\<lambda>c. ch_world c \<noteq> worldID) (charges w)"
        if "\<And>c. ch_world (f c) = ch_world c" for f
        using that r(2) by (intro filter_upd_inside) auto
      then show ?thesis using r by (auto simp: store_refund_def outside_def ins_Inr)
    qed
    then show ?thesis
      unfolding createRefund_def Let_def
      by (auto split: option.split intro!: contract_bind contract_wrote) (auto elim!: store_refund_ok [rotated 4] store_refund_issues)
  qed
  show ?thesis using reads refund by (simp add: billing_Handle_def)
qed

interpretation billing: service "billing_Handle L" for L
  by (rule service_if_contract) (rule billing_contract)

end
