(* ===== verification/Crm.thy ===== *)
theory Crm
  imports Service
begin

text \<open>
  The CRM service (\<open>internal/crm/crm.go\<close>): account lookup and search, notes and account
  status. \<open>Handle\<close> keeps the source's order of checks: the behavior's name, then its
  arguments, then the account, then the effect.
\<close>

section \<open>JSON forms\<close>

definition account_json :: "account_row \<Rightarrow> (string \<times> json) list" where
  "account_json a = [(''id'', JStr (ac_id a)), (''customer_id'', JStr (ac_customer a)),
     (''status'', JStr (ac_status a)), (''representative_id'', JStr (ac_rep a))]"

definition contact_json :: "contact_row \<Rightarrow> json" where
  "contact_json c = JObj [(''id'', JStr (ct_id c)), (''name'', JStr (ct_name c)), (''email'', JStr (ct_email c))]"

definition note_json :: "note_row \<Rightarrow> json" where
  "note_json n = JObj [(''id'', JStr (no_id n)), (''account_id'', JStr (no_account n)),
     (''body'', JStr (no_body n)), (''created_at'', JStr (no_created n))]"

section \<open>Behaviors\<close>

definition searchAccounts :: "string \<Rightarrow> args \<Rightarrow> world_tables \<Rightarrow> outcome res" where
  "searchAccounts worldID args w =
     (case string_arg args ''query'' of
        None \<Rightarrow> refuse 400 ''invalid query'' w
      | Some query \<Rightarrow>
          if blank query then refuse 400 ''invalid query'' w
          else
            let owner_name = (\<lambda>a. case sel (\<lambda>c. (cu_world c, cu_id c)) (ac_world a, ac_customer a) (customers w) of
                                None \<Rightarrow> [] | Some c \<Rightarrow> cu_name c);
                text = (\<lambda>a. ac_id a @ '' '' @ ac_customer a @ '' '' @ ac_status a @ '' '' @ ac_rep a @ '' ''
                          @ owner_name a)
            in reply 200 (JArr (map (\<lambda>a. JObj (account_json a)) (order_by (\<lambda>a. [ac_id a])
                 (filter (\<lambda>a. ac_world a = worldID
                            \<and> instr_pos (sql_lower (text a)) (sql_lower (TrimSpace query)))
                    (crm_accounts w))))) w)"

definition account_details :: "string \<Rightarrow> account_row \<Rightarrow> world_tables \<Rightarrow> json" where
  "account_details worldID a w =
     JObj (account_json a
       @ [(''contacts'', JArr (map contact_json (order_by (\<lambda>c. [ct_id c])
             (filter (\<lambda>c. ct_world c = worldID \<and> ct_account c = ac_id a) (crm_contacts w))))),
          (''notes'', JArr (map note_json (order_by (\<lambda>n. [no_created n, no_id n])
             (filter (\<lambda>n. no_world n = worldID \<and> no_account n = ac_id a) (crm_notes w)))))])"

definition addAccountNote ::
    "'x golib_scheme \<Rightarrow> string \<Rightarrow> string \<Rightarrow> string \<Rightarrow> string \<Rightarrow> string \<Rightarrow> world_tables \<Rightarrow> outcome res" where
  "addAccountNote L worldID runID callID accountID body w =
     bindR (stableTime L worldID runID callID w) (\<lambda>created.
     let n = \<lparr>no_world = worldID, no_id = ''NOTE-'' @ hex_encode (take 6 (stable_sum L runID callID)),
              no_account = accountID, no_body = body, no_created = created\<rparr> in
     bindR (ins (\<lambda>x. (no_world x, no_id x)) n (crm_notes w)) (\<lambda>t.
     wrote 201 (note_json n)
       (JObj [(''kind'', JStr ''crm.note_added''), (''account_id'', JStr accountID), (''note_id'', JStr (no_id n))])
       (w\<lparr>crm_notes := t\<rparr>)))"

definition updateAccountStatus :: "string \<Rightarrow> string \<Rightarrow> account_row \<Rightarrow> world_tables \<Rightarrow> outcome res" where
  "updateAccountStatus worldID status a w =
     wrote 200 (JObj (account_json (a\<lparr>ac_status := status\<rparr>)))
       (JObj [(''kind'', JStr ''crm.status_updated''), (''account_id'', JStr (ac_id a)), (''status'', JStr status)])
       (w\<lparr>crm_accounts := upd (\<lambda>x. ac_world x = worldID \<and> ac_id x = ac_id a)
                             (\<lambda>x. x\<lparr>ac_status := status\<rparr>) (crm_accounts w)\<rparr>)"

definition account_states :: "string list" where
  "account_states = [''active'', ''needs_followup'', ''resolved'']"

definition crm_invalid :: "string \<Rightarrow> args \<Rightarrow> string option" where
  "crm_invalid behavior args =
     (if behavior = ''crm.addAccountNote'' \<and>
         (case string_arg args ''body'' of None \<Rightarrow> True | Some b \<Rightarrow> blank b) then Some ''invalid body''
      else if behavior = ''crm.updateAccountStatus'' \<and>
         (case string_arg args ''status'' of None \<Rightarrow> True | Some s \<Rightarrow> s \<notin> set account_states)
      then Some ''invalid status'' else None)"

definition text_of :: "args \<Rightarrow> string \<Rightarrow> string" where
  "text_of args key = (case string_arg args key of None \<Rightarrow> [] | Some s \<Rightarrow> s)"

definition crm_Handle ::
    "'x golib_scheme \<Rightarrow> string \<Rightarrow> string \<Rightarrow> string \<Rightarrow> string \<Rightarrow> args \<Rightarrow> world_tables \<Rightarrow> outcome res" where
  "crm_Handle L worldID runID callID behavior args w =
     (if behavior = ''crm.searchAccounts'' then searchAccounts worldID args w
      else if behavior \<notin> {''crm.getAccount'', ''crm.addAccountNote'', ''crm.updateAccountStatus''}
      then Inl (Err ''unknown behavior'')
      else
        let key = (if behavior = ''crm.getAccount'' then ''id'' else ''account_id'') in
        case string_arg args key of
          None \<Rightarrow> refuse 400 (''invalid '' @ key) w
        | Some accountID \<Rightarrow>
            if blank accountID then refuse 400 (''invalid '' @ key) w
            else (case crm_invalid behavior args of
                Some msg \<Rightarrow> refuse 400 msg w
              | None \<Rightarrow>
                  (case sel (\<lambda>a. (ac_world a, ac_id a)) (worldID, accountID) (crm_accounts w) of
                     None \<Rightarrow> refuse 404 ''account not found'' w
                   | Some a \<Rightarrow>
                       if behavior = ''crm.getAccount'' then reply 200 (account_details worldID a w) w
                       else if behavior = ''crm.addAccountNote''
                       then addAccountNote L worldID runID callID accountID (text_of args ''body'') w
                       else updateAccountStatus worldID (text_of args ''status'') a w)))"

section \<open>The contract\<close>

lemma crm_contract: "contract worldID w (crm_Handle L worldID runID callID behavior args w)"
proof -
  have added: "contract worldID w (addAccountNote L worldID runID callID accountID body w)" for accountID body
    unfolding addAccountNote_def Let_def
    by (intro contract_bind contract_wrote) (auto simp: outside_def intro: world_ok_note issues_advance_same filter_ins_inside filter_upd_inside)
  have status: "contract worldID w (updateAccountStatus worldID status a w)" for status a
    unfolding updateAccountStatus_def
    by (intro contract_wrote) (auto simp: outside_def intro: world_ok_account_status issues_advance_same intro!: filter_ins_inside filter_upd_inside)
  have search: "contract worldID w (searchAccounts worldID args w)"
    by (simp add: searchAccounts_def Let_def split: option.split)
  show ?thesis
    using added status search by (simp add: crm_Handle_def Let_def split: option.split)
qed

interpretation crm: service "crm_Handle L" for L
  by (rule service_if_contract) (rule crm_contract)

end
