(* ===== verification/Ticketing.thy ===== *)
theory Ticketing
  imports Service
begin

text \<open>
  The ticketing service (\<open>internal/ticketing/ticketing.go\<close>): issues, comments and the issue
  state machine, whose only moves are from open to in progress and from there to resolved.
\<close>

section \<open>Arguments and rows\<close>

definition stringArg :: "args \<Rightarrow> string \<Rightarrow> string option" where
  "stringArg args key =
     (case string_arg args key of Some s \<Rightarrow> if blank s then None else Some s | None \<Rightarrow> None)"

definition validPriority :: "string \<Rightarrow> bool" where
  "validPriority p \<longleftrightarrow> p = ''low'' \<or> p = ''medium'' \<or> p = ''high''"

definition scanIssue :: "issue_row \<Rightarrow> (string \<times> json) list" where
  "scanIssue i = [(''account_id'', JStr (is_account i)), (''id'', JStr (is_id i)),
     (''priority'', JStr (is_priority i)), (''project_id'', JStr (is_project i)),
     (''status'', JStr (is_status i)), (''title'', JStr (is_title i))]"

definition loadIssue :: "string \<Rightarrow> string \<Rightarrow> world_tables \<Rightarrow> issue_row option" where
  "loadIssue worldID issueID w = sel (\<lambda>i. (is_world i, is_id i)) (worldID, issueID) (ticket_issues w)"

definition comment_json :: "comment_row \<Rightarrow> json" where
  "comment_json c = jmap [(''id'', JStr (cm_id c)), (''issue_id'', JStr (cm_issue c)),
     (''body'', JStr (cm_body c)), (''created_at'', JStr (cm_created c))]"

section \<open>Behaviors\<close>

definition createIssue ::
    "'x golib_scheme \<Rightarrow> string \<Rightarrow> string \<Rightarrow> string \<Rightarrow> args \<Rightarrow> world_tables \<Rightarrow> outcome res" where
  "createIssue L worldID runID callID args w =
     (case (stringArg args ''project_id'', stringArg args ''account_id'', stringArg args ''title'',
            stringArg args ''priority'') of
        (Some projectID, Some accountID, Some title, Some priority) \<Rightarrow>
          if \<not> validPriority priority then refuse 400 ''invalid issue arguments'' w
          else if sel (\<lambda>p. (pj_world p, pj_id p)) (worldID, projectID) (ticket_projects w) = None
          then refuse 404 ''project not found'' w
          else if sel (\<lambda>a. (ac_world a, ac_id a)) (worldID, accountID) (crm_accounts w) = None
          then refuse 404 ''account not found'' w
          else
            let i = \<lparr>is_world = worldID, is_id = stableID L ''ISSUE-'' runID callID, is_project = projectID,
                     is_account = accountID, is_title = title, is_status = ''open'', is_priority = priority\<rparr> in
            bindR (ins (\<lambda>x. (is_world x, is_id x)) i (ticket_issues w)) (\<lambda>t.
            wrote 201 (jmap (scanIssue i))
              (JObj [(''kind'', JStr ''ticket.issue_created''), (''issue_id'', JStr (is_id i))])
              (w\<lparr>ticket_issues := t\<rparr>))
      | _ \<Rightarrow> refuse 400 ''invalid issue arguments'' w)"

definition getIssue :: "string \<Rightarrow> args \<Rightarrow> world_tables \<Rightarrow> outcome res" where
  "getIssue worldID args w =
     (case stringArg args ''id'' of
        None \<Rightarrow> refuse 400 ''invalid id'' w
      | Some issueID \<Rightarrow>
          (case loadIssue worldID issueID w of
             None \<Rightarrow> refuse 404 ''issue not found'' w
           | Some i \<Rightarrow>
               reply 200 (jmap (scanIssue i @ [(''comments'', JArr (map comment_json
                 (order_by (\<lambda>c. [cm_created c, cm_id c])
                   (filter (\<lambda>c. cm_world c = worldID \<and> cm_issue c = issueID) (ticket_comments w)))))])) w))"

definition searchIssues :: "string \<Rightarrow> args \<Rightarrow> world_tables \<Rightarrow> outcome res" where
  "searchIssues worldID args w =
     (case stringArg args ''query'' of
        None \<Rightarrow> refuse 400 ''invalid query'' w
      | Some query \<Rightarrow>
          let text = (\<lambda>i. is_id i @ '' '' @ is_project i @ '' '' @ is_account i @ '' '' @ is_title i @ '' ''
                        @ is_status i @ '' '' @ is_priority i)
          in reply 200 (JArr (map (\<lambda>i. jmap (scanIssue i)) (order_by (\<lambda>i. [is_id i])
               (filter (\<lambda>i. is_world i = worldID
                          \<and> instr_pos (sql_lower (text i)) (sql_lower (TrimSpace query)))
                  (ticket_issues w))))) w)"

definition addComment ::
    "'x golib_scheme \<Rightarrow> string \<Rightarrow> string \<Rightarrow> string \<Rightarrow> args \<Rightarrow> world_tables \<Rightarrow> outcome res" where
  "addComment L worldID runID callID args w =
     (case (stringArg args ''issue_id'', stringArg args ''body'') of
        (Some issueID, Some body) \<Rightarrow>
          (case loadIssue worldID issueID w of
             None \<Rightarrow> refuse 404 ''issue not found'' w
           | Some _ \<Rightarrow>
               bindR (stableTime L worldID runID callID w) (\<lambda>created.
               let c = \<lparr>cm_world = worldID, cm_id = stableID L ''COMMENT-'' runID callID, cm_issue = issueID,
                        cm_body = body, cm_created = created\<rparr> in
               bindR (ins (\<lambda>x. (cm_world x, cm_id x)) c (ticket_comments w)) (\<lambda>t.
               wrote 201 (comment_json c)
                 (JObj [(''kind'', JStr ''ticket.comment_added''), (''issue_id'', JStr issueID),
                        (''comment_id'', JStr (cm_id c))])
                 (w\<lparr>ticket_comments := t\<rparr>))))
      | _ \<Rightarrow> refuse 400 ''invalid comment arguments'' w)"

definition transitionIssue :: "string \<Rightarrow> args \<Rightarrow> world_tables \<Rightarrow> outcome res" where
  "transitionIssue worldID args w =
     (case (stringArg args ''issue_id'', stringArg args ''status'') of
        (Some issueID, Some target) \<Rightarrow>
          if target \<noteq> ''open'' \<and> target \<noteq> ''in_progress'' \<and> target \<noteq> ''resolved''
          then refuse 400 ''invalid transition arguments'' w
          else (case loadIssue worldID issueID w of
              None \<Rightarrow> refuse 404 ''issue not found'' w
            | Some i \<Rightarrow>
                if \<not> legal_transition (is_status i) target then refuse 409 ''invalid issue transition'' w
                else wrote 200 (jmap (scanIssue (i\<lparr>is_status := target\<rparr>)))
                  (JObj [(''kind'', JStr ''ticket.issue_transitioned''), (''issue_id'', JStr issueID),
                         (''status'', JStr target)])
                  (w\<lparr>ticket_issues := upd (\<lambda>x. is_world x = worldID \<and> is_id x = issueID)
                                         (\<lambda>x. x\<lparr>is_status := target\<rparr>) (ticket_issues w)\<rparr>))
      | _ \<Rightarrow> refuse 400 ''invalid transition arguments'' w)"

definition ticket_Handle ::
    "'x golib_scheme \<Rightarrow> string \<Rightarrow> string \<Rightarrow> string \<Rightarrow> string \<Rightarrow> args \<Rightarrow> world_tables \<Rightarrow> outcome res" where
  "ticket_Handle L worldID runID callID behavior args w =
     (if behavior = ''ticket.createIssue'' then createIssue L worldID runID callID args w
      else if behavior = ''ticket.getIssue'' then getIssue worldID args w
      else if behavior = ''ticket.searchIssues'' then searchIssues worldID args w
      else if behavior = ''ticket.addComment'' then addComment L worldID runID callID args w
      else if behavior = ''ticket.transitionIssue'' then transitionIssue worldID args w
      else Inl (Err ''unknown ticket behavior''))"

section \<open>The contract\<close>

lemma ticket_contract: "contract worldID w (ticket_Handle L worldID runID callID behavior args w)"
proof -
  have create: "contract worldID w (createIssue L worldID runID callID args w)"
    unfolding createIssue_def Let_def
    by (auto split: option.split intro!: contract_bind contract_wrote world_ok_issue issues_advance_insert
        simp: issue_states_def) (auto simp: outside_def intro!: filter_ins_inside filter_upd_inside)
  have comment: "contract worldID w (addComment L worldID runID callID args w)"
    unfolding addComment_def Let_def
    by (auto split: option.split intro!: contract_bind contract_wrote world_ok_comment issues_advance_same) (auto simp: outside_def intro!: filter_ins_inside filter_upd_inside)
  have move: "contract worldID w (transitionIssue worldID args w)"
    unfolding transitionIssue_def
    by (auto split: option.split intro!: contract_wrote world_ok_issue_status issues_advance_move
        simp: issue_states_def loadIssue_def)
      (auto simp: outside_def intro!: filter_ins_inside filter_upd_inside)
  have reads: "contract worldID w (getIssue worldID args w)" "contract worldID w (searchIssues worldID args w)"
    by (simp_all add: getIssue_def searchIssues_def Let_def split: option.split)
  show ?thesis using create comment move reads by (simp add: ticket_Handle_def)
qed

interpretation ticket: service "ticket_Handle L" for L
  by (rule service_if_contract) (rule ticket_contract)

end
