(* ===== verification/Messaging.thy ===== *)
theory Messaging
  imports Service
begin

text \<open>
  The messaging service (\<open>internal/messaging/messaging.go\<close>): listing channels, reading a
  channel and posting to it.
\<close>

definition nonempty_arg :: "args \<Rightarrow> string \<Rightarrow> string option" where
  "nonempty_arg args key =
     (case string_arg args key of Some s \<Rightarrow> if s = [] then None else Some s | None \<Rightarrow> None)"

definition listChannels :: "string \<Rightarrow> args \<Rightarrow> world_tables \<Rightarrow> outcome res" where
  "listChannels worldID args w =
     (case nonempty_arg args ''id'' of
        None \<Rightarrow> refuse 400 ''invalid workspace id'' w
      | Some workspaceID \<Rightarrow>
          (case sel (\<lambda>x. (wk_world x, wk_id x)) (worldID, workspaceID) (message_workspaces w) of
             None \<Rightarrow> refuse 404 ''workspace not found'' w
           | Some k \<Rightarrow>
               reply 200 (JArr (map (\<lambda>c. jmap [(''id'', JStr (cn_id c)), (''workspace_id'', JStr (wk_id k)),
                                          (''name'', JStr (cn_name c))])
                 (order_by (\<lambda>c. [cn_id c])
                   (filter (\<lambda>c. cn_world c = worldID \<and> cn_workspace c = workspaceID) (message_channels w))))) w))"

definition posted_json :: "message_row \<Rightarrow> json" where
  "posted_json m = jmap [(''id'', JStr (ms_id m)), (''channel_id'', JStr (ms_channel m)),
     (''body'', JStr (ms_body m)), (''created_at'', JStr (ms_created m))]"

definition readChannel :: "string \<Rightarrow> args \<Rightarrow> world_tables \<Rightarrow> outcome res" where
  "readChannel worldID args w =
     (case nonempty_arg args ''id'' of
        None \<Rightarrow> refuse 400 ''invalid channel id'' w
      | Some channelID \<Rightarrow>
          (case sel (\<lambda>x. (cn_world x, cn_id x)) (worldID, channelID) (message_channels w) of
             None \<Rightarrow> refuse 404 ''channel not found'' w
           | Some c \<Rightarrow>
               reply 200 (jmap [(''id'', JStr channelID), (''workspace_id'', JStr (cn_workspace c)),
                                (''name'', JStr (cn_name c)),
                                (''messages'', JArr (map posted_json (order_by (\<lambda>m. [ms_created m, ms_id m])
                                   (filter (\<lambda>m. ms_world m = worldID \<and> ms_channel m = channelID)
                                      (message_messages w)))))]) w))"

definition postMessage ::
    "'x golib_scheme \<Rightarrow> string \<Rightarrow> string \<Rightarrow> string \<Rightarrow> args \<Rightarrow> world_tables \<Rightarrow> outcome res" where
  "postMessage L worldID runID callID args w =
     (case (string_arg args ''channel_id'', string_arg args ''body'') of
        (Some channelID, Some body) \<Rightarrow>
          if blank channelID \<or> blank body then refuse 400 ''invalid message arguments'' w
          else (case sel (\<lambda>x. (cn_world x, cn_id x)) (worldID, channelID) (message_channels w) of
              None \<Rightarrow> refuse 404 ''channel not found'' w
            | Some _ \<Rightarrow>
                bindR (world_base L worldID w) (\<lambda>base.
                let m = \<lparr>ms_world = worldID, ms_id = ''MSG-'' @ hex_encode (take 6 (stable_sum L runID callID)),
                         ms_channel = channelID, ms_body = body, ms_created = format_rfc3339 L (base + 86400)\<rparr> in
                bindR (ins (\<lambda>x. (ms_world x, ms_id x)) m (message_messages w)) (\<lambda>t.
                wrote 201 (posted_json m)
                  (JObj [(''message_id'', JStr (ms_id m)), (''channel_id'', JStr channelID)])
                  (w\<lparr>message_messages := t\<rparr>))))
      | _ \<Rightarrow> refuse 400 ''invalid message arguments'' w)"

definition messaging_Handle ::
    "'x golib_scheme \<Rightarrow> string \<Rightarrow> string \<Rightarrow> string \<Rightarrow> string \<Rightarrow> args \<Rightarrow> world_tables \<Rightarrow> outcome res" where
  "messaging_Handle L worldID runID callID behavior args w =
     (if behavior = ''messaging.listChannels'' then listChannels worldID args w
      else if behavior = ''messaging.readChannel'' then readChannel worldID args w
      else if behavior = ''messaging.postMessage'' then postMessage L worldID runID callID args w
      else Inl (Err ''unknown messaging behavior''))"

section \<open>The contract\<close>

lemma messaging_contract: "contract worldID w (messaging_Handle L worldID runID callID behavior args w)"
proof -
  have post: "contract worldID w (postMessage L worldID runID callID args w)"
    unfolding postMessage_def Let_def
    by (auto split: option.split intro!: contract_bind contract_wrote world_ok_message issues_advance_same) (auto simp: outside_def intro!: filter_ins_inside filter_upd_inside)
  have reads: "contract worldID w (listChannels worldID args w)" "contract worldID w (readChannel worldID args w)"
    by (simp_all add: listChannels_def readChannel_def split: option.split)
  show ?thesis using post reads by (simp add: messaging_Handle_def)
qed

interpretation messaging: service "messaging_Handle L" for L
  by (rule service_if_contract) (rule messaging_contract)

end
