(* ===== verification/Behavior.thy ===== *)
theory Behavior
  imports Billing Crm Ticketing Messaging
begin

text \<open>
  The registry that binds behavior names to handlers (\<open>internal/behavior/registry.go\<close>) and
  the four built-in services in it. What the services promise one by one holds of the
  registry as a whole, and so of any sequence of calls an agent makes.
\<close>

section \<open>The registry\<close>

type_synonym handler = "string \<Rightarrow> string \<Rightarrow> string \<Rightarrow> string \<Rightarrow> args \<Rightarrow> world_tables \<Rightarrow> outcome res"
type_synonym registry = "(string \<times> handler) list"

text \<open>\<open>strings.Split(s, ".")\<close>.\<close>

fun split_dots :: "string \<Rightarrow> string list" where
  "split_dots [] = [[]]"
| "split_dots (c # s) =
     (if c = CHR ''.'' then [] # split_dots s
      else case split_dots s of [] \<Rightarrow> [[c]] | p # ps \<Rightarrow> (c # p) # ps)"

definition NewRegistry :: registry where "NewRegistry = []"

definition Register :: "string \<Rightarrow> handler option \<Rightarrow> registry \<Rightarrow> registry res" where
  "Register key h r =
     (case (split_dots key, h) of
        ([a, b], Some f) \<Rightarrow>
          if a = [] \<or> b = [] then Inl (Err ''invalid behavior registration'')
          else if map_of r key \<noteq> None then Inl (Err ''duplicate behavior registration'')
          else Inr (r @ [(key, f)])
      | _ \<Rightarrow> Inl (Err ''invalid behavior registration''))"

definition Lookup :: "registry \<Rightarrow> string \<Rightarrow> handler option" where
  "Lookup r key = map_of r key"

definition Keys :: "registry \<Rightarrow> string list" where
  "Keys r = order_by (\<lambda>k. [k]) (map fst r)"

definition billingHandler :: "'x golib_scheme \<Rightarrow> handler" where
  "billingHandler L worldID runID callID key args w =
     bindR (billing_Handle L worldID runID callID key args w) (\<lambda>((status, body, mutation), w').
       case mutation of None \<Rightarrow> Inr ((status, body, None), w') | Some m \<Rightarrow> Inr ((status, body, Some m), w'))"

definition modules :: "'x golib_scheme \<Rightarrow> (string list \<times> handler) list" where
  "modules L =
     [([''billing.getCustomer'', ''billing.listInvoices'', ''billing.listCharges'', ''billing.getCharge'',
        ''billing.createRefund'', ''billing.getSubscription''], billingHandler L),
      ([''crm.getAccount'', ''crm.searchAccounts'', ''crm.addAccountNote'', ''crm.updateAccountStatus''],
        crm_Handle L),
      ([''ticket.createIssue'', ''ticket.getIssue'', ''ticket.searchIssues'', ''ticket.addComment'',
        ''ticket.transitionIssue''], ticket_Handle L),
      ([''messaging.listChannels'', ''messaging.readChannel'', ''messaging.postMessage''], messaging_Handle L)]"

definition Builtin :: "'x golib_scheme \<Rightarrow> registry res" where
  "Builtin L =
     foldR (\<lambda>(keys, h) r. foldR (\<lambda>key. Register key (Some h)) keys r) (modules L) NewRegistry"

section \<open>Registration\<close>

lemma Register_Lookup:
  assumes "Register key h r = Inr r'"
  shows "Lookup r' key = h \<and> (\<forall>k. k \<noteq> key \<longrightarrow> Lookup r' k = Lookup r k)"
  using assms
  by (auto simp: Register_def Lookup_def map_add_def split: list.splits option.splits if_splits)

text \<open>The registry the built-in services make, written out; none of its registrations fails.\<close>

lemma Builtin_eq:
  "Builtin L = Inr
     [(''billing.getCustomer'', billingHandler L), (''billing.listInvoices'', billingHandler L),
      (''billing.listCharges'', billingHandler L), (''billing.getCharge'', billingHandler L),
      (''billing.createRefund'', billingHandler L), (''billing.getSubscription'', billingHandler L),
      (''crm.getAccount'', crm_Handle L), (''crm.searchAccounts'', crm_Handle L),
      (''crm.addAccountNote'', crm_Handle L), (''crm.updateAccountStatus'', crm_Handle L),
      (''ticket.createIssue'', ticket_Handle L), (''ticket.getIssue'', ticket_Handle L),
      (''ticket.searchIssues'', ticket_Handle L), (''ticket.addComment'', ticket_Handle L),
      (''ticket.transitionIssue'', ticket_Handle L), (''messaging.listChannels'', messaging_Handle L),
      (''messaging.readChannel'', messaging_Handle L), (''messaging.postMessage'', messaging_Handle L)]"
  by (simp add: Builtin_def modules_def NewRegistry_def Register_def)

lemma billingHandler_eq: "billingHandler L = billing_Handle L"
proof (intro ext)
  fix worldID runID callID key args w
  show "billingHandler L worldID runID callID key args w = billing_Handle L worldID runID callID key args w"
    by (cases "billing_Handle L worldID runID callID key args w")
      (auto simp: billingHandler_def split: option.split)
qed

section \<open>The registry as one service\<close>

definition builtin :: "'x golib_scheme \<Rightarrow> registry" where
  "builtin L = (case Builtin L of Inr r \<Rightarrow> r | Inl _ \<Rightarrow> [])"

definition builtin_handle :: "'x golib_scheme \<Rightarrow> handler" where
  "builtin_handle L worldID runID callID behavior args w =
     (case Lookup (builtin L) behavior of
        None \<Rightarrow> Inl (Err ''unknown behavior'')
      | Some h \<Rightarrow> h worldID runID callID behavior args w)"

lemma builtin_handlers:
  "Lookup (builtin L) key = Some h \<Longrightarrow>
   h \<in> {billing_Handle L, crm_Handle L, ticket_Handle L, messaging_Handle L}"
  by (auto simp: builtin_def Builtin_eq Lookup_def billingHandler_eq split: if_splits)

lemma builtin_contract: "contract worldID w (builtin_handle L worldID runID callID behavior args w)"
  using builtin_handlers [of L behavior] billing_contract crm_contract ticket_contract messaging_contract
  by (auto simp: builtin_handle_def split: option.split)

interpretation builtin: service "builtin_handle L" for L
  by (rule service_if_contract) (rule builtin_contract)

text \<open>A sequence of calls, as an agent makes them.\<close>

definition handle_calls ::
    "'x golib_scheme \<Rightarrow> string \<Rightarrow> string \<Rightarrow> (string \<times> string \<times> args) list \<Rightarrow> world_tables \<Rightarrow> world_tables res" where
  "handle_calls L worldID runID calls w =
     foldR (\<lambda>(callID, behavior, args) w. bindR (builtin_handle L worldID runID callID behavior args w)
       (\<lambda>(_, w'). Inr w')) calls w"

text \<open>
  C4. Money is conserved. Whatever calls an agent makes on the four services, in any order
  and with any arguments, every charge's refunded amount stays between zero and the charge,
  and equals the sum of the refunds recorded for it.
\<close>

theorem refunds_conserved:
  assumes "world_ok w" and "handle_calls L worldID runID calls w = Inr w'" and "c \<in> set (charges w')"
  shows "0 \<le> ch_refunded c \<and> ch_refunded c \<le> ch_amount c
    \<and> ch_refunded c = sum_list (map rf_amount
        (filter (\<lambda>r. rf_world r = ch_world c \<and> rf_charge r = ch_id c) (refunds w')))"
proof -
  have "world_ok w'"
    using builtin.calls_ok [OF assms(2) [unfolded handle_calls_def] assms(1)] by blast
  then show ?thesis using assms(3) unfolding world_ok_def billing_ok_def refund_total_def by blast
qed

lemma sample_world_ok: "world_ok sample_world"
  by (simp add: world_ok_def world_keys_def billing_ok_def refund_total_def keyed_def issue_states_def sample_defs)

definition refund_call :: "string \<times> string \<times> args" where
  "refund_call = (''call-1'', ''billing.createRefund'',
     [(''charge_id'', VStr ''CH-1001''), (''amount_cents'', VInt 1500), (''reason'', VStr ''dup'')])"

definition move_call :: "string \<Rightarrow> string \<times> string \<times> args" where
  "move_call s = (''call-2'', ''ticket.transitionIssue'', [(''issue_id'', VStr ''ISS-1''), (''status'', VStr s)])"

lemma sample_refund:
  "\<exists>w'. handle_calls sample_lib ''W'' ''R'' [refund_call] sample_world = Inr w'
     \<and> map ch_refunded (charges w') = [1500]"
  by (simp add: handle_calls_def refund_call_def builtin_handle_def Lookup_def builtin_def Builtin_eq
      billingHandler_eq billing_Handle_def createRefund_def string_arg_def integer_def world_base_def
      store_refund_def ins_def upd_def wrote_def sample_defs Let_def)

theorem refunds_conserved_witness:
  "\<exists>w'. handle_calls sample_lib ''W'' ''R'' [refund_call] sample_world = Inr w'
     \<and> sum_list (map rf_amount (filter (\<lambda>r. rf_world r = ch_world (hd (charges w'))
          \<and> rf_charge r = ch_id (hd (charges w'))) (refunds w'))) = 1500"
proof -
  obtain w' where w': "handle_calls sample_lib ''W'' ''R'' [refund_call] sample_world = Inr w'"
      and r: "map ch_refunded (charges w') = [1500]"
    using sample_refund by (elim exE conjE) (rule that)
  from r obtain c where c: "charges w' = [c]" "ch_refunded c = 1500" by (auto simp: map_eq_Cons_conv)
  have "c \<in> set (charges w')" using c by simp
  from refunds_conserved [OF sample_world_ok w' this]
  have "sum_list (map rf_amount (filter (\<lambda>r. rf_world r = ch_world c \<and> rf_charge r = ch_id c) (refunds w'))) = 1500"
    by (simp only: c(2))
  then show ?thesis using w' by (intro exI [of _ w']) (simp only: c(1) list.sel simp_thms)
qed

text \<open>
  The ticket state machine. Whatever calls an agent makes, no issue disappears and its
  status moves only from open to in progress and from in progress to resolved; an issue that
  was resolved stays resolved.
\<close>

theorem issue_lifecycle:
  assumes "world_ok w" and "handle_calls L worldID runID calls w = Inr w'"
    and "sel (\<lambda>i. (is_world i, is_id i)) k (ticket_issues w) = Some i"
  shows "\<exists>i'. sel (\<lambda>i. (is_world i, is_id i)) k (ticket_issues w') = Some i'
    \<and> legal_transition\<^sup>*\<^sup>* (is_status i) (is_status i')
    \<and> (is_status i = ''resolved'' \<longrightarrow> is_status i' = ''resolved'')"
proof -
  have "issues_advance w w'"
    using builtin.calls_ok [OF assms(2) [unfolded handle_calls_def] assms(1)] by blast
  then obtain i' where i': "sel (\<lambda>i. (is_world i, is_id i)) k (ticket_issues w') = Some i'"
      "legal_transition\<^sup>*\<^sup>* (is_status i) (is_status i')"
    using assms(3) unfolding issues_advance_def by blast
  have "is_status i = ''resolved'' \<longrightarrow> is_status i' = ''resolved''"
    using i'(2) by (cases rule: converse_rtranclpE) (auto simp: legal_transition_def)
  then show ?thesis using i' by blast
qed

lemma blank_samples: "\<not> blank ''ISS-1''" "\<not> blank ''in_progress''"
  by (simp_all add: blank_def TrimSpace_def trim_front.simps space_len_def bytes_of_def wide_spaces_def ascii_space_def)

lemma sample_move: "\<exists>w'. handle_calls sample_lib ''W'' ''R'' [move_call ''in_progress''] sample_world = Inr w'"
  by (simp add: handle_calls_def move_call_def builtin_handle_def Lookup_def builtin_def Builtin_eq
      ticket_Handle_def transitionIssue_def stringArg_def string_arg_def loadIssue_def legal_transition_def
      blank_samples wrote_def sample_defs)

theorem issue_lifecycle_witness:
  "\<exists>w' i'. handle_calls sample_lib ''W'' ''R'' [move_call ''in_progress''] sample_world = Inr w'
     \<and> sel (\<lambda>i. (is_world i, is_id i)) (''W'', ''ISS-1'') (ticket_issues w') = Some i'
     \<and> legal_transition\<^sup>*\<^sup>* ''open'' (is_status i')"
proof -
  obtain w' where w': "handle_calls sample_lib ''W'' ''R'' [move_call ''in_progress''] sample_world = Inr w'"
    using sample_move by (elim exE) (rule that)
  obtain i where i: "sel (\<lambda>i. (is_world i, is_id i)) (''W'', ''ISS-1'') (ticket_issues sample_world) = Some i"
      "is_status i = ''open''"
    by (simp add: sample_defs)
  from issue_lifecycle [OF sample_world_ok w' i(1)] i(2) w' show ?thesis by auto
qed

end
