(* ===== verification/Dispatch.thy ===== *)
theory Dispatch
  imports Chaos Behavior
begin

text \<open>
  The dispatcher (\<open>internal/dispatch/dispatch.go\<close>): one tool call, from the ownership check
  and the idempotency lookup to the committed result. \<open>Invoke\<close> is one transaction; it is
  written here as the stages the source goes through, each a function on the call's local
  variables and the database, composed in the source's order. The crash hook is a choice
  made outside: whether the process dies just before or just after the commit.
\<close>

section \<open>State of a call\<close>

record result =
  rs_status :: int
  rs_body :: json

record dispatcher =
  dp_manifest :: manifest
  dp_registry :: registry
  dp_fence :: "fence option"

text \<open>The local variables of \<open>Invoke\<close>.\<close>

record call_vars =
  v_status :: int
  v_response :: json
  v_mutation :: "json option"
  v_decision :: decision
  v_payload :: "(string \<times> json) list"
  v_post :: bool
  v_skip :: bool
  v_ran :: bool

definition start_vars :: call_vars where
  "start_vars = \<lparr>v_status = 0, v_response = JNull, v_mutation = None, v_decision = no_rule, v_payload = [],
     v_post = False, v_skip = False, v_ran = False\<rparr>"

definition error_body :: "string \<Rightarrow> json" where
  "error_body msg = jmap [(''error'', JStr msg)]"

definition answer :: "int \<Rightarrow> json \<Rightarrow> call_vars \<Rightarrow> call_vars" where
  "answer status body v = v\<lparr>v_status := status, v_response := body, v_skip := True\<rparr>"

text \<open>The identity of a call and of the run's world, which no stage changes.\<close>

record call_site =
  c_run :: string
  c_call :: string
  c_op :: operation
  c_args :: args
  c_world :: string
  c_fault :: string
  c_consumed :: nat

section \<open>Authorization\<close>

definition audit_payload :: "call_site \<Rightarrow> auth_decision \<Rightarrow> json" where
  "audit_payload c a =
     jmap ([(''call_id'', JStr (c_call c)), (''operation_id'', JStr (op_id (c_op c))),
            (''principal_id'', JStr (ad_principal a)), (''permission'', JStr (ad_permission a)),
            (''call_index'', jint (ad_call a))]
           @ (if ad_allowed a then [] else [(''reason'', JStr (ad_reason a))]))"

definition authorize :: "'x lib_scheme \<Rightarrow> call_site \<Rightarrow> call_vars \<Rightarrow> call_vars tx" where
  "authorize L c v d =
     (if v_skip v then Inr (v, d)
      else bindR (Decide L (c_run c) (c_world c) (c_op c) (c_args c) d) (\<lambda>(a, d1).
        if ad_invalid a then Inr (answer 400 (error_body ''invalid arguments'') v, d1)
        else if ad_enforced a then
          let v1 = (if ad_allowed a then v
                    else answer 403 (jmap [(''error'', JStr ''authorization denied''), (''reason'', JStr (ad_reason a))]) v);
              typ = (if ad_allowed a then ''authorization.allowed'' else ''authorization.denied'')
          in bindR (AppendEventTx L (c_run c) typ (audit_payload c a) d1) (\<lambda>(_, d2). Inr (v1, d2))
        else Inr (v, d1)))"

section \<open>Fault injection\<close>

definition chaos_payload :: "call_site \<Rightarrow> decision \<Rightarrow> (string \<times> json) list" where
  "chaos_payload c dec =
     [(''rule_id'', JStr (cd_id dec)), (''type'', JStr (cr_type (cd_rule dec))), (''call_id'', JStr (c_call c)),
      (''operation_id'', JStr (op_id (c_op c))), (''matching_call'', jint (int (cd_match dec)))]"

definition injected :: "int \<Rightarrow> string \<Rightarrow> call_vars \<Rightarrow> call_vars" where
  "injected status msg v =
     (answer status (error_body msg) v)\<lparr>v_payload := v_payload v @ [(''status'', jint status)]\<rparr>"

text \<open>The effect of the selected rule on the call, before its event is recorded.\<close>

definition apply_rule ::
    "'x lib_scheme \<Rightarrow> call_site \<Rightarrow> json \<Rightarrow> call_vars \<Rightarrow> db \<Rightarrow> call_vars res" where
  "apply_rule L c arguments v d =
     (let r = cd_rule (v_decision v) in
      if cr_type r = ''http_error'' then Inr (injected (cr_status r) ''simulated HTTP failure'' v)
      else if cr_type r = ''timeout'' then Inr (answer 0 (error_body ''simulated transport timeout'') v)
      else if cr_type r = ''rate_limit'' then Inr (injected 429 ''simulated rate limit'' v)
      else if cr_type r = ''permission_revocation'' then Inr (injected 403 ''simulated permission revocation'' v)
      else if cr_type r = ''partial_service_outage'' then Inr (injected 503 ''simulated service outage'' v)
      else if cr_type r = ''latency''
      then Inr (v\<lparr>v_payload := v_payload v @ [(''duration_ms'', jint (cr_duration r))]\<rparr>)
      else if cr_type r = ''stale_read'' then
        (case LoadSnapshot L (c_run c) (cd_id (v_decision v)) (op_id (c_op c)) arguments d of
           None \<Rightarrow> Inl ErrNoRows
         | Some (status, body) \<Rightarrow> Inr (answer status body v))
      else if cr_type r = ''timeout_after_commit'' \<or> cr_type r = ''malformed_response''
      then Inr (v\<lparr>v_post := True\<rparr>)
      else if cr_type r = ''concurrent_mutation'' then Inr v
      else Inl (Err ''chaos effect is not implemented''))"

definition invokeActor :: "'x lib_scheme \<Rightarrow> dispatcher \<Rightarrow> call_site \<Rightarrow> decision \<Rightarrow> unit tx" where
  "invokeActor L D c dec d =
     (case cr_actor (cd_rule dec) of
        None \<Rightarrow> Inl (Err ''chaos rule has no actor'')
      | Some a \<Rightarrow>
          (case Operation (dp_manifest D) (at_operation a) of
             None \<Rightarrow> Inl (Err ''chaos actor operation is unavailable'')
           | Some op \<Rightarrow>
               if op_method op \<noteq> ''POST'' then Inl (Err ''chaos actor operation is unavailable'')
               else (case Lookup (dp_registry D) (op_behavior op) of
                   None \<Rightarrow> Inl (Err ''chaos actor behavior is unavailable'')
                 | Some h \<Rightarrow>
                     bindR (h (c_world c) (c_run c @ ''-chaos-actor'') (cd_id dec @ ''-'' @ show_nat (cd_match dec))
                              (op_behavior op) (at_arguments a) (db_world d)) (\<lambda>((status, _, mutation), w).
                     case mutation of
                       None \<Rightarrow> Inl (Err ''chaos actor did not mutate successfully'')
                     | Some m \<Rightarrow>
                         if status < 200 \<or> status \<ge> 300 then Inl (Err ''chaos actor did not mutate successfully'')
                         else AppendEventTx L (c_run c) ''chaos.actor_mutation''
                                (jmap [(''rule_id'', JStr (cd_id dec)), (''operation_id'', JStr (at_operation a)),
                                       (''status'', jint status), (''mutation'', m)])
                                (d\<lparr>db_world := w\<rparr>)))))"

definition inject :: "'x lib_scheme \<Rightarrow> dispatcher \<Rightarrow> call_site \<Rightarrow> json \<Rightarrow> call_vars \<Rightarrow> call_vars tx" where
  "inject L D c arguments v d =
     (if v_skip v then Inr (v, d)
      else bindR (chaos_Decide L (c_run c) (op_id (c_op c)) arguments d) (\<lambda>(dec, d1).
        let v1 = v\<lparr>v_decision := dec\<rparr> in
        if cd_id dec = [] then Inr (v1, d1)
        else bindR (apply_rule L c arguments (v1\<lparr>v_payload := chaos_payload c dec\<rparr>) d1) (\<lambda>v2.
          bindR (if v_post v2 then Inr ((), d1)
                 else AppendEventTx L (c_run c) ''chaos.injected'' (jmap (v_payload v2)) d1) (\<lambda>(_, d2).
          if cr_type (cd_rule dec) = ''concurrent_mutation''
          then bindR (invokeActor L D c dec d2) (\<lambda>(_, d3). Inr (v2, d3))
          else Inr (v2, d2)))))"

section \<open>The handler\<close>

definition retried :: "string \<Rightarrow> db \<Rightarrow> bool" where
  "retried runID d \<longleftrightarrow> filter (\<lambda>e. e_run e = runID \<and> e_type e = ''retry'') (ledger d) \<noteq> []"

definition call_payload :: "call_site \<Rightarrow> json" where
  "call_payload c = jmap [(''call_id'', JStr (c_call c)), (''operation_id'', JStr (op_id (c_op c)))]"

definition handle_call :: "'x lib_scheme \<Rightarrow> dispatcher \<Rightarrow> call_site \<Rightarrow> call_vars \<Rightarrow> call_vars tx" where
  "handle_call L D c v d =
     (if v_skip v then Inr (v, d)
      else if c_fault c = op_id (c_op c) \<and> c_consumed c = 0 then
        bindR (AppendEventTx L (c_run c) ''error''
                 (jmap [(''call_id'', JStr (c_call c)), (''kind'', JStr ''injected_503'')])
                 (update_run (c_run c) (\<lambda>r. r\<lparr>r_fault_consumed := 1\<rparr>) d))
          (\<lambda>(_, d1). Inr (v\<lparr>v_status := 503, v_response := error_body ''injected temporary unavailability''\<rparr>, d1))
      else
        bindR (if c_fault c = op_id (c_op c) \<and> c_consumed c = 1 \<and> \<not> retried (c_run c) d
               then AppendEventTx L (c_run c) ''retry'' (call_payload c) d else Inr ((), d)) (\<lambda>(_, d1).
        case Lookup (dp_registry D) (op_behavior (c_op c)) of
          None \<Rightarrow> Inl (Err ''unsupported behavior'')
        | Some h \<Rightarrow>
            bindR (h (c_world c) (c_run c) (c_call c) (op_behavior (c_op c)) (c_args c) (db_world d1))
              (\<lambda>((status, body, mutation), w).
                 Inr (v\<lparr>v_status := status, v_response := body, v_mutation := mutation, v_ran := True\<rparr>,
                      d1\<lparr>db_world := w\<rparr>))))"

section \<open>After the handler\<close>

definition capture :: "'x lib_scheme \<Rightarrow> call_site \<Rightarrow> json \<Rightarrow> call_vars \<Rightarrow> db \<Rightarrow> db" where
  "capture L c arguments v d =
     (if v_ran v \<and> 200 \<le> v_status v \<and> v_status v < 300 \<and> op_method (c_op c) = ''GET''
      then fold (\<lambda>ruleID. SaveSnapshot L (c_run c) ruleID (op_id (c_op c)) arguments (v_status v) (v_response v))
             (cd_captures (v_decision v)) d
      else d)"

text \<open>An effect after the commit needs a committed mutation; without one the injection is taken back.\<close>

definition settle_post :: "call_site \<Rightarrow> call_vars \<Rightarrow> call_vars tx" where
  "settle_post c v d =
     (if v_post v then
        (if \<not> v_ran v then Inl (Err ''chaos rule handler did not run'')
         else if cr_type (cd_rule (v_decision v)) = ''timeout_after_commit''
               \<and> (v_status v < 200 \<or> v_status v \<ge> 300 \<or> v_mutation v = None)
         then Inr (v\<lparr>v_post := False\<rparr>, add_injection (-1) (c_run c) (cd_id (v_decision v)) d)
         else Inr (v, d))
      else Inr (v, d))"

definition hide_outcome :: "'x lib_scheme \<Rightarrow> call_site \<Rightarrow> call_vars \<Rightarrow> call_vars tx" where
  "hide_outcome L c v d =
     (if v_post v then
        bindR (ins (\<lambda>h. (hd_run h, hd_call h))
                 \<lparr>hd_run = c_run c, hd_call = c_call c, hd_rule = cd_id (v_decision v), hd_status = v_status v,
                  hd_body = v_response v\<rparr> (chaos_hidden_outcomes (db_policy d))) (\<lambda>t.
        let v1 = (if cr_type (cd_rule (v_decision v)) = ''timeout_after_commit''
                  then v\<lparr>v_status := 0, v_response := error_body ''simulated transport timeout''\<rparr>
                  else v\<lparr>v_response := JStr (cr_body (cd_rule (v_decision v)))\<rparr>) in
        bindR (AppendEventTx L (c_run c) ''chaos.injected'' (jmap (v_payload v))
                 (map_policy (\<lambda>p. p\<lparr>chaos_hidden_outcomes := t\<rparr>) d)) (\<lambda>(_, d1).
        Inr (v1, d1)))
      else Inr (v, d))"

text \<open>
  The transcript goes through \<open>[]map[string]any\<close> and back: every number in it is read as a
  \<open>float64\<close> and printed again.
\<close>

definition rejson :: "'x golib_scheme \<Rightarrow> json \<Rightarrow> json" where
  "rejson L j = marshal L (unmarshal L j)"

definition remarshal :: "'x golib_scheme \<Rightarrow> message \<Rightarrow> message" where
  "remarshal L m = m\<lparr>m_tool_calls := map (\<lambda>t. t\<lparr>tc_arguments := rejson L (tc_arguments t)\<rparr>) (m_tool_calls m),
                     m_meta := map (\<lambda>(k, v). (k, rejson L v)) (m_meta m)\<rparr>"

definition tool_message :: "call_site \<Rightarrow> int \<Rightarrow> json \<Rightarrow> message" where
  "tool_message c status body =
     \<lparr>m_role = ''tool'', m_content = body, m_tool_calls = [], m_call_id = c_call c,
      m_operation = op_id (c_op c), m_status = status, m_meta = [], m_interruptions = []\<rparr>"

definition record_call :: "'x lib_scheme \<Rightarrow> call_site \<Rightarrow> json \<Rightarrow> message list \<Rightarrow> call_vars \<Rightarrow> result tx" where
  "record_call L c arguments transcript v d =
     bindR (case v_mutation v of None \<Rightarrow> Inr ((), d)
            | Some m \<Rightarrow> AppendEventTx L (c_run c) ''state.mutation'' m d) (\<lambda>(_, d1).
     bindR (AppendEventTx L (c_run c) ''tool.response''
              (jmap [(''call_id'', JStr (c_call c)), (''operation_id'', JStr (op_id (c_op c))),
                     (''status'', jint (v_status v)), (''body'', v_response v)]) d1) (\<lambda>(_, d2).
     bindR (ins (\<lambda>r. (tr_run r, tr_call r))
              \<lparr>tr_run = c_run c, tr_call = c_call c, tr_operation = op_id (c_op c), tr_arguments = arguments,
               tr_status = v_status v, tr_body = v_response v\<rparr> (results d2)) (\<lambda>t.
     Inr (\<lparr>rs_status = v_status v, rs_body = v_response v\<rparr>,
          update_run (c_run c)
            (\<lambda>r. r\<lparr>r_transcript := map (remarshal L) transcript @ [tool_message c (v_status v) (v_response v)]\<rparr>)
            (d2\<lparr>db_runs := (db_runs d2)\<lparr>tool_results := t\<rparr>\<rparr>)))))"

section \<open>Invoke\<close>

definition execute_call ::
    "'x lib_scheme \<Rightarrow> dispatcher \<Rightarrow> call_site \<Rightarrow> message list \<Rightarrow> result tx" where
  "execute_call L D c transcript d =
     (let arguments = marshal_args L (c_args c);
          v0 = (case validate L (c_op c) (c_args c) of
                  None \<Rightarrow> start_vars | Some msg \<Rightarrow> answer 400 (error_body msg) start_vars) in
      bindR (AppendEventTx L (c_run c) ''tool.request''
               (jmap [(''call_id'', JStr (c_call c)), (''operation_id'', JStr (op_id (c_op c))),
                      (''arguments'', arguments)]) d) (\<lambda>(_, d1).
      bindR (authorize L c v0 d1) (\<lambda>(v1, d2).
      bindR (inject L D c arguments v1 d2) (\<lambda>(v2, d3).
      bindR (handle_call L D c v2 d3) (\<lambda>(v3, d4).
      bindR (settle_post c v3 (capture L c arguments v3 d4)) (\<lambda>(v4, d5).
      bindR (hide_outcome L c v4 d5) (\<lambda>(v5, d6).
      record_call L c arguments transcript v5 d6)))))))"

definition invoke_tx :: "'x lib_scheme \<Rightarrow> dispatcher \<Rightarrow> string \<Rightarrow> string \<Rightarrow> string \<Rightarrow> args \<Rightarrow> result tx" where
  "invoke_tx L D runID callID operationID args d =
     (case sel (\<lambda>r. (tr_run r, tr_call r)) (runID, callID) (results d) of
        Some saved \<Rightarrow>
          if tr_operation saved \<noteq> operationID \<or> tr_arguments saved \<noteq> marshal_args L args
          then Inl (Err ''call ID reused with different request'')
          else Inr (\<lparr>rs_status = tr_status saved, rs_body = tr_body saved\<rparr>, d)
      | None \<Rightarrow>
          (case Operation (dp_manifest D) operationID of
             None \<Rightarrow> Inl (Err ''operation is not compiled'')
           | Some op \<Rightarrow>
               (case sel r_id runID (run_rows d) of
                  None \<Rightarrow> Inl ErrNoRows
                | Some r \<Rightarrow>
                    execute_call L D
                      \<lparr>c_run = runID, c_call = callID, c_op = op, c_args = args, c_world = r_world r,
                       c_fault = r_fault_operation r, c_consumed = r_fault_consumed r\<rparr>
                      (r_transcript r) d)))"

definition invoke_guarded ::
    "'x lib_scheme \<Rightarrow> dispatcher \<Rightarrow> instant \<Rightarrow> string \<Rightarrow> string \<Rightarrow> string \<Rightarrow> args \<Rightarrow> result tx" where
  "invoke_guarded L D now runID callID operationID args =
     guarded (dp_fence D) now (invoke_tx L D runID callID operationID args)"

text \<open>
  The whole call, with the result the caller sees and the database it leaves. A saved result
  is returned without a commit: the deferred rollback discards the guard's own update, so
  the database is the old one. A crash before the commit rolls back; a crash after it loses
  only the answer.
\<close>

datatype crash = NoCrash | BeforeToolCommit | AfterToolCommit

definition saved_call :: "string \<Rightarrow> string \<Rightarrow> db \<Rightarrow> bool" where
  "saved_call runID callID d \<longleftrightarrow> sel (\<lambda>r. (tr_run r, tr_call r)) (runID, callID) (results d) \<noteq> None"

definition Invoke ::
    "'x lib_scheme \<Rightarrow> dispatcher \<Rightarrow> instant \<Rightarrow> crash \<Rightarrow> string \<Rightarrow> string \<Rightarrow> string \<Rightarrow> args \<Rightarrow> db \<Rightarrow> result res \<times> db" where
  "Invoke L D now crash runID callID operationID args d =
     (case invoke_guarded L D now runID callID operationID args d of
        Inl e \<Rightarrow> (Inl e, d)
      | Inr (r, d') \<Rightarrow>
          if saved_call runID callID d then (Inr r, d)
          else (case crash of
              NoCrash \<Rightarrow> (Inr r, d')
            | BeforeToolCommit \<Rightarrow> (Inl ErrCrashed, d)
            | AfterToolCommit \<Rightarrow> (Inl ErrCrashed, d')))"

section \<open>What a stage may change\<close>

definition registry_ok :: "registry \<Rightarrow> bool" where
  "registry_ok r \<longleftrightarrow> (\<forall>key h. Lookup r key = Some h \<longrightarrow> service h)"

text \<open>The events a tool call writes.\<close>

definition call_events :: "string list" where
  "call_events = [''tool.request'', ''authorization.allowed'', ''authorization.denied'', ''chaos.injected'',
     ''chaos.actor_mutation'', ''error'', ''retry'', ''state.mutation'', ''tool.response'']"

definition call_event :: "string \<Rightarrow> event_row \<Rightarrow> bool" where
  "call_event runID e \<longleftrightarrow> e_run e = runID \<and> e_type e \<in> set call_events"

lemma call_events [simp]:
  "''tool.request'' \<in> set call_events" "''authorization.allowed'' \<in> set call_events"
  "''authorization.denied'' \<in> set call_events" "''chaos.injected'' \<in> set call_events"
  "''chaos.actor_mutation'' \<in> set call_events" "''error'' \<in> set call_events" "''retry'' \<in> set call_events"
  "''state.mutation'' \<in> set call_events" "''tool.response'' \<in> set call_events"
  by (simp_all add: call_events_def)

text \<open>
  A stage of a call appends events of its own run to the ledger, keeps the world invariant
  and the other worlds, and leaves saved results and coordination alone.
\<close>

definition stage :: "string \<Rightarrow> string \<Rightarrow> db \<Rightarrow> db \<Rightarrow> bool" where
  "stage runID worldID d d' \<longleftrightarrow>
     (\<exists>rows. ledger d' = ledger d @ rows \<and> (\<forall>e \<in> set rows. call_event runID e))
   \<and> (ledger_inv d \<longrightarrow> ledger_inv d')
   \<and> results d' = results d \<and> db_coord d' = db_coord d \<and> map r_id (run_rows d') = map r_id (run_rows d)
   \<and> (world_ok (db_world d) \<longrightarrow> world_ok (db_world d'))
   \<and> outside worldID (db_world d') = outside worldID (db_world d)
   \<and> issues_advance (db_world d) (db_world d')"

lemma stage_same:
  "ledger d' = ledger d \<Longrightarrow> results d' = results d \<Longrightarrow> db_coord d' = db_coord d \<Longrightarrow> db_world d' = db_world d \<Longrightarrow>
   map r_id (run_rows d') = map r_id (run_rows d) \<Longrightarrow> stage runID worldID d d'"
  by (simp add: stage_def ledger_inv_def issues_advance_same)

lemma stage_refl [simp]: "stage runID worldID d d"
  by (simp add: stage_same)

lemma stage_policy [simp]: "stage runID worldID d (map_policy f d)"
  by (simp add: stage_same)

lemma stage_trans [trans]:
  assumes "stage runID worldID d d'" and "stage runID worldID d' d''"
  shows "stage runID worldID d d''"
proof -
  from assms obtain rows rows' where "ledger d'' = ledger d @ rows @ rows'"
      "\<forall>e \<in> set (rows @ rows'). call_event runID e"
    unfolding stage_def by fastforce
  then have "\<exists>rows. ledger d'' = ledger d @ rows \<and> (\<forall>e \<in> set rows. call_event runID e)" by blast
  moreover have "issues_advance (db_world d) (db_world d'')"
    using assms issues_advance_trans unfolding stage_def by blast
  ultimately show ?thesis using assms unfolding stage_def by simp
qed

lemma stage_append:
  assumes "AppendEventTx L runID typ payload d = Inr (u, d')" and known: "typ \<in> set call_events"
  shows "stage runID worldID d d'"
proof -
  have "ledger_inv d \<longrightarrow> ledger_inv d'" using AppendEventTx_grows [OF assms(1)] by (simp add: ledger_grows_def)
  moreover have "\<exists>rows. ledger d' = ledger d @ rows \<and> (\<forall>e \<in> set rows. call_event runID e)"
    by (rule AppendEventTx_ok [OF assms(1)]) (use known in \<open>auto simp: call_event_def\<close>)
  ultimately show ?thesis
    using AppendEventTx_frame [OF assms(1)] by (simp add: stage_def issues_advance_same)
qed

lemma stage_world:
  assumes "service h" and "h worldID runID' callID behavior args (db_world d) = Inr (out, w)"
  shows "stage runID worldID d (d\<lparr>db_world := w\<rparr>)"
  using service.keeps_ok [OF assms] service.stays_inside [OF assms] service.advances [OF assms]
  by (simp add: stage_def ledger_inv_def)

lemma stage_update_run: "(\<And>r. r_id (f r) = r_id r) \<Longrightarrow> stage runID worldID d (update_run x f d)"
  by (rule stage_same) (auto simp: upd_def comp_def)

lemma registry_service: "registry_ok r \<Longrightarrow> Lookup r key = Some h \<Longrightarrow> service h"
  by (simp add: registry_ok_def)

section \<open>The stages\<close>

lemma authorize_stage:
  assumes "authorize L c v d = Inr (v', d')"
  shows "stage (c_run c) worldID d d'"
proof (cases "v_skip v")
  case True
  then show ?thesis using assms by (simp add: authorize_def)
next
  case False
  then obtain a d1 where a: "Decide L (c_run c) (c_world c) (c_op c) (c_args c) d = Inr (a, d1)"
      and rest: "d' = d1 \<or> (\<exists>p. AppendEventTx L (c_run c) ''authorization.allowed'' p d1 = Inr ((), d'))
        \<or> (\<exists>p. AppendEventTx L (c_run c) ''authorization.denied'' p d1 = Inr ((), d'))"
    using assms by (auto simp: authorize_def Let_def split: if_splits)
  have "d1 = d \<or> d1 = map_policy (next_call (c_run c)) d"
    using a by (auto simp: Decide_def Let_def split: option.splits if_splits)
  then have "stage (c_run c) worldID d d1" by auto
  also have "stage (c_run c) worldID d1 d'" using rest by (auto intro: stage_append)
  finally show ?thesis .
qed

lemma policy_refl: "\<exists>f. d = map_policy f d"
  by (rule exI [of _ "\<lambda>t. t"]) (simp add: map_policy_def)

lemma rule_step_policy:
  assumes "rule_step L runID oid arguments rule (sel0, d) = Inr (sel1, d1)"
  shows "\<exists>f. d1 = map_policy f d"
proof -
  have comp: "map_policy f (map_policy g d) = map_policy (\<lambda>t. f (g t)) d" for f g d
    by (simp add: map_policy_def)
  show ?thesis
    using assms policy_refl
    by (auto simp: rule_step_def count_call_def add_injection_def comp Let_def split: if_splits option.splits)
qed

lemma chaos_Decide_stage:
  assumes "chaos_Decide L runID oid arguments d = Inr (dec, d')"
  shows "stage x worldID d d'" and "db_world d' = db_world d" and "ledger d' = ledger d"
proof -
  have "stage x worldID d (snd s) \<and> db_world (snd s) = db_world d \<and> ledger (snd s) = ledger d"
    if "foldR (rule_step L runID oid arguments) rules (no_rule, d) = Inr s" for rules s
    using that
  proof (rule foldR_invariant [where I = "\<lambda>s. stage x worldID d (snd s) \<and> db_world (snd s) = db_world d
        \<and> ledger (snd s) = ledger d"])
    show "stage x worldID d (snd (no_rule, d)) \<and> db_world (snd (no_rule, d)) = db_world d
        \<and> ledger (snd (no_rule, d)) = ledger d" by simp
  next
    fix r s s'
    assume inv: "stage x worldID d (snd s) \<and> db_world (snd s) = db_world d \<and> ledger (snd s) = ledger d"
      and step: "rule_step L runID oid arguments r s = Inr s'"
    obtain f where f: "snd s' = map_policy f (snd s)"
      using rule_step_policy [of L runID oid arguments r "fst s" "snd s" "fst s'" "snd s'"] step by auto
    then show "stage x worldID d (snd s') \<and> db_world (snd s') = db_world d \<and> ledger (snd s') = ledger d"
      using inv stage_policy stage_trans by (metis map_policy_simps(1,2))
  qed
  then show "stage x worldID d d'" "db_world d' = db_world d" "ledger d' = ledger d"
    using assms by (fastforce simp: chaos_Decide_def split: option.splits)+
qed

lemma invokeActor_stage:
  assumes "registry_ok (dp_registry D)" and "invokeActor L D c dec d = Inr (u, d')"
  shows "stage (c_run c) (c_world c) d d'"
proof -
  from assms(2) obtain h run' call' b xs out w p where
      h: "Lookup (dp_registry D) b = Some h" "h (c_world c) run' call' b xs (db_world d) = Inr (out, w)"
      and e: "AppendEventTx L (c_run c) ''chaos.actor_mutation'' p (d\<lparr>db_world := w\<rparr>) = Inr (u, d')"
    unfolding invokeActor_def by (fastforce split: option.splits if_splits prod.splits)
  show ?thesis
    using stage_world [OF registry_service [OF assms(1) h(1)] h(2)] stage_append [OF e] stage_trans call_events by blast
qed


lemma apply_rule_world: "apply_rule L c arguments v d = Inr v' \<Longrightarrow> v_mutation v' = v_mutation v"
  by (auto simp: apply_rule_def injected_def answer_def Let_def split: if_splits option.splits)

lemma inject_stage:
  assumes "registry_ok (dp_registry D)" and "inject L D c arguments v d = Inr (v', d')"
  shows "stage (c_run c) (c_world c) d d'"
proof (cases "v_skip v")
  case True
  then show ?thesis using assms(2) by (simp add: inject_def)
next
  case False
  obtain dec d1 where dec: "chaos_Decide L (c_run c) (op_id (c_op c)) arguments d = Inr (dec, d1)"
    using assms(2) False by (auto simp: inject_def)
  have s1: "stage (c_run c) (c_world c) d d1" using chaos_Decide_stage(1) [OF dec] .
  show ?thesis
  proof (cases "cd_id dec = []")
    case True
    then show ?thesis using s1 assms(2) False dec by (simp add: inject_def)
  next
    case neq: False
    obtain v2 d2 where d2: "d2 = d1 \<or> (\<exists>p. AppendEventTx L (c_run c) ''chaos.injected'' p d1 = Inr ((), d2))"
        and d': "d' = d2 \<or> invokeActor L D c dec d2 = Inr ((), d')"
      using assms(2) False dec neq by (auto simp: inject_def Let_def split: if_splits)
    have "stage (c_run c) (c_world c) d1 d2" using d2 by (auto intro: stage_append)
    moreover have "stage (c_run c) (c_world c) d2 d'" using d' invokeActor_stage [OF assms(1)] by auto
    ultimately show ?thesis using s1 stage_trans by blast
  qed
qed

lemma handle_call_stage:
  assumes "registry_ok (dp_registry D)" and "handle_call L D c v d = Inr (v', d')"
  shows "stage (c_run c) (c_world c) d d'"
proof -
  consider "v_skip v" | "\<not> v_skip v" "c_fault c = op_id (c_op c) \<and> c_consumed c = 0"
    | "\<not> v_skip v" "\<not> (c_fault c = op_id (c_op c) \<and> c_consumed c = 0)" by blast
  then show ?thesis
  proof cases
    case 1
    then show ?thesis using assms(2) by (simp add: handle_call_def)
  next
    case 2
    let ?d1 = "update_run (c_run c) (\<lambda>r. r\<lparr>r_fault_consumed := 1\<rparr>) d"
    obtain p where e: "AppendEventTx L (c_run c) ''error'' p ?d1 = Inr ((), d')"
      using assms(2) 2 by (auto simp: handle_call_def)
    have "stage (c_run c) (c_world c) d ?d1" by (rule stage_update_run) simp
    then show ?thesis using stage_append [OF e] stage_trans call_events by blast
  next
    case 3
    obtain d1 where d1: "(if c_fault c = op_id (c_op c) \<and> c_consumed c = 1 \<and> \<not> retried (c_run c) d
          then AppendEventTx L (c_run c) ''retry'' (call_payload c) d else Inr ((), d)) = Inr ((), d1)"
        and k: "(case Lookup (dp_registry D) (op_behavior (c_op c)) of None \<Rightarrow> Inl (Err ''unsupported behavior'')
          | Some h \<Rightarrow> bindR (h (c_world c) (c_run c) (c_call c) (op_behavior (c_op c)) (c_args c) (db_world d1))
              (\<lambda>((status, body, mutation), w).
                 Inr (v\<lparr>v_status := status, v_response := body, v_mutation := mutation, v_ran := True\<rparr>,
                      d1\<lparr>db_world := w\<rparr>))) = Inr (v', d')"
      using assms(2) 3 unfolding handle_call_def by (auto simp del: if_split_asm)
    obtain h out w where h: "Lookup (dp_registry D) (op_behavior (c_op c)) = Some h"
          "h (c_world c) (c_run c) (c_call c) (op_behavior (c_op c)) (c_args c) (db_world d1) = Inr (out, w)"
        and d': "d' = d1\<lparr>db_world := w\<rparr>"
      using k by (auto split: option.splits)
    have "stage (c_run c) (c_world c) d d1" using d1 by (auto intro: stage_append split: if_splits)
    moreover have "stage (c_run c) (c_world c) d1 d'"
      unfolding d' by (rule stage_world [OF registry_service [OF assms(1) h(1)] h(2)])
    ultimately show ?thesis by (rule stage_trans)
  qed
qed

lemma capture_policy: "\<exists>f. capture L c arguments v d = map_policy f d"
proof -
  have "\<exists>f. fold (\<lambda>ruleID. SaveSnapshot L r ruleID oid arguments s b) rs d = map_policy f d" for rs r oid s b d
  proof (induction rs arbitrary: d)
    case Nil
    show ?case using policy_refl by simp
  next
    case (Cons x xs)
    obtain g where g: "SaveSnapshot L r x oid arguments s b d = map_policy g d"
      by (auto simp: SaveSnapshot_def)
    obtain f where "fold (\<lambda>ruleID. SaveSnapshot L r ruleID oid arguments s b) xs (map_policy g d) = map_policy f (map_policy g d)"
      using Cons.IH by blast
    then have "fold (\<lambda>ruleID. SaveSnapshot L r ruleID oid arguments s b) (x # xs) d = map_policy (\<lambda>t. f (g t)) d"
      using g by (simp add: map_policy_def)
    then show ?case by blast
  qed
  then show ?thesis using policy_refl by (simp add: capture_def)
qed

lemma settle_post_policy: "settle_post c v d = Inr (v', d') \<Longrightarrow> \<exists>f. d' = map_policy f d"
  using policy_refl by (auto simp: settle_post_def add_injection_def split: if_splits)

lemma hide_outcome_stage:
  assumes "hide_outcome L c v d = Inr (v', d')"
  shows "stage (c_run c) worldID d d'" and "db_world d' = db_world d"
proof -
  have "d' = d \<or> (\<exists>f p. AppendEventTx L (c_run c) ''chaos.injected'' p (map_policy f d) = Inr ((), d'))"
    using assms by (auto simp: hide_outcome_def Let_def split: if_splits)
  then consider "d' = d" | f p where "AppendEventTx L (c_run c) ''chaos.injected'' p (map_policy f d) = Inr ((), d')"
    by blast
  then have "stage (c_run c) worldID d d' \<and> db_world d' = db_world d"
  proof cases
    case 1
    then show ?thesis by simp
  next
    case 2
    then show ?thesis
      using stage_trans [OF stage_policy stage_append [OF 2 call_events(4)]] AppendEventTx_frame(3) [OF 2] by simp
  qed
  then show "stage (c_run c) worldID d d'" "db_world d' = db_world d" by simp_all
qed


lemma record_call_ok:
  assumes "record_call L c arguments transcript v d = Inr (r, d')"
  shows "r = \<lparr>rs_status = v_status v, rs_body = v_response v\<rparr>"
    and "results d' = results d @ [\<lparr>tr_run = c_run c, tr_call = c_call c, tr_operation = op_id (c_op c),
           tr_arguments = arguments, tr_status = v_status v, tr_body = v_response v\<rparr>]"
    and "db_world d' = db_world d" and "db_coord d' = db_coord d" and "db_policy d' = db_policy d"
    and "map r_id (run_rows d') = map r_id (run_rows d)"
    and "ledger_inv d \<longrightarrow> ledger_inv d'"
    and "\<exists>mid e. ledger d' = ledger d @ mid @ [e] \<and> (\<forall>x \<in> set (mid @ [e]). call_event (c_run c) x)
           \<and> e_type e = ''tool.response''
           \<and> map (\<lambda>x. (e_type x, e_payload x)) mid =
              (case v_mutation v of None \<Rightarrow> [] | Some m \<Rightarrow> [(''state.mutation'', m)])"
proof -
  let ?resp = "jmap [(''call_id'', JStr (c_call c)), (''operation_id'', JStr (op_id (c_op c))),
                     (''status'', jint (v_status v)), (''body'', v_response v)]"
  obtain d1 where d1: "(case v_mutation v of None \<Rightarrow> Inr ((), d)
            | Some m \<Rightarrow> AppendEventTx L (c_run c) ''state.mutation'' m d) = Inr ((), d1)"
    using assms by (auto simp: record_call_def)
  then obtain d2 where d2: "AppendEventTx L (c_run c) ''tool.response'' ?resp d1 = Inr ((), d2)"
    using assms by (auto simp: record_call_def)
  have rest: "r = \<lparr>rs_status = v_status v, rs_body = v_response v\<rparr>"
    "d' = update_run (c_run c)
            (\<lambda>r. r\<lparr>r_transcript := map (remarshal L) transcript @ [tool_message c (v_status v) (v_response v)]\<rparr>)
            (d2\<lparr>db_runs := (db_runs d2)\<lparr>tool_results := results d2 @ [\<lparr>tr_run = c_run c, tr_call = c_call c,
               tr_operation = op_id (c_op c), tr_arguments = arguments, tr_status = v_status v,
               tr_body = v_response v\<rparr>]\<rparr>\<rparr>)"
    using assms d1 d2 by (auto simp: record_call_def ins_Inr)
  have s1: "stage (c_run c) x d d1" "db_world d1 = db_world d" "db_policy d1 = db_policy d" for x
    using d1 by (auto intro: stage_append dest: AppendEventTx_frame(3,4) split: option.splits)
  have s2: "stage (c_run c) x d1 d2" for x using stage_append [OF d2] by simp
  note f2 = AppendEventTx_frame [OF d2]
  show "r = \<lparr>rs_status = v_status v, rs_body = v_response v\<rparr>" by (rule rest(1))
  have led: "ledger d' = ledger d2" "map r_id (run_rows d') = map r_id (run_rows d2)"
    by (auto simp: rest(2) upd_def)
  show "results d' = results d @ [\<lparr>tr_run = c_run c, tr_call = c_call c, tr_operation = op_id (c_op c),
           tr_arguments = arguments, tr_status = v_status v, tr_body = v_response v\<rparr>]"
    using s1(1) f2 by (simp add: rest(2) stage_def)
  show "db_world d' = db_world d" "db_coord d' = db_coord d" "db_policy d' = db_policy d"
      "map r_id (run_rows d') = map r_id (run_rows d)"
    using s1 f2 led(2) by (simp_all add: rest(2) stage_def)
  show "ledger_inv d \<longrightarrow> ledger_inv d'"
    using stage_trans [OF s1(1) s2] unfolding stage_def ledger_inv_def led(1) by blast
  obtain mid where mid: "ledger d1 = ledger d @ mid" "\<forall>x \<in> set mid. call_event (c_run c) x"
      "map (\<lambda>x. (e_type x, e_payload x)) mid =
         (case v_mutation v of None \<Rightarrow> [] | Some m \<Rightarrow> [(''state.mutation'', m)])"
  proof (cases "v_mutation v")
    case None
    then show ?thesis using d1 that [of "[]"] by simp
  next
    case (Some m)
    then have "AppendEventTx L (c_run c) ''state.mutation'' m d = Inr ((), d1)" using d1 by simp
    then show ?thesis by (rule AppendEventTx_ok) (use Some that in \<open>auto simp: call_event_def\<close>)
  qed
  obtain e where "ledger d2 = ledger d1 @ [e]" "e_run e = c_run c" "e_type e = ''tool.response''"
    using d2 by (rule AppendEventTx_ok) auto
  then show "\<exists>mid e. ledger d' = ledger d @ mid @ [e] \<and> (\<forall>x \<in> set (mid @ [e]). call_event (c_run c) x)
           \<and> e_type e = ''tool.response''
           \<and> map (\<lambda>x. (e_type x, e_payload x)) mid =
              (case v_mutation v of None \<Rightarrow> [] | Some m \<Rightarrow> [(''state.mutation'', m)])"
    using mid led(1) by (intro exI [of _ mid] exI [of _ e]) (auto simp: call_event_def)
qed

lemma bindR_pairE:
  assumes "bindR m (\<lambda>(a, b). g a b) = Inr y"
  obtains a b where "m = Inr (a, b)" and "g a b = Inr y"
  using assms by (cases m) auto

text \<open>The run of one call through its stages.\<close>

lemma execute_call_stages:
  assumes "execute_call L D c transcript d = Inr (r, d')"
  obtains u d1 v1 d2 v2 d3 v3 d4 v4 d5 v5 d6 where
    "AppendEventTx L (c_run c) ''tool.request''
       (jmap [(''call_id'', JStr (c_call c)), (''operation_id'', JStr (op_id (c_op c))),
              (''arguments'', marshal_args L (c_args c))]) d = Inr (u, d1)"
    "authorize L c (case validate L (c_op c) (c_args c) of None \<Rightarrow> start_vars
       | Some msg \<Rightarrow> answer 400 (error_body msg) start_vars) d1 = Inr (v1, d2)"
    "inject L D c (marshal_args L (c_args c)) v1 d2 = Inr (v2, d3)"
    "handle_call L D c v2 d3 = Inr (v3, d4)"
    "settle_post c v3 (capture L c (marshal_args L (c_args c)) v3 d4) = Inr (v4, d5)"
    "hide_outcome L c v4 d5 = Inr (v5, d6)"
    "record_call L c (marshal_args L (c_args c)) transcript v5 d6 = Inr (r, d')"
  using assms unfolding execute_call_def Let_def
  by (elim bindR_pairE) (rule that)

end
