(* ===== verification/Calls.thy ===== *)
theory Calls
  imports Dispatch
begin

text \<open>
  What the dispatcher guarantees of one tool call: it takes effect at most once, a crash at
  either side of the commit can be retried, the services' invariants and the ledger survive
  every call, every change of the world is in the ledger, and a refused call changes nothing.
\<close>

section \<open>A committed call\<close>

text \<open>What one executed call leaves: its world effects, its result row and its events.\<close>

definition call_row :: "'x golib_scheme \<Rightarrow> string \<Rightarrow> string \<Rightarrow> string \<Rightarrow> args \<Rightarrow> result \<Rightarrow> tool_result_row" where
  "call_row L runID callID operationID args r =
     \<lparr>tr_run = runID, tr_call = callID, tr_operation = operationID, tr_arguments = marshal_args L args,
      tr_status = rs_status r, tr_body = rs_body r\<rparr>"

lemma execute_call_ok:
  assumes ok: "registry_ok (dp_registry D)" and run: "execute_call L D c transcript d = Inr (r, d')"
  shows "world_ok (db_world d) \<longrightarrow> world_ok (db_world d')"
    and "outside (c_world c) (db_world d') = outside (c_world c) (db_world d)"
    and "issues_advance (db_world d) (db_world d')"
    and "db_coord d' = db_coord d" and "ledger_inv d \<longrightarrow> ledger_inv d'"
    and "results d' = results d @ [call_row L (c_run c) (c_call c) (op_id (c_op c)) (c_args c) r]"
    and "\<exists>first mid final. ledger d' = ledger d @ first # mid @ [final]
           \<and> e_type first = ''tool.request'' \<and> e_type final = ''tool.response''
           \<and> (\<forall>e \<in> set (first # mid @ [final]). call_event (c_run c) e)"
proof -
  from run obtain u d1 v1 d2 v2 d3 v3 d4 v4 d5 v5 d6 p where
    req: "AppendEventTx L (c_run c) ''tool.request'' p d = Inr (u, d1)" and
    auth: "\<exists>v0. authorize L c v0 d1 = Inr (v1, d2)" and
    inj: "inject L D c (marshal_args L (c_args c)) v1 d2 = Inr (v2, d3)" and
    han: "handle_call L D c v2 d3 = Inr (v3, d4)" and
    set: "settle_post c v3 (capture L c (marshal_args L (c_args c)) v3 d4) = Inr (v4, d5)" and
    hide: "hide_outcome L c v4 d5 = Inr (v5, d6)" and
    rec: "record_call L c (marshal_args L (c_args c)) transcript v5 d6 = Inr (r, d')"
    by (rule execute_call_stages) blast
  obtain f where "d5 = map_policy f (capture L c (marshal_args L (c_args c)) v3 d4)"
    using settle_post_policy [OF set] by blast
  moreover obtain g where "capture L c (marshal_args L (c_args c)) v3 d4 = map_policy g d4"
    using capture_policy by blast
  ultimately have s5: "stage (c_run c) (c_world c) d4 d5" by (simp add: stage_same)
  have s2: "stage (c_run c) (c_world c) d1 d2" using auth authorize_stage by blast
  note s2 also note inject_stage [OF ok inj] also note handle_call_stage [OF ok han]
  also note s5 also note hide_outcome_stage(1) [OF hide, of "c_world c"]
  finally have mid: "stage (c_run c) (c_world c) d1 d6" .
  have all: "stage (c_run c) (c_world c) d d6" by (rule stage_trans [OF stage_append [OF req call_events(1)] mid])
  note R = record_call_ok [OF rec]
  show "world_ok (db_world d) \<longrightarrow> world_ok (db_world d')"
    and "outside (c_world c) (db_world d') = outside (c_world c) (db_world d)"
    and "issues_advance (db_world d) (db_world d')" and "db_coord d' = db_coord d"
    using all R(3,4) by (simp_all add: stage_def)
  show "ledger_inv d \<longrightarrow> ledger_inv d'" using all R(7) by (simp add: stage_def)
  show "results d' = results d @ [call_row L (c_run c) (c_call c) (op_id (c_op c)) (c_args c) r]"
    using all R(1,2) by (simp add: stage_def call_row_def)
  obtain first where first: "ledger d1 = ledger d @ [first]" "e_type first = ''tool.request''" "e_run first = c_run c"
    using req by (rule AppendEventTx_ok) simp
  obtain rows where rows: "ledger d6 = ledger d1 @ rows" "\<forall>e \<in> set rows. call_event (c_run c) e"
    using mid unfolding stage_def by blast
  obtain ms final where fin: "ledger d' = ledger d6 @ ms @ [final]" "e_type final = ''tool.response''"
      "\<forall>x \<in> set (ms @ [final]). call_event (c_run c) x"
    using R(8) by blast
  show "\<exists>first mid final. ledger d' = ledger d @ first # mid @ [final]
           \<and> e_type first = ''tool.request'' \<and> e_type final = ''tool.response''
           \<and> (\<forall>e \<in> set (first # mid @ [final]). call_event (c_run c) e)"
    by (rule exI [of _ first], rule exI [of _ "rows @ ms"], rule exI [of _ final])
      (use first rows fin in \<open>simp add: ball_Un call_event_def\<close>)
qed

text \<open>A fresh call runs in the world of its run.\<close>

lemma invoke_tx_fresh:
  assumes "invoke_tx L D runID callID operationID args d = Inr (r, d')" and "\<not> saved_call runID callID d"
  obtains op row where "Operation (dp_manifest D) operationID = Some op" and "op_id op = operationID"
    and "sel r_id runID (run_rows d) = Some row"
    and "execute_call L D \<lparr>c_run = runID, c_call = callID, c_op = op, c_args = args, c_world = r_world row,
           c_fault = r_fault_operation row, c_consumed = r_fault_consumed row\<rparr> (r_transcript row) d = Inr (r, d')"
  using assms Operation_id by (auto simp: invoke_tx_def saved_call_def split: option.splits)

lemma invoke_tx_saved:
  assumes "saved_call runID callID d"
  shows "invoke_tx L D runID callID operationID args d = Inr (r, d') \<longleftrightarrow>
     d' = d \<and> sel (\<lambda>r. (tr_run r, tr_call r)) (runID, callID) (results d) = Some (call_row L runID callID operationID args r)"
proof -
  obtain row where row: "sel (\<lambda>r. (tr_run r, tr_call r)) (runID, callID) (results d) = Some row"
    using assms by (auto simp: saved_call_def)
  moreover have "tr_run row = runID" "tr_call row = callID" using sel_SomeD [OF row] by auto
  ultimately show ?thesis by (cases row) (auto simp: invoke_tx_def call_row_def)
qed

lemma registry_ok_builtin: "registry_ok (builtin L)"
  unfolding registry_ok_def
  using builtin_handlers billing.service_axioms crm.service_axioms ticket.service_axioms messaging.service_axioms
  by blast

text \<open>What a call that commits does to the database, whichever fence guards it.\<close>

lemma invoke_guarded_cases:
  assumes "invoke_guarded L D now runID callID operationID args d = Inr (r, d')"
  obtains d0 where "guarded (dp_fence D) now (\<lambda>d. Inr ((), d)) d = Inr ((), d0)"
    and "db_runs d0 = db_runs d" "db_world d0 = db_world d" "db_policy d0 = db_policy d"
    and "invoke_tx L D runID callID operationID args d0 = Inr (r, d')"
  using assms unfolding invoke_guarded_def
  by (rule guarded_ok) (use that in \<open>auto simp: guarded_def withGuardedTx_def dest: GuardFenceTx_frame\<close>)

lemma saved_call_runs: "db_runs d' = db_runs d \<Longrightarrow> saved_call runID callID d' = saved_call runID callID d"
  by (simp add: saved_call_def)

lemma Invoke_fresh:
  assumes "invoke_guarded L D now runID callID operationID args d = Inr (r, d')" and "\<not> saved_call runID callID d"
    and "registry_ok (dp_registry D)"
  obtains d0 row op transcript where
      "guarded (dp_fence D) now (\<lambda>d. Inr ((), d)) d = Inr ((), d0)"
    and "db_runs d0 = db_runs d" "db_world d0 = db_world d" "db_policy d0 = db_policy d"
    and "sel r_id runID (run_rows d) = Some row"
    and "Operation (dp_manifest D) operationID = Some op" and "op_id op = operationID"
    and "execute_call L D \<lparr>c_run = runID, c_call = callID, c_op = op, c_args = args, c_world = r_world row,
           c_fault = r_fault_operation row, c_consumed = r_fault_consumed row\<rparr> transcript d0 = Inr (r, d')"
proof -
  obtain d0 where d0: "guarded (dp_fence D) now (\<lambda>d. Inr ((), d)) d = Inr ((), d0)"
      "db_runs d0 = db_runs d" "db_world d0 = db_world d" "db_policy d0 = db_policy d"
      and tx: "invoke_tx L D runID callID operationID args d0 = Inr (r, d')"
    using assms(1) by (rule invoke_guarded_cases)
  have "\<not> saved_call runID callID d0" using assms(2) saved_call_runs [OF d0(2)] by simp
  from tx this obtain op row where "Operation (dp_manifest D) operationID = Some op" "op_id op = operationID"
      "sel r_id runID (run_rows d0) = Some row"
      "execute_call L D \<lparr>c_run = runID, c_call = callID, c_op = op, c_args = args, c_world = r_world row,
           c_fault = r_fault_operation row, c_consumed = r_fault_consumed row\<rparr> (r_transcript row) d0 = Inr (r, d')"
    by (rule invoke_tx_fresh)
  then show ?thesis using that d0 by simp
qed

text \<open>The answer of a committed call is in the results table.\<close>

lemma committed_row:
  assumes "registry_ok (dp_registry D)" and "Invoke L D now NoCrash runID callID operationID args d = (Inr r, d')"
  shows "sel (\<lambda>r. (tr_run r, tr_call r)) (runID, callID) (results d')
           = Some (call_row L runID callID operationID args r)"
proof -
  from assms(2) obtain d1 where g: "invoke_guarded L D now runID callID operationID args d = Inr (r, d1)"
      and d': "d' = (if saved_call runID callID d then d else d1)"
    by (auto simp: Invoke_def split: sum.splits prod.splits if_splits)
  show ?thesis
  proof (cases "saved_call runID callID d")
    case True
    obtain d0 where "db_runs d0 = db_runs d" "invoke_tx L D runID callID operationID args d0 = Inr (r, d1)"
      using g by (rule invoke_guarded_cases)
    then show ?thesis using True d' saved_call_runs invoke_tx_saved by (metis (no_types))
  next
    case False
    obtain d0 and row :: run_row and op transcript where "db_runs d0 = db_runs d" "op_id op = operationID"
      and x: "execute_call L D \<lparr>c_run = runID, c_call = callID, c_op = op, c_args = args, c_world = r_world row,
           c_fault = r_fault_operation row, c_consumed = r_fault_consumed row\<rparr> transcript d0 = Inr (r, d1)"
      using g False assms(1) by (rule Invoke_fresh)
    then have "results d1 = results d @ [call_row L runID callID operationID args r]"
      using execute_call_ok(6) [OF assms(1) x] by simp
    moreover have "sel (\<lambda>r. (tr_run r, tr_call r)) (runID, callID) (results d) = None"
      using False by (simp add: saved_call_def)
    ultimately show ?thesis using False d' by (simp add: sel_append call_row_def)
  qed
qed

lemma Invoke_saved:
  assumes "sel (\<lambda>r. (tr_run r, tr_call r)) (runID, callID) (results d) = Some (call_row L runID callID operationID args r)"
  shows "snd (Invoke L D now crash runID callID operationID' args' d) = d"
    and "fst (Invoke L D now crash runID callID operationID' args' d) = Inr r' \<Longrightarrow>
           r' = r \<and> operationID' = operationID \<and> marshal_args L args' = marshal_args L args"
    and "(\<forall>f. dp_fence D = Some f \<longrightarrow> admits d f now) \<Longrightarrow>
           fst (Invoke L D now crash runID callID operationID args d) = Inr r"
proof -
  have saved: "saved_call runID callID d" using assms by (simp add: saved_call_def)
  show "snd (Invoke L D now crash runID callID operationID' args' d) = d"
    using saved by (auto simp: Invoke_def split: sum.split)
  show "r' = r \<and> operationID' = operationID \<and> marshal_args L args' = marshal_args L args"
    if res: "fst (Invoke L D now crash runID callID operationID' args' d) = Inr r'"
  proof -
    obtain d1 where "invoke_guarded L D now runID callID operationID' args' d = Inr (r', d1)"
      using res saved
      by (cases "invoke_guarded L D now runID callID operationID' args' d") (auto simp: Invoke_def)
    then obtain d0 where d0: "db_runs d0 = db_runs d"
        and "invoke_tx L D runID callID operationID' args' d0 = Inr (r', d1)"
      by (rule invoke_guarded_cases)
    then have "call_row L runID callID operationID' args' r' = call_row L runID callID operationID args r"
      using assms saved saved_call_runs [OF d0] invoke_tx_saved by (metis (no_types, lifting) option.inject)
    then show ?thesis by (simp add: call_row_def)
  qed
  show "fst (Invoke L D now crash runID callID operationID args d) = Inr r"
    if ad: "\<forall>f. dp_fence D = Some f \<longrightarrow> admits d f now"
  proof -
    obtain d0 where "guarded (dp_fence D) now (\<lambda>d. Inr ((), d)) d = Inr ((), d0)"
      using ad by (cases "dp_fence D") (auto simp: guarded_def withGuardedTx_def admits_def)
    then have "invoke_guarded L D now runID callID operationID args d = invoke_tx L D runID callID operationID args d0"
        and d0: "db_runs d0 = db_runs d"
      by (cases "dp_fence D"; auto simp: guarded_def withGuardedTx_def invoke_guarded_def dest: GuardFenceTx_frame)+
    moreover have "invoke_tx L D runID callID operationID args d0 = Inr (r, d0)"
      using assms saved saved_call_runs [OF d0] d0 by (subst invoke_tx_saved) simp_all
    ultimately show ?thesis using saved by (simp add: Invoke_def)
  qed
qed


section \<open>Properties\<close>

text \<open>
  C2. A tool call takes effect at most once. Once a call has been answered, every later call
  with its ID, by any dispatcher with any fence, at any time and with a crash at any point,
  leaves the database as it is; it never returns another answer, never answers another
  request, and the same request gets the recorded answer as long as its fence holds.
\<close>

theorem tool_call_exactly_once:
  assumes "dp_registry D = builtin L" and "Invoke L D now NoCrash runID callID operationID args d = (Inr r, d1)"
    and "prefix (results d1) (results d2)"
  shows "snd (Invoke L D' now' crash runID callID operationID' args' d2) = d2
    \<and> (fst (Invoke L D' now' crash runID callID operationID' args' d2) = Inr r' \<longrightarrow>
         r' = r \<and> operationID' = operationID \<and> marshal_args L args' = marshal_args L args)
    \<and> ((\<forall>f. dp_fence D' = Some f \<longrightarrow> admits d2 f now') \<longrightarrow>
         fst (Invoke L D' now' crash runID callID operationID args d2) = Inr r)"
proof -
  have "sel (\<lambda>r. (tr_run r, tr_call r)) (runID, callID) (results d1) = Some (call_row L runID callID operationID args r)"
    using committed_row [OF _ assms(2)] registry_ok_builtin [of L] assms(1) by simp
  then have "sel (\<lambda>r. (tr_run r, tr_call r)) (runID, callID) (results d2) = Some (call_row L runID callID operationID args r)"
    using assms(3) by (auto simp: prefix_def sel_append)
  note I = Invoke_saved [OF this]
  show ?thesis using I(1) I(2) I(3) by blast
qed

lemma GuardFenceTx_again:
  assumes "GuardFenceTx f now d = Inr ((), d0)" and "db_coord d1 = db_coord d0"
  shows "admits d1 f now"
proof -
  obtain row where row: "lease_of d (f_run f) = Some row" "l_owner row = f_owner f" "l_fence row = f_token f"
    "now < l_expires row" "l_committed row \<le> f_token f" "f_run f \<noteq> []" "f_owner f \<noteq> []"
    "d0 = d \<or> d0 = map_leases (upd (\<lambda>x. l_run x = f_run f) (\<lambda>x. x\<lparr>l_committed := f_token f\<rparr>)) d"
    using assms(1) by (rule GuardFenceTx_ok)
  have "lease_of d1 (f_run f) = Some row \<or> lease_of d1 (f_run f) = Some (row\<lparr>l_committed := f_token f\<rparr>)"
    using row(1,8) assms(2) by (auto simp: lease_of_def sel_upd_key)
  then show ?thesis using row by (auto simp: admits_def GuardFenceTx_def lease_of_def)
qed

text \<open>
  C3. A crash during a call loses nothing and repeats nothing. If the process dies just
  before or just after the commit and the caller retries the same call, it gets the answer,
  and the database ends in the state, that the call without the crash would have given.
\<close>

theorem crash_then_retry:
  assumes "dp_registry D = builtin L" and "Invoke L D now NoCrash runID callID operationID args d = (Inr r, d1)"
  shows "Invoke L D now NoCrash runID callID operationID args
           (snd (Invoke L D now crash runID callID operationID args d)) = (Inr r, d1)"
proof -
  have ok: "registry_ok (dp_registry D)" using registry_ok_builtin [of L] assms(1) by simp
  obtain d' where g: "invoke_guarded L D now runID callID operationID args d = Inr (r, d')"
      and d1: "d1 = (if saved_call runID callID d then d else d')"
    using assms(2) by (auto simp: Invoke_def split: sum.splits prod.splits if_splits)
  have "snd (Invoke L D now crash runID callID operationID args d) \<in> {d, d1}"
    using g d1 by (cases crash) (auto simp: Invoke_def)
  moreover have "Invoke L D now NoCrash runID callID operationID args d1 = (Inr r, d1)"
  proof (cases "saved_call runID callID d")
    case True
    then show ?thesis using assms(2) d1 by simp
  next
    case False
    obtain d0 and row :: run_row and op transcript where
        gd: "guarded (dp_fence D) now (\<lambda>d. Inr ((), d)) d = Inr ((), d0)"
      and x: "execute_call L D \<lparr>c_run = runID, c_call = callID, c_op = op, c_args = args, c_world = r_world row,
           c_fault = r_fault_operation row, c_consumed = r_fault_consumed row\<rparr> transcript d0 = Inr (r, d')"
      using g False ok by (rule Invoke_fresh)
    have "db_coord d1 = db_coord d0" using execute_call_ok(4) [OF ok x] d1 False by simp
    then have "\<forall>f. dp_fence D = Some f \<longrightarrow> admits d1 f now"
      using gd GuardFenceTx_again by (auto simp: guarded_def withGuardedTx_def)
    then show ?thesis using Invoke_saved [OF committed_row [OF ok assms(2)]] by (metis (no_types) prod.collapse)
  qed
  ultimately show ?thesis using assms(2) by auto
qed

lemma Invoke_sound:
  assumes "dp_registry D = builtin L" and "Invoke L D now crash runID callID operationID args d = (out, d')"
  shows "(world_ok (db_world d) \<longrightarrow> world_ok (db_world d')) \<and> (ledger_inv d \<longrightarrow> ledger_inv d')
      \<and> issues_advance (db_world d) (db_world d')
      \<and> (prefix (ledger d) (ledger d') \<and> prefix (results d) (results d'))
      \<and> (sel r_id runID (run_rows d) = Some row \<longrightarrow>
           outside (r_world row) (db_world d') = outside (r_world row) (db_world d))
      \<and> (out = Inl e \<and> crash \<noteq> AfterToolCommit \<longrightarrow> d' = d)"
proof -
  have ok: "registry_ok (dp_registry D)" using registry_ok_builtin [of L] assms(1) by simp
  have "d' = d \<or> (\<exists>r. invoke_guarded L D now runID callID operationID args d = Inr (r, d')
      \<and> \<not> saved_call runID callID d \<and> (out = Inr r \<or> crash = AfterToolCommit))"
    using assms(2) by (auto simp: Invoke_def split: sum.splits if_splits crash.splits)
  then consider "d' = d" | r where "invoke_guarded L D now runID callID operationID args d = Inr (r, d')"
      "\<not> saved_call runID callID d" "out = Inr r \<or> crash = AfterToolCommit"
    by blast
  then show ?thesis
  proof cases
    case 1
    then show ?thesis by (simp add: issues_advance_same)
  next
    case (2 r)
    obtain d0 row' op transcript where d0: "db_runs d0 = db_runs d" "db_world d0 = db_world d"
      and row': "sel r_id runID (run_rows d) = Some row'"
      and x: "execute_call L D \<lparr>c_run = runID, c_call = callID, c_op = op, c_args = args, c_world = r_world row',
           c_fault = r_fault_operation row', c_consumed = r_fault_consumed row'\<rparr> transcript d0 = Inr (r, d')"
      using 2(1,2) ok by (rule Invoke_fresh)
    note E = execute_call_ok [OF ok x, simplified]
    have "ledger_inv d0 = ledger_inv d" by (rule ledger_inv_runs [OF d0(1)])
    then show ?thesis using E d0 row' 2(3) by (auto simp: prefix_def)
  qed
qed

text \<open>
  C23. Every tool call keeps the database sound, whatever the agent asks for, whichever
  policy and faults are configured and wherever the process dies: the services' invariants and
  the ledger's numbering hold, issues only advance, the ledger and the results only grow, other
  worlds are untouched, and a call that fails without a commit changes nothing.
\<close>

theorem tool_call_sound:
  assumes "dp_registry D = builtin L" and "Invoke L D now crash runID callID operationID args d = (out, d')"
  shows "(world_ok (db_world d) \<longrightarrow> world_ok (db_world d')) \<and> (ledger_inv d \<longrightarrow> ledger_inv d')
      \<and> issues_advance (db_world d) (db_world d')
      \<and> (prefix (ledger d) (ledger d') \<and> prefix (results d) (results d'))
      \<and> (sel r_id runID (run_rows d) = Some row \<longrightarrow>
           outside (r_world row) (db_world d') = outside (r_world row) (db_world d))
      \<and> (out = Inl e \<and> crash \<noteq> AfterToolCommit \<longrightarrow> d' = d)"
  using assms by (rule Invoke_sound)

definition sample_full :: lib where
  "sample_full = authlib.extend sample_authlib \<lparr>decode_chaos = (\<lambda>_. None)\<rparr>"

definition op_createRefund :: operation where
  "op_createRefund = \<lparr>op_id = ''createRefund'', op_service = [], op_method = ''POST'', op_path = ''/refunds'',
     op_behavior = ''billing.createRefund'', op_required = [''charge_id'', ''amount_cents'', ''reason''],
     op_properties = [(''charge_id'', ''string''), (''amount_cents'', ''integer''), (''reason'', ''string'')]\<rparr>"

definition sample_dispatcher :: dispatcher where
  "sample_dispatcher = \<lparr>dp_manifest = \<lparr>mf_digest = [], mf_operations = [op_createRefund, op_getCustomer]\<rparr>,
     dp_registry = builtin sample_full, dp_fence = Some (sample_fence ''a'' 1)\<rparr>"

definition sample_refund_args :: args where
  "sample_refund_args = [(''charge_id'', VStr ''CH-1001''), (''amount_cents'', VInt 1500), (''reason'', VStr ''dup'')]"

lemmas dispatch_sample_defs = sample_full_def op_createRefund_def sample_dispatcher_def sample_refund_args_def
  authlib.defs auth_sample_defs sample_defs

lemma sample_valid: "validate sample_full op_createRefund sample_refund_args = None"
  unfolding validate_None by (auto simp: valid_value_def dispatch_sample_defs split: if_splits)

lemmas dispatch_eval_defs = Invoke_def invoke_guarded_def guarded_def withGuardedTx_def GuardFenceTx_def invoke_tx_def
  saved_call_def Operation_def execute_call_def start_vars_def authorize_def Decide_def load_def no_decision_def inject_def chaos_Decide_def
  chaos_load_def no_rule_def handle_call_def capture_def settle_post_def hide_outcome_def record_call_def
  AppendEventTx_def ins_def upd_def next_seq_def event_id_def Lookup_def builtin_def Builtin_eq
  billingHandler_eq billing_Handle_def createRefund_def string_arg_def integer_def world_base_def
  store_refund_def wrote_def Let_def

lemma show_nat_eq: "show_nat m = show_nat n \<longleftrightarrow> m = n"
  using show_nat_inj by blast

lemma sample_invoke:
  "\<exists>r d1. Invoke sample_full sample_dispatcher 5 NoCrash ''R'' ''call-1'' ''createRefund'' sample_refund_args leased_db
      = (Inr r, d1) \<and> rs_status r = 201 \<and> length (results d1) = 1
      \<and> map ch_refunded (charges (db_world d1)) = [1500]"
  using sample_valid by (simp add: dispatch_eval_defs show_nat_eq dispatch_sample_defs)

theorem tool_call_exactly_once_witness:
  "\<exists>r d1. Invoke sample_full sample_dispatcher 5 NoCrash ''R'' ''call-1'' ''createRefund'' sample_refund_args leased_db
        = (Inr r, d1)
     \<and> snd (Invoke sample_full sample_dispatcher 9 AfterToolCommit ''R'' ''call-1'' ''createRefund'' [] d1) = d1"
proof -
  obtain r d1 where i: "Invoke sample_full sample_dispatcher 5 NoCrash ''R'' ''call-1'' ''createRefund''
      sample_refund_args leased_db = (Inr r, d1)"
    using sample_invoke by (elim exE conjE) (rule that)
  have "dp_registry sample_dispatcher = builtin sample_full" by (simp add: sample_dispatcher_def)
  from tool_call_exactly_once [OF this i prefix_order.refl] i show ?thesis by blast
qed

theorem crash_then_retry_witness:
  "\<exists>r d1. Invoke sample_full sample_dispatcher 5 NoCrash ''R'' ''call-1'' ''createRefund'' sample_refund_args
       (snd (Invoke sample_full sample_dispatcher 5 AfterToolCommit ''R'' ''call-1'' ''createRefund''
          sample_refund_args leased_db)) = (Inr r, d1) \<and> rs_status r = 201 \<and> length (results d1) = 1"
proof -
  obtain r d1 where i: "Invoke sample_full sample_dispatcher 5 NoCrash ''R'' ''call-1'' ''createRefund''
      sample_refund_args leased_db = (Inr r, d1)" and st: "rs_status r = 201" "length (results d1) = 1"
    using sample_invoke by (elim exE conjE) (rule that)
  have "dp_registry sample_dispatcher = builtin sample_full" by (simp add: sample_dispatcher_def)
  from crash_then_retry [OF this i] st show ?thesis by blast
qed

theorem tool_call_sound_witness:
  "\<exists>r d1. Invoke sample_full sample_dispatcher 5 NoCrash ''R'' ''call-1'' ''createRefund'' sample_refund_args leased_db
        = (Inr r, d1) \<and> world_ok (db_world d1)"
proof -
  obtain r d1 where i: "Invoke sample_full sample_dispatcher 5 NoCrash ''R'' ''call-1'' ''createRefund''
      sample_refund_args leased_db = (Inr r, d1)"
    using sample_invoke by (elim exE conjE) (rule that)
  have "dp_registry sample_dispatcher = builtin sample_full" by (simp add: sample_dispatcher_def)
  moreover have "world_ok (db_world leased_db)" using sample_world_ok by (simp add: leased_db_def sample_db_def)
  ultimately have "world_ok (db_world d1)" using tool_call_sound [OF _ i] by blast
  then show ?thesis using i by blast
qed

section \<open>Audit\<close>

lemma authorize_world:
  assumes "authorize L c v d = Inr (v', d')"
  shows "db_world d' = db_world d" and "v_mutation v' = v_mutation v"
proof -
  have "db_world d' = db_world d \<and> v_mutation v' = v_mutation v"
  proof (cases "v_skip v")
    case True
    then show ?thesis using assms by (simp add: authorize_def)
  next
    case False
    then obtain a d1 where a: "Decide L (c_run c) (c_world c) (c_op c) (c_args c) d = Inr (a, d1)"
        and rest: "d' = d1 \<or> (\<exists>typ p. AppendEventTx L (c_run c) typ p d1 = Inr ((), d'))"
      using assms by (auto simp: authorize_def Let_def split: if_splits)
    have v: "v_mutation v' = v_mutation v"
      using assms by (auto simp: authorize_def answer_def Let_def split: if_splits)
    have "db_world d1 = db_world d"
      using a by (auto simp: Decide_def Let_def split: option.splits if_splits)
    then show ?thesis using v rest by (auto dest: AppendEventTx_frame(3))
  qed
  then show "db_world d' = db_world d" "v_mutation v' = v_mutation v" by simp_all
qed

text \<open>The events a stage appended.\<close>

definition new_events :: "db \<Rightarrow> db \<Rightarrow> event_row list" where
  "new_events d d' = drop (length (ledger d)) (ledger d')"

lemma new_events_append: "ledger d' = ledger d @ rows \<Longrightarrow> new_events d d' = rows"
  by (simp add: new_events_def)

lemma invokeActor_event:
  assumes "invokeActor L D c dec d = Inr (u, d')"
  shows "\<exists>e. ledger d' = ledger d @ [e] \<and> e_type e = ''chaos.actor_mutation''"
proof -
  from assms obtain p w where e: "AppendEventTx L (c_run c) ''chaos.actor_mutation'' p (d\<lparr>db_world := w\<rparr>) = Inr (u, d')"
    unfolding invokeActor_def by (fastforce split: option.splits if_splits prod.splits)
  show ?thesis by (rule AppendEventTx_ok [OF e]) auto
qed

lemma inject_world:
  assumes "inject L D c arguments v d = Inr (v', d')"
  shows "v_mutation v' = v_mutation v"
    and "db_world d' \<noteq> db_world d \<Longrightarrow> \<exists>rows e. ledger d' = ledger d @ rows @ [e] \<and> e_type e = ''chaos.actor_mutation''"
proof -
  show "v_mutation v' = v_mutation v"
    using assms by (auto simp: inject_def Let_def dest!: apply_rule_world split: if_splits)
  assume changed: "db_world d' \<noteq> db_world d"
  then have ns: "\<not> v_skip v" using assms by (auto simp: inject_def)
  then obtain dec d1 where dec: "chaos_Decide L (c_run c) (op_id (c_op c)) arguments d = Inr (dec, d1)"
    using assms by (auto simp: inject_def)
  note same = chaos_Decide_stage(2,3) [OF dec]
  have neq: "cd_id dec \<noteq> []" using changed assms ns dec same by (auto simp: inject_def)
  obtain d2 where d2: "d2 = d1 \<or> (\<exists>p. AppendEventTx L (c_run c) ''chaos.injected'' p d1 = Inr ((), d2))"
      and d': "d' = d2 \<or> invokeActor L D c dec d2 = Inr ((), d')"
    using assms ns dec neq by (auto simp: inject_def Let_def split: if_splits)
  have w2: "db_world d2 = db_world d" using d2 same by (auto dest: AppendEventTx_frame(3))
  obtain rows where rows: "ledger d2 = ledger d @ rows"
    using d2
  proof
    assume "d2 = d1"
    then show ?thesis using same that [of "[]"] by simp
  next
    assume "\<exists>p. AppendEventTx L (c_run c) ''chaos.injected'' p d1 = Inr ((), d2)"
    then obtain p where "AppendEventTx L (c_run c) ''chaos.injected'' p d1 = Inr ((), d2)" by (elim exE)
    then show ?thesis by (rule AppendEventTx_ok) (use same that in auto)
  qed
  have "invokeActor L D c dec d2 = Inr ((), d')" using d' w2 changed by auto
  then obtain e where "ledger d' = ledger d2 @ [e]" "e_type e = ''chaos.actor_mutation''"
    using invokeActor_event by blast
  then show "\<exists>rows e. ledger d' = ledger d @ rows @ [e] \<and> e_type e = ''chaos.actor_mutation''"
    using rows by auto
qed

lemma handle_call_world:
  assumes ok: "registry_ok (dp_registry D)" and "handle_call L D c v d = Inr (v', d')" and "v_mutation v = None"
    and "db_world d' \<noteq> db_world d"
  shows "v_mutation v' \<noteq> None"
proof
  assume none: "v_mutation v' = None"
  have ns: "\<not> v_skip v" using assms(2,4) by (auto simp: handle_call_def)
  have run: "\<not> (c_fault c = op_id (c_op c) \<and> c_consumed c = 0)"
  proof
    assume "c_fault c = op_id (c_op c) \<and> c_consumed c = 0"
    then obtain p where "AppendEventTx L (c_run c) ''error'' p
        (update_run (c_run c) (\<lambda>r. r\<lparr>r_fault_consumed := 1\<rparr>) d) = Inr ((), d')"
      using assms(2) ns by (auto simp: handle_call_def)
    then show False using AppendEventTx_frame(3) assms(4) by fastforce
  qed
  obtain d1 where d1: "(if c_fault c = op_id (c_op c) \<and> c_consumed c = 1 \<and> \<not> retried (c_run c) d
        then AppendEventTx L (c_run c) ''retry'' (call_payload c) d else Inr ((), d)) = Inr ((), d1)"
      and k: "(case Lookup (dp_registry D) (op_behavior (c_op c)) of None \<Rightarrow> Inl (Err ''unsupported behavior'')
        | Some h \<Rightarrow> bindR (h (c_world c) (c_run c) (c_call c) (op_behavior (c_op c)) (c_args c) (db_world d1))
            (\<lambda>((status, body, mutation), w).
               Inr (v\<lparr>v_status := status, v_response := body, v_mutation := mutation, v_ran := True\<rparr>,
                    d1\<lparr>db_world := w\<rparr>))) = Inr (v', d')"
    using assms(2) ns run unfolding handle_call_def by (auto simp del: if_split_asm)
  have "db_world d1 = db_world d" using d1 by (auto dest: AppendEventTx_frame(3) split: if_splits)
  moreover obtain h status body where "Lookup (dp_registry D) (op_behavior (c_op c)) = Some h"
      "h (c_world c) (c_run c) (c_call c) (op_behavior (c_op c)) (c_args c) (db_world d1)
        = Inr ((status, body, None), db_world d')"
    using k none by (auto split: option.splits)
  ultimately have "db_world d' = db_world d"
    using service.read_only [OF registry_service [OF ok]] by metis
  with assms(4) show False by simp
qed

lemma settle_post_keeps: "settle_post c v d = Inr (v', d') \<Longrightarrow> v_mutation v' = v_mutation v"
  by (auto simp: settle_post_def split: if_splits)

lemma hide_outcome_keeps: "hide_outcome L c v d = Inr (v', d') \<Longrightarrow> v_mutation v' = v_mutation v"
  by (auto simp: hide_outcome_def Let_def split: if_splits)


lemma start_mutation:
  "v_mutation (case x of None \<Rightarrow> start_vars | Some msg \<Rightarrow> answer 400 (error_body msg) start_vars) = None"
  by (simp add: start_vars_def answer_def split: option.split)

lemma execute_call_audited:
  assumes ok: "registry_ok (dp_registry D)" and run: "execute_call L D c transcript d = Inr (r, d')"
    and changed: "db_world d' \<noteq> db_world d"
  shows "\<exists>e \<in> set (new_events d d'). e_type e \<in> {''state.mutation'', ''chaos.actor_mutation''}"
proof -
  from run obtain u d1 v0 v1 d2 v2 d3 v3 d4 v4 d5 v5 d6 p where
    req: "AppendEventTx L (c_run c) ''tool.request'' p d = Inr (u, d1)" and
    auth: "authorize L c v0 d1 = Inr (v1, d2)" and v0: "v_mutation v0 = None" and
    inj: "inject L D c (marshal_args L (c_args c)) v1 d2 = Inr (v2, d3)" and
    han: "handle_call L D c v2 d3 = Inr (v3, d4)" and
    set: "settle_post c v3 (capture L c (marshal_args L (c_args c)) v3 d4) = Inr (v4, d5)" and
    hide: "hide_outcome L c v4 d5 = Inr (v5, d6)" and
    rec: "record_call L c (marshal_args L (c_args c)) transcript v5 d6 = Inr (r, d')"
    by (rule execute_call_stages) (rule that, (assumption | rule start_mutation)+)
  obtain f g where "d5 = map_policy f (capture L c (marshal_args L (c_args c)) v3 d4)"
      "capture L c (marshal_args L (c_args c)) v3 d4 = map_policy g d4"
    using settle_post_policy [OF set] capture_policy by metis
  then have w5: "db_world d5 = db_world d4" "ledger d5 = ledger d4" by simp_all
  have "db_world d' = db_world d4"
    using record_call_ok(3) [OF rec] hide_outcome_stage(2) [OF hide] w5 by simp
  moreover have "db_world d2 = db_world d" using authorize_world(1) [OF auth] AppendEventTx_frame(3) [OF req] by simp
  ultimately consider "db_world d3 \<noteq> db_world d2" | "db_world d4 \<noteq> db_world d3" using changed by metis
  then show ?thesis
  proof cases
    case 1
    obtain r1 where "ledger d1 = ledger d @ r1"
      using req by (rule AppendEventTx_ok) simp
    moreover obtain r2 where "ledger d2 = ledger d1 @ r2"
      using authorize_stage [OF auth] unfolding stage_def by blast
    moreover obtain rows e where "ledger d3 = ledger d2 @ rows @ [e]" "e_type e = ''chaos.actor_mutation''"
      using inject_world(2) [OF inj 1] by blast
    moreover obtain r4 where "ledger d4 = ledger d3 @ r4"
      using handle_call_stage [OF ok han] unfolding stage_def by blast
    moreover obtain r6 where "ledger d6 = ledger d5 @ r6"
      using hide_outcome_stage(1) [OF hide] unfolding stage_def by blast
    moreover obtain r7 where "ledger d' = ledger d6 @ r7"
      using record_call_ok(8) [OF rec] by blast
    ultimately show ?thesis using w5 by (auto simp: new_events_def)
  next
    case 2
    have "v_mutation v2 = None" using inject_world(1) [OF inj] authorize_world(2) [OF auth] v0 by simp
    then obtain m where "v_mutation v5 = Some m"
      using handle_call_world [OF ok han _ 2] settle_post_keeps [OF set] hide_outcome_keeps [OF hide] by auto
    then obtain mid e where led: "ledger d' = ledger d6 @ mid @ [e]" and "map (\<lambda>x. (e_type x, e_payload x)) mid = [(''state.mutation'', m)]"
      using record_call_ok(8) [OF rec] by auto
    then obtain x where "mid = [x]" "e_type x = ''state.mutation''" by (auto simp: map_eq_Cons_conv)
    moreover have "prefix (ledger d) (ledger d6)"
      using stage_append [OF req call_events(1)] authorize_stage [OF auth] inject_stage [OF ok inj] handle_call_stage [OF ok han]
        hide_outcome_stage(1) [OF hide] w5(2) unfolding stage_def prefix_def by (metis append.assoc)
    ultimately show ?thesis using led by (auto simp: new_events_def prefix_def)
  qed
qed

text \<open>
  C24. Nothing changes the world silently. Whenever a call leaves the simulated services in
  another state, whatever it answered and wherever the process died, the events it appended
  to the run's ledger contain the mutation, the agent's own or the concurrent actor's.
\<close>

theorem no_silent_mutation:
  assumes "dp_registry D = builtin L" and "Invoke L D now crash runID callID operationID args d = (out, d')"
    and "db_world d' \<noteq> db_world d"
  shows "\<exists>e \<in> set (new_events d d'). e_run e = runID \<and> e_type e \<in> {''state.mutation'', ''chaos.actor_mutation''}"
proof -
  have ok: "registry_ok (dp_registry D)" using registry_ok_builtin [of L] assms(1) by simp
  obtain r where r: "invoke_guarded L D now runID callID operationID args d = Inr (r, d')" "\<not> saved_call runID callID d"
    using assms(2,3) by (auto simp: Invoke_def split: sum.splits if_splits crash.splits)
  obtain d0 and row :: run_row and op transcript where d0: "db_runs d0 = db_runs d" "db_world d0 = db_world d"
    and x: "execute_call L D \<lparr>c_run = runID, c_call = callID, c_op = op, c_args = args, c_world = r_world row,
         c_fault = r_fault_operation row, c_consumed = r_fault_consumed row\<rparr> transcript d0 = Inr (r, d')"
    using r ok by (rule Invoke_fresh)
  have "new_events d0 d' = new_events d d'" using d0(1) by (simp add: new_events_def)
  then obtain e where e: "e \<in> set (new_events d d')" "e_type e \<in> {''state.mutation'', ''chaos.actor_mutation''}"
    using execute_call_audited [OF ok x] assms(3) d0(2) by auto
  obtain first mid final where led: "ledger d' = ledger d0 @ first # mid @ [final]"
      "\<forall>e \<in> set (first # mid @ [final]). e_run e = runID"
    using execute_call_ok(7) [OF ok x] by (auto simp: call_event_def)
  have "new_events d d' = first # mid @ [final]" using led(1) d0(1) by (simp add: new_events_def)
  then show ?thesis using e led(2) by metis
qed


theorem no_silent_mutation_witness:
  "\<exists>r d1. Invoke sample_full sample_dispatcher 5 NoCrash ''R'' ''call-1'' ''createRefund'' sample_refund_args leased_db
        = (Inr r, d1)
     \<and> (\<exists>e \<in> set (new_events leased_db d1). e_run e = ''R'' \<and> e_type e \<in> {''state.mutation'', ''chaos.actor_mutation''})"
proof -
  obtain r d1 where i: "Invoke sample_full sample_dispatcher 5 NoCrash ''R'' ''call-1'' ''createRefund''
      sample_refund_args leased_db = (Inr r, d1)" and c: "map ch_refunded (charges (db_world d1)) = [1500]"
    using sample_invoke by (elim exE conjE) (rule that)
  have "map ch_refunded (charges (db_world leased_db)) = [0]" by (simp add: sample_defs)
  then have "db_world d1 \<noteq> db_world leased_db" using c by auto
  moreover have "dp_registry sample_dispatcher = builtin sample_full" by (simp add: sample_dispatcher_def)
  ultimately show ?thesis using no_silent_mutation [OF _ i] i by blast
qed

section \<open>Refused calls\<close>

text \<open>A call answered before fault injection goes straight to its record.\<close>

lemma answered_early:
  assumes "v_skip v" "\<not> v_ran v" "\<not> v_post v"
  shows "inject L D c arguments v d = Inr (v, d)" and "handle_call L D c v d = Inr (v, d)"
    and "settle_post c v (capture L c arguments v d) = Inr (v, d)" and "hide_outcome L c v d = Inr (v, d)"
  using assms by (simp_all add: inject_def handle_call_def capture_def settle_post_def hide_outcome_def)

definition ends_early :: "call_vars \<Rightarrow> db \<Rightarrow> db \<Rightarrow> int \<Rightarrow> string list \<Rightarrow> bool" where
  "ends_early v d0 d1 status types \<longleftrightarrow>
     v_skip v \<and> \<not> v_ran v \<and> \<not> v_post v \<and> v_mutation v = None \<and> v_status v = status
   \<and> map e_type (new_events d0 d1) = types \<and> prefix (ledger d0) (ledger d1) \<and> db_world d1 = db_world d0"

lemma execute_call_early:
  assumes run: "execute_call L D c transcript d = Inr (r, d')"
    and early: "\<And>v d0 d1. authorize L c (case validate L (c_op c) (c_args c) of None \<Rightarrow> start_vars
          | Some msg \<Rightarrow> answer 400 (error_body msg) start_vars) d0 = Inr (v, d1) \<Longrightarrow>
        db_world d0 = db_world d \<Longrightarrow> db_policy d0 = db_policy d \<Longrightarrow>
        ends_early v d0 d1 status types"
  shows "rs_status r = status \<and> db_world d' = db_world d
    \<and> map e_type (new_events d d') = ''tool.request'' # types @ [''tool.response'']"
proof -
  from run obtain u d1 v1 d2 v2 d3 v3 d4 v4 d5 v5 d6 p where
    req: "AppendEventTx L (c_run c) ''tool.request'' p d = Inr (u, d1)" and
    auth: "authorize L c (case validate L (c_op c) (c_args c) of None \<Rightarrow> start_vars
          | Some msg \<Rightarrow> answer 400 (error_body msg) start_vars) d1 = Inr (v1, d2)" and
    inj: "inject L D c (marshal_args L (c_args c)) v1 d2 = Inr (v2, d3)" and
    han: "handle_call L D c v2 d3 = Inr (v3, d4)" and
    set: "settle_post c v3 (capture L c (marshal_args L (c_args c)) v3 d4) = Inr (v4, d5)" and
    hide: "hide_outcome L c v4 d5 = Inr (v5, d6)" and
    rec: "record_call L c (marshal_args L (c_args c)) transcript v5 d6 = Inr (r, d')"
    by (rule execute_call_stages) (rule that)
  have e: "v_skip v1" "\<not> v_ran v1" "\<not> v_post v1" "v_mutation v1 = None" "v_status v1 = status"
      "map e_type (new_events d1 d2) = types" "prefix (ledger d1) (ledger d2)" "db_world d2 = db_world d1"
    using early [OF auth] AppendEventTx_frame(3,4) [OF req] by (simp_all add: ends_early_def)
  have "v2 = v1 \<and> d3 = d2" using inj by (simp add: answered_early [OF e(1-3)])
  then have "v3 = v1 \<and> d4 = d2" using han by (simp add: answered_early [OF e(1-3)])
  then have "v4 = v1 \<and> d5 = d2" using set by (simp add: answered_early [OF e(1-3)])
  then have same: "v5 = v1 \<and> d6 = d2" using hide by (simp add: answered_early [OF e(1-3)])
  note R = record_call_ok [OF rec [unfolded conjunct1 [OF same] conjunct2 [OF same]]]
  have st: "rs_status r = status" using R(1) e(5) by simp
  have w: "db_world d' = db_world d" using R(3) e(8) AppendEventTx_frame(3) [OF req] by simp
  obtain first where f: "ledger d1 = ledger d @ [first]" "e_type first = ''tool.request''"
    using req by (rule AppendEventTx_ok) simp
  obtain final where g: "ledger d' = ledger d2 @ [final]" "e_type final = ''tool.response''"
    using R(8) unfolding e(4) by auto
  obtain mid where "ledger d2 = ledger d1 @ mid" using e(7) by (auto simp: prefix_def)
  then have "ledger d' = ledger d @ first # mid @ [final]" and mid: "new_events d1 d2 = mid"
    using f(1) g(1) by (simp_all add: new_events_def)
  then have "new_events d d' = first # mid @ [final]" by (simp only: new_events_append)
  then show ?thesis using st w f(2) g(2) e(6) mid by simp
qed

lemma Decide_frame:
  assumes "Decide L runID worldID op args d = Inr (a, d')" and "db_policy d0 = db_policy d" "db_world d0 = db_world d"
  shows "\<exists>d1. Decide L runID worldID op args d0 = Inr (a, d1) \<and> db_world d1 = db_world d0 \<and> ledger d1 = ledger d0"
proof -
  obtain stored where st: "load L runID d = Inr stored"
    using assms(1) by (cases "load L runID d") (simp_all add: Decide_def)
  have ld: "load L runID d0 = Inr stored" using st by (simp add: load_def assms(2))
  show ?thesis
  proof (cases stored)
    case None
    then show ?thesis using assms(1) by (simp add: Decide_def ld st)
  next
    case (Some p)
    note ok = Decide_ok [OF assms(1) st [unfolded Some]]
    show ?thesis
    proof (cases "handlerValid L (op_behavior op) args")
      case True
      with ok(2) show ?thesis
        by (simp add: Decide_def ld st Some Let_def assms(2,3) call_index_next add.commute)
    next
      case False
      then show ?thesis using assms(1) by (simp add: Decide_def ld st Some)
    qed
  qed
qed

lemma authorize_invalid:
  "authorize L c (answer 400 (error_body msg) start_vars) d0 = Inr (v, d1) \<Longrightarrow> ends_early v d0 d1 400 []"
  by (auto simp: authorize_def answer_def start_vars_def ends_early_def new_events_def)

lemma authorize_denied:
  assumes "Decide L (c_run c) (c_world c) (c_op c) (c_args c) d = Inr (a, dd)"
    and "ad_enforced a" "\<not> ad_invalid a" "\<not> ad_allowed a"
    and "db_policy d0 = db_policy d" "db_world d0 = db_world d"
    and "authorize L c start_vars d0 = Inr (v, d1)"
  shows "ends_early v d0 d1 403 [''authorization.denied'']"
proof -
  obtain d2 where d2: "Decide L (c_run c) (c_world c) (c_op c) (c_args c) d0 = Inr (a, d2)"
      "db_world d2 = db_world d0" "ledger d2 = ledger d0"
    using Decide_frame [OF assms(1,5,6)] by blast
  obtain p where p: "AppendEventTx L (c_run c) ''authorization.denied'' p d2 = Inr ((), d1)"
      and v: "v_skip v" "\<not> v_ran v" "\<not> v_post v" "v_mutation v = None" "v_status v = 403"
    using assms(2-4,7) d2(1) by (auto simp: authorize_def answer_def start_vars_def)
  obtain e where "ledger d1 = ledger d0 @ [e]" "e_type e = ''authorization.denied''"
    using p by (rule AppendEventTx_ok) (use d2 in auto)
  then show ?thesis
    using v AppendEventTx_frame(3) [OF p] d2(2) by (auto simp: ends_early_def new_events_def)
qed



lemma sample_refused:
  "\<exists>r d1. Invoke sample_full sample_dispatcher 5 NoCrash ''R'' ''call-1'' ''createRefund'' [] leased_db = (Inr r, d1)"
  by (simp add: dispatch_eval_defs validate_def answer_def show_nat_eq dispatch_sample_defs)


end
