(* ===== verification/Interrupt.thy ===== *)
theory Interrupt
  imports Dispatch
begin

text \<open>
  Interrupted provider attempts (\<open>internal/agent/interrupt.go\<close>) and the named crash points
  (\<open>internal/crashpoint/crashpoint.go\<close>): how a failed attempt is classified, how long the
  runner waits before the next one, what the ledger records of it, and where a process may
  die. Durations are nanoseconds, as \<open>time.Duration\<close> counts them.
\<close>

section \<open>Crash points\<close>

datatype point =
    PBeforeModelRequest | PAfterModelRequest | PAfterModelResponse
  | PBeforeToolCommit | PAfterToolCommit | PBeforeCompletion | PAfterCompletion

fun point_name :: "point \<Rightarrow> string" where
  "point_name PBeforeModelRequest = ''before-model-request''"
| "point_name PAfterModelRequest = ''after-model-request''"
| "point_name PAfterModelResponse = ''after-model-response''"
| "point_name PBeforeToolCommit = ''before-tool-commit''"
| "point_name PAfterToolCommit = ''after-tool-commit''"
| "point_name PBeforeCompletion = ''before-completion''"
| "point_name PAfterCompletion = ''after-completion''"

definition Points :: "point list" where
  "Points = [PBeforeModelRequest, PAfterModelRequest, PAfterModelResponse, PBeforeToolCommit, PAfterToolCommit,
             PBeforeCompletion, PAfterCompletion]"

definition ParsePoint :: "string \<Rightarrow> point res" where
  "ParsePoint s = (case find (\<lambda>p. point_name p = s) Points of
     None \<Rightarrow> Inl (Err ''unknown crash point'') | Some p \<Rightarrow> Inr p)"

record site =
  st_point :: point
  st_run :: string
  st_step :: nat
  st_call :: string
  st_operation :: string

type_synonym hook = "site \<Rightarrow> bool"

text \<open>A nil hook never crashes; a hook that returns an error ends the process.\<close>

definition Fire :: "hook option \<Rightarrow> site \<Rightarrow> unit res" where
  "Fire h s = (case h of None \<Rightarrow> Inr () | Some dies \<Rightarrow> if dies s then Inl ErrCrashed else Inr ())"

lemma ParsePoint_name: "ParsePoint (point_name p) = Inr p"
  by (cases p) (simp_all add: ParsePoint_def Points_def)

section \<open>Interrupted attempts\<close>

record call_interrupted =
  ci_kind :: string
  ci_reason :: string
  ci_deadline :: int
  ci_status :: int
  ci_retry_after :: int
  ci_err :: "string option"

definition InterruptTimeout :: string where "InterruptTimeout = ''timeout''"
definition InterruptTruncated :: string where "InterruptTruncated = ''truncated''"
definition InterruptRateLimited :: string where "InterruptRateLimited = ''rate_limited''"
definition InterruptServerError :: string where "InterruptServerError = ''server_error''"
definition InterruptTransport :: string where "InterruptTransport = ''transport''"

lemmas interrupt_kinds = InterruptTimeout_def InterruptTruncated_def InterruptRateLimited_def
  InterruptServerError_def InterruptTransport_def

definition millisecond :: int where "millisecond = 1000000"
definition DefaultCallTimeout :: int where "DefaultCallTimeout = 90 * second"
definition MaxRetryAfter :: int where "MaxRetryAfter = 30 * second"
definition defaultRetryWait :: int where "defaultRetryWait = second"
definition maxParsedRetryAfter :: nat where "maxParsedRetryAfter = 2 ^ 30"

lemmas interrupt_constants = millisecond_def DefaultCallTimeout_def MaxRetryAfter_def defaultRetryWait_def
  maxParsedRetryAfter_def second_def

text \<open>Go's integer division truncates towards zero; a deadline is not negative.\<close>

definition trunc_div :: "int \<Rightarrow> int \<Rightarrow> int" where
  "trunc_div a b = sgn a * (\<bar>a\<bar> div b)"

definition Record :: "call_interrupted \<Rightarrow> nat \<Rightarrow> interruption" where
  "Record e attempt =
     \<lparr>ip_kind = ci_kind e, ip_attempt = int attempt, ip_reason = ci_reason e,
      ip_deadline_ms = trunc_div (ci_deadline e) millisecond, ip_status = ci_status e,
      ip_retry_after_ms = trunc_div (min (max (ci_retry_after e) 0) MaxRetryAfter) millisecond\<rparr>"

definition wait :: "call_interrupted \<Rightarrow> int" where
  "wait e =
     (if ci_kind e \<in> {InterruptRateLimited, InterruptServerError, InterruptTransport}
      then (if ci_retry_after e > 0 then min (ci_retry_after e) MaxRetryAfter else defaultRetryWait)
      else 0)"

text \<open>
  \<open>strconv.ParseUint(_, 10, 64)\<close>: the first bad digit or the first overflow decides the
  error.
\<close>

datatype parsed = Parsed nat | BadSyntax | OutOfRange

definition uint64_max :: nat where "uint64_max = 2 ^ 64 - 1"

fun uint_scan :: "nat \<Rightarrow> string \<Rightarrow> parsed" where
  "uint_scan n [] = Parsed n"
| "uint_scan n (c # cs) =
     (if \<not> digit_char c then BadSyntax
      else let n' = 10 * n + (of_char c - 48) in
        if n' > uint64_max then OutOfRange else uint_scan n' cs)"

definition ParseUint :: "string \<Rightarrow> parsed" where
  "ParseUint s = (if s = [] then BadSyntax else uint_scan 0 s)"

text \<open>\<open>Time.Sub\<close> saturates at the range of a duration.\<close>

definition duration_sub :: "instant \<Rightarrow> instant \<Rightarrow> int" where
  "duration_sub a b = max int64_min (min int64_max (a - b))"

text \<open>\<open>http_time\<close> is \<open>http.ParseTime\<close>.\<close>

definition parseRetryAfter :: "(string \<Rightarrow> instant option) \<Rightarrow> string \<Rightarrow> instant \<Rightarrow> int" where
  "parseRetryAfter http_time header now =
     (let v = TrimSpace header in
      if v = [] then 0
      else case ParseUint v of
        Parsed n \<Rightarrow> int (min n maxParsedRetryAfter) * second
      | OutOfRange \<Rightarrow> int maxParsedRetryAfter * second
      | BadSyntax \<Rightarrow> (case http_time v of None \<Rightarrow> 0 | Some t \<Rightarrow> max (duration_sub t now) 0))"

definition statusInterruption ::
    "(string \<Rightarrow> instant option) \<Rightarrow> int \<Rightarrow> string \<Rightarrow> string \<Rightarrow> int list \<Rightarrow> instant \<Rightarrow> call_interrupted option" where
  "statusInterruption http_time status header cause transient now =
     (let found = (\<lambda>kind. Some \<lparr>ci_kind = kind, ci_reason = [], ci_deadline = 0, ci_status = status,
            ci_retry_after = parseRetryAfter http_time header now, ci_err = Some cause\<rparr>) in
      if status = 429 then found InterruptRateLimited
      else if status \<in> set [500, 502, 503, 504] \<or> status \<in> set transient then found InterruptServerError
      else None)"

definition callDeadline :: "int \<Rightarrow> int" where
  "callDeadline configured = (if configured \<le> 0 then DefaultCallTimeout else configured)"

text \<open>
  The error of an attempt. \<open>caller_live\<close> is \<open>caller.Err() == nil\<close>, \<open>expired\<close> that the
  attempt's context passed its deadline.
\<close>

datatype failure = Interrupted call_interrupted | Failed err

definition interrupted :: "bool \<Rightarrow> bool \<Rightarrow> int \<Rightarrow> (failure \<Rightarrow> string) \<Rightarrow> failure \<Rightarrow> failure" where
  "interrupted caller_live expired deadline show_err e =
     (if caller_live \<and> expired
      then Interrupted \<lparr>ci_kind = InterruptTimeout, ci_reason = [], ci_deadline = deadline, ci_status = 0,
             ci_retry_after = 0, ci_err = Some (show_err e)\<rparr>
      else e)"

definition requestFailed :: "bool \<Rightarrow> bool \<Rightarrow> int \<Rightarrow> (failure \<Rightarrow> string) \<Rightarrow> failure \<Rightarrow> failure" where
  "requestFailed caller_live expired deadline show_err e =
     (case interrupted caller_live expired deadline show_err e of
        Interrupted i \<Rightarrow> Interrupted i
      | Failed x \<Rightarrow>
          if \<not> caller_live then Failed x
          else Interrupted \<lparr>ci_kind = InterruptTransport, ci_reason = [], ci_deadline = 0, ci_status = 0,
                 ci_retry_after = 0, ci_err = Some (show_err (Failed x))\<rparr>)"

definition truncatedCompletion :: "string \<Rightarrow> failure" where
  "truncatedCompletion reason =
     Interrupted \<lparr>ci_kind = InterruptTruncated, ci_reason = reason, ci_deadline = 0, ci_status = 0,
       ci_retry_after = 0, ci_err = None\<rparr>"

section \<open>Bounds\<close>

lemma uint_scan_bound: "uint_scan n s = Parsed m \<Longrightarrow> n \<le> uint64_max \<Longrightarrow> m \<le> uint64_max"
  by (induction n s rule: uint_scan.induct) (auto simp: Let_def split: if_splits)

text \<open>On a run of digits the scan is the number they write, or out of range.\<close>

lemma uint_scan_digits:
  assumes "list_all digit_char s" and "n \<le> uint64_max"
  shows "uint_scan n s = (let m = foldl (\<lambda>a c. 10 * a + (of_char c - 48)) n s in
           if m \<le> uint64_max then Parsed m else OutOfRange)"
  using assms
proof (induction s arbitrary: n)
  case Nil
  then show ?case by simp
next
  case (Cons c s)
  let ?n = "10 * n + (of_char c - 48)"
  have grows: "k \<le> foldl (\<lambda>a c. 10 * a + (of_char c - 48)) k s" for k :: nat
  proof (induction s arbitrary: k)
    case (Cons x s)
    have "k \<le> 10 * k + (of_char x - 48)" by simp
    also have "\<dots> \<le> foldl (\<lambda>a c. 10 * a + (of_char c - 48)) (10 * k + (of_char x - 48)) s" by (rule Cons.IH)
    finally show ?case by simp
  qed simp
  show ?case
    using Cons.prems Cons.IH [of ?n] grows [of ?n] by (auto simp: Let_def not_le)
qed

lemma ParseUint_show_nat:
  "ParseUint (show_nat n) = (if n \<le> uint64_max then Parsed n else OutOfRange)"
proof -
  have "list_all digit_char (show_nat n)" using show_nat_digits by (auto simp: list_all_iff)
  then have "uint_scan 0 (show_nat n) = (if n \<le> uint64_max then Parsed n else OutOfRange)"
    using uint_scan_digits [of "show_nat n" 0] digits_val_show_nat [of n] by (simp add: digits_val_def Let_def)
  then show ?thesis by (simp add: ParseUint_def)
qed

lemma parseRetryAfter_bounds: "0 \<le> parseRetryAfter http_time header now \<and> parseRetryAfter http_time header now \<le> int64_max"
proof -
  have "int (min n maxParsedRetryAfter) * second \<le> int64_max" for n
  proof -
    have "int (min n maxParsedRetryAfter) * second \<le> int maxParsedRetryAfter * second"
      by (intro mult_right_mono) (simp_all add: second_def)
    also have "\<dots> \<le> int64_max" by (simp add: maxParsedRetryAfter_def second_def int64_max_def)
    finally show ?thesis .
  qed
  moreover have "0 \<le> int64_max" "int64_min \<le> int64_max" by (simp_all add: int64_max_def int64_min_def)
  moreover have "int maxParsedRetryAfter * second \<le> int64_max"
    by (simp add: maxParsedRetryAfter_def second_def int64_max_def)
  ultimately show ?thesis
    by (auto simp: parseRetryAfter_def Let_def duration_sub_def second_def split: parsed.split option.split)
qed

text \<open>
  Waiting is bounded and never negative. Whatever a server sends as \<open>Retry-After\<close>,
  reading it does not overflow a duration; the runner waits at most thirty seconds before the
  next attempt, waits at all exactly for rate limits, server errors and transport failures,
  and what the ledger records is between zero and thirty thousand milliseconds.
\<close>

theorem retry_wait_bounded:
  fixes e :: call_interrupted
  shows "0 \<le> parseRetryAfter http_time header now \<and> parseRetryAfter http_time header now \<le> int64_max
    \<and> 0 \<le> wait e \<and> wait e \<le> MaxRetryAfter
    \<and> (wait e > 0 \<longleftrightarrow> ci_kind e \<in> {InterruptRateLimited, InterruptServerError, InterruptTransport})
    \<and> 0 \<le> ip_retry_after_ms (Record e attempt) \<and> ip_retry_after_ms (Record e attempt) \<le> 30000"
proof -
  have "0 \<le> wait e" "wait e \<le> MaxRetryAfter"
    "wait e > 0 \<longleftrightarrow> ci_kind e \<in> {InterruptRateLimited, InterruptServerError, InterruptTransport}"
    by (auto simp: wait_def interrupt_constants)
  moreover have "0 \<le> ip_retry_after_ms (Record e attempt)"
    by (simp add: Record_def trunc_div_def interrupt_constants sgn_if div_int_pos_iff)
  moreover have "ip_retry_after_ms (Record e attempt) \<le> 30000"
  proof -
    let ?x = "min (max (ci_retry_after e) 0) MaxRetryAfter"
    have x: "0 \<le> ?x" "?x \<le> 30000 * 1000000" by (auto simp: interrupt_constants)
    have "?x div 1000000 \<le> 30000 * 1000000 div 1000000" using x(2) by (rule zdiv_mono1) simp
    then have "?x div 1000000 \<le> 30000" by simp
    then show ?thesis using x by (cases "?x = 0") (auto simp: Record_def trunc_div_def millisecond_def sgn_if)
  qed
  ultimately show ?thesis using parseRetryAfter_bounds by blast
qed

end
