(* ===== verification/Runner.thy ===== *)
theory Runner
  imports Calls Interrupt
begin

text \<open>
  The runner (\<open>internal/agent/runner.go\<close>): the loop that alternates model turns and tool
  calls until a run is complete, paused or failed. The provider, the sleep between attempts,
  the clock and the crash hook are the loop's environment: each is a function of the
  iteration, so they may answer differently every time. One pass of the loop is a function;
  the loop itself runs it with fuel, and enough fuel always gives a result.
\<close>

section \<open>Messages\<close>

definition err_text :: "err \<Rightarrow> string" where
  "err_text e =
     (case e of ErrFenced \<Rightarrow> ''fenced out: this worker no longer owns the run''
      | ErrLeaseHeld \<Rightarrow> ''run is leased by another worker'' | ErrNoWork \<Rightarrow> ''no runnable work''
      | ErrNoRows \<Rightarrow> ''sql: no rows in result set'' | ErrCrashed \<Rightarrow> ''simulated process death''
      | ErrConstraint \<Rightarrow> ''constraint failed'' | Err s \<Rightarrow> s)"

definition opt_str :: "string \<Rightarrow> string \<Rightarrow> (string \<times> json) list" where
  "opt_str k s = (if s = [] then [] else [(k, JStr s)])"

definition opt_int :: "string \<Rightarrow> int \<Rightarrow> (string \<times> json) list" where
  "opt_int k i = (if i = 0 then [] else [(k, jint i)])"

definition interruption_json :: "interruption \<Rightarrow> json" where
  "interruption_json i = JObj ([(''kind'', JStr (ip_kind i)), (''attempt'', jint (ip_attempt i))]
     @ opt_str ''reason'' (ip_reason i) @ opt_int ''deadline_ms'' (ip_deadline_ms i)
     @ opt_int ''status'' (ip_status i) @ opt_int ''retry_after_ms'' (ip_retry_after_ms i))"

definition tool_call_json :: "tool_call \<Rightarrow> json" where
  "tool_call_json t = JObj [(''id'', JStr (tc_id t)), (''operation_id'', JStr (tc_operation t)),
     (''arguments'', tc_arguments t)]"

text \<open>The text of a message: a tool message carries the text of its body.\<close>

definition content_text :: "'x golib_scheme \<Rightarrow> message \<Rightarrow> string" where
  "content_text L m = (if m_role m = ''tool'' then print_json L (m_content m)
     else case m_content m of JStr s \<Rightarrow> s | _ \<Rightarrow> [])"

definition message_json :: "'x golib_scheme \<Rightarrow> message \<Rightarrow> json" where
  "message_json L m = JObj ([(''role'', JStr (m_role m))] @ opt_str ''content'' (content_text L m)
     @ (if m_tool_calls m = [] then [] else [(''tool_calls'', JArr (map tool_call_json (m_tool_calls m)))])
     @ opt_str ''call_id'' (m_call_id m) @ opt_str ''operation_id'' (m_operation m)
     @ opt_int ''status'' (m_status m) @ m_meta m
     @ (if m_interruptions m = [] then []
        else [(''interruptions'', JArr (map interruption_json (m_interruptions m)))]))"

text \<open>
  A stored transcript read into \<open>[]Message\<close>: arguments are a JSON object or null, and their
  numbers become \<open>float64\<close>. \<open>reread\<close> is the message written back.
\<close>

definition readable_call :: "tool_call \<Rightarrow> bool" where
  "readable_call t = (case tc_arguments t of JNull \<Rightarrow> True | JObj _ \<Rightarrow> True | _ \<Rightarrow> False)"

definition reread :: "'x golib_scheme \<Rightarrow> message \<Rightarrow> message" where
  "reread L m = m\<lparr>m_tool_calls := map (\<lambda>t. t\<lparr>tc_arguments := rejson L (tc_arguments t)\<rparr>) (m_tool_calls m)\<rparr>"

definition read_transcript :: "'x golib_scheme \<Rightarrow> message list \<Rightarrow> message list res" where
  "read_transcript L ms =
     (if list_all (\<lambda>m. list_all readable_call (m_tool_calls m)) ms then Inr (map (reread L) ms)
      else Inl (Err ''json: cannot unmarshal into map''))"

text \<open>A nil map and an empty one are the same to a handler.\<close>

definition call_args :: "'x golib_scheme \<Rightarrow> tool_call \<Rightarrow> args" where
  "call_args L t = (case unmarshal L (tc_arguments t) of VObj kvs \<Rightarrow> kvs | _ \<Rightarrow> [])"

section \<open>Pending calls\<close>

definition made_calls :: "message list \<Rightarrow> tool_call list" where
  "made_calls history = concat (map m_tool_calls (filter (\<lambda>m. m_role m = ''assistant'') history))"

definition pending :: "message list \<Rightarrow> tool_call option" where
  "pending history = find (\<lambda>t. tc_id t \<notin> set (map m_call_id (filter (\<lambda>m. m_role m = ''tool'') history)))
     (made_calls history)"

definition finished :: "message list \<Rightarrow> bool" where
  "finished history \<longleftrightarrow> history \<noteq> [] \<and> m_role (last history) = ''assistant'' \<and> m_tool_calls (last history) = []"

section \<open>One model turn\<close>

fun check_calls :: "manifest \<Rightarrow> string list \<Rightarrow> string list \<Rightarrow> tool_call list \<Rightarrow> string option" where
  "check_calls m seen inTurn [] = None"
| "check_calls m seen inTurn (t # ts) =
     (if tc_id t = [] \<or> Operation m (tc_operation t) = None then Some ''provider returned invalid tool call''
      else if tc_id t \<in> set inTurn
      then Some ''provider returned invalid tool call: call ID appears twice in one turn''
      else if tc_id t \<in> set seen then Some ''provider reused call ID from an earlier turn''
      else check_calls m seen (tc_id t # inTurn) ts)"

definition validateCalls :: "manifest \<Rightarrow> message list \<Rightarrow> message \<Rightarrow> string option" where
  "validateCalls m history next = check_calls m (map tc_id (made_calls history)) [] (m_tool_calls next)"

definition providerAttempts :: nat where "providerAttempts = 2"

record runner =
  rn_dispatch :: dispatcher
  rn_manifest :: manifest
  rn_fence :: "fence option"

text \<open>
  \<open>en_provider n k\<close> is the \<open>k\<close>-th attempt in iteration \<open>n\<close>; \<open>en_clock n k\<close> the reading of
  the clock at the \<open>k\<close>-th guarded write of that iteration.
\<close>

record env =
  en_provider :: "nat \<Rightarrow> nat \<Rightarrow> string \<Rightarrow> message list \<Rightarrow> operation list \<Rightarrow> message \<times> failure option"
  en_sleep :: "nat \<Rightarrow> nat \<Rightarrow> int \<Rightarrow> err option"
  en_clock :: "nat \<Rightarrow> nat \<Rightarrow> instant"
  en_crash :: "nat \<Rightarrow> hook option"

text \<open>The attempts at one turn: \<open>left\<close> counts down from \<open>providerAttempts\<close>.\<close>

fun attempts ::
    "env \<Rightarrow> nat \<Rightarrow> string \<Rightarrow> message list \<Rightarrow> operation list \<Rightarrow> nat \<Rightarrow> nat \<Rightarrow> interruption list \<Rightarrow> message \<times> err option" where
  "attempts E n task history ops 0 attempt recorded =
     ((fst (en_provider E n attempt task history ops))\<lparr>m_interruptions := recorded\<rparr>,
      Some (Err ''provider interrupted''))"
| "attempts E n task history ops (Suc left) attempt recorded =
     (case en_provider E n attempt task history ops of
        (next, None) \<Rightarrow> (next\<lparr>m_interruptions := recorded @ m_interruptions next\<rparr>, None)
      | (next, Some (Failed e)) \<Rightarrow> (next\<lparr>m_interruptions := recorded @ m_interruptions next\<rparr>, Some e)
      | (next, Some (Interrupted i)) \<Rightarrow>
          let recorded1 = recorded @ [Record i attempt] in
          if left = 0 then (next\<lparr>m_interruptions := recorded1\<rparr>, Some (Err ''provider interrupted''))
          else (case if wait i > 0 then en_sleep E n attempt (wait i) else None of
              Some e \<Rightarrow> (next\<lparr>m_interruptions := recorded1\<rparr>, Some e)
            | None \<Rightarrow> attempts E n task history ops left (Suc attempt) recorded1))"

definition callProvider :: "env \<Rightarrow> nat \<Rightarrow> string \<Rightarrow> message list \<Rightarrow> operation list \<Rightarrow> message \<times> err option" where
  "callProvider E n task history ops = attempts E n task history ops providerAttempts 1 []"

definition interruptionPayloads :: "interruption list \<Rightarrow> json list" where
  "interruptionPayloads is = map interruption_json is"

text \<open>Values compared by \<open>reflect.DeepEqual\<close>: objects as maps.\<close>

fun norm_val :: "val \<Rightarrow> val" where
  "norm_val (VArr xs) = VArr (map norm_val xs)"
| "norm_val (VObj kvs) = VObj (sort_key fst (map (\<lambda>(k, v). (k, norm_val v)) kvs))"
| "norm_val v = v"

definition equalJSON :: "'x golib_scheme \<Rightarrow> json \<Rightarrow> json \<Rightarrow> bool" where
  "equalJSON L a b \<longleftrightarrow> norm_val (unmarshal L a) = norm_val (unmarshal L b)"

definition startModelCall :: "'x golib_scheme \<Rightarrow> fence option \<Rightarrow> instant \<Rightarrow> string \<Rightarrow> json \<Rightarrow> unit tx" where
  "startModelCall L f now runID request d =
     (case LastEvent runID d of
        Inr e \<Rightarrow>
          if e_type e = ''model.request'' then
            (if equalJSON L (e_payload e) request then Inr ((), d)
             else Inl (Err ''abandoned model request differs from the reconstructed one''))
          else AppendGuarded L f now runID ''model.request'' request d
      | Inl _ \<Rightarrow> AppendGuarded L f now runID ''model.request'' request d)"

definition model_request :: "'x golib_scheme \<Rightarrow> run_row \<Rightarrow> message list \<Rightarrow> operation list \<Rightarrow> json" where
  "model_request L run history ops =
     jmap [(''task'', JStr (r_task run)), (''provider'', JStr (r_provider run)), (''model'', JStr (r_model run)),
           (''history'', JArr (map (message_json L) history)), (''operations'', JArr (map operation_json ops))]"

section \<open>One pass of the loop\<close>

datatype pass = Stop "run_row res" db | Again nat db

definition loop_site :: "point \<Rightarrow> string \<Rightarrow> nat \<Rightarrow> site" where
  "loop_site p runID step = \<lparr>st_point = p, st_run = runID, st_step = step, st_call = [], st_operation = []\<rparr>"

definition tool_site :: "point \<Rightarrow> string \<Rightarrow> tool_call \<Rightarrow> site" where
  "tool_site p runID t = \<lparr>st_point = p, st_run = runID, st_step = 0, st_call = tc_id t, st_operation = tc_operation t\<rparr>"

text \<open>Where the hook ends a tool call.\<close>

definition tool_crash :: "hook option \<Rightarrow> string \<Rightarrow> tool_call \<Rightarrow> crash" where
  "tool_crash h runID t =
     (if Fire h (tool_site PBeforeToolCommit runID t) \<noteq> Inr () then BeforeToolCommit
      else if Fire h (tool_site PAfterToolCommit runID t) \<noteq> Inr () then AfterToolCommit else NoCrash)"

definition dispatch_error :: "tool_call \<Rightarrow> err \<Rightarrow> json" where
  "dispatch_error t e = jmap [(''kind'', JStr ''dispatch''), (''call_id'', JStr (tc_id t)),
     (''operation_id'', JStr (tc_operation t)), (''message'', JStr (err_text e))]"

definition dispatch_call ::
    "'x lib_scheme \<Rightarrow> runner \<Rightarrow> env \<Rightarrow> nat \<Rightarrow> string \<Rightarrow> nat \<Rightarrow> tool_call \<Rightarrow> db \<Rightarrow> pass" where
  "dispatch_call L R E n runID used t d =
     (case Invoke L (rn_dispatch R) (en_clock E n 0) (tool_crash (en_crash E n) runID t) runID (tc_id t)
             (tc_operation t) (call_args L t) d of
        (Inr _, d1) \<Rightarrow> Again used d1
      | (Inl e, d1) \<Rightarrow>
          if e = ErrCrashed then Stop (Inl e) d1
          else (case commit (SaveStatusGuarded L (rn_fence R) (en_clock E n 1) runID ''failed'' ''error''
                               (dispatch_error t e)) d1 of
              (Inl e', d2) \<Rightarrow> Stop (Inl e') d2
            | (Inr _, d2) \<Rightarrow> Stop (Inl e) d2))"

text \<open>A status written with its event, and the run read back.\<close>

definition end_run ::
    "'x lib_scheme \<Rightarrow> runner \<Rightarrow> env \<Rightarrow> nat \<Rightarrow> run_row \<Rightarrow> string \<Rightarrow> string \<Rightarrow> db \<Rightarrow> pass" where
  "end_run L R E n run status typ d =
     (case commit (SaveStatusGuarded L (rn_fence R) (en_clock E n 0) (r_id run) status typ
                     (jmap [(''step'', jint (int (r_step run)))])) d of
        (Inl e, d1) \<Rightarrow> Stop (Inl e) d1
      | (Inr _, d1) \<Rightarrow> Stop (Run (r_id run) d1) d1)"

definition fail_turn ::
    "'x lib_scheme \<Rightarrow> runner \<Rightarrow> env \<Rightarrow> nat \<Rightarrow> string \<Rightarrow> message \<Rightarrow> err \<Rightarrow> db \<Rightarrow> pass" where
  "fail_turn L R E n runID next e d =
     (case commit (FailModelTurnGuarded L (rn_fence R) (en_clock E n 1) runID (message_json L next)
                     (interruptionPayloads (m_interruptions next)) (err_text e)) d of
        (Inl e', d1) \<Rightarrow> Stop (Inl e') d1
      | (Inr _, d1) \<Rightarrow> Stop (Inl e) d1)"

definition turn_error :: "runner \<Rightarrow> message list \<Rightarrow> message \<Rightarrow> err option" where
  "turn_error R history next =
     (if m_role next \<noteq> ''assistant'' then Some (Err ''provider returned role'')
      else map_option Err (validateCalls (rn_manifest R) history next))"

definition save_turn ::
    "'x lib_scheme \<Rightarrow> runner \<Rightarrow> env \<Rightarrow> nat \<Rightarrow> run_row \<Rightarrow> message list \<Rightarrow> nat \<Rightarrow> message \<Rightarrow> db \<Rightarrow> pass" where
  "save_turn L R E n run history used next d =
     (case commit (SaveTurnGuarded L (rn_fence R) (en_clock E n 1) (r_id run) (Suc (r_step run))
                     (history @ [next]) (message_json L next) (interruptionPayloads (m_interruptions next))) d of
        (Inl e, d1) \<Rightarrow> Stop (Inl e) d1
      | (Inr _, d1) \<Rightarrow>
          if Fire (en_crash E n) (loop_site PAfterModelResponse (r_id run) (r_step run)) \<noteq> Inr ()
          then Stop (Inl ErrCrashed) d1
          else Again (Suc used) d1)"

definition model_turn ::
    "'x lib_scheme \<Rightarrow> runner \<Rightarrow> env \<Rightarrow> nat \<Rightarrow> run_row \<Rightarrow> message list \<Rightarrow> nat \<Rightarrow> db \<Rightarrow> pass" where
  "model_turn L R E n run history used d =
     (case Exposed L (r_id run) (mf_operations (rn_manifest R)) d of
        Inl e \<Rightarrow> Stop (Inl e) d
      | Inr ops \<Rightarrow>
          if Fire (en_crash E n) (loop_site PBeforeModelRequest (r_id run) (r_step run)) \<noteq> Inr ()
          then Stop (Inl ErrCrashed) d
          else (case commit (startModelCall L (rn_fence R) (en_clock E n 0) (r_id run)
                               (model_request L run history ops)) d of
              (Inl e, d1) \<Rightarrow> Stop (Inl e) d1
            | (Inr _, d1) \<Rightarrow>
                if Fire (en_crash E n) (loop_site PAfterModelRequest (r_id run) (r_step run)) \<noteq> Inr ()
                then Stop (Inl ErrCrashed) d1
                else (case callProvider E n (r_task run) history ops of
                    (next, Some e) \<Rightarrow> fail_turn L R E n (r_id run) next e d1
                  | (next, None) \<Rightarrow>
                      (case turn_error R history next of
                         Some e \<Rightarrow> fail_turn L R E n (r_id run) next e d1
                       | None \<Rightarrow> save_turn L R E n run history used next d1))))"

definition execute_pass ::
    "'x lib_scheme \<Rightarrow> runner \<Rightarrow> env \<Rightarrow> string \<Rightarrow> nat \<Rightarrow> nat \<Rightarrow> nat \<Rightarrow> db \<Rightarrow> pass" where
  "execute_pass L R E runID maxSteps n used d =
     (case Run runID d of
        Inl e \<Rightarrow> Stop (Inl e) d
      | Inr run \<Rightarrow>
          if r_status run = ''completed'' then Stop (Inr run) d
          else (case read_transcript L (r_transcript run) of
              Inl e \<Rightarrow> Stop (Inl e) d
            | Inr history \<Rightarrow>
                (case pending history of
                   Some t \<Rightarrow> dispatch_call L R E n runID used t d
                 | None \<Rightarrow>
                     if finished history then
                       (if Fire (en_crash E n) (loop_site PBeforeCompletion runID (r_step run)) \<noteq> Inr ()
                        then Stop (Inl ErrCrashed) d
                        else end_run L R E n run ''completed'' ''execution.completed'' d)
                     else if used \<ge> maxSteps then end_run L R E n run ''paused'' ''execution.paused'' d
                     else model_turn L R E n run history used d)))"

fun execute_loop ::
    "'x lib_scheme \<Rightarrow> runner \<Rightarrow> env \<Rightarrow> string \<Rightarrow> nat \<Rightarrow> nat \<Rightarrow> nat \<Rightarrow> nat \<Rightarrow> db \<Rightarrow> (run_row res \<times> db) option" where
  "execute_loop L R E runID maxSteps 0 n used d = None"
| "execute_loop L R E runID maxSteps (Suc fuel) n used d =
     (case execute_pass L R E runID maxSteps n used d of
        Stop r d' \<Rightarrow> Some (r, d')
      | Again used' d' \<Rightarrow> execute_loop L R E runID maxSteps fuel (Suc n) used' d')"

text \<open>\<open>Execute\<close> with a provider; the guard on a nil provider is the absent environment.\<close>

definition Execute ::
    "'x lib_scheme \<Rightarrow> runner \<Rightarrow> env option \<Rightarrow> string \<Rightarrow> int \<Rightarrow> nat \<Rightarrow> db \<Rightarrow> (run_row res \<times> db) option" where
  "Execute L R E runID maxSteps fuel d =
     (if maxSteps < 1 then Some (Inl (Err ''maxSteps must be positive''), d)
      else case E of None \<Rightarrow> Some (Inl (Err ''provider is required''), d)
      | Some E \<Rightarrow> execute_loop L R E runID (nat maxSteps) fuel 0 0 d)"

section \<open>What a write of the runner does to its run\<close>

definition own_types :: "string \<Rightarrow> db \<Rightarrow> string list" where
  "own_types runID d = map e_type (filter (\<lambda>e. e_run e = runID) (ledger d))"

text \<open>A write appends events of the given types to its run and maps the run's row.\<close>

definition run_write :: "string \<Rightarrow> string list \<Rightarrow> (run_row \<Rightarrow> run_row) \<Rightarrow> db \<Rightarrow> db \<Rightarrow> bool" where
  "run_write runID types f d d' \<longleftrightarrow>
     (ledger_inv d \<longrightarrow> ledger_inv d') \<and> prefix (ledger d) (ledger d')
   \<and> own_types runID d' = own_types runID d @ types
   \<and> results d' = results d \<and> db_world d' = db_world d
   \<and> sel r_id runID (run_rows d') = map_option f (sel r_id runID (run_rows d))"

lemma run_write_trans:
  "run_write runID ts f d d' \<Longrightarrow> run_write runID ts' g d' d'' \<Longrightarrow> run_write runID (ts @ ts') (\<lambda>r. g (f r)) d d''"
  by (auto simp: run_write_def option.map_comp comp_def dest: prefix_order.trans)

lemma run_write_same:
  "db_runs d' = db_runs d \<Longrightarrow> db_world d' = db_world d \<Longrightarrow> run_write runID [] (\<lambda>r. r) d d'"
  by (simp add: run_write_def own_types_def ledger_inv_def option.map_ident)

lemma run_write_append:
  assumes "AppendEventTx L runID typ payload d = Inr (u, d')"
  shows "run_write runID [typ] (\<lambda>r. r) d d'"
proof -
  have "ledger_inv d \<longrightarrow> ledger_inv d'" using AppendEventTx_grows [OF assms] by (simp add: ledger_grows_def)
  moreover obtain e where "ledger d' = ledger d @ [e]" "e_run e = runID" "e_type e = typ"
    using assms by (rule AppendEventTx_ok) auto
  ultimately show ?thesis
    using AppendEventTx_frame [OF assms] by (simp add: run_write_def own_types_def option.map_ident)
qed

lemma run_write_update:
  assumes "\<And>r. r_id (f r) = r_id r"
  shows "run_write runID [] f d (update_run runID f d)"
proof -
  have "sel r_id runID (upd (\<lambda>r. r_id r = runID) f (run_rows d)) = map_option f (sel r_id runID (run_rows d))"
    using sel_upd_key [of r_id runID f runID "run_rows d"] assms by simp
  then show ?thesis by (simp add: run_write_def own_types_def ledger_inv_def)
qed

lemma run_write_interruptions:
  "appendInterruptionsTx L runID ps d = Inr (u, d') \<Longrightarrow>
   run_write runID (replicate (length ps) ''provider.interrupted'') (\<lambda>r. r) d d'"
proof (induction ps arbitrary: d)
  case Nil
  then show ?case by (simp add: run_write_same)
next
  case (Cons p ps)
  from Cons.prems obtain d1 where d1: "AppendEventTx L runID ''provider.interrupted'' p d = Inr ((), d1)"
      and rest: "appendInterruptionsTx L runID ps d1 = Inr (u, d')" by auto
  from run_write_trans [OF run_write_append [OF d1] Cons.IH [OF rest]] show ?case by simp
qed

lemma run_write_guarded:
  assumes "guarded f now body d = Inr (x, d')" and "\<And>d1. body d1 = Inr (x, d') \<Longrightarrow> run_write runID ts g d1 d'"
  shows "run_write runID ts g d d'"
  using assms(1)
proof (rule guarded_ok)
  assume "body d = Inr (x, d')"
  then show ?thesis by (rule assms(2))
next
  fix fn d1
  assume "GuardFenceTx fn now d = Inr ((), d1)" and body: "body d1 = Inr (x, d')"
  then have "run_write runID [] (\<lambda>r. r) d d1" using GuardFenceTx_frame by (intro run_write_same) blast+
  from run_write_trans [OF this assms(2) [OF body]] show ?thesis by simp
qed

lemma run_write_status:
  assumes "SaveStatusGuarded L f now runID status typ payload d = Inr (u, d')"
  shows "run_write runID [typ] (\<lambda>r. r\<lparr>r_status := status\<rparr>) d d'"
  using assms unfolding SaveStatusGuarded_def
proof (rule run_write_guarded)
  fix d1
  assume "AppendEventTx L runID typ payload (update_run runID (\<lambda>r. r\<lparr>r_status := status\<rparr>) d1) = Inr (u, d')"
  from run_write_trans [OF run_write_update run_write_append [OF this]]
  show "run_write runID [typ] (\<lambda>r. r\<lparr>r_status := status\<rparr>) d1 d'" by simp
qed

lemma run_write_turn:
  assumes "SaveTurnGuarded L f now runID step transcript response ps d = Inr (u, d')"
  shows "run_write runID (replicate (length ps) ''provider.interrupted'' @ [''model.response''])
    (\<lambda>r. r\<lparr>r_step := step, r_transcript := transcript, r_status := ''running''\<rparr>) d d'"
  using assms unfolding SaveTurnGuarded_def
proof (rule run_write_guarded)
  let ?f = "\<lambda>r. r\<lparr>r_step := step, r_transcript := transcript, r_status := ''running''\<rparr>"
  fix d1
  assume "bindR (appendInterruptionsTx L runID ps d1) (\<lambda>(_, d1). bindR (AppendEventTx L runID ''model.response'' response d1)
      (\<lambda>(_, d2). Inr ((), update_run runID ?f d2))) = Inr (u, d')"
  then obtain d2 d3 where d2: "appendInterruptionsTx L runID ps d1 = Inr ((), d2)"
      and d3: "AppendEventTx L runID ''model.response'' response d2 = Inr ((), d3)" and d': "d' = update_run runID ?f d3"
    by auto
  have "run_write runID [] ?f d3 d'" unfolding d' by (rule run_write_update) simp
  from run_write_trans [OF run_write_trans [OF run_write_interruptions [OF d2] run_write_append [OF d3]] this]
  show "run_write runID (replicate (length ps) ''provider.interrupted'' @ [''model.response'']) ?f d1 d'" by simp
qed

lemma run_write_fail:
  assumes "FailModelTurnGuarded L f now runID response ps msg d = Inr (u, d')"
  shows "run_write runID (replicate (length ps) ''provider.interrupted'' @ [''model.response'', ''error''])
    (\<lambda>r. r\<lparr>r_status := ''failed''\<rparr>) d d'"
  using assms unfolding FailModelTurnGuarded_def
proof (rule run_write_guarded)
  let ?f = "\<lambda>r. r\<lparr>r_status := ''failed''\<rparr>"
  fix d1
  assume "bindR (appendInterruptionsTx L runID ps d1) (\<lambda>(_, d1). bindR (AppendEventTx L runID ''model.response'' response d1)
      (\<lambda>(_, d2). bindR (AppendEventTx L runID ''error'' (provider_error msg) d2)
      (\<lambda>(_, d3). Inr ((), update_run runID ?f d3)))) = Inr (u, d')"
  then obtain d2 d3 d4 where d2: "appendInterruptionsTx L runID ps d1 = Inr ((), d2)"
      and d3: "AppendEventTx L runID ''model.response'' response d2 = Inr ((), d3)"
      and d4: "AppendEventTx L runID ''error'' (provider_error msg) d3 = Inr ((), d4)" and d': "d' = update_run runID ?f d4"
    by auto
  have "run_write runID [] ?f d4 d'" unfolding d' by (rule run_write_update) simp
  from run_write_trans [OF run_write_trans [OF run_write_trans [OF run_write_interruptions [OF d2]
        run_write_append [OF d3]] run_write_append [OF d4]] this]
  show "run_write runID (replicate (length ps) ''provider.interrupted'' @ [''model.response'', ''error'']) ?f d1 d'"
    by simp
qed

lemma run_write_commit:
  assumes "commit body d = (x, d')" and "\<And>y d''. body d = Inr (y, d'') \<Longrightarrow> run_write runID ts f d d''"
  shows "(\<exists>e. x = Inl e \<and> d' = d) \<or> (\<exists>y. x = Inr y \<and> run_write runID ts f d d')"
  using assms by (cases "body d") (auto simp: commit_def)

section \<open>What a tool call does to its run\<close>

lemma record_call_row:
  assumes "record_call L c arguments transcript v d = Inr (r, d')" and "c_run c \<in> set (map r_id (run_rows d))"
  shows "\<exists>row. sel r_id (c_run c) (run_rows d') = Some row
    \<and> r_transcript row = map (remarshal L) transcript @ [tool_message c (v_status v) (v_response v)]"
proof -
  let ?f = "\<lambda>r. r\<lparr>r_transcript := map (remarshal L) transcript @ [tool_message c (v_status v) (v_response v)]\<rparr>"
  obtain d1 where d1: "(case v_mutation v of None \<Rightarrow> Inr ((), d)
            | Some m \<Rightarrow> AppendEventTx L (c_run c) ''state.mutation'' m d) = Inr ((), d1)"
    using assms(1) by (auto simp: record_call_def)
  then have r1: "run_rows d1 = run_rows d" by (auto dest: AppendEventTx_frame(1) split: option.splits)
  from assms(1) d1 obtain d2 t p where d2: "AppendEventTx L (c_run c) ''tool.response'' p d1 = Inr ((), d2)"
      and d': "d' = update_run (c_run c) ?f (d2\<lparr>db_runs := (db_runs d2)\<lparr>tool_results := t\<rparr>\<rparr>)"
    by (auto simp: record_call_def)
  have "run_rows d' = upd (\<lambda>r. r_id r = c_run c) ?f (run_rows d)"
    using AppendEventTx_frame(1) [OF d2] r1 by (simp add: d')
  then have "sel r_id (c_run c) (run_rows d') = map_option ?f (sel r_id (c_run c) (run_rows d))"
    using sel_upd_key [of r_id "c_run c" ?f "c_run c" "run_rows d"] by simp
  moreover have "sel r_id (c_run c) (run_rows d) \<noteq> None" using assms(2) by (simp add: sel_None_iff)
  ultimately show ?thesis by auto
qed

lemma execute_call_row:
  assumes ok: "registry_ok (dp_registry D)" and run: "execute_call L D c transcript d = Inr (r, d')"
    and row: "sel r_id (c_run c) (run_rows d) \<noteq> None"
  shows "\<exists>row m. sel r_id (c_run c) (run_rows d') = Some row \<and> r_transcript row = map (remarshal L) transcript @ [m]
    \<and> m_role m = ''tool'' \<and> m_call_id m = c_call c \<and> m_tool_calls m = []"
proof -
  from run obtain u d1 v0 v1 d2 v2 d3 v3 d4 v4 d5 v5 d6 p where
    req: "AppendEventTx L (c_run c) ''tool.request'' p d = Inr (u, d1)" and
    auth: "authorize L c v0 d1 = Inr (v1, d2)" and
    inj: "inject L D c (marshal_args L (c_args c)) v1 d2 = Inr (v2, d3)" and
    han: "handle_call L D c v2 d3 = Inr (v3, d4)" and
    set: "settle_post c v3 (capture L c (marshal_args L (c_args c)) v3 d4) = Inr (v4, d5)" and
    hide: "hide_outcome L c v4 d5 = Inr (v5, d6)" and
    rec: "record_call L c (marshal_args L (c_args c)) transcript v5 d6 = Inr (r, d')"
    by (rule execute_call_stages) (rule that)
  obtain f g where fg: "d5 = map_policy f (capture L c (marshal_args L (c_args c)) v3 d4)"
      "capture L c (marshal_args L (c_args c)) v3 d4 = map_policy g d4"
    using settle_post_policy [OF set] capture_policy by metis
  have ids: "map r_id (run_rows d1) = map r_id (run_rows d)" "map r_id (run_rows d2) = map r_id (run_rows d1)"
    "map r_id (run_rows d3) = map r_id (run_rows d2)" "map r_id (run_rows d4) = map r_id (run_rows d3)"
    "map r_id (run_rows d6) = map r_id (run_rows d5)"
    using AppendEventTx_frame(1) [OF req] authorize_stage [OF auth] inject_stage [OF ok inj]
      handle_call_stage [OF ok han] hide_outcome_stage(1) [OF hide] by (simp_all add: stage_def)
  have "run_rows d5 = run_rows d4" by (simp add: fg)
  then have "map r_id (run_rows d6) = map r_id (run_rows d)" using ids by simp
  then have "c_run c \<in> set (map r_id (run_rows d6))" using row by (simp only: sel_None_iff not_not)
  from record_call_row [OF rec this] show ?thesis by (auto simp: tool_message_def)
qed

end
