(* ===== verification/Execution.thy ===== *)
theory Execution
  imports Runner
begin

text \<open>
  What the runner's loop guarantees: it ends, it records at most the model turns it was
  given, and the run's ledger pairs requests with responses through every crash and resume.
\<close>

section \<open>A tool call of the loop\<close>

lemma Invoke_run:
  assumes ok: "registry_ok (dp_registry D)" and inv: "Invoke L D now crash runID callID operationID args d = (out, d')"
    and row: "sel r_id runID (run_rows d) = Some row"
  obtains "d' = d" "saved_call runID callID d \<or> (\<exists>e. out = Inl e)"
  | ts row' m tr where "\<not> saved_call runID callID d" "set ts \<subseteq> set call_events" "own_types runID d' = own_types runID d @ ts"
      "results d' = results d @ [tr]" "tr_run tr = runID" "tr_call tr = callID"
      "sel r_id runID (run_rows d') = Some row'" "r_transcript row' = map (remarshal L) (r_transcript row) @ [m]"
      "m_role m = ''tool''" "m_call_id m = callID" "m_tool_calls m = []"
      "ledger_inv d \<longrightarrow> ledger_inv d'" "prefix (ledger d) (ledger d')"
proof -
  have "d' = d \<and> (saved_call runID callID d \<or> (\<exists>e. out = Inl e)) \<or>
      (\<exists>r. invoke_guarded L D now runID callID operationID args d = Inr (r, d') \<and> \<not> saved_call runID callID d)"
    using inv by (auto simp: Invoke_def split: sum.splits if_splits crash.splits)
  then consider "d' = d" "saved_call runID callID d \<or> (\<exists>e. out = Inl e)"
    | r where "invoke_guarded L D now runID callID operationID args d = Inr (r, d')" "\<not> saved_call runID callID d"
    by blast
  then show thesis
  proof cases
    case 1
    then show ?thesis by (rule that(1))
  next
    case (2 r)
    obtain d0 where d0: "db_runs d0 = db_runs d" and tx: "invoke_tx L D runID callID operationID args d0 = Inr (r, d')"
      using 2(1) by (rule invoke_guarded_cases)
    have ns: "\<not> saved_call runID callID d0" using 2(2) saved_call_runs [OF d0] by simp
    have r0: "run_rows d0 = run_rows d" and l0: "ledger d0 = ledger d" and t0: "results d0 = results d"
      using d0 by simp_all
    from tx ns obtain op row0 where opid: "op_id op = operationID" and row0: "sel r_id runID (run_rows d0) = Some row0"
      and x: "execute_call L D \<lparr>c_run = runID, c_call = callID, c_op = op, c_args = args, c_world = r_world row0,
           c_fault = r_fault_operation row0, c_consumed = r_fault_consumed row0\<rparr> (r_transcript row0) d0 = Inr (r, d')"
      by (rule invoke_tx_fresh)
    have "row0 = row" using row row0 r0 by simp
    obtain first mid final where led: "ledger d' = ledger d @ first # mid @ [final]"
        "\<forall>e \<in> set (first # mid @ [final]). call_event runID e"
      using execute_call_ok(7) [OF ok x] l0 by auto
    have types: "own_types runID d' = own_types runID d @ map e_type (first # mid @ [final])"
        "set (map e_type (first # mid @ [final])) \<subseteq> set call_events"
    proof -
      have "filter (\<lambda>e. e_run e = runID) (first # mid @ [final]) = first # mid @ [final]"
        using led(2) by (auto simp: call_event_def filter_id_conv)
      then show "own_types runID d' = own_types runID d @ map e_type (first # mid @ [final])"
        by (simp add: own_types_def led(1))
      show "set (map e_type (first # mid @ [final])) \<subseteq> set call_events"
        using led(2) by (auto simp: call_event_def)
    qed
    have rowed: "\<exists>row m. sel r_id runID (run_rows d') = Some row \<and> r_transcript row = map (remarshal L) (r_transcript row0) @ [m]
       \<and> m_role m = ''tool'' \<and> m_call_id m = callID \<and> m_tool_calls m = []"
      using execute_call_row [OF ok x] row0 by simp
    then obtain row' m where "sel r_id runID (run_rows d') = Some row'"
        "r_transcript row' = map (remarshal L) (r_transcript row) @ [m]"
        "m_role m = ''tool''" "m_call_id m = callID" "m_tool_calls m = []"
      unfolding \<open>row0 = row\<close> by blast
    moreover have "results d' = results d @ [call_row L runID callID operationID args r]"
      using execute_call_ok(6) [OF ok x] t0 opid by simp
    moreover have "ledger_inv d \<longrightarrow> ledger_inv d'"
      using execute_call_ok(5) [OF ok x] ledger_inv_runs [OF d0] by simp
    moreover have "prefix (ledger d) (ledger d')" using led(1) by (auto simp: prefix_def)
    ultimately show ?thesis using that(2) [OF 2(2) types(2,1)] by (simp add: call_row_def)
  qed
qed

section \<open>Calls made and calls answered\<close>

definition made_ids :: "message list \<Rightarrow> string list" where
  "made_ids h = map tc_id (made_calls h)"

definition answered :: "message list \<Rightarrow> string list" where
  "answered h = map m_call_id (filter (\<lambda>m. m_role m = ''tool'') h)"

text \<open>Reading a transcript back changes only the arguments of its calls.\<close>

definition keeps_ids :: "(message \<Rightarrow> message) \<Rightarrow> bool" where
  "keeps_ids f \<longleftrightarrow> (\<forall>m. m_role (f m) = m_role m \<and> m_call_id (f m) = m_call_id m
     \<and> map tc_id (m_tool_calls (f m)) = map tc_id (m_tool_calls m))"

lemma keeps_ids_reread [simp]: "keeps_ids (reread L)"
  by (simp add: keeps_ids_def reread_def comp_def)

lemma keeps_ids_remarshal [simp]: "keeps_ids (remarshal L)"
  by (simp add: keeps_ids_def remarshal_def comp_def)

lemma made_ids_map: "keeps_ids f \<Longrightarrow> made_ids (map f h) = made_ids h"
  by (induction h) (auto simp: made_ids_def made_calls_def keeps_ids_def)

lemma answered_map: "keeps_ids f \<Longrightarrow> answered (map f h) = answered h"
  by (induction h) (auto simp: answered_def keeps_ids_def)

lemma made_ids_append: "made_ids (h @ h') = made_ids h @ made_ids h'"
  by (simp add: made_ids_def made_calls_def)

lemma answered_append: "answered (h @ h') = answered h @ answered h'"
  by (simp add: answered_def)

lemma keeps_ids_Nil: "keeps_ids f \<Longrightarrow> m_tool_calls (f m) = [] \<longleftrightarrow> m_tool_calls m = []"
  unfolding keeps_ids_def by (metis map_is_Nil_conv)

lemma finished_map: "keeps_ids f \<Longrightarrow> finished (map f h) = finished h"
  by (cases "h = []") (auto simp: finished_def last_map keeps_ids_Nil keeps_ids_def)

definition open_calls :: "message list \<Rightarrow> string list" where
  "open_calls h = filter (\<lambda>i. i \<notin> set (answered h)) (made_ids h)"

lemma open_calls_map: "keeps_ids f \<Longrightarrow> open_calls (map f h) = open_calls h"
  by (simp add: open_calls_def made_ids_map answered_map)

lemma pending_Some:
  assumes "pending h = Some t"
  shows "tc_id t \<in> set (made_ids h)" and "tc_id t \<notin> set (answered h)"
  using assms by (auto simp: pending_def find_Some_iff made_ids_def answered_def)

lemma pending_None_iff: "pending h = None \<longleftrightarrow> open_calls h = []"
  by (auto simp: pending_def find_None_iff open_calls_def made_ids_def answered_def filter_empty_conv)

lemma pending_map: "keeps_ids f \<Longrightarrow> pending (map f h) = None \<longleftrightarrow> pending h = None"
  by (simp add: pending_None_iff open_calls_map)

text \<open>Answering an open call leaves fewer of them.\<close>

lemma open_calls_answer:
  assumes "i \<in> set (made_ids h)" "i \<notin> set (answered h)"
    and "m_role m = ''tool''" "m_call_id m = i" "m_tool_calls m = []"
  shows "length (open_calls (h @ [m])) < length (open_calls h)"
proof -
  have a: "answered (h @ [m]) = answered h @ [i]" "made_ids (h @ [m]) = made_ids h"
    using assms(3,4) by (simp_all add: answered_def made_ids_def made_calls_def)
  have "open_calls (h @ [m]) = filter (\<lambda>x. x \<noteq> i) (open_calls h)"
    unfolding open_calls_def a by (auto intro: filter_cong)
  moreover have "i \<in> set (open_calls h)" using assms(1,2) by (simp add: open_calls_def)
  ultimately show ?thesis by (auto intro: length_filter_less)
qed


section \<open>One pass\<close>

lemma startModelCall_write:
  assumes "startModelCall L f now runID request d = Inr (u, d')"
  shows "d' = d \<and> (\<exists>e. LastEvent runID d = Inr e \<and> e_type e = ''model.request'')
    \<or> run_write runID [''model.request''] (\<lambda>r. r) d d'
        \<and> \<not> (\<exists>e. LastEvent runID d = Inr e \<and> e_type e = ''model.request'')"
proof -
  have "run_write runID [''model.request''] (\<lambda>r. r) d d'"
    if "AppendGuarded L f now runID ''model.request'' request d = Inr (u, d')"
    using that unfolding AppendGuarded_def by (rule run_write_guarded) (rule run_write_append)
  then show ?thesis using assms by (auto simp: startModelCall_def split: sum.splits if_splits)
qed

lemma dispatch_call_Again:
  "dispatch_call L R E n runID used t d = Again used' d' \<Longrightarrow>
   used' = used \<and> (\<exists>r. Invoke L (rn_dispatch R) (en_clock E n 0) (tool_crash (en_crash E n) runID t) runID (tc_id t)
     (tc_operation t) (call_args L t) d = (Inr r, d'))"
  by (auto simp: dispatch_call_def split: prod.splits sum.splits if_splits)

lemma end_run_Stop: "end_run L R E n run status typ d \<noteq> Again used' d'"
  by (auto simp: end_run_def split: prod.splits sum.splits)

lemma fail_turn_Stop: "fail_turn L R E n runID nxt e d \<noteq> Again used' d'"
  by (auto simp: fail_turn_def split: prod.splits sum.splits)

lemma save_turn_Again:
  "save_turn L R E n run history used nxt d = Again used' d' \<Longrightarrow>
   used' = Suc used \<and> (\<exists>u. SaveTurnGuarded L (rn_fence R) (en_clock E n 1) (r_id run) (Suc (r_step run))
     (history @ [nxt]) (message_json L nxt) (interruptionPayloads (m_interruptions nxt)) d = Inr (u, d'))"
  by (auto simp: save_turn_def commit_def split: prod.splits sum.splits if_splits)

lemma model_turn_Again:
  assumes "model_turn L R E n run history used d = Again used' d'"
  obtains d1 nxt ops u where "used' = Suc used"
    and "startModelCall L (rn_fence R) (en_clock E n 0) (r_id run) (model_request L run history ops) d = Inr (u, d1)"
    and "turn_error R history nxt = None"
    and "save_turn L R E n run history used nxt d1 = Again used' d'"
proof -
  from assms obtain ops d1 nxt x where
      "commit (startModelCall L (rn_fence R) (en_clock E n 0) (r_id run) (model_request L run history ops)) d = (Inr x, d1)"
      "turn_error R history nxt = None" "save_turn L R E n run history used nxt d1 = Again used' d'"
    by (auto simp: model_turn_def fail_turn_Stop split: prod.splits sum.splits if_splits option.splits)
  then show ?thesis using that save_turn_Again [of L R E n run history used nxt d1 used' d'] by (auto simp: commit_ok_iff)
qed

lemma Run_Inr: "Run runID d = Inr run \<Longrightarrow> sel r_id runID (run_rows d) = Some run \<and> r_id run = runID"
  by (auto simp: Run_def dest: sel_SomeD split: option.splits)

lemma read_transcript_Inr: "read_transcript L ms = Inr h \<Longrightarrow> h = map (reread L) ms"
  by (auto simp: read_transcript_def split: if_splits)

lemma execute_pass_Again:
  assumes "execute_pass L R E runID maxSteps n used d = Again used' d'"
  obtains (call) run t where "sel r_id runID (run_rows d) = Some run" "pending (map (reread L) (r_transcript run)) = Some t"
      "dispatch_call L R E n runID used t d = Again used' d'"
    | (turn) run where "sel r_id runID (run_rows d) = Some run" "r_id run = runID"
      "pending (map (reread L) (r_transcript run)) = None" "\<not> finished (map (reread L) (r_transcript run))"
      "r_status run \<noteq> ''completed''" "used < maxSteps"
      "model_turn L R E n run (map (reread L) (r_transcript run)) used d = Again used' d'"
proof -
  obtain run where run: "Run runID d = Inr run" and st: "r_status run \<noteq> ''completed''"
    using assms by (auto simp: execute_pass_def split: sum.splits if_splits)
  obtain history where h: "read_transcript L (r_transcript run) = Inr history"
    using assms run st by (auto simp: execute_pass_def split: sum.splits)
  note row = Run_Inr [OF run] and hist = read_transcript_Inr [OF h]
  show ?thesis
  proof (cases "pending history")
    case None
    then have "\<not> finished history \<and> used < maxSteps \<and> model_turn L R E n run history used d = Again used' d'"
      using assms run st h by (auto simp: execute_pass_def end_run_Stop split: if_splits)
    then show ?thesis using turn row hist None st by auto
  next
    case (Some t)
    then have "dispatch_call L R E n runID used t d = Again used' d'"
      using assms run st h by (simp add: execute_pass_def)
    then show ?thesis using call row hist Some by auto
  qed
qed

text \<open>Every saved result has its message in the transcript, so a pending call is a fresh one.\<close>

definition results_seen :: "string \<Rightarrow> db \<Rightarrow> bool" where
  "results_seen runID d \<longleftrightarrow>
     (\<forall>row. sel r_id runID (run_rows d) = Some row \<longrightarrow>
        (\<forall>x \<in> set (results d). tr_run x = runID \<longrightarrow> tr_call x \<in> set (answered (r_transcript row))))"

definition open_count :: "string \<Rightarrow> db \<Rightarrow> nat" where
  "open_count runID d = (case sel r_id runID (run_rows d) of None \<Rightarrow> 0 | Some row \<Rightarrow> length (open_calls (r_transcript row)))"

lemma results_seen_fresh:
  assumes "results_seen runID d" and "sel r_id runID (run_rows d) = Some row"
    and "pending (map (reread L) (r_transcript row)) = Some t"
  shows "\<not> saved_call runID (tc_id t) d"
proof
  assume "saved_call runID (tc_id t) d"
  then obtain x where x: "sel (\<lambda>r. (tr_run r, tr_call r)) (runID, tc_id t) (results d) = Some x"
    by (auto simp: saved_call_def)
  then have "tc_id t \<in> set (answered (r_transcript row))"
    using assms(1,2) sel_SomeD [OF x] by (auto simp: results_seen_def)
  then show False using pending_Some(2) [OF assms(3)] by (simp add: answered_map)
qed

lemma run_write_seen:
  assumes "run_write runID ts f d d'" and "results_seen runID d"
    and "\<And>r. set (answered (r_transcript r)) \<subseteq> set (answered (r_transcript (f r)))"
  shows "results_seen runID d'"
  using assms unfolding results_seen_def run_write_def by (cases "sel r_id runID (run_rows d)") auto

lemma execute_pass_measure:
  assumes ok: "registry_ok (dp_registry (rn_dispatch R))" and seen: "results_seen runID d"
    and pass: "execute_pass L R E runID maxSteps n used d = Again used' d'"
  shows "results_seen runID d'
    \<and> (used' = used \<and> open_count runID d' < open_count runID d \<or> used' = Suc used \<and> used < maxSteps)"
  using pass
proof (cases rule: execute_pass_Again)
  case (call run t)
  from dispatch_call_Again [OF call(3)] obtain r where u: "used' = used"
    and inv: "Invoke L (rn_dispatch R) (en_clock E n 0) (tool_crash (en_crash E n) runID t) runID (tc_id t)
     (tc_operation t) (call_args L t) d = (Inr r, d')" by blast
  have fresh: "\<not> saved_call runID (tc_id t) d" by (rule results_seen_fresh [OF seen call(1,2)])
  from ok inv call(1) show ?thesis
  proof (cases rule: Invoke_run)
    case 1
    then show ?thesis using fresh by auto
  next
    case (2 ts row' m tr)
    let ?h = "map (remarshal L) (r_transcript run)"
    have id: "tc_id t \<in> set (made_ids ?h)" "tc_id t \<notin> set (answered ?h)"
      using pending_Some [OF call(2)] by (simp_all add: made_ids_map answered_map)
    have "open_count runID d' < open_count runID d"
      using open_calls_answer [OF id 2(9-11)] 2(7,8) call(1) by (simp add: open_count_def open_calls_map)
    moreover have "results_seen runID d'"
    proof -
      have "answered (r_transcript row') = answered (r_transcript run) @ [tc_id t]"
        using 2(8-10) by (simp add: answered_append answered_map) (simp add: answered_def)
      then show ?thesis using seen call(1) 2(4-7) by (auto simp: results_seen_def)
    qed
    ultimately show ?thesis using u by simp
  qed
next
  case (turn run)
  let ?h = "map (reread L) (r_transcript run)"
  from turn(7) obtain d1 nxt ops u where u: "used' = Suc used"
    and start: "startModelCall L (rn_fence R) (en_clock E n 0) (r_id run) (model_request L run ?h ops) d = Inr (u, d1)"
    and te: "turn_error R ?h nxt = None" and sv: "save_turn L R E n run ?h used nxt d1 = Again used' d'"
    by (rule model_turn_Again)
  from save_turn_Again [OF sv] obtain u' where s: "SaveTurnGuarded L (rn_fence R) (en_clock E n 1) (r_id run) (Suc (r_step run))
     (?h @ [nxt]) (message_json L nxt) (interruptionPayloads (m_interruptions nxt)) d1 = Inr (u', d')" by blast
  have role: "m_role nxt = ''assistant''" using te by (auto simp: turn_error_def split: if_splits)
  have "sel r_id runID (run_rows d1) = Some run \<and> results d1 = results d"
    using startModelCall_write [OF start] turn(1,2) by (auto simp: run_write_def option.map_ident)
  moreover have "run_write runID (replicate (length (interruptionPayloads (m_interruptions nxt))) ''provider.interrupted''
      @ [''model.response'']) (\<lambda>r. r\<lparr>r_step := Suc (r_step run), r_transcript := ?h @ [nxt], r_status := ''running''\<rparr>) d1 d'"
    using run_write_turn [OF s] turn(2) by simp
  ultimately have "results_seen runID d'"
    using seen turn(1) role by (auto simp: results_seen_def run_write_def answered_append answered_map) 
  then show ?thesis using u turn(6) by simp
qed

section \<open>Requests and responses\<close>

text \<open>
  The state of a run's conversation with its provider, read off the types of its events:
  idle, a request asked, or a request with interrupted attempts. \<open>None\<close> is a ledger that
  replay would reject.
\<close>

datatype phase = Idle | Asked | Retrying

fun phase_step :: "phase option \<Rightarrow> string \<Rightarrow> phase option" where
  "phase_step None t = None"
| "phase_step (Some p) t =
     (if t = ''model.request'' then (if p = Idle then Some Asked else None)
      else if t = ''model.response'' then (if p = Idle then None else Some Idle)
      else if t = ''provider.interrupted'' then (if p = Idle then None else Some Retrying)
      else if p = Idle then Some Idle else None)"

definition phase_from :: "phase option \<Rightarrow> string list \<Rightarrow> phase option" where
  "phase_from p ts = foldl phase_step p ts"

definition phase_of :: "string \<Rightarrow> db \<Rightarrow> phase option" where
  "phase_of runID d = phase_from (Some Idle) (own_types runID d)"

lemma phase_from_append: "phase_from p (ts @ ts') = phase_from (phase_from p ts) ts'"
  by (simp add: phase_from_def)

lemma phase_from_None [simp]: "phase_from None ts = None"
  by (induction ts) (simp_all add: phase_from_def)

lemma phase_from_calls: "set ts \<subseteq> set call_events \<Longrightarrow> phase_from (Some Idle) ts = Some Idle"
proof (induction ts)
  case (Cons t ts)
  then have "phase_step (Some Idle) t = Some Idle" by (auto simp: call_events_def)
  then show ?case using Cons by (simp add: phase_from_def)
qed (simp add: phase_from_def)

lemma phase_from_turn:
  "p \<noteq> Idle \<Longrightarrow> phase_from (Some p) (replicate k ''provider.interrupted'' @ [''model.response'']) = Some Idle"
  by (induction k arbitrary: p) (simp_all add: phase_from_def)

lemma phase_from_fail:
  assumes "p \<noteq> Idle"
  shows "phase_from (Some p) (replicate k ''provider.interrupted'' @ [''model.response'', ''error'']) = Some Idle"
proof -
  have "phase_from (Some p) ((replicate k ''provider.interrupted'' @ [''model.response'']) @ [''error''])
      = phase_from (Some Idle) [''error'']"
    using phase_from_turn [OF assms] by (simp only: phase_from_append)
  then show ?thesis by (simp add: phase_from_def)
qed

text \<open>A request is open exactly when it is the last event.\<close>

lemma phase_from_last:
  assumes "phase_from (Some Idle) ts = Some p"
  shows "p = Asked \<longleftrightarrow> ts \<noteq> [] \<and> last ts = ''model.request''"
  using assms
proof (cases ts rule: rev_cases)
  case (snoc xs t)
  then have "phase_step (phase_from (Some Idle) xs) t = Some p" using assms by (simp add: phase_from_def)
  then show ?thesis using snoc by (cases "phase_from (Some Idle) xs") (auto split: if_splits)
qed (simp add: phase_from_def)

text \<open>Every request but an open one has its response.\<close>

lemma phase_from_counts:
  "phase_from (Some Idle) ts = Some p \<Longrightarrow>
   count_list ts ''model.request'' = count_list ts ''model.response'' + (if p = Idle then 0 else 1)"
proof (induction ts arbitrary: p rule: rev_induct)
  case (snoc t ts)
  then obtain q where q: "phase_from (Some Idle) ts = Some q" "phase_step (Some q) t = Some p"
    by (cases "phase_from (Some Idle) ts") (auto simp: phase_from_def)
  then show ?case using snoc.IH [OF q(1)] by (auto split: if_splits)
qed (simp add: phase_from_def)

lemma LastEvent_type:
  assumes "ledger_inv d"
  shows "(\<exists>e. LastEvent runID d = Inr e \<and> e_type e = t) \<longleftrightarrow> own_types runID d \<noteq> [] \<and> last (own_types runID d) = t"
proof -
  let ?xs = "filter (\<lambda>e. e_run e = runID) (ledger d)"
  have "sort_key e_seq ?xs = ?xs"
    using Events_ledger [of runID d] assms by (simp add: ledger_inv_def Events_def)
  then show ?thesis
    by (cases ?xs rule: rev_cases) (auto simp: LastEvent_def own_types_def)
qed

section \<open>The invariant of a run\<close>

text \<open>
  The ledger pairs requests with responses, and while a request is open the transcript is
  where the request left it: nothing pending, nothing finished.
\<close>

definition run_paired :: "string \<Rightarrow> db \<Rightarrow> bool" where
  "run_paired runID d \<longleftrightarrow> ledger_inv d
   \<and> (phase_of runID d = Some Idle \<or> phase_of runID d = Some Asked
        \<and> (\<forall>row. sel r_id runID (run_rows d) = Some row \<longrightarrow>
             pending (r_transcript row) = None \<and> \<not> finished (r_transcript row)))"

definition run_idle :: "string \<Rightarrow> db \<Rightarrow> bool" where
  "run_idle runID d \<longleftrightarrow> ledger_inv d \<and> phase_of runID d = Some Idle"

lemma run_idle_paired: "run_idle runID d \<Longrightarrow> run_paired runID d"
  by (simp add: run_idle_def run_paired_def)

lemma run_write_phase:
  "run_write runID ts f d d' \<Longrightarrow> phase_of runID d' = phase_from (phase_of runID d) ts"
  by (simp add: run_write_def phase_of_def phase_from_append)

lemma run_idle_write:
  assumes "run_idle runID d" and "run_write runID ts f d d'" and "phase_from (Some Idle) ts = Some Idle"
  shows "run_idle runID d'"
  using assms run_write_phase [OF assms(2)] by (simp add: run_idle_def run_write_def)

lemma run_paired_idle:
  assumes "run_paired runID d" and "sel r_id runID (run_rows d) = Some row"
    and "pending (r_transcript row) \<noteq> None \<or> finished (r_transcript row)"
  shows "run_idle runID d"
  using assms by (auto simp: run_paired_def run_idle_def)

definition turns :: "string \<Rightarrow> db \<Rightarrow> nat" where
  "turns runID d = count_list (own_types runID d) ''model.response''"

lemma count_list_calls: "set ts \<subseteq> set call_events \<Longrightarrow> count_list ts ''model.response'' = 0"
  by (induction ts) (auto simp: call_events_def)

lemma count_list_replicate: "x \<noteq> y \<Longrightarrow> count_list (replicate n x) y = 0"
  by (induction n) auto

lemma run_write_turns: "run_write runID ts f d d' \<Longrightarrow> turns runID d' = turns runID d + count_list ts ''model.response''"
  by (simp add: run_write_def turns_def)

text \<open>What a pass leaves: the invariant, and the number of turns it took.\<close>

fun pass_ok :: "string \<Rightarrow> nat \<Rightarrow> nat \<Rightarrow> db \<Rightarrow> pass \<Rightarrow> bool" where
  "pass_ok runID maxSteps used d (Stop r d') \<longleftrightarrow>
     run_paired runID d' \<and> turns runID d' \<le> turns runID d + (maxSteps - used)
   \<and> (\<forall>run. r = Inr run \<longrightarrow> sel r_id runID (run_rows d') = Some run \<and> r_status run \<in> {''completed'', ''paused''})"
| "pass_ok runID maxSteps used d (Again used' d') \<longleftrightarrow>
     run_idle runID d' \<and> turns runID d' = turns runID d + (used' - used) \<and> used \<le> used'"

lemma pass_ok_stop: "run_paired runID d \<Longrightarrow> pass_ok runID maxSteps used d (Stop (Inl e) d)"
  by simp

lemma dispatch_call_ok:
  assumes ok: "registry_ok (dp_registry (rn_dispatch R))" and idle: "run_idle runID d"
    and row: "sel r_id runID (run_rows d) = Some row"
  shows "pass_ok runID maxSteps used d (dispatch_call L R E n runID used t d)"
proof -
  obtain out d1 where inv: "Invoke L (rn_dispatch R) (en_clock E n 0) (tool_crash (en_crash E n) runID t) runID (tc_id t)
     (tc_operation t) (call_args L t) d = (out, d1)" by (cases "Invoke L (rn_dispatch R) (en_clock E n 0)
       (tool_crash (en_crash E n) runID t) runID (tc_id t) (tc_operation t) (call_args L t) d")
  have i1: "run_idle runID d1 \<and> turns runID d1 = turns runID d"
    using ok inv row
  proof (cases rule: Invoke_run)
    case 1
    then show ?thesis using idle by simp
  next
    case (2 ts row' m tr)
    then show ?thesis
      using idle phase_from_calls [OF 2(2)] count_list_calls [OF 2(2)]
      by (simp add: run_idle_def phase_of_def phase_from_append turns_def)
  qed
  show ?thesis
  proof (cases out)
    case (Inr r)
    then show ?thesis using inv i1 by (simp add: dispatch_call_def)
  next
    case (Inl e)
    obtain x d2 where sv: "commit (SaveStatusGuarded L (rn_fence R) (en_clock E n 1) runID ''failed'' ''error''
                               (dispatch_error t e)) d1 = (x, d2)" by (cases "commit (SaveStatusGuarded L (rn_fence R)
           (en_clock E n 1) runID ''failed'' ''error'' (dispatch_error t e)) d1")
    have "(\<exists>e. x = Inl e \<and> d2 = d1)
        \<or> (\<exists>y. x = Inr y \<and> run_write runID [''error''] (\<lambda>r. r\<lparr>r_status := ''failed''\<rparr>) d1 d2)"
      by (rule run_write_commit [OF sv]) (rule run_write_status)
    then have "run_idle runID d2 \<and> turns runID d2 = turns runID d1"
    proof (elim disjE exE conjE)
      fix y
      assume "run_write runID [''error''] (\<lambda>r. r\<lparr>r_status := ''failed''\<rparr>) d1 d2"
      from run_idle_write [OF conjunct1 [OF i1] this] run_write_turns [OF this] show ?thesis
        by (simp add: phase_from_def)
    qed (use i1 in simp)
    then show ?thesis using Inl inv i1 sv run_idle_paired by (auto simp: dispatch_call_def split: sum.split)
  qed
qed

lemma end_run_ok:
  assumes idle: "run_idle runID d" and row: "sel r_id runID (run_rows d) = Some run" and id: "r_id run = runID"
    and st: "status \<in> {''completed'', ''paused''}" and ev: "typ \<in> {''execution.completed'', ''execution.paused''}"
  shows "pass_ok runID maxSteps used d (end_run L R E n run status typ d)"
proof -
  let ?p = "jmap [(''step'', jint (int (r_step run)))]"
  obtain x d1 where sv: "commit (SaveStatusGuarded L (rn_fence R) (en_clock E n 0) runID status typ ?p) d = (x, d1)"
    by (cases "commit (SaveStatusGuarded L (rn_fence R) (en_clock E n 0) runID status typ ?p) d")
  have "(\<exists>e. x = Inl e \<and> d1 = d)
      \<or> (\<exists>y. x = Inr y \<and> run_write runID [typ] (\<lambda>r. r\<lparr>r_status := status\<rparr>) d d1)"
    by (rule run_write_commit [OF sv]) (rule run_write_status)
  then consider e where "x = Inl e" "d1 = d" | y where "x = Inr y" "run_write runID [typ] (\<lambda>r. r\<lparr>r_status := status\<rparr>) d d1"
    by blast
  then show ?thesis
  proof cases
    case 1
    then show ?thesis using sv id run_idle_paired [OF idle] by (simp add: end_run_def)
  next
    case 2
    have "phase_from (Some Idle) [typ] = Some Idle" using ev by (elim insertE emptyE) (simp_all add: phase_from_def)
    then have "run_idle runID d1" by (rule run_idle_write [OF idle 2(2)])
    moreover have "turns runID d1 = turns runID d" using run_write_turns [OF 2(2)] ev by (elim insertE emptyE) simp_all
    moreover have "sel r_id runID (run_rows d1) = Some (run\<lparr>r_status := status\<rparr>)"
      using 2(2) row by (simp add: run_write_def)
    moreover have "run_paired runID d1" using calculation(1) by (rule run_idle_paired)
    ultimately show ?thesis
      using sv id 2(1) st by (simp add: end_run_def Run_def)
  qed
qed

lemma fail_turn_ok:
  assumes paired: "run_paired runID d1" and asked: "phase_of runID d1 = Some Asked"
    and turns: "turns runID d1 = turns runID d" and "used < maxSteps"
  shows "pass_ok runID maxSteps used d (fail_turn L R E n runID nxt e d1)"
proof -
  let ?w = "FailModelTurnGuarded L (rn_fence R) (en_clock E n 1) runID (message_json L nxt)
     (interruptionPayloads (m_interruptions nxt)) (err_text e)"
  obtain x d2 where sv: "commit ?w d1 = (x, d2)" by (cases "commit ?w d1")
  let ?ts = "replicate (length (interruptionPayloads (m_interruptions nxt))) ''provider.interrupted''
         @ [''model.response'', ''error'']"
  have "(\<exists>e. x = Inl e \<and> d2 = d1) \<or> (\<exists>y. x = Inr y \<and> run_write runID ?ts (\<lambda>r. r\<lparr>r_status := ''failed''\<rparr>) d1 d2)"
    by (rule run_write_commit [OF sv]) (rule run_write_fail)
  then consider e' where "x = Inl e'" "d2 = d1" | y where "x = Inr y"
      "run_write runID ?ts (\<lambda>r. r\<lparr>r_status := ''failed''\<rparr>) d1 d2"
    by blast
  then show ?thesis
  proof cases
    case 1
    then show ?thesis using sv paired turns by (simp add: fail_turn_def)
  next
    case 2
    have "run_idle runID d2"
      using run_write_phase [OF 2(2)] asked phase_from_fail 2(2) paired
      by (simp add: run_idle_def run_paired_def run_write_def)
    moreover have "turns runID d2 = turns runID d + 1"
      using run_write_turns [OF 2(2)] turns by (simp add: count_list_replicate)
    ultimately show ?thesis using sv 2(1) run_idle_paired assms(4) by (simp add: fail_turn_def)
  qed
qed

lemma save_turn_ok:
  assumes paired: "run_paired runID d1" and asked: "phase_of runID d1 = Some Asked"
    and turns: "turns runID d1 = turns runID d" and "used < maxSteps" and id: "r_id run = runID"
  shows "pass_ok runID maxSteps used d (save_turn L R E n run history used nxt d1)"
proof -
  let ?w = "SaveTurnGuarded L (rn_fence R) (en_clock E n 1) runID (Suc (r_step run))
     (history @ [nxt]) (message_json L nxt) (interruptionPayloads (m_interruptions nxt))"
  obtain x d2 where sv: "commit ?w d1 = (x, d2)" by (cases "commit ?w d1")
  let ?ts = "replicate (length (interruptionPayloads (m_interruptions nxt))) ''provider.interrupted''
         @ [''model.response'']"
  let ?f = "\<lambda>r. r\<lparr>r_step := Suc (r_step run), r_transcript := history @ [nxt], r_status := ''running''\<rparr>"
  have "(\<exists>e. x = Inl e \<and> d2 = d1) \<or> (\<exists>y. x = Inr y \<and> run_write runID ?ts ?f d1 d2)"
    by (rule run_write_commit [OF sv]) (rule run_write_turn)
  then consider e' where "x = Inl e'" "d2 = d1" | y where "x = Inr y" "run_write runID ?ts ?f d1 d2"
    by blast
  then show ?thesis
  proof cases
    case 1
    then show ?thesis using sv paired turns id by (simp add: save_turn_def)
  next
    case 2
    have "run_idle runID d2"
      using run_write_phase [OF 2(2)] asked phase_from_turn 2(2) paired
      by (simp add: run_idle_def run_paired_def run_write_def)
    moreover have "turns runID d2 = turns runID d + 1"
      using run_write_turns [OF 2(2)] turns by (simp add: count_list_replicate)
    moreover have "Suc (turns runID d) \<le> turns runID d + maxSteps - used" using assms(4) by linarith
    moreover have "run_paired runID d2" using calculation(1) by (rule run_idle_paired)
    ultimately show ?thesis using sv 2(1) id by (simp add: save_turn_def)
  qed
qed

lemma model_turn_ok:
  assumes paired: "run_paired runID d" and row: "sel r_id runID (run_rows d) = Some run" and id: "r_id run = runID"
    and quiet: "pending (r_transcript run) = None" "\<not> finished (r_transcript run)" and left: "used < maxSteps"
  shows "pass_ok runID maxSteps used d (model_turn L R E n run history used d)"
proof (cases "Exposed L (r_id run) (mf_operations (rn_manifest R)) d")
  case (Inl e)
  then show ?thesis using paired by (simp add: model_turn_def)
next
  case (Inr ops)
  let ?w = "startModelCall L (rn_fence R) (en_clock E n 0) (r_id run) (model_request L run history ops)"
  obtain x d1 where sv: "commit ?w d = (x, d1)" by (cases "commit ?w d")
  have "d1 = d \<and> (\<exists>e. x = Inl e) \<or> (\<exists>u. x = Inr u \<and> run_paired runID d1 \<and> phase_of runID d1 = Some Asked
      \<and> turns runID d1 = turns runID d)"
  proof (cases x)
    case (Inl e)
    then show ?thesis using sv commit_Inl [of ?w d e] by simp
  next
    case (Inr u)
    then have w: "startModelCall L (rn_fence R) (en_clock E n 0) runID (model_request L run history ops) d = Inr (u, d1)"
      using sv id by (simp add: commit_ok_iff)
    have inv: "ledger_inv d" using paired by (simp add: run_paired_def)
    obtain p where p: "phase_of runID d = Some p" "p = Idle \<or> p = Asked" using paired by (auto simp: run_paired_def)
    have asked: "p = Asked \<longleftrightarrow> (\<exists>e. LastEvent runID d = Inr e \<and> e_type e = ''model.request'')"
      using phase_from_last [OF p(1) [unfolded phase_of_def]] LastEvent_type [OF inv] by simp
    from startModelCall_write [OF w] show ?thesis
    proof (elim disjE conjE)
      assume "d1 = d" and "\<exists>e. LastEvent runID d = Inr e \<and> e_type e = ''model.request''"
      then show ?thesis using Inr paired p asked by simp
    next
      assume rw: "run_write runID [''model.request''] (\<lambda>r. r) d d1"
        and "\<not> (\<exists>e. LastEvent runID d = Inr e \<and> e_type e = ''model.request'')"
      then have "p = Idle" using asked p(2) by blast
      then have "phase_of runID d1 = Some Asked" using run_write_phase [OF rw] p(1) by (simp add: phase_from_def)
      moreover have "sel r_id runID (run_rows d1) = Some run" using rw row by (simp add: run_write_def)
      moreover have "ledger_inv d1" using rw inv by (simp add: run_write_def)
      ultimately show ?thesis
        using Inr quiet run_write_turns [OF rw] by (simp add: run_paired_def)
    qed
  qed
  then show ?thesis
  proof (elim disjE conjE exE)
    fix e
    assume "d1 = d" "x = Inl e"
    then show ?thesis using Inr sv paired by (simp add: model_turn_def)
  next
    fix u
    assume x: "x = Inr u" and p1: "run_paired runID d1" "phase_of runID d1 = Some Asked" "turns runID d1 = turns runID d"
    have f: "pass_ok runID maxSteps used d (fail_turn L R E n (r_id run) nxt e d1)" for nxt e
      unfolding id by (rule fail_turn_ok [OF p1 left])
    have s: "pass_ok runID maxSteps used d (save_turn L R E n run history used nxt d1)" for nxt
      by (rule save_turn_ok [OF p1 left id])
    show ?thesis
      using Inr sv x f s p1 paired by (simp add: model_turn_def split: prod.split option.split)
  qed
qed

lemma execute_pass_ok:
  assumes ok: "registry_ok (dp_registry (rn_dispatch R))" and paired: "run_paired runID d"
    and left: "run_idle runID d \<or> used < maxSteps"
  shows "pass_ok runID maxSteps used d (execute_pass L R E runID maxSteps n used d)"
proof (cases "Run runID d")
  case (Inl e)
  then show ?thesis using paired by (simp add: execute_pass_def)
next
  case (Inr run)
  note row = conjunct1 [OF Run_Inr [OF Inr]] and id = conjunct2 [OF Run_Inr [OF Inr]]
  show ?thesis
  proof (cases "r_status run = ''completed''")
    case True
    then show ?thesis using Inr paired row by (simp add: execute_pass_def)
  next
    case st: False
    show ?thesis
    proof (cases "read_transcript L (r_transcript run)")
      case (Inl e)
      then show ?thesis using Inr st paired by (simp add: execute_pass_def)
    next
      case h: (Inr history)
      note hist = read_transcript_Inr [OF h]
      have pend: "pending history = None \<longleftrightarrow> pending (r_transcript run) = None"
        and fin: "finished history = finished (r_transcript run)"
        unfolding hist by (rule pending_map, simp) (rule finished_map, simp)
      show ?thesis
      proof (cases "pending history")
        case (Some t)
        then have idle: "run_idle runID d" using run_paired_idle [OF paired row] pend by auto
        show ?thesis using dispatch_call_ok [OF ok idle row] Inr st h Some by (simp add: execute_pass_def)
      next
        case None
        consider "finished history" | "\<not> finished history" "used \<ge> maxSteps" | "\<not> finished history" "used < maxSteps"
          by linarith
        then show ?thesis
        proof cases
          case 1
          then have "run_idle runID d" using run_paired_idle [OF paired row] fin by auto
          from end_run_ok [OF this row id, of "''completed''" "''execution.completed''"]
          show ?thesis using Inr st h None 1 paired by (auto simp: execute_pass_def)
        next
          case 2
          then have "run_idle runID d" using left by simp
          from end_run_ok [OF this row id, of "''paused''" "''execution.paused''"]
          show ?thesis using Inr st h None 2 by (simp add: execute_pass_def)
        next
          case 3
          have "pass_ok runID maxSteps used d (model_turn L R E n run history used d)"
            using model_turn_ok [OF paired row id] None pend 3 fin by simp
          then show ?thesis using Inr st h None 3 by (simp add: execute_pass_def)
        qed
      qed
    qed
  qed
qed

section \<open>The loop\<close>

lemma execute_loop_terminates:
  assumes ok: "registry_ok (dp_registry (rn_dispatch R))" and "results_seen runID d"
  shows "\<exists>fuel r d'. execute_loop L R E runID maxSteps fuel n used d = Some (r, d')"
  using assms(2)
proof (induction "(maxSteps - used, open_count runID d)" arbitrary: n used d
    rule: wf_induct_rule [OF wf_lex_prod [OF wf_less_than wf_less_than]])
  case (1 used d n)
  show ?case
  proof (cases "execute_pass L R E runID maxSteps n used d")
    case (Stop r d')
    then have "execute_loop L R E runID maxSteps (Suc 0) n used d = Some (r, d')" by simp
    then show ?thesis by blast
  next
    case (Again used' d')
    from execute_pass_measure [OF ok "1.prems" Again]
    have seen: "results_seen runID d'"
      and less: "((maxSteps - used', open_count runID d'), (maxSteps - used, open_count runID d)) \<in> less_than <*lex*> less_than"
      by auto
    from "1.hyps" [OF less seen] obtain fuel r d'' where
      "execute_loop L R E runID maxSteps fuel (Suc n) used' d' = Some (r, d'')" by blast
    then have "execute_loop L R E runID maxSteps (Suc fuel) n used d = Some (r, d'')" using Again by simp
    then show ?thesis by blast
  qed
qed

lemma execute_loop_more_fuel:
  "execute_loop L R E runID maxSteps fuel n used d = Some x \<Longrightarrow> fuel \<le> fuel' \<Longrightarrow>
   execute_loop L R E runID maxSteps fuel' n used d = Some x"
proof (induction fuel arbitrary: fuel' n used d)
  case (Suc fuel)
  then obtain f' where "fuel' = Suc f'" "fuel \<le> f'" by (cases fuel') auto
  then show ?case using Suc by (auto split: pass.splits)
qed simp

lemma execute_pass_used:
  assumes "execute_pass L R E runID maxSteps n used d = Again used' d'"
  shows "used' = used \<or> used' = Suc used \<and> used < maxSteps"
  using assms
proof (cases rule: execute_pass_Again)
  case (call run t)
  then show ?thesis using dispatch_call_Again [OF call(3)] by simp
next
  case (turn run)
  from turn(7) show ?thesis by (rule model_turn_Again) (use turn(6) in simp)
qed

lemma execute_loop_ok:
  assumes ok: "registry_ok (dp_registry (rn_dispatch R))" and "run_paired runID d"
    and "run_idle runID d \<or> used < maxSteps"
    and "execute_loop L R E runID maxSteps fuel n used d = Some (r, d')"
  shows "run_paired runID d' \<and> turns runID d' \<le> turns runID d + (maxSteps - used)
    \<and> (\<forall>run. r = Inr run \<longrightarrow> sel r_id runID (run_rows d') = Some run \<and> r_status run \<in> {''completed'', ''paused''})"
  using assms(2-4)
proof (induction fuel arbitrary: n used d)
  case (Suc fuel)
  note pass = execute_pass_ok [OF ok Suc.prems(1,2)]
  show ?case
  proof (cases "execute_pass L R E runID maxSteps n used d")
    case (Stop r1 d1)
    then show ?thesis using Suc.prems(3) pass [of L E n] by simp
  next
    case (Again used' d1)
    then have p: "run_idle runID d1" "turns runID d1 = turns runID d + (used' - used)" "used \<le> used'"
      using pass [of L E n] by simp_all
    have u: "used' = used \<or> used' = Suc used \<and> used < maxSteps"
      by (rule execute_pass_used [OF Again])
    have "execute_loop L R E runID maxSteps fuel (Suc n) used' d1 = Some (r, d')"
      using Again Suc.prems(3) by simp
    from Suc.IH [OF run_idle_paired [OF p(1)] disjI1 [OF p(1)] this] p(2) u show ?thesis by auto
  qed
qed simp

section \<open>Properties\<close>

lemma Execute_ends:
  assumes "dp_registry (rn_dispatch R) = builtin L" and "results_seen runID d"
  shows "\<exists>fuel r d'. \<forall>more \<ge> fuel. Execute L R E runID maxSteps more d = Some (r, d')"
proof (cases "maxSteps < 1 \<or> E = None")
  case True
  then obtain r where "\<forall>more. Execute L R E runID maxSteps more d = Some (r, d)"
    by (cases "maxSteps < 1") (auto simp: Execute_def)
  then show ?thesis by (intro exI [of _ 0] exI [of _ r] exI [of _ d]) simp
next
  case False
  then obtain F where F: "E = Some F" by auto
  have "registry_ok (dp_registry (rn_dispatch R))" using registry_ok_builtin [of L] assms(1) by simp
  from execute_loop_terminates [OF this assms(2)] obtain fuel r d' where
    "execute_loop L R F runID (nat maxSteps) fuel 0 0 d = Some (r, d')" by blast
  from execute_loop_more_fuel [OF this] show ?thesis using False F by (auto simp: Execute_def)
qed


text \<open>
  C30. A run's ledger pairs model requests with responses through every crash. Whatever the
  provider answers, wherever the process dies and however often the run is resumed, the
  events of the run stay a sequence of requests, each followed only by its interrupted
  attempts and its response; at most the last request is unanswered, and then it is the last
  event, so a resumed run asks it again instead of asking twice.
\<close>

theorem requests_paired_with_responses:
  assumes "dp_registry (rn_dispatch R) = builtin L" and "run_paired runID d"
    and "Execute L R E runID maxSteps fuel d = Some (r, d')"
  shows "run_paired runID d'
    \<and> count_list (own_types runID d') ''model.request'' =
        count_list (own_types runID d') ''model.response''
        + (if own_types runID d' \<noteq> [] \<and> last (own_types runID d') = ''model.request'' then 1 else 0)"
proof -
  have ok: "registry_ok (dp_registry (rn_dispatch R))" using registry_ok_builtin [of L] assms(1) by simp
  have paired: "run_paired runID d'"
  proof (cases "maxSteps < 1 \<or> E = None")
    case True
    then show ?thesis using assms(2,3) by (auto simp: Execute_def split: if_splits option.splits)
  next
    case False
    then obtain F where F: "E = Some F" "execute_loop L R F runID (nat maxSteps) fuel 0 0 d = Some (r, d')"
      using assms(3) by (auto simp: Execute_def)
    then show ?thesis using execute_loop_ok [OF ok assms(2) _ F(2)] False by auto
  qed
  then obtain p where p: "phase_of runID d' = Some p" "p = Idle \<or> p = Asked" by (auto simp: run_paired_def)
  note facts = phase_from_counts [OF p(1) [unfolded phase_of_def]] phase_from_last [OF p(1) [unfolded phase_of_def]]
  from p(2) show ?thesis
  proof
    assume "p = Idle"
    then show ?thesis using paired facts by simp
  next
    assume "p = Asked"
    then show ?thesis using paired facts by simp
  qed
qed

text \<open>
  A step budget is a budget. One call of \<open>Execute\<close> records at most \<open>maxSteps\<close> model
  responses, and when it returns a run, that is the stored run, completed or paused.
\<close>

theorem step_budget_respected:
  assumes "dp_registry (rn_dispatch R) = builtin L" and "run_paired runID d"
    and "Execute L R E runID maxSteps fuel d = Some (r, d')"
  shows "turns runID d' \<le> turns runID d + nat maxSteps
    \<and> (\<forall>run. r = Inr run \<longrightarrow> sel r_id runID (run_rows d') = Some run \<and> r_status run \<in> {''completed'', ''paused''})"
proof -
  have ok: "registry_ok (dp_registry (rn_dispatch R))" using registry_ok_builtin [of L] assms(1) by simp
  show ?thesis
  proof (cases "maxSteps < 1 \<or> E = None")
    case True
    then show ?thesis using assms(3) by (auto simp: Execute_def split: if_splits option.splits)
  next
    case False
    then obtain F where F: "E = Some F" "execute_loop L R F runID (nat maxSteps) fuel 0 0 d = Some (r, d')"
      using assms(3) by (auto simp: Execute_def)
    then show ?thesis using execute_loop_ok [OF ok assms(2) _ F(2)] False by auto
  qed
qed

section \<open>Witnesses\<close>

definition sample_runner :: runner where
  "sample_runner = \<lparr>rn_dispatch = sample_dispatcher, rn_manifest = dp_manifest sample_dispatcher,
     rn_fence = Some (sample_fence ''a'' 1)\<rparr>"

definition sample_answer :: message where
  "sample_answer = \<lparr>m_role = ''assistant'', m_content = JStr ''done'', m_tool_calls = [], m_call_id = [],
     m_operation = [], m_status = 0, m_meta = [], m_interruptions = []\<rparr>"

definition sample_env :: env where
  "sample_env = \<lparr>en_provider = (\<lambda>_ _ _ _ _. (sample_answer, None)), en_sleep = (\<lambda>_ _ _. None),
     en_clock = (\<lambda>_ _. 5), en_crash = (\<lambda>_. None)\<rparr>"

lemma sample_registry: "dp_registry (rn_dispatch sample_runner) = builtin sample_full"
  by (simp add: sample_runner_def sample_dispatcher_def)

lemma sample_seen: "results_seen ''R'' leased_db"
  by (simp add: results_seen_def sample_defs)

lemma sample_paired: "run_paired ''R'' leased_db"
  by (simp add: run_paired_def phase_of_def phase_from_def own_types_def ledger_inv_def contiguous_def sample_defs)

lemma sample_execution:
  "\<exists>fuel r d'. Execute sample_full sample_runner (Some sample_env) ''R'' 3 fuel leased_db = Some (r, d')"
  using execute_loop_terminates [OF _ sample_seen, of sample_runner] registry_ok_builtin [of sample_full]
  by (simp add: Execute_def sample_registry)


theorem requests_paired_with_responses_witness:
  "\<exists>fuel r d'. Execute sample_full sample_runner (Some sample_env) ''R'' 3 fuel leased_db = Some (r, d')
     \<and> run_paired ''R'' d'"
proof -
  obtain fuel r d' where e: "Execute sample_full sample_runner (Some sample_env) ''R'' 3 fuel leased_db = Some (r, d')"
    using sample_execution by (elim exE) (rule that)
  from requests_paired_with_responses [OF sample_registry sample_paired e] have "run_paired ''R'' d'" by (rule conjunct1)
  with e show ?thesis by (intro exI conjI)
qed

theorem step_budget_respected_witness:
  "\<exists>fuel r d'. Execute sample_full sample_runner (Some sample_env) ''R'' 3 fuel leased_db = Some (r, d')
     \<and> turns ''R'' d' \<le> 3"
proof -
  obtain fuel r d' where e: "Execute sample_full sample_runner (Some sample_env) ''R'' 3 fuel leased_db = Some (r, d')"
    using sample_execution by (elim exE) (rule that)
  have "turns ''R'' leased_db = 0" by (simp add: turns_def own_types_def sample_defs)
  with step_budget_respected [OF sample_registry sample_paired e] have "turns ''R'' d' \<le> 3" by simp
  with e show ?thesis by (intro exI conjI)
qed

end
