(* ===== verification/Worker.thy ===== *)
theory Worker
  imports Fleet Execution
begin

text \<open>
  The worker runtime (\<open>internal/worker/worker.go\<close>, \<open>local.go\<close>): the configuration, one claim
  from the poll to the closing write, the renewal loop beside it, and the same lease around
  a command run locally. A claim goes on while other workers commit, so what happens beside
  it is a parameter: the databases the poll sees, what commits before each renewal and after
  the last one, the status and error the execution returned, and the readings of the clock.
  Logging, durations and the trace export do not touch the store and are left out.
\<close>

section \<open>Configuration\<close>

record config =
  cf_id :: string
  cf_host :: string
  cf_lease_ttl :: int
  cf_renew_every :: int
  cf_poll :: int
  cf_backoff :: int
  cf_max_attempts :: int

definition DefaultLeaseTTL :: int where "DefaultLeaseTTL = 30 * second"
definition DefaultPollInterval :: int where "DefaultPollInterval = second"
definition DefaultBackoff :: int where "DefaultBackoff = 5 * second"
definition DefaultMaxAttempts :: int where "DefaultMaxAttempts = 3"
definition minRenewEvery :: int where "minRenewEvery = 100 * millisecond"
definition IdleHeartbeatEvery :: int where "IdleHeartbeatEvery = 60 * second"
definition DefaultLocalLeaseTTL :: int where "DefaultLocalLeaseTTL = 15 * second"

lemmas worker_constants = DefaultLeaseTTL_def DefaultPollInterval_def DefaultBackoff_def DefaultMaxAttempts_def
  minRenewEvery_def IdleHeartbeatEvery_def DefaultLocalLeaseTTL_def millisecond_def second_def

text \<open>A duration that is divided is positive here, so truncation is \<open>div\<close>.\<close>

definition default_renewal :: "int \<Rightarrow> int" where
  "default_renewal ttl =
     (if ttl div 3 < minRenewEvery \<and> minRenewEvery \<le> ttl div 2 then minRenewEvery else ttl div 3)"

text \<open>\<open>hostname\<close> is empty when the system has none to give.\<close>

definition withDefaults :: "string \<Rightarrow> int \<Rightarrow> config \<Rightarrow> config" where
  "withDefaults hostname pid c =
     (let ttl = (if cf_lease_ttl c \<le> 0 then DefaultLeaseTTL else cf_lease_ttl c) in
      \<lparr>cf_id = (if cf_id c = [] then (if hostname = [] then ''unknown'' else hostname) @ ''-'' @ show_int pid else cf_id c),
       cf_host = (if cf_host c = [] then hostname else cf_host c),
       cf_lease_ttl = ttl,
       cf_renew_every = (if cf_renew_every c \<le> 0 then default_renewal ttl else cf_renew_every c),
       cf_poll = (if cf_poll c \<le> 0 then DefaultPollInterval else cf_poll c),
       cf_backoff = (if cf_backoff c \<le> 0 then DefaultBackoff else cf_backoff c),
       cf_max_attempts = (if cf_max_attempts c \<le> 0 then DefaultMaxAttempts else cf_max_attempts c)\<rparr>)"

definition Validate :: "string \<Rightarrow> int \<Rightarrow> config \<Rightarrow> unit res" where
  "Validate hostname pid c =
     (let c' = withDefaults hostname pid c in
      if cf_renew_every c' \<ge> cf_lease_ttl c' then Inl (Err ''renew interval must be shorter than the lease TTL'')
      else Inr ())"

section \<open>Renewal\<close>

text \<open>
  One tick of the renewal loop: what the others committed before it, whether the store could
  not be reached, and two readings of the clock, for the renewal and after it failed.
\<close>

record tick =
  tk_others :: "db \<Rightarrow> db"
  tk_fault :: "string option"
  tk_now :: instant
  tk_after :: instant

text \<open>\<open>Inl\<close>: the lease is given up, and why. \<open>Inr\<close>: the loop goes on with this lease.\<close>

definition give_up :: "run_lease \<Rightarrow> instant \<Rightarrow> err \<Rightarrow> run_lease res" where
  "give_up lease now e = (if \<not> now < rl_expires lease then Inl e else Inr lease)"

definition renew_tick :: "config \<Rightarrow> tick \<Rightarrow> run_lease \<Rightarrow> db \<Rightarrow> run_lease res \<times> db" where
  "renew_tick c t lease d =
     (case tk_fault t of
        Some s \<Rightarrow> (give_up lease (tk_after t) (Err s), d)
      | None \<Rightarrow>
          (case RenewRunLease lease (cf_lease_ttl c) (tk_now t) d of
             Inl e \<Rightarrow> (if e = ErrFenced then Inl e else give_up lease (tk_after t) e, d)
           | Inr (renewed, d1) \<Rightarrow> (Inr renewed, snd (commit (TouchWorker (cf_id c) (tk_after t)) d1))))"

text \<open>The ticks until the execution's context ends: the reason the lease was lost, if it was.\<close>

fun renew :: "config \<Rightarrow> tick list \<Rightarrow> run_lease \<Rightarrow> db \<Rightarrow> err option \<times> db" where
  "renew c [] lease d = (None, d)"
| "renew c (t # ts) lease d =
     (case renew_tick c t lease (tk_others t d) of
        (Inl e, d1) \<Rightarrow> (Some e, d1)
      | (Inr lease', d1) \<Rightarrow> renew c ts lease' d1)"

section \<open>One claim\<close>

datatype disposition = Finished | Requeued | Failed_run | Fenced

fun disposition_name :: "disposition \<Rightarrow> string" where
  "disposition_name Finished = ''finished''"
| "disposition_name Requeued = ''requeued''"
| "disposition_name Failed_run = ''failed''"
| "disposition_name Fenced = ''fenced''"

record claim_outcome =
  oc_worker :: string
  oc_run :: string
  oc_fence :: int
  oc_attempt :: int
  oc_disposition :: disposition
  oc_status :: string
  oc_takeover :: bool
  oc_err :: string

text \<open>
  How \<open>ClaimAndRun\<close> ends: nothing was claimed, the claim ended in a disposition and was
  observed, or its closing write failed and it was not.
\<close>

datatype claim_end = Idle err | Observed claim_outcome | Unsettled claim_outcome err

record surroundings =
  su_execute :: "run_lease \<Rightarrow> queue_entry \<Rightarrow> string \<times> err option"
  su_ticks :: "tick list"
  su_rest :: "db \<Rightarrow> db"
  su_stopped :: bool
  su_fault :: "string option"
  su_clock :: "nat \<Rightarrow> instant"

text \<open>A closing write; \<open>su_fault\<close> is the error of a store that cannot be reached.\<close>

definition closing :: "surroundings \<Rightarrow> 'a tx \<Rightarrow> db \<Rightarrow> 'a res \<times> db" where
  "closing S body d = (case su_fault S of Some s \<Rightarrow> (Inl (Err s), d) | None \<Rightarrow> commit body d)"

definition canceled :: "err \<Rightarrow> bool" where
  "canceled e \<longleftrightarrow> e = Err ''context canceled'' \<or> e = Err ''context deadline exceeded''"

definition start_outcome :: "config \<Rightarrow> run_lease \<Rightarrow> queue_entry \<Rightarrow> claim_outcome" where
  "start_outcome c lease entry =
     \<lparr>oc_worker = cf_id c, oc_run = rl_run lease, oc_fence = rl_token lease, oc_attempt = qe_attempts entry,
      oc_disposition = Finished, oc_status = [], oc_takeover = qe_takeover entry, oc_err = []\<rparr>"

definition note_rejection :: "run_lease \<Rightarrow> instant \<Rightarrow> string \<Rightarrow> db \<Rightarrow> db" where
  "note_rejection lease now reason d = snd (commit (RecordFenceRejection (Fence lease) now reason) d)"

definition unsettled :: "run_lease \<Rightarrow> instant \<Rightarrow> claim_outcome \<Rightarrow> err \<Rightarrow> db \<Rightarrow> claim_end \<times> db" where
  "unsettled lease now out cause d =
     (if cause \<noteq> ErrFenced then (Unsettled out cause, d)
      else (Observed (out\<lparr>oc_disposition := Fenced, oc_err := err_text cause\<rparr>),
            note_rejection lease now (err_text cause) d))"

text \<open>A closing write, and what its failure makes of the claim.\<close>

definition settle :: "surroundings \<Rightarrow> run_lease \<Rightarrow> instant \<Rightarrow> claim_outcome \<Rightarrow> unit tx \<Rightarrow> db \<Rightarrow> claim_end \<times> db" where
  "settle S lease now out body d =
     (case closing S body d of
        (Inl e, d1) \<Rightarrow> unsettled lease now out e d1
      | (Inr _, d1) \<Rightarrow> (Observed out, d1))"

definition settleOverDelivered ::
    "'x golib_scheme \<Rightarrow> config \<Rightarrow> surroundings \<Rightarrow> run_lease \<Rightarrow> queue_entry \<Rightarrow> claim_outcome \<Rightarrow> db \<Rightarrow> claim_end \<times> db" where
  "settleOverDelivered L c S lease entry out d =
     (case Run (rl_run lease) d of
        Inl e \<Rightarrow> (Unsettled out e, d)
      | Inr run \<Rightarrow>
          let out1 = out\<lparr>oc_status := r_status run\<rparr> in
          if r_status run = ''completed''
          then settle S lease (su_clock S 2) (out1\<lparr>oc_disposition := Finished\<rparr>) (FinishRun lease (su_clock S 1)) d
          else let out2 = out1\<lparr>oc_disposition := Failed_run,
                 oc_err := DeliveryLimitReason (qe_attempts entry) (cf_max_attempts c)\<rparr> in
            (case closing S (FailRunAtDeliveryLimit L lease (su_clock S 1) (qe_attempts entry) (cf_max_attempts c)) d of
               (Inl e, d1) \<Rightarrow> unsettled lease (su_clock S 2) out2 e d1
             | (Inr _, d1) \<Rightarrow> (Observed (out2\<lparr>oc_status := ''failed''\<rparr>), d1)))"

text \<open>The end of an executed claim: \<open>loss\<close> is why the lease was given up, if it was.\<close>

definition end_claim ::
    "config \<Rightarrow> surroundings \<Rightarrow> run_lease \<Rightarrow> queue_entry \<Rightarrow> err option \<Rightarrow> string \<Rightarrow> err option \<Rightarrow> db \<Rightarrow> claim_end \<times> db" where
  "end_claim c S lease entry loss status execErr d =
     (let out = (start_outcome c lease entry)\<lparr>oc_status := status\<rparr>; now = su_clock S in
      if execErr = Some ErrFenced \<or> loss \<noteq> None then
        let reason = (case loss of Some e \<Rightarrow> err_text e | None \<Rightarrow> err_text (the execErr));
            d1 = (if loss = Some ErrFenced \<or> execErr = Some ErrFenced
                  then note_rejection lease (now 1) reason d else d)
        in (Observed (out\<lparr>oc_disposition := Fenced, oc_err := reason\<rparr>), d1)
      else case execErr of
        Some e \<Rightarrow>
          if su_stopped S \<and> canceled e then
            let reason = ''worker stopped; the run was returned to the queue'' in
            (case closing S (ReleaseClaim lease (now 1) reason) d of
               (Inl e', d1) \<Rightarrow>
                 (Observed (out\<lparr>oc_disposition := Requeued,
                    oc_err := ''worker stopped; releasing the claim failed, so its lease lapses on its own''\<rparr>), d1)
             | (Inr _, d1) \<Rightarrow> (Observed (out\<lparr>oc_disposition := Requeued, oc_err := reason\<rparr>), d1))
          else if qe_attempts entry \<ge> cf_max_attempts c
          then (case closing S (FailRun lease (now 1) (err_text e)) d of
              (Inl e', d1) \<Rightarrow> unsettled lease (now 2) (out\<lparr>oc_disposition := Failed_run\<rparr>) e' d1
            | (Inr _, d1) \<Rightarrow> (Observed (out\<lparr>oc_disposition := Failed_run, oc_err := err_text e\<rparr>), d1))
          else (case closing S (RequeueRun lease (now 2) (now 1 + cf_backoff c) (err_text e)) d of
              (Inl e', d1) \<Rightarrow> unsettled lease (now 3) (out\<lparr>oc_disposition := Requeued\<rparr>) e' d1
            | (Inr _, d1) \<Rightarrow> (Observed (out\<lparr>oc_disposition := Requeued, oc_err := err_text e\<rparr>), d1))
      | None \<Rightarrow> settle S lease (now 2) (out\<lparr>oc_disposition := Finished\<rparr>) (FinishRun lease (now 1)) d)"

text \<open>\<open>heartbeat\<close> is when an idle poll last refreshed the worker's row, zero if never.\<close>

definition idleHeartbeat :: "config \<Rightarrow> instant \<Rightarrow> instant \<Rightarrow> db \<Rightarrow> instant \<times> db" where
  "idleHeartbeat c heartbeat now d =
     (if heartbeat \<noteq> 0 \<and> now - heartbeat < IdleHeartbeatEvery then (heartbeat, d)
      else case commit (TouchWorker (cf_id c) now) d of
        (Inl e, d1) \<Rightarrow> (heartbeat, d1)
      | (Inr _, d1) \<Rightarrow> (now, d1))"

text \<open>\<open>config_err\<close> is the verdict of \<open>Validate\<close> when the worker was built.\<close>

definition ClaimAndRun ::
    "'x golib_scheme \<Rightarrow> config \<Rightarrow> unit res \<Rightarrow> surroundings \<Rightarrow> instant \<Rightarrow> (nat \<Rightarrow> db) \<Rightarrow> claim_end \<times> instant \<times> db" where
  "ClaimAndRun L c config_err S heartbeat ds =
     (case config_err of Inl e \<Rightarrow> (Idle e, heartbeat, ds 0)
      | Inr _ \<Rightarrow>
          (case ClaimRun (cf_id c) (cf_lease_ttl c) (su_clock S 0) ds of
             (Inl e, d1) \<Rightarrow>
               (Idle e, if e = ErrNoWork then idleHeartbeat c heartbeat (su_clock S 0) d1 else (heartbeat, d1))
           | (Inr (lease, entry), d1) \<Rightarrow>
               if qe_attempts entry > cf_max_attempts c
               then (case settleOverDelivered L c S lease entry (start_outcome c lease entry) d1 of
                   (r, d2) \<Rightarrow> (r, heartbeat, d2))
               else (case renew c (su_ticks S) lease d1 of
                   (loss, d2) \<Rightarrow>
                     (case su_execute S lease entry of
                        (status, execErr) \<Rightarrow>
                          (case end_claim c S lease entry loss status execErr (su_rest S d2) of
                             (r, d3) \<Rightarrow> (r, heartbeat, d3))))))"

section \<open>A command run locally\<close>

text \<open>
  \<open>ExecuteLocal\<close>: an error is the list of errors it wraps, none for success; \<open>NotReleased\<close>
  is the marker for work that is durable but whose lease was left to lapse.
\<close>

datatype local_error = Wrapped err | NotReleased

definition local_outcome :: "err option \<Rightarrow> err option \<Rightarrow> local_error list" where
  "local_outcome loss fnErr =
     (case loss of
        Some cause \<Rightarrow>
          if cause \<noteq> ErrFenced then [Wrapped ErrFenced, Wrapped cause]
          else (case fnErr of
              Some e \<Rightarrow> if e = ErrFenced then [Wrapped ErrFenced] else [Wrapped ErrFenced, Wrapped e]
            | None \<Rightarrow> [Wrapped ErrFenced])
      | None \<Rightarrow> (case fnErr of Some e \<Rightarrow> [Wrapped e] | None \<Rightarrow> []))"

definition local_release :: "err option \<Rightarrow> local_error list \<Rightarrow> local_error list" where
  "local_release releaseErr out =
     (case releaseErr of None \<Rightarrow> out
      | Some e \<Rightarrow> if out \<noteq> [] then out @ [Wrapped e] else [NotReleased, Wrapped e])"

definition ExecuteLocal ::
    "string \<Rightarrow> int \<Rightarrow> string \<Rightarrow> config \<Rightarrow> (fence \<Rightarrow> string \<times> err option) \<Rightarrow> surroundings \<Rightarrow> db \<Rightarrow> (string \<times> local_error list) \<times> db" where
  "ExecuteLocal hostname pid runID c0 fn S d =
     (let c1 = c0\<lparr>cf_id := (if cf_id c0 = [] then ''local-'' @ (if hostname = [] then ''unknown'' else hostname)
                                @ ''-'' @ show_int pid else cf_id c0),
                  cf_lease_ttl := (if cf_lease_ttl c0 \<le> 0 then DefaultLocalLeaseTTL else cf_lease_ttl c0)\<rparr>;
          c = withDefaults hostname pid c1
      in case Validate hostname pid c of Inl e \<Rightarrow> (([], [Wrapped e]), d)
      | Inr _ \<Rightarrow>
          (case commit (AcquireRunLease runID (cf_id c) (cf_lease_ttl c) (su_clock S 0)) d of
             (Inl e, d1) \<Rightarrow> (([], [Wrapped e]), d1)
           | (Inr lease, d1) \<Rightarrow>
               (case renew c (su_ticks S) lease d1 of
                  (loss, d2) \<Rightarrow>
                    (case fn (Fence lease) of
                       (status, fnErr) \<Rightarrow>
                         (case closing S (ReleaseRunLease lease (su_clock S 1)) (su_rest S d2) of
                            (released, d3) \<Rightarrow>
                              let releaseErr = (case released of Inr _ \<Rightarrow> None
                                    | Inl e \<Rightarrow> if e = ErrFenced then None else Some e)
                              in ((status, local_release releaseErr (local_outcome loss fnErr)), d3))))))"

section \<open>What a claim leaves behind\<close>

lemma upd_keys: "(\<And>x. k (f x) = k x) \<Longrightarrow> map k (upd p f t) = map k t"
  by (auto simp: upd_def)

text \<open>
  A closing write that put the run's entry in \<open>state\<close>: the entry has that state, no entry
  was added or removed, and the lease is free.
\<close>

definition closed_as :: "queue_state \<Rightarrow> run_lease \<Rightarrow> db \<Rightarrow> db \<Rightarrow> bool" where
  "closed_as state lease d d' \<longleftrightarrow>
     map q_run (queue d') = map q_run (queue d)
     \<and> (\<forall>q \<in> set (queue d'). q_run q = rl_run lease \<longrightarrow> q_state q = state)
     \<and> (\<exists>r. lease_of d' (rl_run lease) = Some r \<and> l_owner r = [] \<and> l_fence r = rl_token lease)"

lemma completeQueueEntry_closed:
  assumes "completeQueueEntry lease now state kind reason av d = Inr ((), d')"
  shows "closed_as state lease d d'"
  using completeQueueEntry_lease(1,2) [OF assms] by (auto simp: closed_as_def upd_keys) (auto simp: upd_def)

lemma completeQueueEntryTx_closed:
  assumes g: "GuardFenceTx (Fence lease) now d = Inr ((), d1)" and q: "queue d2 = queue d1" and l: "leases d2 = leases d1"
    and c: "completeQueueEntryTx lease now state kind reason av d2 = Inr ((), d')"
  shows "closed_as state lease d d'"
proof -
  obtain x where x: "completeQueueEntryTx lease now state kind reason av d1 = Inr ((), x)"
    by (simp add: completeQueueEntryTx_eq appendOwnershipTx_eq)
  with g have "completeQueueEntry lease now state kind reason av d = Inr ((), x)" by (simp add: completeQueueEntry_def)
  then have "closed_as state lease d x" by (rule completeQueueEntry_closed)
  moreover have "queue d' = queue x" "leases d' = leases x"
    using c x q l by (auto simp: completeQueueEntryTx_eq appendOwnershipTx_eq)
  ultimately show ?thesis by (simp add: closed_as_def lease_of_def)
qed

lemma ReleaseClaim_closed:
  assumes "ReleaseClaim lease now reason d = Inr ((), d')"
  shows "closed_as QueueRunnable lease d d'"
proof -
  from assms obtain d1 d2 where g: "GuardFenceTx (Fence lease) now d = Inr ((), d1)"
      and c: "completeQueueEntryTx lease now QueueRunnable OwnershipReleased reason now d1 = Inr ((), d2)"
      and d': "d' = map_queue (upd (\<lambda>q. q_run q = rl_run lease)
                (\<lambda>q. q\<lparr>q_attempts := (if q_attempts q > 0 then q_attempts q - 1 else 0)\<rparr>)) d2"
    by (auto simp: ReleaseClaim_def)
  have "closed_as QueueRunnable lease d d2" by (rule completeQueueEntryTx_closed [OF g refl refl c])
  then show ?thesis unfolding d' by (auto simp: closed_as_def lease_of_def upd_keys) (auto simp: upd_def)
qed

lemma FailRunAtDeliveryLimit_closed:
  assumes "FailRunAtDeliveryLimit L lease now n m d = Inr ((), d')"
  shows "closed_as QueueFailed lease d d'"
proof -
  from assms obtain d1 d2 payload where g: "GuardFenceTx (Fence lease) now d = Inr ((), d1)"
      and a: "AppendEventTx L (rl_run lease) ''error'' payload
         (update_run (rl_run lease) (\<lambda>r. r\<lparr>r_status := ''failed''\<rparr>) d1) = Inr ((), d2)"
      and c: "completeQueueEntryTx lease now QueueFailed OwnershipFailed (DeliveryLimitReason n m) zero_time d2
         = Inr ((), d')"
    by (auto simp: FailRunAtDeliveryLimit_def)
  have "db_coord d2 = db_coord d1" using AppendEventTx_frame(5) [OF a] by simp
  then show ?thesis by (intro completeQueueEntryTx_closed [OF g _ _ c]) simp_all
qed

lemma closing_ok: "closing S body d = (Inr x, d') \<longleftrightarrow> su_fault S = None \<and> body d = Inr (x, d')"
  by (auto simp: closing_def commit_ok_iff split: option.splits)

lemma closing_error: "closing S body d = (Inl e, d') \<Longrightarrow> d' = d"
  by (auto simp: closing_def commit_def split: option.splits sum.splits)

lemma note_rejection_queue: "queue (note_rejection lease now reason d) = queue d"
  by (auto simp: note_rejection_def commit_def RecordFenceRejection_def AppendOwnership_def appendOwnershipTx_eq
      split: sum.splits if_splits)

text \<open>What each disposition says of the database before and after the closing write.\<close>

definition settled_as :: "claim_outcome \<Rightarrow> run_lease \<Rightarrow> db \<Rightarrow> db \<Rightarrow> bool" where
  "settled_as out lease d d' =
     (case oc_disposition out of
        Finished \<Rightarrow> closed_as QueueFinished lease d d'
      | Failed_run \<Rightarrow> closed_as QueueFailed lease d d'
      | Requeued \<Rightarrow> closed_as QueueRunnable lease d d' \<or> d' = d
      | Fenced \<Rightarrow> queue d' = queue d)"

lemma unsettled_ends:
  assumes "unsettled lease now out e d = (Observed out', d')"
  shows "settled_as out' lease d d'"
  using assms by (auto simp: unsettled_def settled_as_def note_rejection_queue split: if_splits)

lemma settle_ends:
  assumes "settle S lease now out (FinishRun lease t) d = (Observed out', d')" and "oc_disposition out = Finished"
  shows "settled_as out' lease d d'"
  using assms
  by (auto simp: settle_def settled_as_def FinishRun_def closing_ok completeQueueEntry_closed
      dest!: closing_error dest: unsettled_ends split: prod.splits sum.splits)

lemma settleOverDelivered_ends:
  assumes "settleOverDelivered L c S lease entry out d = (Observed out', d')"
  shows "settled_as out' lease d d' \<and> oc_disposition out' \<noteq> Requeued
    \<and> oc_run out' = oc_run out \<and> oc_fence out' = oc_fence out \<and> oc_attempt out' = oc_attempt out"
proof -
  from assms obtain run where run: "Run (rl_run lease) d = Inr run"
    by (auto simp: settleOverDelivered_def split: sum.splits)
  show ?thesis
  proof (cases "r_status run = ''completed''")
    case True
    then have s: "settle S lease (su_clock S 2) (out\<lparr>oc_status := r_status run, oc_disposition := Finished\<rparr>)
        (FinishRun lease (su_clock S 1)) d = (Observed out', d')"
      using assms run by (simp add: settleOverDelivered_def Let_def)
    from settle_ends [OF this] have "settled_as out' lease d d'" by simp
    moreover have "oc_disposition out' \<noteq> Requeued \<and> oc_run out' = oc_run out \<and> oc_fence out' = oc_fence out
        \<and> oc_attempt out' = oc_attempt out"
      using s by (auto simp: settle_def unsettled_def split: prod.splits sum.splits if_splits)
    ultimately show ?thesis by blast
  next
    case False
    let ?out = "out\<lparr>oc_status := r_status run, oc_disposition := Failed_run,
        oc_err := DeliveryLimitReason (qe_attempts entry) (cf_max_attempts c)\<rparr>"
    obtain res d1 where w: "closing S (FailRunAtDeliveryLimit L lease (su_clock S 1) (qe_attempts entry) (cf_max_attempts c)) d
        = (res, d1)" by fastforce
    show ?thesis
    proof (cases res)
      case (Inl e)
      then have "d1 = d" using w closing_error by blast
      then have "unsettled lease (su_clock S 2) ?out e d = (Observed out', d')"
        using assms run False w Inl by (simp add: settleOverDelivered_def Let_def)
      then show ?thesis
        using unsettled_ends [of lease "su_clock S 2" ?out e d out' d'] by (auto simp: unsettled_def split: if_splits)
    next
      case (Inr u)
      then have "out' = ?out\<lparr>oc_status := ''failed''\<rparr>" "d' = d1"
        using assms run False w by (simp_all add: settleOverDelivered_def Let_def)
      moreover have "closed_as QueueFailed lease d d1"
        using w Inr FailRunAtDeliveryLimit_closed by (auto simp: closing_ok)
      ultimately show ?thesis by (simp add: settled_as_def)
    qed
  qed
qed

text \<open>The closing writes of an executed claim.\<close>

lemma failing_write_ends:
  assumes "(case closing S body d of (Inl e', d1) \<Rightarrow> unsettled lease now out e' d1
      | (Inr _, d1) \<Rightarrow> (Observed (out\<lparr>oc_err := reason\<rparr>), d1)) = (Observed out', d')"
    and "\<And>x. body d = Inr ((), x) \<Longrightarrow> settled_as out lease d x"
  shows "settled_as out' lease d d' \<and> oc_run out' = oc_run out \<and> oc_fence out' = oc_fence out
    \<and> oc_attempt out' = oc_attempt out \<and> (oc_disposition out' = oc_disposition out \<or> oc_disposition out' = Fenced)"
proof -
  obtain res d1 where w: "closing S body d = (res, d1)" by fastforce
  show ?thesis
  proof (cases res)
    case (Inl e)
    then have "unsettled lease now out e d = (Observed out', d')" using assms(1) w closing_error [of S body d e d1] by simp
    then show ?thesis using unsettled_ends [of lease now out e d out' d'] by (auto simp: unsettled_def split: if_splits)
  next
    case (Inr u)
    then have "settled_as out lease d d1" using w assms(2) by (simp add: closing_ok)
    then show ?thesis using assms(1) w Inr by (auto simp: settled_as_def)
  qed
qed

lemma end_claim_ends:
  assumes "end_claim c S lease entry loss status execErr d = (Observed out, d')"
  shows "settled_as out lease d d' \<and> oc_run out = rl_run lease \<and> oc_fence out = rl_token lease
    \<and> oc_attempt out = qe_attempts entry
    \<and> (oc_disposition out = Requeued \<longrightarrow> su_stopped S \<or> qe_attempts entry < cf_max_attempts c)"
proof -
  let ?out = "(start_outcome c lease entry)\<lparr>oc_status := status\<rparr>"
  have f: "oc_run ?out = rl_run lease" "oc_fence ?out = rl_token lease" "oc_attempt ?out = qe_attempts entry"
    by (simp_all add: start_outcome_def)
  consider (lost) "execErr = Some ErrFenced \<or> loss \<noteq> None"
    | (stop) e where "\<not> (execErr = Some ErrFenced \<or> loss \<noteq> None)" "execErr = Some e" "su_stopped S \<and> canceled e"
    | (final) e where "\<not> (execErr = Some ErrFenced \<or> loss \<noteq> None)" "execErr = Some e"
        "\<not> (su_stopped S \<and> canceled e)" "qe_attempts entry \<ge> cf_max_attempts c"
    | (again) e where "\<not> (execErr = Some ErrFenced \<or> loss \<noteq> None)" "execErr = Some e"
        "\<not> (su_stopped S \<and> canceled e)" "\<not> qe_attempts entry \<ge> cf_max_attempts c"
    | (fine) "\<not> (execErr = Some ErrFenced \<or> loss \<noteq> None)" "execErr = None"
    by (cases execErr) (blast, metis)
  then show ?thesis
  proof cases
    case lost
    then show ?thesis using assms f
      by (auto simp: end_claim_def Let_def settled_as_def note_rejection_queue split: if_splits)
  next
    case stop
    then show ?thesis using assms f
      by (auto simp: end_claim_def Let_def settled_as_def closing_ok ReleaseClaim_closed
          dest!: closing_error split: prod.splits sum.splits)
  next
    case final
    then have w: "(case closing S (FailRun lease (su_clock S 1) (err_text e)) d of
        (Inl e', d1) \<Rightarrow> unsettled lease (su_clock S 2) (?out\<lparr>oc_disposition := Failed_run\<rparr>) e' d1
      | (Inr _, d1) \<Rightarrow> (Observed ((?out\<lparr>oc_disposition := Failed_run\<rparr>)\<lparr>oc_err := err_text e\<rparr>), d1)) = (Observed out, d')"
      using assms by (auto simp: end_claim_def Let_def simp del: One_nat_def)
    have "settled_as (?out\<lparr>oc_disposition := Failed_run\<rparr>) lease d x" if "FailRun lease (su_clock S 1) (err_text e) d = Inr ((), x)" for x
      using that completeQueueEntry_closed by (simp add: FailRun_def settled_as_def)
    from failing_write_ends [OF w this] f show ?thesis by auto
  next
    case again
    then have w: "(case closing S (RequeueRun lease (su_clock S 2) (su_clock S 1 + cf_backoff c) (err_text e)) d of
        (Inl e', d1) \<Rightarrow> unsettled lease (su_clock S 3) (?out\<lparr>oc_disposition := Requeued\<rparr>) e' d1
      | (Inr _, d1) \<Rightarrow> (Observed ((?out\<lparr>oc_disposition := Requeued\<rparr>)\<lparr>oc_err := err_text e\<rparr>), d1)) = (Observed out, d')"
      using assms by (auto simp: end_claim_def Let_def simp del: One_nat_def)
    have "settled_as (?out\<lparr>oc_disposition := Requeued\<rparr>) lease d x"
      if "RequeueRun lease (su_clock S 2) (su_clock S 1 + cf_backoff c) (err_text e) d = Inr ((), x)" for x
      using that completeQueueEntry_closed by (simp add: RequeueRun_def settled_as_def)
    from failing_write_ends [OF w this] f again(4) show ?thesis by auto
  next
    case fine
    then have w: "settle S lease (su_clock S 2) (?out\<lparr>oc_disposition := Finished\<rparr>) (FinishRun lease (su_clock S 1)) d
        = (Observed out, d')" using assms by (simp add: end_claim_def Let_def)
    have "settled_as out lease d d'" by (rule settle_ends [OF w]) simp
    then show ?thesis
      using w f by (auto simp: settle_def unsettled_def split: prod.splits sum.splits if_splits)
  qed
qed

section \<open>Properties\<close>



lemma default_renewal_third:
  assumes "second \<le> ttl"
  shows "minRenewEvery \<le> default_renewal ttl \<and> 3 * default_renewal ttl \<le> ttl \<and> default_renewal ttl < ttl"
proof -
  have "minRenewEvery \<le> ttl div 3" using assms by (simp add: minRenewEvery_def millisecond_def second_def)
  moreover from this have "default_renewal ttl = ttl div 3" by (simp add: default_renewal_def)
  moreover have "1000000000 \<le> ttl" using assms by (simp add: second_def)
  then have "3 * (ttl div 3) \<le> ttl" "ttl div 3 < ttl" by presburger+
  ultimately show ?thesis by simp
qed

text \<open>
  A worker that is not told how often to renew its lease renews at least three times
  within it, and never as a busy loop: for every lease time the store accepts, the default
  interval is at most a third of the lease and at least a tenth of a second, and the
  configuration is accepted.
\<close>

theorem default_renewal_fits:
  assumes "cf_renew_every c \<le> 0" and "cf_lease_ttl c \<le> 0 \<or> second \<le> cf_lease_ttl c"
  shows "Validate hostname pid c = Inr ()
    \<and> 3 * cf_renew_every (withDefaults hostname pid c) \<le> cf_lease_ttl (withDefaults hostname pid c)
    \<and> minRenewEvery \<le> cf_renew_every (withDefaults hostname pid c)"
proof -
  let ?ttl = "if cf_lease_ttl c \<le> 0 then DefaultLeaseTTL else cf_lease_ttl c"
  have t: "second \<le> ?ttl" using assms(2) by (auto simp: DefaultLeaseTTL_def second_def)
  have w: "cf_lease_ttl (withDefaults hostname pid c) = ?ttl"
    "cf_renew_every (withDefaults hostname pid c) = default_renewal ?ttl"
    using assms(1) by (simp_all add: withDefaults_def Let_def)
  show ?thesis using default_renewal_third [OF t] t by (simp add: Validate_def Let_def w second_def)
qed

lemma acquired_owner:
  assumes "AcquireRunLease runID owner ttl now d = Inr (lease, d1)"
  shows "rl_owner lease \<noteq> []"
  using assms by (auto simp: AcquireRunLease_def acquireRunLeaseTx_def Let_def split: if_splits option.splits)

lemma hits_zero:
  assumes "keyed l_run t" and "length (filter (\<lambda>r. l_run r = x \<and> P r) t) \<noteq> 1"
  shows "\<not> (\<exists>r \<in> set t. l_run r = x \<and> P r)"
proof
  assume "\<exists>r \<in> set t. l_run r = x \<and> P r"
  then obtain r where r: "r \<in> set t" "l_run r = x" "P r" by blast
  have "filter (\<lambda>y. l_run y = x) t = [r]"
    using assms(1) r(1,2)
  proof (induction t)
    case (Cons a t)
    show ?case
    proof (cases "a = r")
      case True
      then have "l_run y \<noteq> x" if "y \<in> set t" for y using Cons.prems that by (metis image_eqI keyed_def distinct.simps(2) list.map(2) set_map)
      then show ?thesis using True Cons.prems(3) by (simp add: filter_empty_conv)
    next
      case False
      then have "l_run a \<noteq> x" "r \<in> set t" using Cons.prems by (auto simp: keyed_def)
      then show ?thesis using Cons by (simp add: keyed_def)
    qed
  qed simp
  then have "filter P (filter (\<lambda>y. l_run y = x) t) = [r]" using r(3) by simp
  then show False using assms(2) by (simp add: conj_commute)
qed

text \<open>A release leaves the lease unheld, whether it freed it or found it gone.\<close>

lemma released_lease:
  assumes "closing S (ReleaseRunLease lease now) d = (released, d')" and "rl_owner lease \<noteq> []"
    and "keyed l_run (leases d)"
    and "(case released of Inr _ \<Rightarrow> None | Inl e \<Rightarrow> if e = ErrFenced then None else Some e) = None"
  shows "\<not> (\<exists>r \<in> set (leases d'). l_run r = rl_run lease \<and> l_owner r = rl_owner lease \<and> l_fence r = rl_token lease)"
proof (cases released)
  case (Inl e)
  then have "d' = d" using assms(1) closing_error by blast
  moreover have "length (filter (\<lambda>r. l_run r = rl_run lease \<and> l_owner r = rl_owner lease \<and> l_fence r = rl_token lease)
      (leases d)) \<noteq> 1"
    using assms(1,4) Inl
    by (auto simp: closing_def commit_def ReleaseRunLease_def Let_def appendOwnershipTx_eq split: option.splits if_splits)
  ultimately show ?thesis
    using hits_zero [OF assms(3), of "rl_run lease" "\<lambda>r. l_owner r = rl_owner lease \<and> l_fence r = rl_token lease"] by simp
next
  case (Inr u)
  then have "ReleaseRunLease lease now d = Inr (u, d')" using assms(1) by (simp add: closing_ok)
  then show ?thesis using assms(2)
    by (auto simp: ReleaseRunLease_def Let_def appendOwnershipTx_eq upd_def split: if_splits)
qed

text \<open>The activity beside a run keeps one lease row a run, as the table's primary key does.\<close>

definition keeps_lease_keys :: "surroundings \<Rightarrow> bool" where
  "keeps_lease_keys S \<longleftrightarrow>
     (\<forall>f \<in> insert (su_rest S) (tk_others ` set (su_ticks S)). \<forall>x. keyed l_run (leases x) \<longrightarrow> keyed l_run (leases (f x)))"

lemma RenewRunLease_keyed:
  assumes "RenewRunLease lease ttl now d = Inr (lease', d')" and "keyed l_run (leases d)"
  shows "keyed l_run (leases d')"
  using assms by (auto simp: RenewRunLease_def Let_def keyed_upd split: if_splits)

lemma renew_tick_keyed:
  assumes "renew_tick c t lease d = (res, d')" and "keyed l_run (leases d)"
  shows "keyed l_run (leases d')"
  using assms
  by (auto simp: renew_tick_def commit_def TouchWorker_def dest: RenewRunLease_keyed split: option.splits sum.splits if_splits)

lemma renew_keyed:
  assumes "\<And>t x. t \<in> set ts \<Longrightarrow> keyed l_run (leases x) \<Longrightarrow> keyed l_run (leases (tk_others t x))"
    and "keyed l_run (leases d)"
  shows "keyed l_run (leases (snd (renew c ts lease d)))"
  using assms
proof (induction ts arbitrary: lease d)
  case (Cons t ts)
  obtain res d1 where r: "renew_tick c t lease (tk_others t d) = (res, d1)" by fastforce
  have "keyed l_run (leases d1)" using Cons.prems by (intro renew_tick_keyed [OF r]) simp
  then show ?case using Cons r by (cases res) auto
qed simp

text \<open>
  A local command is told when it lost its run. The function runs only under a lease the
  store granted; when the renewal loop gave the lease up, the error says the run was fenced,
  whatever the function returned; and when no error is reported, the function succeeded, the
  lease was held to the end, and nothing holds it any more.
\<close>

theorem local_run_reports_loss:
  assumes "ExecuteLocal hostname pid runID c0 fn S d = ((status, errs), d')"
    and "cf_id c0 \<noteq> []" and "0 < cf_lease_ttl c0" and "keyed l_run (leases d)" and "keeps_lease_keys S"
  shows "(\<exists>e. errs = [Wrapped e] \<and> d' = d)
    \<or> (\<exists>lease d1. AcquireRunLease runID (cf_id c0) (cf_lease_ttl c0) (su_clock S 0) d = Inr (lease, d1)
        \<and> (fst (renew (withDefaults hostname pid c0) (su_ticks S) lease d1) \<noteq> None \<longrightarrow> Wrapped ErrFenced \<in> set errs)
        \<and> (errs = [] \<longrightarrow> fn (Fence lease) = (status, None)
             \<and> fst (renew (withDefaults hostname pid c0) (su_ticks S) lease d1) = None
             \<and> \<not> (\<exists>r \<in> set (leases d'). l_run r = rl_run lease \<and> l_owner r = rl_owner lease \<and> l_fence r = rl_token lease)))"
proof -
  let ?c = "withDefaults hostname pid c0"
  have c0: "c0\<lparr>cf_id := cf_id c0, cf_lease_ttl := cf_lease_ttl c0\<rparr> = c0" by simp
  have cf: "cf_id ?c = cf_id c0" "cf_lease_ttl ?c = cf_lease_ttl c0" using assms(2,3) by (simp_all add: withDefaults_def Let_def)
  show ?thesis
  proof (cases "Validate hostname pid ?c")
    case (Inl e)
    then show ?thesis using assms(1-3) c0 by (auto simp: ExecuteLocal_def Let_def)
  next
    case (Inr u)
    show ?thesis
    proof (cases "AcquireRunLease runID (cf_id c0) (cf_lease_ttl c0) (su_clock S 0) d")
      case (Inl e)
      then show ?thesis using assms(1-3) c0 cf Inr by (auto simp: ExecuteLocal_def Let_def commit_def)
    next
      case (Inr a)
      obtain lease d1 where a: "a = (lease, d1)" by (cases a)
      obtain loss d2 where r: "renew ?c (su_ticks S) lease d1 = (loss, d2)" by fastforce
      obtain st fnErr where f: "fn (Fence lease) = (st, fnErr)" by fastforce
      obtain released d3 where cl: "closing S (ReleaseRunLease lease (su_clock S 1)) (su_rest S d2) = (released, d3)"
        by fastforce
      let ?rel = "case released of Inr _ \<Rightarrow> None | Inl e \<Rightarrow> if e = ErrFenced then None else Some e"
      have res: "status = st" "errs = local_release ?rel (local_outcome loss fnErr)" "d' = d3"
        using assms(1-3) c0 cf \<open>Validate hostname pid ?c = Inr u\<close> Inr a r f cl
        by (simp_all add: ExecuteLocal_def Let_def commit_def)
      have "Wrapped ErrFenced \<in> set errs" if "loss \<noteq> None"
        using that res(2) by (auto simp: local_outcome_def local_release_def split: option.splits if_splits)
      moreover have "fnErr = None \<and> loss = None \<and> ?rel = None" if "errs = []"
        using that res(2) by (auto simp: local_outcome_def local_release_def split: option.splits if_splits)
      moreover have "\<not> (\<exists>r \<in> set (leases d3). l_run r = rl_run lease \<and> l_owner r = rl_owner lease \<and> l_fence r = rl_token lease)"
        if "?rel = None"
      proof (rule released_lease [OF cl _ _ that])
        show "rl_owner lease \<noteq> []" using Inr a by (auto dest: acquired_owner)
        have "keyed l_run (leases d1)"
          using acquireRunLeaseTx_keyed [OF _ assms(4)] Inr a by (auto simp: AcquireRunLease_def)
        then have "keyed l_run (leases d2)"
          using renew_keyed [of "su_ticks S" d1 ?c lease] assms(5) r by (simp add: keeps_lease_keys_def)
        then show "keyed l_run (leases (su_rest S d2))" using assms(5) by (simp add: keeps_lease_keys_def)
      qed
      ultimately have "(fst (renew ?c (su_ticks S) lease d1) \<noteq> None \<longrightarrow> Wrapped ErrFenced \<in> set errs)
        \<and> (errs = [] \<longrightarrow> fn (Fence lease) = (status, None) \<and> fst (renew ?c (su_ticks S) lease d1) = None
             \<and> \<not> (\<exists>r \<in> set (leases d'). l_run r = rl_run lease \<and> l_owner r = rl_owner lease \<and> l_fence r = rl_token lease))"
        using r f res(1,3) by simp
      moreover have "AcquireRunLease runID (cf_id c0) (cf_lease_ttl c0) (su_clock S 0) d = Inr (lease, d1)"
        using Inr a by simp
      ultimately show ?thesis by blast
    qed
  qed
qed

section \<open>Witnesses\<close>

definition sample_config :: config where
  "sample_config = \<lparr>cf_id = ''a'', cf_host = ''h'', cf_lease_ttl = second, cf_renew_every = 0, cf_poll = 0,
     cf_backoff = 5, cf_max_attempts = 3\<rparr>"

definition sample_surroundings :: "err option \<Rightarrow> surroundings" where
  "sample_surroundings e =
     \<lparr>su_execute = (\<lambda>_ _. (''running'', e)), su_ticks = [], su_rest = (\<lambda>d. d), su_stopped = False,
      su_fault = None, su_clock = (\<lambda>n. 5 + int n)\<rparr>"

lemma sample_claim:
  "\<exists>entry d1. ClaimRun ''a'' second 5 (\<lambda>_. queued_db) = (Inr (sample_lease ''a'' 1 1000000005, entry), d1)
     \<and> qe_attempts entry = 1 \<and> leases d1 = [(lease_row_R ''a'' 1 0 1000000005)\<lparr>l_acquired := 5, l_heartbeat := 5\<rparr>]"
  by (simp add: ClaimRun_first claimOnce_def candidate_def claimable_def lease_of_def sample_defs
      acquireRunLeaseTx_def ensureLeaseRow_def appendOwnershipTx_eq second_def storeLease_def
      upsert_def upd_def Let_def)

lemmas claim_eval = ClaimAndRun_def sample_config_def sample_surroundings_def end_claim_def settle_def closing_def
  commit_def FinishRun_def RequeueRun_def completeQueueEntry_def completeQueueEntryTx_eq appendOwnershipTx_eq
  GuardFenceTx_def Fence_def start_outcome_def canceled_def sample_lease_def

lemma sample_claim_end:
  "\<exists>out d'. ClaimAndRun sample_full sample_config (Inr ()) (sample_surroundings e) 0 (\<lambda>_. queued_db) = (Observed out, 0, d')
     \<and> oc_disposition out = (if e = None then Finished else if e = Some ErrFenced then Fenced else Requeued)"
proof -
  obtain entry d1 where c: "ClaimRun ''a'' second 5 (\<lambda>_. queued_db) = (Inr (sample_lease ''a'' 1 1000000005, entry), d1)"
    "qe_attempts entry = 1" "leases d1 = [(lease_row_R ''a'' 1 0 1000000005)\<lparr>l_acquired := 5, l_heartbeat := 5\<rparr>]"
    using sample_claim by blast
  then show ?thesis by (cases e) (simp_all add: claim_eval lease_row_R_def Let_def)
qed



theorem default_renewal_fits_witness:
  "Validate [] 7 sample_config = Inr () \<and> 3 * cf_renew_every (withDefaults [] 7 sample_config) \<le> second"
  using default_renewal_fits [of sample_config "[]" 7] by (simp add: sample_config_def withDefaults_def second_def)

lemma sample_acquire:
  "\<exists>d1. AcquireRunLease ''R'' ''a'' second 5 sample_db = Inr (sample_lease ''a'' 1 1000000005, d1)
      \<and> leases d1 = [(lease_row_R ''a'' 1 0 1000000005)\<lparr>l_acquired := 5, l_heartbeat := 5\<rparr>]"
  by (simp add: AcquireRunLease_def acquireRunLeaseTx_def ensureLeaseRow_def appendOwnershipTx_eq storeLease_def
      second_def sample_defs lease_of_def upsert_def upd_def sel_def Let_def)

theorem local_run_reports_loss_witness:
  "\<exists>d'. ExecuteLocal [] 7 ''R'' sample_config (\<lambda>_. (''completed'', None)) (sample_surroundings None) sample_db
       = ((''completed'', []), d')
     \<and> \<not> (\<exists>r \<in> set (leases d'). l_run r = ''R'' \<and> l_owner r = ''a'' \<and> l_fence r = 1)"
proof -
  let ?S = "sample_surroundings None"
  have v: "Validate [] 7 (withDefaults [] 7 sample_config) = Inr ()"
    by (simp add: Validate_def withDefaults_def sample_config_def default_renewal_def worker_constants Let_def)
  from sample_acquire obtain d1 where a: "AcquireRunLease ''R'' ''a'' second 5 sample_db = Inr (sample_lease ''a'' 1 1000000005, d1)"
    and l: "leases d1 = [(lease_row_R ''a'' 1 0 1000000005)\<lparr>l_acquired := 5, l_heartbeat := 5\<rparr>]" by blast
  obtain d' where r: "ReleaseRunLease (sample_lease ''a'' 1 1000000005) 6 d1 = Inr ((), d')"
    by (simp add: ReleaseRunLease_def l appendOwnershipTx_eq sample_lease_def lease_row_R_def Let_def)
  have e: "ExecuteLocal [] 7 ''R'' sample_config (\<lambda>_. (''completed'', None)) ?S sample_db = ((''completed'', []), d')"
    using v a r
    by (simp add: ExecuteLocal_def sample_config_def sample_surroundings_def withDefaults_def commit_def closing_def
        local_outcome_def local_release_def Let_def second_def)
  have "keeps_lease_keys ?S" "keyed l_run (leases sample_db)" "cf_id sample_config \<noteq> []" "0 < cf_lease_ttl sample_config"
    by (simp_all add: keeps_lease_keys_def sample_surroundings_def keyed_def sample_config_def second_def
        sample_db_def empty_coord_def)
  from local_run_reports_loss [OF e this(3,4,2,1)] a show ?thesis
    using e by (simp add: sample_config_def sample_surroundings_def sample_lease_def)
qed

end
