(* ===== verification/Rewrite.thy ===== *)
theory Rewrite
  imports Prelude
begin

text \<open>
  The placeholder translation of the PostgreSQL driver (\<open>internal/pgsql/rewrite.go\<close>): one
  pass over the bytes of a statement that turns SQLite's bind placeholders into
  PostgreSQL's and copies quoted text and comments. A scan takes the text from its opener
  and returns what it consumed together with the rest, which is \<open>query[i:end]\<close> and
  \<open>query[end:]\<close> of the source. The pass is shown to be the composition of a lexer, the
  numbering SQLite defines, and a printer.
\<close>

section \<open>Scans\<close>

definition add_front :: "string \<Rightarrow> string \<times> string \<Rightarrow> string \<times> string" where
  "add_front p r = (p @ fst r, snd r)"

text \<open>After the opening quote; a doubled quote does not close.\<close>

fun quoted_rest :: "char \<Rightarrow> string \<Rightarrow> string \<times> string" where
  "quoted_rest q [] = ([], [])"
| "quoted_rest q [c] = ([c], [])"
| "quoted_rest q (c # c2 # cs) =
     (if c \<noteq> q then add_front [c] (quoted_rest q (c2 # cs))
      else if c2 = q then add_front [c, c2] (quoted_rest q cs)
      else ([c], c2 # cs))"

definition scanQuoted :: "string \<Rightarrow> string \<times> string" where
  "scanQuoted s = add_front [hd s] (quoted_rest (hd s) (tl s))"

definition newline :: char where "newline = char_of (10 :: nat)"

definition scanLineComment :: "string \<Rightarrow> string \<times> string" where
  "scanLineComment s =
     (let a = takeWhile (\<lambda>c. c \<noteq> newline) s; b = dropWhile (\<lambda>c. c \<noteq> newline) s in
      case b of [] \<Rightarrow> (a, []) | c # cs \<Rightarrow> (a @ [c], cs))"

text \<open>PostgreSQL's block comments nest.\<close>

fun block_rest :: "nat \<Rightarrow> string \<Rightarrow> string \<times> string" where
  "block_rest depth [] = ([], [])"
| "block_rest depth [c] = ([c], [])"
| "block_rest depth (c # c2 # cs) =
     (if c = CHR ''/'' \<and> c2 = CHR ''*'' then add_front [c, c2] (block_rest (depth + 1) cs)
      else if c = CHR ''*'' \<and> c2 = CHR ''/'' then
        (if depth - 1 = 0 then ([c, c2], cs) else add_front [c, c2] (block_rest (depth - 1) cs))
      else add_front [c] (block_rest depth (c2 # cs)))"

definition scanBlockComment :: "string \<Rightarrow> string \<times> string" where
  "scanBlockComment s = block_rest 0 s"

definition letter :: "char \<Rightarrow> bool" where
  "letter c \<longleftrightarrow>
     c = CHR ''_'' \<or> (of_char c :: nat) \<in> set [97 ..< 123] \<or> (of_char c :: nat) \<in> set [65 ..< 91]"

fun tag_rest :: "bool \<Rightarrow> string \<Rightarrow> string option" where
  "tag_rest first [] = None"
| "tag_rest first (c # cs) =
     (if c = CHR ''$'' then Some [c]
      else if letter c \<or> digit_char c \<and> \<not> first then map_option (Cons c) (tag_rest False cs)
      else None)"

definition dollarTag :: "string \<Rightarrow> string option" where
  "dollarTag s = (case s of [] \<Rightarrow> None | c # cs \<Rightarrow> if c \<noteq> CHR ''$'' then None else map_option (Cons c) (tag_rest True cs))"

text \<open>\<open>strings.Index\<close>: the text up to and past the first occurrence.\<close>

fun split_at :: "string \<Rightarrow> string \<Rightarrow> (string \<times> string) option" where
  "split_at t s =
     (if take (length t) s = t then Some (t, drop (length t) s)
      else case s of [] \<Rightarrow> None | c # cs \<Rightarrow> map_option (add_front [c]) (split_at t cs))"

declare split_at.simps [simp del]

definition scanDollarQuoted :: "string \<Rightarrow> string \<Rightarrow> string \<times> string" where
  "scanDollarQuoted t s =
     (case split_at t (drop (length t) s) of
        Some r \<Rightarrow> add_front (take (length t) s) r
      | None \<Rightarrow> (s, []))"

section \<open>Numbers\<close>

definition parseIndex :: "string \<Rightarrow> nat option" where
  "parseIndex digits = (if length digits > 9 then None else Some (digits_val digits))"

fun itoa_digits :: "nat \<Rightarrow> string \<Rightarrow> string" where
  "itoa_digits n buf = (if n = 0 then buf else itoa_digits (n div 10) (char_of (48 + n mod 10) # buf))"

declare itoa_digits.simps [simp del]

definition itoa :: "nat \<Rightarrow> string" where
  "itoa n = (if n < 10 then [char_of (48 + n)] else itoa_digits n [])"

section \<open>The pass\<close>

text \<open>What the loop does at one position: text to write, the largest number so far, the rest.\<close>

definition rewrite_step :: "nat \<Rightarrow> string \<Rightarrow> string \<times> nat \<times> string" where
  "rewrite_step largest s =
     (let copy = (\<lambda>r. (fst r, largest, snd r)); one = ([hd s], largest, tl s) in
      if hd s = CHR 0x27 \<or> hd s = CHR 0x22 then copy (scanQuoted s)
      else if hd s = CHR ''-'' then
        (if tl s \<noteq> [] \<and> hd (tl s) = CHR ''-'' then copy (scanLineComment s) else one)
      else if hd s = CHR ''/'' then
        (if tl s \<noteq> [] \<and> hd (tl s) = CHR ''*'' then copy (scanBlockComment s) else one)
      else if hd s = CHR ''$'' then
        (case dollarTag s of Some t \<Rightarrow> copy (scanDollarQuoted t s) | None \<Rightarrow> one)
      else if hd s = CHR ''?'' then
        (let digits = takeWhile digit_char (tl s) in
         if digits = [] then (CHR ''$'' # itoa (largest + 1), largest + 1, tl s)
         else (CHR ''$'' # digits,
               (case parseIndex digits of Some n \<Rightarrow> if n > largest then n else largest | None \<Rightarrow> largest),
               dropWhile digit_char (tl s)))
      else one)"

lemma quoted_rest_parts: "fst (quoted_rest q s) @ snd (quoted_rest q s) = s"
  by (induction q s rule: quoted_rest.induct) (auto simp: add_front_def)

lemma block_rest_parts: "fst (block_rest n s) @ snd (block_rest n s) = s"
  by (induction n s rule: block_rest.induct) (auto simp: add_front_def)

lemma split_at_parts: "split_at t s = Some r \<Longrightarrow> fst r @ snd r = s"
proof (induction t s arbitrary: r rule: split_at.induct)
  case (1 t s)
  show ?case
  proof (cases "take (length t) s = t")
    case True
    then show ?thesis using "1.prems" by (subst (asm) split_at.simps) (auto simp: append_eq_conv_conj)
  next
    case False
    then obtain c cs r' where "s = c # cs" "split_at t cs = Some r'" "r = add_front [c] r'"
      using "1.prems" by (subst (asm) split_at.simps) (auto split: list.splits)
    then show ?thesis using "1.IH" [OF False] by (auto simp: add_front_def)
  qed
qed

lemma scan_parts:
  "s \<noteq> [] \<Longrightarrow> fst (scanQuoted s) @ snd (scanQuoted s) = s"
  "fst (scanLineComment s) @ snd (scanLineComment s) = s"
  "fst (scanBlockComment s) @ snd (scanBlockComment s) = s"
  "fst (scanDollarQuoted t s) @ snd (scanDollarQuoted t s) = s"
proof -
  show "s \<noteq> [] \<Longrightarrow> fst (scanQuoted s) @ snd (scanQuoted s) = s"
    by (simp add: scanQuoted_def add_front_def quoted_rest_parts)
  show "fst (scanLineComment s) @ snd (scanLineComment s) = s"
    using takeWhile_dropWhile_id [of "\<lambda>c. c \<noteq> newline" s]
    by (auto simp: scanLineComment_def Let_def split: list.split simp del: takeWhile_dropWhile_id)
  show "fst (scanBlockComment s) @ snd (scanBlockComment s) = s"
    by (simp add: scanBlockComment_def block_rest_parts)
  show "fst (scanDollarQuoted t s) @ snd (scanDollarQuoted t s) = s"
    using split_at_parts [of t "drop (length t) s"]
    by (auto simp: scanDollarQuoted_def add_front_def split: option.split)
qed


lemma tag_rest_nonempty: "tag_rest first s = Some t \<Longrightarrow> t \<noteq> []"
  by (cases s) (auto split: if_splits)

lemma dollarTag_nonempty: "dollarTag s = Some t \<Longrightarrow> t \<noteq> []"
  by (auto simp: dollarTag_def split: list.splits if_splits)

lemma scanQuoted_nonempty: "fst (scanQuoted s) \<noteq> []"
  by (simp add: scanQuoted_def add_front_def)

lemma scanLineComment_nonempty: "s \<noteq> [] \<Longrightarrow> fst (scanLineComment s) \<noteq> []"
  by (cases s) (auto simp: scanLineComment_def Let_def split: list.split)

lemma scanBlockComment_nonempty: "s \<noteq> [] \<Longrightarrow> fst (scanBlockComment s) \<noteq> []"
  by (cases "(0 :: nat, s)" rule: block_rest.cases) (auto simp: scanBlockComment_def add_front_def)

lemma scanDollarQuoted_nonempty: "s \<noteq> [] \<Longrightarrow> t \<noteq> [] \<Longrightarrow> fst (scanDollarQuoted t s) \<noteq> []"
  by (auto simp: scanDollarQuoted_def add_front_def split: option.split)

lemmas scan_nonempty =
  scanQuoted_nonempty scanLineComment_nonempty scanBlockComment_nonempty scanDollarQuoted_nonempty

lemma shorter_if_parts: "fst r @ snd r = s \<Longrightarrow> fst r \<noteq> [] \<Longrightarrow> length (snd r) < length s"
  by (cases r) auto

section \<open>Tokens\<close>

text \<open>The same decisions as a lexer: copied text, a bare placeholder, a numbered one.\<close>

datatype token = Text string | Bare | Numbered string

fun token_text :: "token \<Rightarrow> string" where
  "token_text (Text s) = s"
| "token_text Bare = ''?''"
| "token_text (Numbered ds) = CHR ''?'' # ds"

definition next_token :: "string \<Rightarrow> token \<times> string" where
  "next_token s =
     (let copy = (\<lambda>r. (Text (fst r), snd r)); one = (Text [hd s], tl s) in
      if hd s = CHR 0x27 \<or> hd s = CHR 0x22 then copy (scanQuoted s)
      else if hd s = CHR ''-'' \<and> tl s \<noteq> [] \<and> hd (tl s) = CHR ''-'' then copy (scanLineComment s)
      else if hd s = CHR ''/'' \<and> tl s \<noteq> [] \<and> hd (tl s) = CHR ''*'' then copy (scanBlockComment s)
      else if hd s = CHR ''$'' \<and> dollarTag s \<noteq> None then copy (scanDollarQuoted (the (dollarTag s)) s)
      else if hd s = CHR ''?'' then
        (if takeWhile digit_char (tl s) = [] then (Bare, tl s)
         else (Numbered (takeWhile digit_char (tl s)), dropWhile digit_char (tl s)))
      else one)"

lemma next_token_parts:
  assumes "s \<noteq> []"
  shows "token_text (fst (next_token s)) @ snd (next_token s) = s"
  using assms by (cases s) (auto simp: next_token_def Let_def scan_parts)

lemma next_token_shorter:
  assumes "s \<noteq> []"
  shows "length (snd (next_token s)) < length s"
proof (rule shorter_if_parts [of "(token_text (fst (next_token s)), snd (next_token s))", simplified])
  show "token_text (fst (next_token s)) @ snd (next_token s) = s" by (rule next_token_parts [OF assms])
  show "token_text (fst (next_token s)) \<noteq> []"
    using assms by (auto simp: next_token_def Let_def scan_nonempty dollarTag_nonempty)
qed

function lex :: "string \<Rightarrow> token list" where
  "lex s = (if s = [] then [] else fst (next_token s) # lex (snd (next_token s)))"
  by pat_completeness auto
termination by (relation "measure length") (auto simp: next_token_shorter)

declare lex.simps [simp del]

text \<open>How SQLite numbers placeholders, and the statement printed in PostgreSQL's form.\<close>

definition largest_after :: "nat \<Rightarrow> string \<Rightarrow> nat" where
  "largest_after largest ds = (case parseIndex ds of Some n \<Rightarrow> max n largest | None \<Rightarrow> largest)"

fun number_tokens :: "nat \<Rightarrow> token list \<Rightarrow> string list" where
  "number_tokens largest [] = []"
| "number_tokens largest (Text s # ts) = s # number_tokens largest ts"
| "number_tokens largest (Bare # ts) = (CHR ''$'' # show_nat (largest + 1)) # number_tokens (largest + 1) ts"
| "number_tokens largest (Numbered ds # ts) = (CHR ''$'' # ds) # number_tokens (largest_after largest ds) ts"

section \<open>The statement rewritten\<close>

lemma rewrite_step_shorter:
  assumes "s \<noteq> []"
  shows "snd (snd (rewrite_step largest s)) = snd (next_token s)"
  using assms by (auto simp: rewrite_step_def next_token_def Let_def split: option.split)

lemma rewrite_step_rest:
  assumes "(w, l, rest) = rewrite_step largest s" and "s \<noteq> []"
  shows "length rest < length s"
  using assms rewrite_step_shorter [of s largest] next_token_shorter [of s] by (metis snd_conv)

function rewrite_loop :: "nat \<Rightarrow> string \<Rightarrow> string" where
  "rewrite_loop largest s =
     (if s = [] then []
      else case rewrite_step largest s of (w, l, rest) \<Rightarrow> w @ rewrite_loop l rest)"
  by pat_completeness auto
termination
  by (relation "measure (\<lambda>(_, s). length s)") (auto dest: rewrite_step_rest)

declare rewrite_loop.simps [simp del]

definition Rewrite :: "string \<Rightarrow> string" where
  "Rewrite query = (if CHR ''?'' \<notin> set query then query else rewrite_loop 0 query)"

lemma itoa_digits_eq: "0 < n \<Longrightarrow> itoa_digits n buf = show_nat n @ buf"
proof (induction n buf rule: itoa_digits.induct)
  case (1 n buf)
  show ?case
  proof (cases "n < 10")
    case True
    then show ?thesis using "1.prems" by (subst itoa_digits.simps, subst itoa_digits.simps) (simp add: show_nat.simps)
  next
    case False
    then have "itoa_digits (n div 10) (char_of (48 + n mod 10) # buf) = show_nat (n div 10) @ char_of (48 + n mod 10) # buf"
      using "1.IH" by (simp add: div_greater_zero_iff)
    then show ?thesis using False by (subst itoa_digits.simps, subst show_nat.simps) simp
  qed
qed

lemma itoa_eq: "itoa n = show_nat n"
proof (cases "n < 10")
  case True
  then show ?thesis by (subst show_nat.simps) (simp add: itoa_def)
next
  case False
  then show ?thesis using itoa_digits_eq [of n "[]"] by (simp add: itoa_def)
qed

lemma rewrite_step_token:
  assumes "s \<noteq> []"
  shows "rewrite_step largest s =
    (case fst (next_token s) of
       Text t \<Rightarrow> (t, largest, snd (next_token s))
     | Bare \<Rightarrow> (CHR ''$'' # show_nat (largest + 1), largest + 1, snd (next_token s))
     | Numbered ds \<Rightarrow> (CHR ''$'' # ds, largest_after largest ds, snd (next_token s)))"
  using assms
  by (auto simp: rewrite_step_def next_token_def largest_after_def itoa_eq Let_def max_def split: option.split)

lemma rewrite_loop_tokens: "rewrite_loop largest s = concat (number_tokens largest (lex s))"
proof (induction largest s rule: rewrite_loop.induct)
  case (1 largest s)
  show ?case
  proof (cases "s = []")
    case True
    then show ?thesis by (simp add: rewrite_loop.simps lex.simps)
  next
    case False
    obtain w l rest where st: "rewrite_step largest s = (w, l, rest)" by (cases "rewrite_step largest s") auto
    have ih: "rewrite_loop l rest = concat (number_tokens l (lex rest))" using "1.IH" [OF False st [symmetric]] by simp
    have lx: "lex s = fst (next_token s) # lex (snd (next_token s))" using False by (subst lex.simps) simp
    have "rewrite_loop largest s = w @ rewrite_loop l rest" using False st by (subst rewrite_loop.simps) simp
    then show ?thesis
      using ih lx st [unfolded rewrite_step_token [OF False]] by (cases "fst (next_token s)") auto
  qed
qed

lemma lex_lossless: "concat (map token_text (lex s)) = s"
proof (induction s rule: lex.induct)
  case (1 s)
  show ?case
  proof (cases "s = []")
    case True
    then show ?thesis by (simp add: lex.simps)
  next
    case False
    then have "lex s = fst (next_token s) # lex (snd (next_token s))" by (subst lex.simps) simp
    then show ?thesis using 1 [OF False] next_token_parts [OF False] by simp
  qed
qed

fun placeholder :: "token \<Rightarrow> bool" where
  "placeholder (Text s) = False"
| "placeholder _ = True"

lemma number_tokens_text: "list_all (\<lambda>t. \<not> placeholder t) ts \<Longrightarrow> number_tokens l ts = map token_text ts"
  by (induction l ts rule: number_tokens.induct) auto

lemma number_tokens_bare:
  "list_all (\<lambda>t. \<not> placeholder t \<or> t = Bare) ts \<Longrightarrow>
   map snd (filter (placeholder \<circ> fst) (zip ts (number_tokens l ts)))
     = map (\<lambda>k. CHR ''$'' # show_nat k) [Suc l ..< Suc l + length (filter placeholder ts)]"
proof (induction l ts rule: number_tokens.induct)
  case (3 l ts)
  then show ?case by (simp add: upt_conv_Cons del: upt_Suc)
qed auto

lemma no_question_mark: "CHR ''?'' \<notin> set s \<Longrightarrow> list_all (\<lambda>t. \<not> placeholder t) (lex s)"
proof (rule ccontr)
  assume q: "CHR ''?'' \<notin> set s" and "\<not> list_all (\<lambda>t. \<not> placeholder t) (lex s)"
  then obtain t where "t \<in> set (lex s)" "placeholder t" by (auto simp: list_all_iff)
  moreover have "CHR ''?'' \<in> set (token_text t)" using \<open>placeholder t\<close> by (cases t) simp_all
  ultimately have "CHR ''?'' \<in> set (concat (map token_text (lex s)))" by (simp only: set_concat set_map) blast
  then show False using q by (simp only: lex_lossless)
qed

text \<open>
  C37. The one-pass translation is lexing, numbering and printing. Lexing loses nothing; every
  piece of quoted text, comment or ordinary SQL is printed as it was; each placeholder gets
  the number SQLite gives it. A statement without placeholders is unchanged, even when it has
  question marks in quotes, and in a statement with bare placeholders only, the k-th one is
  the k-th parameter.
\<close>

theorem rewrite_numbers_placeholders:
  "concat (map token_text (lex query)) = query
   \<and> Rewrite query = concat (number_tokens 0 (lex query))
   \<and> (list_all (\<lambda>t. \<not> placeholder t) (lex query) \<longrightarrow> Rewrite query = query)
   \<and> (list_all (\<lambda>t. \<not> placeholder t \<or> t = Bare) (lex query) \<longrightarrow>
        map snd (filter (placeholder \<circ> fst) (zip (lex query) (number_tokens 0 (lex query))))
          = map (\<lambda>k. CHR ''$'' # show_nat k) [1 ..< Suc (length (filter placeholder (lex query)))])"
proof -
  have out: "Rewrite query = concat (number_tokens 0 (lex query))"
  proof (cases "CHR ''?'' \<in> set query")
    case True
    then show ?thesis by (simp add: Rewrite_def rewrite_loop_tokens)
  next
    case False
    then show ?thesis
      using number_tokens_text [OF no_question_mark [OF False]] lex_lossless [of query] by (simp add: Rewrite_def)
  qed
  moreover have "Rewrite query = query" if "list_all (\<lambda>t. \<not> placeholder t) (lex query)"
    using out number_tokens_text [OF that] lex_lossless by simp
  ultimately show ?thesis using lex_lossless number_tokens_bare [of "lex query" 0] by simp
qed

lemma lex_sample:
  "lex ''a=? OR '?'=?'' = [Text ''a'', Text ''='', Bare, Text '' '', Text ''O'', Text ''R'', Text '' '',
                           Text [CHR 0x27, CHR ''?'', CHR 0x27], Text ''='', Bare]"
  by (simp add: lex.simps next_token_def scanQuoted_def add_front_def Let_def digit_char_def)

lemma lex_sample_text:
  "lex ''--?'' = [Text ''--?'']"
  by (simp add: lex.simps next_token_def scanLineComment_def newline_def Let_def char_of_def)

theorem rewrite_numbers_placeholders_witness:
  "Rewrite ''--?'' = ''--?''
   \<and> map snd (filter (placeholder \<circ> fst) (zip (lex ''a=? OR '?'=?'') (number_tokens 0 (lex ''a=? OR '?'=?''))))
       = [''$1'', ''$2'']"
  using rewrite_numbers_placeholders [of "''--?''"] rewrite_numbers_placeholders [of "''a=? OR '?'=?''"]
  by (simp add: lex_sample lex_sample_text show_nat.simps char_of_def bit_0)

end
