(* ===== verification/Bench.thy ===== *)
theory Bench
  imports Ledger
begin

text \<open>
  Case results of the benchmark (\<open>internal/bench\<close>): how the trials of one case fold into its
  result (\<open>run.go\<close>), and what the ledger of a run says it did (\<open>fingerprint.go\<close> and the
  count of the agent's own refunds). The result of a case is what the regression gate reads.
\<close>

section \<open>Results\<close>

text \<open>
  The result of a case, without the fields only the summary of a report reads (dimensions,
  the distributed and counterfactual blocks, and the flag \<open>Aggregate\<close> computes from the rest).
\<close>

record step =
  sp_operation :: string
  sp_status :: int

record case_result =
  cr_id :: string
  cr_category :: string
  cr_status :: string
  cr_run :: string
  cr_model :: string
  cr_failed_checks :: "string list"
  cr_tool_calls :: int
  cr_model_turns :: int
  cr_wall_ms :: int
  cr_duplicate_refunds :: int
  cr_agent_refunds :: int
  cr_unsafe_retry :: bool
  cr_error :: string
  cr_passed :: bool
  cr_expect :: string
  cr_trajectory :: "step list"
  cr_mutations :: int
  cr_violations :: int
  cr_trials :: int
  cr_passes :: int
  cr_verdict_trial :: int

definition ExpectPass :: string where "ExpectPass = ''pass''"
definition ExpectFail :: string where "ExpectFail = ''fail''"

text \<open>\<open>local_mode\<close> is whether the case runs in process; the counts are zero when not given.\<close>

definition caseTrials :: "bool \<Rightarrow> int \<Rightarrow> int \<Rightarrow> int" where
  "caseTrials local_mode case_trials option_trials =
     (if \<not> local_mode then 1 else if case_trials > 0 then case_trials
      else if option_trials > 0 then option_trials else 1)"

section \<open>Folding trials\<close>

text \<open>The state of the loop: the result so far, the passes, the first failing and the first errored trial.\<close>

record fold_state =
  fs_result :: case_result
  fs_passes :: int
  fs_failing :: "nat option"
  fs_errored :: "nat option"

definition fold_trial :: "nat \<times> case_result \<Rightarrow> fold_state \<Rightarrow> fold_state" where
  "fold_trial it s =
     (let i = fst it; one = snd it; r = fs_result s;
          r' = r\<lparr>cr_unsafe_retry := cr_unsafe_retry r \<or> cr_unsafe_retry one,
                 cr_agent_refunds := max (cr_agent_refunds r) (cr_agent_refunds one),
                 cr_duplicate_refunds := max (cr_duplicate_refunds r) (cr_duplicate_refunds one),
                 cr_mutations := max (cr_mutations r) (cr_mutations one),
                 cr_violations := max (cr_violations r) (cr_violations one)\<rparr>
      in (if cr_status one = ''passed'' \<and> cr_passed one then s\<lparr>fs_passes := fs_passes s + 1\<rparr>
          else if cr_status one = ''failed'' \<and> fs_failing s = None then s\<lparr>fs_failing := Some i\<rparr>
          else if cr_status one \<noteq> ''failed'' \<and> fs_errored s = None then s\<lparr>fs_errored := Some i\<rparr>
          else s)\<lparr>fs_result := r'\<rparr>)"

definition fold_start :: "case_result list \<Rightarrow> fold_state" where
  "fold_start trials =
     \<lparr>fs_result = (hd trials)\<lparr>cr_trials := int (length trials)\<rparr>, fs_passes = 0, fs_failing = None, fs_errored = None\<rparr>"

definition foldTrials :: "case_result list \<Rightarrow> case_result" where
  "foldTrials trials =
     (let s = fold fold_trial (enumerate 0 trials) (fold_start trials);
          r = (fs_result s)\<lparr>cr_passes := fs_passes s\<rparr>;
          verdict = (case fs_failing s of Some i \<Rightarrow> Some i | None \<Rightarrow> fs_errored s)
      in case verdict of
           None \<Rightarrow> r
         | Some i \<Rightarrow>
             let r' = r\<lparr>cr_status := cr_status (trials ! i), cr_passed := False,
                        cr_failed_checks := cr_failed_checks (trials ! i), cr_error := cr_error (trials ! i)\<rparr>
             in if length trials > 1 then r'\<lparr>cr_verdict_trial := int i + 1\<rparr> else r')"

section \<open>What a run did\<close>

fun fingerprint_events :: "event_row list \<Rightarrow> step list \<Rightarrow> int \<Rightarrow> (step list \<times> int) res" where
  "fingerprint_events [] trajectory mutations = Inr (trajectory, mutations)"
| "fingerprint_events (e # es) trajectory mutations =
     (if e_type e = ''tool.response'' then
        bindR (string_field ''operation_id'' (e_payload e)) (\<lambda>operation.
        bindR (int_field ''status'' (e_payload e)) (\<lambda>status.
        fingerprint_events es (trajectory @ [\<lparr>sp_operation = operation, sp_status = status\<rparr>]) mutations))
      else if e_type e = ''state.mutation'' then fingerprint_events es trajectory (mutations + 1)
      else fingerprint_events es trajectory mutations)"

definition Fingerprint :: "string \<Rightarrow> db \<Rightarrow> (step list \<times> int) res" where
  "Fingerprint runID d = fingerprint_events (Events runID d) [] 0"

definition countRefunds :: "string \<Rightarrow> db \<Rightarrow> int" where
  "countRefunds worldID d = int (length (filter (\<lambda>r. rf_world r = worldID) (refunds (db_world d))))"

fun agent_refunds :: "event_row list \<Rightarrow> string list \<Rightarrow> int \<Rightarrow> int" where
  "agent_refunds [] calls committed = committed"
| "agent_refunds (e # es) calls committed =
     (if e_type e = ''tool.request'' then
        (case (string_field ''call_id'' (e_payload e), string_field ''operation_id'' (e_payload e)) of
           (Inr callID, Inr operation) \<Rightarrow>
             agent_refunds es (if operation = ''createRefund'' then callID # calls else calls) committed
         | _ \<Rightarrow> agent_refunds es calls committed)
      else if e_type e = ''tool.response'' then
        (case (string_field ''call_id'' (e_payload e), int_field ''status'' (e_payload e)) of
           (Inr callID, Inr status) \<Rightarrow>
             agent_refunds es calls
               (if callID \<in> set calls \<and> 200 \<le> status \<and> status < 300 then committed + 1 else committed)
         | _ \<Rightarrow> agent_refunds es calls committed)
      else agent_refunds es calls committed)"

definition countAgentRefunds :: "string \<Rightarrow> db \<Rightarrow> int" where
  "countAgentRefunds runID d = agent_refunds (Events runID d) [] 0"

abbreviation run_fold :: "nat \<Rightarrow> case_result list \<Rightarrow> fold_state \<Rightarrow> fold_state" where
  "run_fold n ts s \<equiv> fold fold_trial (enumerate n ts) s"

abbreviation passing :: "case_result \<Rightarrow> bool" where
  "passing t \<equiv> cr_status t = ''passed'' \<and> cr_passed t"

lemma fold_trial_fields [simp]:
  "cr_status (fs_result (fold_trial it s)) = cr_status (fs_result s)"
  "cr_id (fs_result (fold_trial it s)) = cr_id (fs_result s)"
  "cr_passed (fs_result (fold_trial it s)) = cr_passed (fs_result s)"
  "cr_trials (fs_result (fold_trial it s)) = cr_trials (fs_result s)"
  "cr_unsafe_retry (fs_result (fold_trial it s)) \<longleftrightarrow> cr_unsafe_retry (fs_result s) \<or> cr_unsafe_retry (snd it)"
  "cr_agent_refunds (fs_result (fold_trial it s)) = max (cr_agent_refunds (fs_result s)) (cr_agent_refunds (snd it))"
  "cr_mutations (fs_result (fold_trial it s)) = max (cr_mutations (fs_result s)) (cr_mutations (snd it))"
  "cr_violations (fs_result (fold_trial it s)) = max (cr_violations (fs_result s)) (cr_violations (snd it))"
  "fs_passes (fold_trial it s) = fs_passes s + (if passing (snd it) then 1 else 0)"
  by (simp_all add: fold_trial_def Let_def)

lemma run_fold_kept [simp]:
  "cr_status (fs_result (run_fold n ts s)) = cr_status (fs_result s)"
  "cr_id (fs_result (run_fold n ts s)) = cr_id (fs_result s)"
  "cr_passed (fs_result (run_fold n ts s)) = cr_passed (fs_result s)"
  "cr_trials (fs_result (run_fold n ts s)) = cr_trials (fs_result s)"
  by (induction ts arbitrary: n s) simp_all

lemma run_fold_unsafe:
  "cr_unsafe_retry (fs_result (run_fold n ts s)) \<longleftrightarrow>
     cr_unsafe_retry (fs_result s) \<or> (\<exists>t \<in> set ts. cr_unsafe_retry t)"
  by (induction ts arbitrary: n s) auto

lemma run_fold_max:
  "cr_agent_refunds (fs_result (run_fold n ts s)) = fold max (map cr_agent_refunds ts) (cr_agent_refunds (fs_result s))"
  "cr_mutations (fs_result (run_fold n ts s)) = fold max (map cr_mutations ts) (cr_mutations (fs_result s))"
  "cr_violations (fs_result (run_fold n ts s)) = fold max (map cr_violations ts) (cr_violations (fs_result s))"
  by (induction ts arbitrary: n s) (simp_all add: max.commute)

lemma run_fold_passes: "fs_passes (run_fold n ts s) = fs_passes s + int (length (filter passing ts))"
  by (induction ts arbitrary: n s) simp_all

lemma run_fold_index:
  assumes "fs_failing s = None \<or> (\<exists>i. fs_failing s = Some i \<and> i < n)"
    and "fs_errored s = None \<or> (\<exists>i. fs_errored s = Some i \<and> i < n)"
  shows "fs_failing (run_fold n ts s) = (case fs_failing s of Some i \<Rightarrow> Some i
           | None \<Rightarrow> map_option (\<lambda>p. fst p) (find (\<lambda>p. cr_status (snd p) = ''failed'') (enumerate n ts)))"
    and "fs_errored (run_fold n ts s) = (case fs_errored s of Some i \<Rightarrow> Some i
           | None \<Rightarrow> map_option (\<lambda>p. fst p) (find (\<lambda>p. cr_status (snd p) \<noteq> ''failed'' \<and> \<not> passing (snd p)) (enumerate n ts)))"
  by (induction ts arbitrary: n s) (auto simp: fold_trial_def Let_def split: option.splits)

definition trial_ok :: "case_result \<Rightarrow> bool" where
  "trial_ok t \<longleftrightarrow>
     (cr_status t = ''passed'' \<or> cr_status t = ''failed'' \<or> cr_status t = ''error'') \<and>
     (cr_passed t \<longleftrightarrow> cr_status t = ''passed'')"

lemma find_enumerate:
  assumes "map_option fst (find P (enumerate 0 ts)) = Some i"
  shows "i < length ts \<and> P (i, ts ! i)"
proof -
  from assms obtain p where "find P (enumerate 0 ts) = Some p" "i = fst p" by (cases "find P (enumerate 0 ts)") auto
  then show ?thesis by (auto simp: find_Some_iff nth_enumerate_eq)
qed

lemma find_enumerate_none:
  "map_option fst (find (\<lambda>p. Q (snd p)) (enumerate n ts)) = None \<longleftrightarrow> (\<forall>t \<in> set ts. \<not> Q t)"
  by (induction ts arbitrary: n) auto

lemma fold_max_hd: "ts \<noteq> [] \<Longrightarrow> fold max (map f ts) (f (hd ts)) = Max (f ` set ts)"
  for f :: "'a \<Rightarrow> int"
  by (cases ts) (simp_all add: Max.set_eq_fold [symmetric])

text \<open>The trial that decides: the first one that failed, else the first one without a verdict.\<close>

definition deciding :: "case_result list \<Rightarrow> nat option" where
  "deciding ts =
     (case map_option fst (find (\<lambda>p. cr_status (snd p) = ''failed'') (enumerate 0 ts)) of Some i \<Rightarrow> Some i
      | None \<Rightarrow> map_option fst (find (\<lambda>p. cr_status (snd p) \<noteq> ''failed'' \<and> \<not> passing (snd p)) (enumerate 0 ts)))"

lemma foldTrials_fields:
  "cr_id (foldTrials ts) = cr_id (hd ts)"
  "cr_trials (foldTrials ts) = int (length ts)"
  "cr_passes (foldTrials ts) = int (length (filter passing ts))"
  "cr_unsafe_retry (foldTrials ts) \<longleftrightarrow> cr_unsafe_retry (hd ts) \<or> (\<exists>t \<in> set ts. cr_unsafe_retry t)"
  "cr_agent_refunds (foldTrials ts) = fold max (map cr_agent_refunds ts) (cr_agent_refunds (hd ts))"
  "cr_mutations (foldTrials ts) = fold max (map cr_mutations ts) (cr_mutations (hd ts))"
  "cr_violations (foldTrials ts) = fold max (map cr_violations ts) (cr_violations (hd ts))"
  "cr_status (foldTrials ts) = (case deciding ts of None \<Rightarrow> cr_status (hd ts) | Some i \<Rightarrow> cr_status (ts ! i))"
  using run_fold_index [of "fold_start ts" 0 ts]
  by (auto simp: foldTrials_def fold_start_def deciding_def Let_def run_fold_unsafe run_fold_max run_fold_passes
           split: option.split)

lemma status_decided:
  assumes "ts \<noteq> []" and "list_all trial_ok ts"
  shows "cr_status (foldTrials ts) =
    (if \<exists>t \<in> set ts. cr_status t = ''failed'' then ''failed''
     else if \<exists>t \<in> set ts. cr_status t = ''error'' then ''error'' else ''passed'')"
proof (cases "\<exists>t \<in> set ts. cr_status t = ''failed''")
  case True
  then obtain i where i: "map_option fst (find (\<lambda>p. cr_status (snd p) = ''failed'') (enumerate 0 ts)) = Some i"
    using find_enumerate_none [of "\<lambda>t. cr_status t = ''failed''" 0 ts] by (metis option.exhaust)
  have "cr_status (ts ! i) = ''failed''" using find_enumerate [OF i] by simp
  then show ?thesis using True i by (auto simp: foldTrials_fields deciding_def)
next
  case False
  let ?open = "\<lambda>t. cr_status t \<noteq> ''failed'' \<and> \<not> passing t"
  have none: "map_option fst (find (\<lambda>p. cr_status (snd p) = ''failed'') (enumerate 0 ts)) = None"
    using False by (intro find_enumerate_none [of "\<lambda>t. cr_status t = ''failed''" 0 ts, THEN iffD2]) blast
  have ok: "?open t \<longleftrightarrow> cr_status t = ''error''" if "t \<in> set ts" for t
    using assms(2) that by (auto simp: list_all_iff trial_ok_def)
  show ?thesis
  proof (cases "map_option fst (find (\<lambda>p. ?open (snd p)) (enumerate 0 ts))")
    case None
    then have "\<forall>t \<in> set ts. \<not> ?open t" by (rule find_enumerate_none [of ?open 0 ts, THEN iffD1])
    then have "\<forall>t \<in> set ts. cr_status t \<noteq> ''error''" using ok by blast
    moreover have "cr_status (hd ts) = ''passed''"
      using \<open>\<forall>t \<in> set ts. \<not> ?open t\<close> False assms by (auto simp: list_all_iff)
    ultimately show ?thesis using False none None by (simp add: foldTrials_fields deciding_def)
  next
    case (Some i)
    then have "i < length ts" "?open (ts ! i)" using find_enumerate [OF Some] by auto
    then have "cr_status (ts ! i) = ''error''" using ok [of "ts ! i"] nth_mem by blast
    then show ?thesis using False none Some \<open>i < length ts\<close> by (auto simp: foldTrials_fields deciding_def)
  qed
qed

text \<open>
  The folded result of a repeated case depends on what its trials did and not on their
  order: it failed when a trial failed, else it has no verdict when a trial has none, else it
  passed; its passes are the trials that passed, an unsafe retry in any trial is an unsafe
  retry of the case, and the refunds, writes and violations are the most any trial had, so no
  trial hides another's effect.
\<close>

theorem fold_trials_exact:
  assumes "ts \<noteq> []" and "list_all trial_ok ts"
  shows "cr_status (foldTrials ts) =
      (if \<exists>t \<in> set ts. cr_status t = ''failed'' then ''failed''
       else if \<exists>t \<in> set ts. cr_status t = ''error'' then ''error'' else ''passed'')
    \<and> cr_passes (foldTrials ts) = int (length (filter (\<lambda>t. cr_status t = ''passed'') ts))
    \<and> cr_trials (foldTrials ts) = int (length ts)
    \<and> (cr_unsafe_retry (foldTrials ts) \<longleftrightarrow> (\<exists>t \<in> set ts. cr_unsafe_retry t))
    \<and> cr_agent_refunds (foldTrials ts) = Max (cr_agent_refunds ` set ts)
    \<and> cr_mutations (foldTrials ts) = Max (cr_mutations ` set ts)
    \<and> cr_violations (foldTrials ts) = Max (cr_violations ` set ts)"
proof -
  have "filter passing ts = filter (\<lambda>t. cr_status t = ''passed'') ts"
    using assms(2) by (intro filter_cong) (auto simp: list_all_iff trial_ok_def)
  then show ?thesis
    using assms status_decided [OF assms] by (auto simp: foldTrials_fields fold_max_hd)
qed

definition sample_trial :: "string \<Rightarrow> int \<Rightarrow> case_result" where
  "sample_trial status writes =
     \<lparr>cr_id = ''refund'', cr_category = ''task'', cr_status = status, cr_run = ''R'', cr_model = ''m'',
      cr_failed_checks = [], cr_tool_calls = 3, cr_model_turns = 2, cr_wall_ms = 10, cr_duplicate_refunds = 0,
      cr_agent_refunds = 1, cr_unsafe_retry = False, cr_error = [], cr_passed = (status = ''passed''),
      cr_expect = [], cr_trajectory = [], cr_mutations = writes, cr_violations = 0, cr_trials = 0,
      cr_passes = 0, cr_verdict_trial = 0\<rparr>"

theorem fold_trials_exact_witness:
  "cr_status (foldTrials [sample_trial ''passed'' 1, sample_trial ''error'' 4]) = ''error''
   \<and> cr_mutations (foldTrials [sample_trial ''passed'' 1, sample_trial ''error'' 4]) = 4"
  using fold_trials_exact [of "[sample_trial ''passed'' 1, sample_trial ''error'' 4]"]
  by (simp add: sample_trial_def trial_ok_def)

end
