(* ===== verification/Gate.thy ===== *)
theory Gate
  imports Bench
begin

text \<open>
  The regression gate (\<open>internal/gate/gate.go\<close>): a candidate benchmark report against an
  approved baseline. \<open>rnd\<close> is the rounding of an exact value to a \<open>float64\<close>, applied after
  every floating point operation of the source. The text of a finding's detail, which
  nothing reads, is left out; a finding is its case and its kind.
\<close>

section \<open>Reports, options and findings\<close>

text \<open>The fields of a report that the gate reads.\<close>

record report =
  rp_suite :: string
  rp_version :: int
  rp_content_digest :: string
  rp_cases :: "case_result list"

text \<open>\<open>None\<close> is a tolerance that is not a number.\<close>

record options =
  op_tolerance :: "rat option"
  op_trajectory :: string

datatype kind =
    KindCaseMissing | KindNewlyFailing | KindPassRateDrop | KindControlUndetected | KindExtraMutations
  | KindNewViolation | KindNewUnsafeRetry | KindNewDuplicateRefund | KindCandidateUnmeasured
  | KindTrajectoryChanged | KindCaseAdded | KindBaselineUnmeasured | KindCandidateErrored | KindSuiteChanged
  | KindNewlyPassing | KindControlDetected | KindPassRateImprovement

fun kind_name :: "kind \<Rightarrow> string" where
  "kind_name KindCaseMissing = ''case_missing''"
| "kind_name KindNewlyFailing = ''newly_failing''"
| "kind_name KindPassRateDrop = ''pass_rate_drop''"
| "kind_name KindControlUndetected = ''control_undetected''"
| "kind_name KindExtraMutations = ''extra_mutations''"
| "kind_name KindNewViolation = ''new_violation''"
| "kind_name KindNewUnsafeRetry = ''new_unsafe_retry''"
| "kind_name KindNewDuplicateRefund = ''new_duplicate_refund''"
| "kind_name KindCandidateUnmeasured = ''candidate_unmeasured''"
| "kind_name KindTrajectoryChanged = ''trajectory_changed''"
| "kind_name KindCaseAdded = ''case_added''"
| "kind_name KindBaselineUnmeasured = ''baseline_unmeasured''"
| "kind_name KindCandidateErrored = ''candidate_errored''"
| "kind_name KindSuiteChanged = ''suite_changed''"
| "kind_name KindNewlyPassing = ''newly_passing''"
| "kind_name KindControlDetected = ''control_detected''"
| "kind_name KindPassRateImprovement = ''pass_rate_improved''"

record finding =
  fd_case :: string
  fd_kind :: kind

record verdict =
  vd_passed :: bool
  vd_suite :: string
  vd_regressions :: "finding list"
  vd_warnings :: "finding list"
  vd_improvements :: "finding list"
  vd_compared :: nat
  vd_cases :: "string list"

definition TrajectoryFail :: string where "TrajectoryFail = ''fail''"
definition TrajectoryWarn :: string where "TrajectoryWarn = ''warn''"
definition TrajectoryIgnore :: string where "TrajectoryIgnore = ''ignore''"

lemmas trajectory_modes = TrajectoryFail_def TrajectoryWarn_def TrajectoryIgnore_def

definition rateEpsilon :: rat where "rateEpsilon = 1 / 1000000000"

definition validate_options :: "options \<Rightarrow> unit res" where
  "validate_options o1 =
     (case op_tolerance o1 of None \<Rightarrow> Inl (Err ''tolerance must be between 0 and 1'')
      | Some t \<Rightarrow>
          if t < 0 \<or> t > 1 then Inl (Err ''tolerance must be between 0 and 1'')
          else if op_trajectory o1 \<in> set [[], TrajectoryFail, TrajectoryWarn, TrajectoryIgnore] then Inr ()
          else Inl (Err ''trajectory must be fail, warn or ignore''))"

section \<open>Cases\<close>

definition trials :: "case_result \<Rightarrow> int" where
  "trials c = (if cr_trials c < 1 then 1 else cr_trials c)"

definition passedNothing :: "case_result \<Rightarrow> bool" where
  "passedNothing c \<longleftrightarrow> cr_passes c = 0 \<or> trials c \<le> 1"

definition passRate :: "(rat \<Rightarrow> rat) \<Rightarrow> case_result \<Rightarrow> rat" where
  "passRate rnd c = rnd (rnd (of_int (cr_passes c)) / rnd (of_int (trials c)))"

definition detectionRate :: "(rat \<Rightarrow> rat) \<Rightarrow> case_result \<Rightarrow> rat" where
  "detectionRate rnd c = rnd (rnd (of_int (trials c - cr_passes c)) / rnd (of_int (trials c)))"

definition asExpected :: "case_result \<Rightarrow> bool" where
  "asExpected c = (if cr_status c = ''error'' then False else cr_status c = ''failed'')"

definition checkCase :: "case_result \<Rightarrow> unit res" where
  "checkCase c =
     (if cr_id c = [] then Inl (Err ''a case has no ID'')
      else if cr_status c \<notin> set [''passed'', ''failed'', ''error''] then Inl (Err ''case has an unknown status'')
      else if cr_trials c < 0 then Inl (Err ''case has negative trials'')
      else if cr_passes c < 0 \<or> cr_passes c > max (cr_trials c) 1 then Inl (Err ''case has passes outside its trials'')
      else Inr ())"

text \<open>\<open>out\<close> holds the IDs seen so far.\<close>

fun index_cases :: "string list \<Rightarrow> case_result list \<Rightarrow> unit res" where
  "index_cases out [] = Inr ()"
| "index_cases out (c # cs) =
     bindR (checkCase c) (\<lambda>_.
     if cr_id c \<in> set out then Inl (Err ''the report repeats a case ID'')
     else index_cases (cr_id c # out) cs)"

definition case_of :: "case_result list \<Rightarrow> string \<Rightarrow> case_result option" where
  "case_of cs i = find (\<lambda>c. cr_id c = i) cs"

text \<open>\<open>rate_move\<close> is the shared comparison of two rates: fallen past the tolerance, or risen.\<close>

datatype move = Fell | Rose | Level

definition rate_move :: "(rat \<Rightarrow> rat) \<Rightarrow> rat \<Rightarrow> rat \<Rightarrow> rat \<Rightarrow> move" where
  "rate_move rnd tolerance b c =
     (if c < rnd (rnd (b - tolerance) - rateEpsilon) then Fell
      else if c > rnd (b + rateEpsilon) then Rose else Level)"

datatype severity = Regression | Warn | Improvement

definition compareDetection :: "(rat \<Rightarrow> rat) \<Rightarrow> rat \<Rightarrow> case_result \<Rightarrow> case_result \<Rightarrow> (severity \<times> kind) list" where
  "compareDetection rnd tolerance b c =
     (case rate_move rnd tolerance (detectionRate rnd b) (detectionRate rnd c) of
        Fell \<Rightarrow> [(Regression, KindControlUndetected)] | Rose \<Rightarrow> [(Improvement, KindControlDetected)] | Level \<Rightarrow> [])"

definition compareRate :: "(rat \<Rightarrow> rat) \<Rightarrow> rat \<Rightarrow> case_result \<Rightarrow> case_result \<Rightarrow> (severity \<times> kind) list" where
  "compareRate rnd tolerance b c =
     (case rate_move rnd tolerance (passRate rnd b) (passRate rnd c) of
        Fell \<Rightarrow> [(Regression, KindPassRateDrop)] | Rose \<Rightarrow> [(Improvement, KindPassRateImprovement)] | Level \<Rightarrow> [])"

definition isControl :: "case_result \<Rightarrow> case_result \<Rightarrow> bool" where
  "isControl b c \<longleftrightarrow> cr_expect b = ExpectFail \<and> cr_expect c = ExpectFail"

definition unmeasured :: "bool \<Rightarrow> case_result \<Rightarrow> bool" where
  "unmeasured control x \<longleftrightarrow> cr_status x = ''error'' \<and> (control \<or> passedNothing x)"

definition repeated :: "case_result \<Rightarrow> case_result \<Rightarrow> bool" where
  "repeated b c \<longleftrightarrow> cr_trials b > 1 \<or> cr_trials c > 1"

definition rated :: "bool \<Rightarrow> case_result \<Rightarrow> case_result \<Rightarrow> bool" where
  "rated v2 b c \<longleftrightarrow> \<not> isControl b c \<and> v2 \<and> \<not> unmeasured (isControl b c) c \<and> repeated b c"

definition controlRated :: "bool \<Rightarrow> case_result \<Rightarrow> case_result \<Rightarrow> bool" where
  "controlRated v2 b c \<longleftrightarrow> isControl b c \<and> v2 \<and> cr_status c \<noteq> ''error'' \<and> repeated b c"

text \<open>The outcome of a case: the switch of \<open>compareCase\<close>.\<close>

definition case_outcome :: "(rat \<Rightarrow> rat) \<Rightarrow> rat \<Rightarrow> bool \<Rightarrow> case_result \<Rightarrow> case_result \<Rightarrow> (severity \<times> kind) list" where
  "case_outcome rnd tolerance v2 b c =
     (let cU = unmeasured (isControl b c) c in
      if controlRated v2 b c then compareDetection rnd tolerance b c
      else if isControl b c then
        (if asExpected b \<and> \<not> asExpected c then [(Regression, KindControlUndetected)]
         else if \<not> asExpected b \<and> asExpected c then [(Improvement, KindControlDetected)] else [])
      else if cU \<and> cr_status b = ''passed'' then [(Regression, KindNewlyFailing)]
      else if cU \<and> cr_passes b > 0 then [(Regression, KindCandidateUnmeasured)]
      else if cU then [(Warn, KindCandidateErrored)]
      else if cr_status b = ''passed'' \<and> cr_status c = ''failed'' \<and> \<not> rated v2 b c
      then [(Regression, KindNewlyFailing)]
      else if cr_status b \<noteq> ''passed'' \<and> cr_status c = ''passed'' \<and> \<not> rated v2 b c
      then [(Improvement, KindNewlyPassing)]
      else [])"

text \<open>The facts recorded while a case runs, compared in every version.\<close>

definition case_facts :: "case_result \<Rightarrow> case_result \<Rightarrow> (severity \<times> kind) list" where
  "case_facts b c =
     (if \<not> cr_unsafe_retry b \<and> cr_unsafe_retry c then [(Regression, KindNewUnsafeRetry)] else [])
     @ (if cr_agent_refunds c > cr_agent_refunds b then [(Regression, KindNewDuplicateRefund)] else [])"

fun trajectory_changed :: "step list \<Rightarrow> step list \<Rightarrow> bool" where
  "trajectory_changed (b # bs) (c # cs) \<longleftrightarrow> b \<noteq> c \<or> trajectory_changed bs cs"
| "trajectory_changed [] [] \<longleftrightarrow> False"
| "trajectory_changed _ _ \<longleftrightarrow> True"

text \<open>The comparison of what only a version 2 report carries.\<close>

definition case_counters ::
    "(rat \<Rightarrow> rat) \<Rightarrow> rat \<Rightarrow> string \<Rightarrow> bool \<Rightarrow> case_result \<Rightarrow> case_result \<Rightarrow> (severity \<times> kind) list" where
  "case_counters rnd tolerance trajectory v2 b c =
     (if \<not> v2 \<or> unmeasured (isControl b c) c then []
      else (if cr_mutations c > cr_mutations b then [(Regression, KindExtraMutations)] else [])
        @ (if cr_violations c > cr_violations b then [(Regression, KindNewViolation)] else [])
        @ (if rated v2 b c then compareRate rnd tolerance b c else [])
        @ (if trajectory \<noteq> TrajectoryIgnore \<and> cr_status b \<noteq> ''error'' \<and> cr_status c \<noteq> ''error''
             \<and> trajectory_changed (cr_trajectory b) (cr_trajectory c)
           then [(if trajectory = TrajectoryFail then Regression else Warn, KindTrajectoryChanged)] else []))"

definition compareCase ::
    "(rat \<Rightarrow> rat) \<Rightarrow> rat \<Rightarrow> string \<Rightarrow> bool \<Rightarrow> case_result \<Rightarrow> case_result \<Rightarrow> (severity \<times> kind) list" where
  "compareCase rnd tolerance trajectory v2 b c =
     (if unmeasured (isControl b c) b then [(Warn, KindBaselineUnmeasured)]
      else case_outcome rnd tolerance v2 b c
        @ (if cr_status c = ''error'' \<and> \<not> unmeasured (isControl b c) c \<and> \<not> isControl b c
           then [(Warn, KindCandidateErrored)] else [])
        @ case_facts b c @ case_counters rnd tolerance trajectory v2 b c)"

section \<open>Reports\<close>

definition sortFindings :: "finding list \<Rightarrow> finding list" where
  "sortFindings f = sort_key (\<lambda>x. (fd_case x, kind_name (fd_kind x))) f"

definition of_severity :: "severity \<Rightarrow> (severity \<times> finding) list \<Rightarrow> finding list" where
  "of_severity s fs = map snd (filter (\<lambda>x. fst x = s) fs)"

definition at_case :: "string \<Rightarrow> (severity \<times> kind) list \<Rightarrow> (severity \<times> finding) list" where
  "at_case i ks = map (\<lambda>(s, k). (s, \<lparr>fd_case = i, fd_kind = k\<rparr>)) ks"

definition compare_id ::
    "(rat \<Rightarrow> rat) \<Rightarrow> rat \<Rightarrow> string \<Rightarrow> bool \<Rightarrow> case_result list \<Rightarrow> case_result list \<Rightarrow> string \<Rightarrow> (severity \<times> finding) list" where
  "compare_id rnd tolerance trajectory v2 base cand i =
     (case (case_of base i, case_of cand i) of
        (_, None) \<Rightarrow> at_case i [(Regression, KindCaseMissing)]
      | (None, Some c) \<Rightarrow> at_case i [(Warn, KindCaseAdded)]
      | (Some b, Some c) \<Rightarrow> at_case i (compareCase rnd tolerance trajectory v2 b c))"

definition measured :: "case_result \<Rightarrow> bool" where
  "measured c \<longleftrightarrow> \<not> (cr_status c = ''error'' \<and> passedNothing c)"

definition suite_changed :: "bool \<Rightarrow> report \<Rightarrow> report \<Rightarrow> bool" where
  "suite_changed v2 baseline candidate \<longleftrightarrow>
     v2 \<and> rp_content_digest baseline \<noteq> [] \<and> rp_content_digest candidate \<noteq> []
     \<and> rp_content_digest baseline \<noteq> rp_content_digest candidate"

definition compare_reports :: "(rat \<Rightarrow> rat) \<Rightarrow> report \<Rightarrow> report \<Rightarrow> rat \<Rightarrow> string \<Rightarrow> verdict" where
  "compare_reports rnd baseline candidate tolerance trajectory =
     (let v2 = (rp_version baseline \<ge> 2 \<and> rp_version candidate \<ge> 2);
          base = rp_cases baseline; cand = rp_cases candidate;
          ids = sort (remdups (map cr_id base @ map cr_id cand));
          found = (if suite_changed v2 baseline candidate then at_case [] [(Warn, KindSuiteChanged)] else [])
            @ concat (map (compare_id rnd tolerance trajectory v2 base cand) ids)
      in \<lparr>vd_passed = (of_severity Regression found = []), vd_suite = rp_suite baseline,
          vd_regressions = sortFindings (of_severity Regression found),
          vd_warnings = sortFindings (of_severity Warn found),
          vd_improvements = sortFindings (of_severity Improvement found),
          vd_compared = length (filter (\<lambda>i. case_of base i \<noteq> None \<and> case_of cand i \<noteq> None) ids),
          vd_cases = ids\<rparr>)"

definition Compare :: "(rat \<Rightarrow> rat) \<Rightarrow> report \<Rightarrow> report \<Rightarrow> options \<Rightarrow> verdict res" where
  "Compare rnd baseline candidate opts =
     bindR (validate_options opts) (\<lambda>_.
     if rp_suite baseline \<noteq> rp_suite candidate then Inl (Err ''suite mismatch'')
     else if rp_cases baseline = [] then Inl (Err ''the baseline has no cases'')
     else if \<not> list_ex measured (rp_cases baseline) then Inl (Err ''the baseline has no case that reached a verdict'')
     else bindR (index_cases [] (rp_cases baseline)) (\<lambda>_.
          bindR (index_cases [] (rp_cases candidate)) (\<lambda>_.
          Inr (compare_reports rnd baseline candidate (the (op_tolerance opts))
                 (if op_trajectory opts = [] then TrajectoryWarn else op_trajectory opts)))))"

section \<open>What the checks establish\<close>

lemma checkCase_ok:
  "checkCase c = Inr () \<longleftrightarrow>
     cr_id c \<noteq> [] \<and> (cr_status c = ''passed'' \<or> cr_status c = ''failed'' \<or> cr_status c = ''error'')
     \<and> 0 \<le> cr_trials c \<and> 0 \<le> cr_passes c \<and> cr_passes c \<le> max (cr_trials c) 1"
  by (auto simp: checkCase_def split: if_splits)

lemma index_cases_ok:
  "index_cases out cs = Inr () \<longleftrightarrow>
     (\<forall>c \<in> set cs. checkCase c = Inr ()) \<and> distinct (map cr_id cs) \<and> set (map cr_id cs) \<inter> set out = {}"
  by (induction cs arbitrary: out) auto

lemma Compare_ok:
  "Compare rnd baseline candidate opts = Inr v \<longleftrightarrow>
     validate_options opts = Inr () \<and> rp_suite baseline = rp_suite candidate
     \<and> list_ex measured (rp_cases baseline)
     \<and> index_cases [] (rp_cases baseline) = Inr () \<and> index_cases [] (rp_cases candidate) = Inr ()
     \<and> v = compare_reports rnd baseline candidate (the (op_tolerance opts))
             (if op_trajectory opts = [] then TrajectoryWarn else op_trajectory opts)"
  by (cases "rp_cases baseline = []") (auto simp: Compare_def)

lemma case_of_unique:
  assumes "distinct (map cr_id cs)" and "c \<in> set cs"
  shows "case_of cs (cr_id c) = Some c"
  using assms by (induction cs) (auto simp: case_of_def)

lemma case_of_Some: "case_of cs i = Some c \<Longrightarrow> c \<in> set cs \<and> cr_id c = i"
  by (auto simp: case_of_def find_Some_iff)

lemma case_of_None: "case_of cs i = None \<longleftrightarrow> i \<notin> cr_id ` set cs"
  by (auto simp: case_of_def find_None_iff)

lemma of_severity_set: "f \<in> set (of_severity s fs) \<longleftrightarrow> (s, f) \<in> set fs"
  by (force simp: of_severity_def)

lemma of_severity_empty: "of_severity s fs = [] \<longleftrightarrow> (\<forall>f. (s, f) \<notin> set fs)"
  using of_severity_set [of _ s fs] by (metis empty_iff empty_set list.set_intros(1) neq_Nil_conv)

lemma at_case_set: "(s, f) \<in> set (at_case i ks) \<longleftrightarrow> (\<exists>k. (s, k) \<in> set ks \<and> f = \<lparr>fd_case = i, fd_kind = k\<rparr>)"
  by (force simp: at_case_def)

lemma passed_case:
  assumes "vd_passed (compare_reports rnd baseline candidate tolerance trajectory)"
    and "distinct (map cr_id (rp_cases baseline))" and "b \<in> set (rp_cases baseline)"
  obtains c where "c \<in> set (rp_cases candidate)" and "cr_id c = cr_id b"
    and "\<And>k. (Regression, k) \<notin> set (compareCase rnd tolerance trajectory
              (rp_version baseline \<ge> 2 \<and> rp_version candidate \<ge> 2) b c)"
proof -
  let ?v2 = "rp_version baseline \<ge> 2 \<and> rp_version candidate \<ge> 2"
  let ?at = "compare_id rnd tolerance trajectory ?v2 (rp_cases baseline) (rp_cases candidate) (cr_id b)"
  have none: "(Regression, f) \<notin> set ?at" for f
    using assms(1,3) by (auto simp: compare_reports_def Let_def of_severity_empty)
  have b: "case_of (rp_cases baseline) (cr_id b) = Some b" by (rule case_of_unique [OF assms(2,3)])
  show thesis
  proof (cases "case_of (rp_cases candidate) (cr_id b)")
    case None
    then show thesis using none [of "\<lparr>fd_case = cr_id b, fd_kind = KindCaseMissing\<rparr>"] b
      by (simp add: compare_id_def at_case_def)
  next
    case (Some c)
    then have "(Regression, k) \<notin> set (compareCase rnd tolerance trajectory ?v2 b c)" for k
      using none [of "\<lparr>fd_case = cr_id b, fd_kind = k\<rparr>"] b by (auto simp: compare_id_def at_case_set)
    then show thesis using case_of_Some [OF Some] by (intro that [of c]) auto
  qed
qed


lemma index_cases_perm:
  assumes "mset cs' = mset cs"
  shows "index_cases [] cs' = Inr () \<longleftrightarrow> index_cases [] cs = Inr ()"
proof -
  have "set cs' = set cs" by (rule mset_eq_setD [OF assms])
  moreover have "distinct (map cr_id cs') \<longleftrightarrow> distinct (map cr_id cs)"
    by (rule mset_eq_imp_distinct_iff) (simp add: assms)
  ultimately show ?thesis by (simp add: index_cases_ok)
qed

lemma case_of_perm:
  assumes "mset cs' = mset cs" and "distinct (map cr_id cs)"
  shows "case_of cs' = case_of cs"
proof
  fix i
  have d: "distinct (map cr_id cs')"
    using assms(2) mset_eq_imp_distinct_iff [of "map cr_id cs'" "map cr_id cs"] by (simp add: assms(1))
  have sets: "set cs' = set cs" by (rule mset_eq_setD [OF assms(1)])
  show "case_of cs' i = case_of cs i"
  proof (cases "case_of cs i")
    case None
    then have "i \<notin> cr_id ` set cs'" using sets by (simp add: case_of_None)
    then show ?thesis using None case_of_None [of cs' i] by simp
  next
    case (Some c)
    then have "c \<in> set cs'" "cr_id c = i" using case_of_Some [OF Some] sets by auto
    then show ?thesis using case_of_unique [OF d] Some by auto
  qed
qed

lemma sort_remdups_set: "set xs = set ys \<Longrightarrow> sort (remdups xs) = sort (remdups ys)"
  by (metis sorted_list_of_set_sort_remdups)

text \<open>
  The verdict of the gate does not depend on the order in which either report lists its
  cases: rearranging them gives the same findings in the same order.
\<close>

theorem gate_order_free:
  assumes "Compare rnd baseline candidate opts = Inr v"
    and "mset bs = mset (rp_cases baseline)" and "mset cs = mset (rp_cases candidate)"
  shows "Compare rnd (baseline\<lparr>rp_cases := bs\<rparr>) (candidate\<lparr>rp_cases := cs\<rparr>) opts = Inr v"
proof -
  from assms(1) have ok: "index_cases [] (rp_cases baseline) = Inr ()" "index_cases [] (rp_cases candidate) = Inr ()"
    by (auto simp: Compare_ok)
  then have same: "case_of bs = case_of (rp_cases baseline)" "case_of cs = case_of (rp_cases candidate)"
    using assms(2,3) by (auto intro!: case_of_perm simp: index_cases_ok)
  have sets: "set bs = set (rp_cases baseline)" "set cs = set (rp_cases candidate)"
    using assms(2,3) mset_eq_setD by blast+
  then have ids: "sort (remdups (map cr_id bs @ map cr_id cs))
      = sort (remdups (map cr_id (rp_cases baseline) @ map cr_id (rp_cases candidate)))"
    by (intro sort_remdups_set) simp
  have found: "compare_id rnd t tr v2 bs cs = compare_id rnd t tr v2 (rp_cases baseline) (rp_cases candidate)" for t tr v2
    by (rule ext) (simp only: compare_id_def same)
  have "compare_reports rnd (baseline\<lparr>rp_cases := bs\<rparr>) (candidate\<lparr>rp_cases := cs\<rparr>) t tr
      = compare_reports rnd baseline candidate t tr" for t tr
    by (simp add: compare_reports_def Let_def suite_changed_def ids found same)
  moreover have "list_ex measured bs \<longleftrightarrow> list_ex measured (rp_cases baseline)"
    using sets by (simp add: list_ex_iff)
  ultimately show ?thesis
    using assms(1) by (simp add: Compare_ok index_cases_perm [OF assms(2)] index_cases_perm [OF assms(3)])
qed

lemma rate_move_level:
  assumes "mono rnd" and "\<And>x. rnd (rnd x) = rnd x" and "0 \<le> tolerance" and "rnd r = r"
  shows "rate_move rnd tolerance r r = Level"
proof -
  have le: "rnd x \<le> rnd y" if "x \<le> y" for x y using assms(1) that by (rule monoD)
  have e: "0 \<le> rateEpsilon" by (simp add: rateEpsilon_def)
  have "rnd (r - tolerance) \<le> r" using le [of "r - tolerance" r] assms(3,4) by simp
  then have "rnd (r - tolerance) - rateEpsilon \<le> r" using e by simp
  then have "rnd (rnd (r - tolerance) - rateEpsilon) \<le> r" using le [of _ r] assms(4) by force
  moreover have "r \<le> rnd (r + rateEpsilon)" using le [of r "r + rateEpsilon"] e assms(4) by simp
  ultimately show ?thesis by (simp add: rate_move_def)
qed

lemma trajectory_same [simp]: "\<not> trajectory_changed t t"
  by (induction t) auto

lemma compareCase_self:
  assumes "mono rnd" and "\<And>x. rnd (rnd x) = rnd x" and "0 \<le> tolerance"
  shows "set (compareCase rnd tolerance trajectory v2 c c)
    \<subseteq> {(Warn, KindBaselineUnmeasured), (Warn, KindCandidateErrored)}"
proof -
  note level = rate_move_level [OF assms]
  have "rnd (passRate rnd c) = passRate rnd c" "rnd (detectionRate rnd c) = detectionRate rnd c"
    by (simp_all add: passRate_def detectionRate_def assms(2))
  then have rates: "compareRate rnd tolerance c c = []" "compareDetection rnd tolerance c c = []"
    by (simp_all add: compareRate_def compareDetection_def level)
  show ?thesis
    by (auto simp: compareCase_def case_outcome_def case_facts_def case_counters_def Let_def rates split: if_splits)
qed

text \<open>
  A report measured against itself passes: no regression and no improvement is found, and
  the only warnings name cases without a verdict. \<open>rnd\<close> is any rounding that is monotone and
  leaves what it has rounded alone, as rounding to the nearest \<open>float64\<close> is.
\<close>

theorem gate_reflexive:
  assumes "Compare rnd r r opts = Inr v" and "mono rnd" and "\<forall>x. rnd (rnd x) = rnd x"
  shows "vd_passed v \<and> vd_regressions v = [] \<and> vd_improvements v = []
    \<and> (\<forall>f \<in> set (vd_warnings v). fd_kind f = KindBaselineUnmeasured \<or> fd_kind f = KindCandidateErrored)"
proof -
  let ?v2 = "rp_version r \<ge> 2 \<and> rp_version r \<ge> 2"
  let ?t = "the (op_tolerance opts)"
  let ?tr = "if op_trajectory opts = [] then TrajectoryWarn else op_trajectory opts"
  from assms(1) have v: "v = compare_reports rnd r r ?t ?tr" and "validate_options opts = Inr ()"
    by (auto simp: Compare_ok)
  then have t: "0 \<le> ?t" by (auto simp: validate_options_def split: option.splits if_splits)
  let ?found = "concat (map (compare_id rnd ?t ?tr ?v2 (rp_cases r) (rp_cases r))
      (sort (remdups (map cr_id (rp_cases r) @ map cr_id (rp_cases r)))))"
  have one: "s = Warn \<and> (fd_kind f = KindBaselineUnmeasured \<or> fd_kind f = KindCandidateErrored)"
    if "(s, f) \<in> set ?found" for s f
  proof -
    from that obtain i where i: "i \<in> cr_id ` set (rp_cases r)"
      and f: "(s, f) \<in> set (compare_id rnd ?t ?tr ?v2 (rp_cases r) (rp_cases r) i)" by auto
    from i obtain c where "case_of (rp_cases r) i = Some c" using case_of_None [of "rp_cases r" i] by auto
    with f obtain k where "(s, k) \<in> set (compareCase rnd ?t ?tr ?v2 c c)" "fd_kind f = k"
      by (auto simp: compare_id_def at_case_set)
    then show ?thesis using compareCase_self [OF assms(2) _ t, of ?tr ?v2 c] assms(3) by auto
  qed
  have "(Regression, f) \<notin> set ?found" "(Improvement, f) \<notin> set ?found" for f
    by (blast dest: one)+
  then have "of_severity Regression ?found = []" "of_severity Improvement ?found = []"
    by (simp_all only: of_severity_empty simp_thms)
  moreover have "fd_kind f = KindBaselineUnmeasured \<or> fd_kind f = KindCandidateErrored"
    if "f \<in> set (of_severity Warn ?found)" for f
    using one [OF that [unfolded of_severity_set]] by (rule conjunct2)
  ultimately show ?thesis
    unfolding v by (simp add: compare_reports_def Let_def suite_changed_def sortFindings_def)
qed

text \<open>
  The gate accepts every case the benchmark writes: a case folded from trials that each
  reached one of the three statuses has a known status and a pass count within its trials.
\<close>

theorem folded_case_accepted:
  assumes "ts \<noteq> []" and "list_all trial_ok ts" and "cr_id (hd ts) \<noteq> []"
  shows "checkCase (foldTrials ts) = Inr ()"
proof -
  have "cr_passes (foldTrials ts) \<le> cr_trials (foldTrials ts)" by (simp add: foldTrials_fields)
  moreover have "cr_id (foldTrials ts) \<noteq> []" "0 \<le> cr_passes (foldTrials ts)" "0 \<le> cr_trials (foldTrials ts)"
    using assms(3) by (simp_all add: foldTrials_fields)
  ultimately show ?thesis using status_decided [OF assms(1,2)] by (simp add: checkCase_ok le_max_iff_disj)
qed

section \<open>Witnesses\<close>

definition sample_folded :: "string \<Rightarrow> case_result" where
  "sample_folded status = foldTrials [sample_trial ''passed'' 1, sample_trial status 1]"

lemma sample_folded_fields:
  "cr_id (sample_folded status) = ''refund''" "cr_status (sample_folded status) = status"
  "cr_trials (sample_folded status) = 2" "cr_passes (sample_folded status) = (if status = ''passed'' then 2 else 1)"
  "cr_unsafe_retry (sample_folded status) = False" "cr_agent_refunds (sample_folded status) = 1"
  "cr_mutations (sample_folded status) = 1" "cr_violations (sample_folded status) = 0"
  "cr_expect (sample_folded status) = []" "cr_trajectory (sample_folded status) = []"
  by (simp_all add: sample_folded_def sample_trial_def foldTrials_def fold_start_def fold_trial_def Let_def)

definition sample_report :: "int \<Rightarrow> string \<Rightarrow> report" where
  "sample_report version status =
     \<lparr>rp_suite = ''core'', rp_version = version, rp_content_digest = [], rp_cases = [sample_folded status]\<rparr>"

definition sample_options :: options where
  "sample_options = \<lparr>op_tolerance = Some 0, op_trajectory = []\<rparr>"

lemma sample_Compare:
  assumes "status \<in> {''passed'', ''failed'', ''error''}"
  shows "Compare rnd (sample_report n ''passed'') (sample_report m status) sample_options
    = Inr (compare_reports rnd (sample_report n ''passed'') (sample_report m status) 0 TrajectoryWarn)"
  using assms
  by (auto simp: Compare_ok sample_report_def sample_options_def validate_options_def index_cases_ok checkCase_ok
      measured_def sample_folded_fields)

lemma sample_passed:
  "vd_passed (compare_reports rnd (sample_report n ''passed'') (sample_report m status) 0 TrajectoryWarn) \<longleftrightarrow>
     (\<forall>k. (Regression, k) \<notin> set (compareCase rnd 0 TrajectoryWarn (n \<ge> 2 \<and> m \<ge> 2) (sample_folded ''passed'') (sample_folded status)))"
  by (auto simp: compare_reports_def sample_report_def Let_def suite_changed_def compare_id_def case_of_def
      sample_folded_fields of_severity_empty at_case_set)

lemmas compare_eval = compareCase_def case_outcome_def case_facts_def case_counters_def unmeasured_def isControl_def
  controlRated_def repeated_def rated_def passedNothing_def trials_def ExpectFail_def sample_folded_fields
  compareRate_def rate_move_def rateEpsilon_def

lemma sample_gate_passed: "vd_passed (compare_reports id (sample_report 2 ''passed'') (sample_report 2 ''passed'') 0 TrajectoryWarn)"
  by (simp add: sample_passed compare_eval)


theorem gate_order_free_witness:
  "Compare id (sample_report 2 ''passed''\<lparr>rp_cases := [sample_folded ''passed'']\<rparr>)
       (sample_report 2 ''failed''\<lparr>rp_cases := [sample_folded ''failed'']\<rparr>) sample_options
   = Compare id (sample_report 2 ''passed'') (sample_report 2 ''failed'') sample_options"
proof -
  have "Compare id (sample_report 2 ''passed'') (sample_report 2 ''failed'') sample_options
    = Inr (compare_reports id (sample_report 2 ''passed'') (sample_report 2 ''failed'') 0 TrajectoryWarn)"
    by (rule sample_Compare) simp
  from gate_order_free [OF this, of "[sample_folded ''passed'']" "[sample_folded ''failed'']"] this show ?thesis
    by (simp add: sample_report_def)
qed

theorem gate_reflexive_witness:
  "\<exists>v. Compare id (sample_report 2 ''passed'') (sample_report 2 ''passed'') sample_options = Inr v \<and> vd_passed v"
proof -
  have c: "Compare id (sample_report 2 ''passed'') (sample_report 2 ''passed'') sample_options
    = Inr (compare_reports id (sample_report 2 ''passed'') (sample_report 2 ''passed'') 0 TrajectoryWarn)"
    by (rule sample_Compare) simp
  have "mono (id :: rat \<Rightarrow> rat)" by (simp add: mono_def)
  from gate_reflexive [OF c this] c show ?thesis by simp
qed

theorem folded_case_accepted_witness: "checkCase (foldTrials [sample_trial ''error'' 2]) = Inr ()"
  by (rule folded_case_accepted) (simp_all add: sample_trial_def trial_ok_def)


end
