(* ===== verification/Tables.thy ===== *)
theory Tables
  imports Samples
begin

text \<open>
  The world tables read by name, as queries assembled from column names read them
  (\<open>internal/assertion\<close>, \<open>internal/replay\<close>): the columns of each table with their kinds, and
  the rows of a world as cells under those columns. Every row has the columns its table
  declares, of the declared kinds.
\<close>

datatype column_kind = TextColumn | IntColumn

datatype cell = CText string | CInt int

fun cell_kind :: "cell \<Rightarrow> column_kind" where
  "cell_kind (CText _) = TextColumn"
| "cell_kind (CInt _) = IntColumn"

text \<open>\<open>fmt.Sprint\<close> of a column's value.\<close>

fun cell_text :: "cell \<Rightarrow> string" where
  "cell_text (CText s) = s"
| "cell_text (CInt i) = show_int i"

text \<open>The allowlist of \<open>assertion/schema.go\<close>.\<close>

definition world_columns :: "(string \<times> (string \<times> column_kind) list) list" where
  "world_columns = [
     (''customers'', [(''id'', TextColumn), (''name'', TextColumn)]),
     (''invoices'', [(''id'', TextColumn), (''customer_id'', TextColumn), (''amount_cents'', IntColumn), (''subscription_id'', TextColumn)]),
     (''charges'', [(''id'', TextColumn), (''invoice_id'', TextColumn), (''amount_cents'', IntColumn), (''refunded_cents'', IntColumn), (''created_at'', TextColumn)]),
     (''refunds'', [(''id'', TextColumn), (''charge_id'', TextColumn), (''amount_cents'', IntColumn), (''reason'', TextColumn), (''created_at'', TextColumn)]),
     (''subscriptions'', [(''id'', TextColumn), (''customer_id'', TextColumn), (''status'', TextColumn), (''plan'', TextColumn)]),
     (''crm_accounts'', [(''id'', TextColumn), (''customer_id'', TextColumn), (''status'', TextColumn), (''representative_id'', TextColumn)]),
     (''crm_contacts'', [(''id'', TextColumn), (''account_id'', TextColumn), (''name'', TextColumn), (''email'', TextColumn)]),
     (''crm_notes'', [(''id'', TextColumn), (''account_id'', TextColumn), (''body'', TextColumn), (''created_at'', TextColumn)]),
     (''ticket_projects'', [(''id'', TextColumn), (''key'', TextColumn), (''name'', TextColumn)]),
     (''ticket_issues'', [(''id'', TextColumn), (''project_id'', TextColumn), (''account_id'', TextColumn), (''title'', TextColumn), (''status'', TextColumn), (''priority'', TextColumn)]),
     (''ticket_comments'', [(''id'', TextColumn), (''issue_id'', TextColumn), (''body'', TextColumn), (''created_at'', TextColumn)]),
     (''message_workspaces'', [(''id'', TextColumn), (''name'', TextColumn)]),
     (''message_channels'', [(''id'', TextColumn), (''workspace_id'', TextColumn), (''name'', TextColumn)]),
     (''message_members'', [(''channel_id'', TextColumn), (''principal_id'', TextColumn)]),
     (''message_messages'', [(''id'', TextColumn), (''channel_id'', TextColumn), (''body'', TextColumn), (''created_at'', TextColumn)])]"

definition columns_of :: "string \<Rightarrow> (string \<times> column_kind) list option" where
  "columns_of table = map_of world_columns table"

text \<open>A row: its world and its cells, in the order of the columns.\<close>

type_synonym cells = "string \<times> cell list"

definition cu_cells :: "customer_row \<Rightarrow> cells" where
  "cu_cells r = (cu_world r, [CText (cu_id r), CText (cu_name r)])"

definition in_cells :: "invoice_row \<Rightarrow> cells" where
  "in_cells r = (in_world r, [CText (in_id r), CText (in_customer r), CInt (in_amount r), CText (in_subscription r)])"

definition ch_cells :: "charge_row \<Rightarrow> cells" where
  "ch_cells r = (ch_world r, [CText (ch_id r), CText (ch_invoice r), CInt (ch_amount r), CInt (ch_refunded r), CText (ch_created r)])"

definition rf_cells :: "refund_row \<Rightarrow> cells" where
  "rf_cells r = (rf_world r, [CText (rf_id r), CText (rf_charge r), CInt (rf_amount r), CText (rf_reason r), CText (rf_created r)])"

definition su_cells :: "subscription_row \<Rightarrow> cells" where
  "su_cells r = (su_world r, [CText (su_id r), CText (su_customer r), CText (su_status r), CText (su_plan r)])"

definition ac_cells :: "account_row \<Rightarrow> cells" where
  "ac_cells r = (ac_world r, [CText (ac_id r), CText (ac_customer r), CText (ac_status r), CText (ac_rep r)])"

definition ct_cells :: "contact_row \<Rightarrow> cells" where
  "ct_cells r = (ct_world r, [CText (ct_id r), CText (ct_account r), CText (ct_name r), CText (ct_email r)])"

definition no_cells :: "note_row \<Rightarrow> cells" where
  "no_cells r = (no_world r, [CText (no_id r), CText (no_account r), CText (no_body r), CText (no_created r)])"

definition pj_cells :: "project_row \<Rightarrow> cells" where
  "pj_cells r = (pj_world r, [CText (pj_id r), CText (pj_key r), CText (pj_name r)])"

definition is_cells :: "issue_row \<Rightarrow> cells" where
  "is_cells r = (is_world r, [CText (is_id r), CText (is_project r), CText (is_account r), CText (is_title r), CText (is_status r), CText (is_priority r)])"

definition cm_cells :: "comment_row \<Rightarrow> cells" where
  "cm_cells r = (cm_world r, [CText (cm_id r), CText (cm_issue r), CText (cm_body r), CText (cm_created r)])"

definition wk_cells :: "workspace_row \<Rightarrow> cells" where
  "wk_cells r = (wk_world r, [CText (wk_id r), CText (wk_name r)])"

definition cn_cells :: "channel_row \<Rightarrow> cells" where
  "cn_cells r = (cn_world r, [CText (cn_id r), CText (cn_workspace r), CText (cn_name r)])"

definition me_cells :: "member_row \<Rightarrow> cells" where
  "me_cells r = (me_world r, [CText (me_channel r), CText (me_principal r)])"

definition ms_cells :: "message_row \<Rightarrow> cells" where
  "ms_cells r = (ms_world r, [CText (ms_id r), CText (ms_channel r), CText (ms_body r), CText (ms_created r)])"

lemmas cells_defs = cu_cells_def in_cells_def ch_cells_def rf_cells_def su_cells_def ac_cells_def ct_cells_def no_cells_def pj_cells_def is_cells_def cm_cells_def wk_cells_def cn_cells_def me_cells_def ms_cells_def

definition all_rows :: "world_tables \<Rightarrow> (string \<times> cells list) list" where
  "all_rows w = [
     (''customers'', map cu_cells (customers w)),
     (''invoices'', map in_cells (invoices w)),
     (''charges'', map ch_cells (charges w)),
     (''refunds'', map rf_cells (refunds w)),
     (''subscriptions'', map su_cells (subscriptions w)),
     (''crm_accounts'', map ac_cells (crm_accounts w)),
     (''crm_contacts'', map ct_cells (crm_contacts w)),
     (''crm_notes'', map no_cells (crm_notes w)),
     (''ticket_projects'', map pj_cells (ticket_projects w)),
     (''ticket_issues'', map is_cells (ticket_issues w)),
     (''ticket_comments'', map cm_cells (ticket_comments w)),
     (''message_workspaces'', map wk_cells (message_workspaces w)),
     (''message_channels'', map cn_cells (message_channels w)),
     (''message_members'', map me_cells (message_members w)),
     (''message_messages'', map ms_cells (message_messages w))]"

definition rows_of :: "world_tables \<Rightarrow> string \<Rightarrow> string \<Rightarrow> cell list list option" where
  "rows_of w worldID table = map_option (\<lambda>rs. map snd (filter (\<lambda>r. fst r = worldID) rs)) (map_of (all_rows w) table)"

definition column_index :: "(string \<times> column_kind) list \<Rightarrow> string \<Rightarrow> nat option" where
  "column_index cols column = map_option fst (find (\<lambda>p. fst (snd p) = column) (enumerate 0 cols))"

text \<open>The cell of a row under a column; a query on an unknown name is an error.\<close>

definition cell_at :: "string \<Rightarrow> string \<Rightarrow> cell list \<Rightarrow> cell option" where
  "cell_at table column row =
     (case columns_of table of None \<Rightarrow> None
      | Some cols \<Rightarrow> (case column_index cols column of None \<Rightarrow> None
          | Some i \<Rightarrow> if i < length row then Some (row ! i) else None))"

section \<open>Rows have the columns of their table\<close>

lemma known_table: "columns_of table = Some cols \<Longrightarrow> table \<in> set (map fst world_columns)"
  unfolding columns_of_def by (drule map_of_SomeD) force

lemma rows_kinds:
  assumes "columns_of table = Some cols" and "rows_of w worldID table = Some rows" and "row \<in> set rows"
  shows "map cell_kind row = map snd cols"
proof -
  have "table \<in> set (map fst world_columns)"
    by (rule known_table [OF assms(1)])
  then show ?thesis
    using assms unfolding world_columns_def list.map prod.sel set_simps
    by (elim insertE emptyE) (auto simp: columns_of_def world_columns_def rows_of_def all_rows_def cells_defs)
qed

lemma rows_known: "columns_of table = Some cols \<Longrightarrow> \<exists>rows. rows_of w worldID table = Some rows"
proof -
  assume "columns_of table = Some cols"
  then have "table \<in> set (map fst world_columns)" by (rule known_table)
  also have "map fst world_columns = map fst (all_rows w)" by (simp add: world_columns_def all_rows_def)
  finally have "map_of (all_rows w) table \<noteq> None" by (simp add: map_of_eq_None_iff)
  then show ?thesis by (auto simp: rows_of_def)
qed

lemma column_index_known:
  assumes "map_of cols column = Some k"
  obtains i where "column_index cols column = Some i" and "i < length cols" and "snd (cols ! i) = k"
proof -
  have "\<exists>i. map_option fst (find (\<lambda>p. fst (snd p) = column) (enumerate n cols)) = Some (n + i)
      \<and> i < length cols \<and> snd (cols ! i) = k" for n
    using assms
  proof (induction cols arbitrary: n)
    case (Cons c cols)
    show ?case
    proof (cases "fst c = column")
      case True
      then show ?thesis using Cons.prems by (cases c) (auto intro!: exI [of _ 0])
    next
      case False
      then have "map_of cols column = Some k" using Cons.prems by (cases c) auto
      from Cons.IH [OF this, of "Suc n"] obtain i where
        "map_option fst (find (\<lambda>p. fst (snd p) = column) (enumerate (Suc n) cols)) = Some (Suc n + i)"
        "i < length cols" "snd (cols ! i) = k" by blast
      then show ?thesis using False by (auto intro!: exI [of _ "Suc i"])
    qed
  qed simp
  from this [of 0] show thesis by (auto simp: column_index_def intro: that)
qed

lemma cell_known:
  assumes "columns_of table = Some cols" and "map_of cols column = Some k"
    and "rows_of w worldID table = Some rows" and "row \<in> set rows"
  obtains c where "cell_at table column row = Some c" and "cell_kind c = k"
proof -
  have kinds: "map cell_kind row = map snd cols" by (rule rows_kinds [OF assms(1,3,4)])
  then have len: "length row = length cols" by (metis length_map)
  obtain i where i: "column_index cols column = Some i" "i < length cols" "snd (cols ! i) = k"
    by (rule column_index_known [OF assms(2)])
  have "cell_kind (row ! i) = k" using kinds i len by (metis nth_map)
  then show thesis using i len assms(1) by (intro that [of "row ! i"]) (simp_all add: cell_at_def)
qed

section \<open>Types of stored cells\<close>


definition priced :: world_tables where
  "priced = empty_world\<lparr>charges := [\<lparr>ch_world = ''W'', ch_id = ''CH-1001'', ch_invoice = ''I'', ch_amount = 500,
     ch_refunded = 0, ch_created = ''t''\<rparr>]\<rparr>"


end
