(* ===== verification/Assertions.thy ===== *)
theory Assertions
  imports Tables Bench Dispatch
begin

text \<open>
  Assertions about a run (\<open>internal/assertion\<close>): the canonical form of an assertion and its
  validation against the table allowlist and the manifest (\<open>normalize\<close> in \<open>parse.go\<close>), and
  the evaluation of each type against a world and a ledger (\<open>check.go\<close>, \<open>ledger.go\<close>). Reading
  the YAML document is not modelled: a raw assertion is the decoded record.
\<close>

section \<open>Assertions\<close>

datatype condition = Equals val | Contains string

record count =
  ct_op :: string
  ct_n :: int

record ref =
  rr_table :: string
  rr_row :: string
  rr_field :: string

record event_match =
  em_type :: string
  em_where :: "(string \<times> val) list"

record assertion =
  as_declared :: string
  as_id :: string
  as_type :: string
  as_table :: string
  as_where :: "(string \<times> condition) list"
  as_count :: "count option"
  as_entity :: "ref option"
  as_field :: string
  as_value :: val
  as_value_from :: "ref option"
  as_references :: string
  as_event :: "event_match option"
  as_first :: "event_match option"
  as_then :: "event_match option"
  as_service :: string
  as_operation :: string
  as_name :: string

definition blank_assertion :: "string \<Rightarrow> string \<Rightarrow> assertion" where
  "blank_assertion i typ =
     \<lparr>as_declared = typ, as_id = i, as_type = typ, as_table = [], as_where = [], as_count = None, as_entity = None,
      as_field = [], as_value = VNil, as_value_from = None, as_references = [], as_event = None, as_first = None,
      as_then = None, as_service = [], as_operation = [], as_name = []\<rparr>"

text \<open>A decoded assertion; \<open>None\<close> is an absent map or pointer, \<open>VNil\<close> an absent value.\<close>

record raw_match =
  rm_event :: string
  rm_where :: "(string \<times> val) list"

record raw_assertion =
  ra_id :: string
  ra_type :: string
  ra_table :: string
  ra_where :: "(string \<times> val) list option"
  ra_equals :: "int option"
  ra_at_least :: "int option"
  ra_at_most :: "int option"
  ra_entity :: string
  ra_field :: string
  ra_value :: val
  ra_value_from :: string
  ra_references :: string
  ra_event :: string
  ra_first :: "raw_match option"
  ra_then :: "raw_match option"
  ra_service :: string
  ra_operation :: string
  ra_name :: string

section \<open>Validation\<close>

definition assertion_fields :: "(string \<times> string list) list" where
  "assertion_fields = [
     (''row_count'', [''table'', ''where'', ''bound'']),
     (''field_equals'', [''entity'', ''field'', ''value'', ''value_from'']),
     (''relationship'', [''table'', ''field'', ''references'']),
     (''event_count'', [''event'', ''where'', ''bound'']),
     (''event_exists'', [''event'', ''where'']),
     (''event_absent'', [''event'', ''where'']),
     (''mutation_forbidden'', [''service'', ''operation'']),
     (''event_order'', [''first'', ''then'']),
     (''event_follows'', [''first'', ''then'']),
     (''custom'', [''name''])]"

definition event_types :: "string list" where
  "event_types = [''execution.started'', ''execution.forked'', ''execution.paused'', ''execution.completed'',
     ''model.request'', ''model.response'', ''tool.request'', ''tool.response'', ''state.mutation'', ''error'', ''retry'',
     ''chaos.injected'', ''chaos.actor_mutation'', ''authorization.allowed'', ''authorization.denied'',
     ''observation.overridden'', ''provider.interrupted'']"

definition present :: "raw_assertion \<Rightarrow> (string \<times> bool) list" where
  "present r = [
     (''table'', ra_table r \<noteq> []), (''where'', ra_where r \<noteq> None), (''entity'', ra_entity r \<noteq> []),
     (''field'', ra_field r \<noteq> []), (''value'', ra_value r \<noteq> VNil), (''value_from'', ra_value_from r \<noteq> []),
     (''references'', ra_references r \<noteq> []), (''event'', ra_event r \<noteq> []), (''first'', ra_first r \<noteq> None),
     (''then'', ra_then r \<noteq> None), (''service'', ra_service r \<noteq> []), (''operation'', ra_operation r \<noteq> []),
     (''name'', ra_name r \<noteq> []),
     (''bound'', ra_equals r \<noteq> None \<or> ra_at_least r \<noteq> None \<or> ra_at_most r \<noteq> None)]"

definition matchesKind :: "val \<Rightarrow> column_kind \<Rightarrow> bool" where
  "matchesKind v k = (case v of VStr _ \<Rightarrow> k = TextColumn | VInt _ \<Rightarrow> k = IntColumn | _ \<Rightarrow> False)"

definition kind_of :: "string \<Rightarrow> string \<Rightarrow> column_kind option" where
  "kind_of table column = (case columns_of table of None \<Rightarrow> None | Some cols \<Rightarrow> map_of cols column)"

definition row_condition :: "string \<Rightarrow> string \<times> val \<Rightarrow> (string \<times> condition) res" where
  "row_condition table cv =
     (case kind_of table (fst cv) of None \<Rightarrow> Inl (Err ''unknown column'')
      | Some k \<Rightarrow>
          (case snd cv of
             VObj fs \<Rightarrow>
               (case map_of fs ''contains'' of
                  Some (VStr needle) \<Rightarrow>
                    if length fs \<noteq> 1 \<or> needle = [] \<or> k \<noteq> TextColumn
                    then Inl (Err ''column accepts a value or contains on text columns'')
                    else Inr (fst cv, Contains needle)
                | _ \<Rightarrow> Inl (Err ''column accepts a value or contains on text columns''))
           | v \<Rightarrow> if matchesKind v k then Inr (fst cv, Equals v) else Inl (Err ''value has the wrong type'')))"

definition rowConditions :: "string \<Rightarrow> (string \<times> val) list option \<Rightarrow> (string \<times> condition) list res" where
  "rowConditions table w = (case w of None \<Rightarrow> Inr [] | Some cvs \<Rightarrow> mapR (row_condition table) cvs)"

fun bound_from :: "(string \<times> int option) list \<Rightarrow> count option \<Rightarrow> count option res" where
  "bound_from [] out = Inr out"
| "bound_from ((op1, v) # bs) out =
     (case v of None \<Rightarrow> bound_from bs out
      | Some n \<Rightarrow>
          if out \<noteq> None then Inl (Err ''requires exactly one of equals, at_least, or at_most'')
          else if n < 0 then Inl (Err ''bound must be nonnegative'')
          else bound_from bs (Some \<lparr>ct_op = op1, ct_n = n\<rparr>))"

definition bound :: "raw_assertion \<Rightarrow> count res" where
  "bound r =
     bindR (bound_from [(''equals'', ra_equals r), (''at_least'', ra_at_least r), (''at_most'', ra_at_most r)] None)
       (\<lambda>out. case out of None \<Rightarrow> Inl (Err ''requires one of equals, at_least, or at_most'') | Some c \<Rightarrow> Inr c)"

definition parse_ref :: "string \<Rightarrow> bool \<Rightarrow> ref res" where
  "parse_ref value withField =
     (let parts = split_dots value in
      if length parts \<noteq> (if withField then 3 else 2) \<or> parts ! 0 = [] \<or> parts ! 1 = []
      then Inl (Err ''reference must be table.id'')
      else if kind_of (parts ! 0) ''id'' = None then Inl (Err ''reference needs a table with an id'')
      else if withField \<and> kind_of (parts ! 0) (parts ! 2) = None then Inl (Err ''unknown field in reference'')
      else Inr \<lparr>rr_table = parts ! 0, rr_row = parts ! 1, rr_field = (if withField then parts ! 2 else [])\<rparr>)"

definition eventMatch :: "raw_match \<Rightarrow> event_match res" where
  "eventMatch m =
     (if rm_event m \<notin> set event_types then Inl (Err ''unknown event type'')
      else if list_all (\<lambda>(k, v). case v of VStr _ \<Rightarrow> True | VInt _ \<Rightarrow> True | VBool _ \<Rightarrow> True | _ \<Rightarrow> False) (rm_where m)
      then Inr \<lparr>em_type = rm_event m, em_where = rm_where m\<rparr>
      else Inl (Err ''event where must be a string, integer, or boolean''))"

definition behavior_service :: "string \<Rightarrow> string" where
  "behavior_service b = hd (split_dots b)"

definition normalize_field_equals :: "raw_assertion \<Rightarrow> assertion \<Rightarrow> assertion res" where
  "normalize_field_equals r a =
     bindR (parse_ref (ra_entity r) False) (\<lambda>entity.
     case kind_of (rr_table entity) (ra_field r) of None \<Rightarrow> Inl (Err ''unknown field'')
     | Some k \<Rightarrow>
         let a1 = a\<lparr>as_entity := Some entity, as_field := ra_field r\<rparr> in
         if ra_value r \<noteq> VNil \<and> ra_value_from r = [] then
           (if matchesKind (ra_value r) k then Inr (a1\<lparr>as_value := ra_value r\<rparr>)
            else Inl (Err ''value has the wrong type''))
         else if ra_value r = VNil \<and> ra_value_from r \<noteq> [] then
           bindR (parse_ref (ra_value_from r) True) (\<lambda>from.
           if kind_of (rr_table from) (rr_field from) \<noteq> Some k then Inl (Err ''value_from has a different type'')
           else Inr (a1\<lparr>as_value_from := Some from\<rparr>))
         else Inl (Err ''requires exactly one of value or value_from''))"

definition normalize_mutation :: "manifest \<Rightarrow> string list \<Rightarrow> raw_assertion \<Rightarrow> assertion \<Rightarrow> assertion res" where
  "normalize_mutation m services r a =
     (if ra_service r \<noteq> [] \<and> ra_operation r = [] then
        (if ra_service r \<in> set services then Inr (a\<lparr>as_service := ra_service r\<rparr>)
         else Inl (Err ''service has no operation in this world''))
      else if ra_service r = [] \<and> ra_operation r \<noteq> [] then
        (if Operation m (ra_operation r) = None then Inl (Err ''unknown operation'')
         else Inr (a\<lparr>as_operation := ra_operation r\<rparr>))
      else Inl (Err ''requires exactly one of service or operation''))"

definition normalize :: "manifest \<Rightarrow> string list \<Rightarrow> string list \<Rightarrow> raw_assertion \<Rightarrow> assertion res" where
  "normalize m services customs r =
     (case map_of assertion_fields (ra_type r) of
        None \<Rightarrow> Inl (Err ''unsupported type'')
      | Some allowed \<Rightarrow>
          if list_ex (\<lambda>(field, given). given \<and> field \<notin> set allowed) (present r)
          then Inl (Err ''type does not accept field'')
          else
            let a = blank_assertion (ra_id r) (ra_type r); t = ra_type r;
                event = eventMatch \<lparr>rm_event = ra_event r, rm_where = (case ra_where r of None \<Rightarrow> [] | Some w \<Rightarrow> w)\<rparr> in
            if t = ''row_count'' then
              (if columns_of (ra_table r) = None then Inl (Err ''unknown table'')
               else bindR (rowConditions (ra_table r) (ra_where r)) (\<lambda>conds.
                    bindR (bound r) (\<lambda>c. Inr (a\<lparr>as_table := ra_table r, as_where := conds, as_count := Some c\<rparr>))))
            else if t = ''field_equals'' then normalize_field_equals r a
            else if t = ''relationship'' then
              (if kind_of (ra_table r) (ra_field r) \<noteq> Some TextColumn then Inl (Err ''unknown text field'')
               else if kind_of (ra_references r) ''id'' = None then Inl (Err ''references must be a table with an id'')
               else Inr (a\<lparr>as_table := ra_table r, as_field := ra_field r, as_references := ra_references r\<rparr>))
            else if t = ''event_count'' then
              bindR event (\<lambda>e. bindR (bound r) (\<lambda>c. Inr (a\<lparr>as_event := Some e, as_count := Some c\<rparr>)))
            else if t = ''event_exists'' then
              bindR event (\<lambda>e. Inr (a\<lparr>as_event := Some e, as_type := ''event_count'',
                as_count := Some \<lparr>ct_op = ''at_least'', ct_n = 1\<rparr>\<rparr>))
            else if t = ''event_absent'' then
              bindR event (\<lambda>e. Inr (a\<lparr>as_event := Some e, as_type := ''event_count'',
                as_count := Some \<lparr>ct_op = ''equals'', ct_n = 0\<rparr>\<rparr>))
            else if t = ''mutation_forbidden'' then normalize_mutation m services r a
            else if t = ''event_order'' \<or> t = ''event_follows'' then
              (case (ra_first r, ra_then r) of
                 (Some f, Some th) \<Rightarrow>
                   bindR (eventMatch f) (\<lambda>e1. bindR (eventMatch th) (\<lambda>e2.
                   Inr (a\<lparr>as_first := Some e1, as_then := Some e2\<rparr>)))
               | _ \<Rightarrow> Inl (Err ''requires first and then''))
            else if ra_name r \<in> set customs then Inr (a\<lparr>as_name := ra_name r\<rparr>)
            else Inl (Err ''custom evaluator is not registered''))"

text \<open>The loop of \<open>Parse\<close> over the decoded assertions.\<close>

definition id_pattern :: "string \<Rightarrow> bool" where
  "id_pattern s =
     (case s of [] \<Rightarrow> False
      | c # cs \<Rightarrow>
          let alpha = (\<lambda>c. (of_char c :: nat) \<in> set [65 ..< 91] \<or> (of_char c :: nat) \<in> set [97 ..< 123]) in
          alpha c \<and> list_all (\<lambda>c. alpha c \<or> digit_char c \<or> c = CHR ''_'' \<or> c = CHR ''-'') cs)"

fun parse_assertions :: "manifest \<Rightarrow> string list \<Rightarrow> string list \<Rightarrow> string list \<Rightarrow> raw_assertion list \<Rightarrow> assertion list res" where
  "parse_assertions m services customs seen [] = Inr []"
| "parse_assertions m services customs seen (r # rs) =
     (if \<not> id_pattern (ra_id r) \<or> ra_id r \<in> set seen then Inl (Err ''invalid or duplicate assertion id'')
      else bindR (normalize m services customs r) (\<lambda>a.
           bindR (parse_assertions m services customs (ra_id r # seen) rs) (\<lambda>rest. Inr (a # rest))))"

definition world_services :: "manifest \<Rightarrow> string list" where
  "world_services m = map (\<lambda>op. behavior_service (op_behavior op)) (mf_operations m)"

section \<open>Events\<close>

text \<open>A payload decoded into a map: an object or null.\<close>

definition payload_map :: "json \<Rightarrow> (string \<times> json) list option" where
  "payload_map j = (case j of JObj fs \<Rightarrow> Some fs | JNull \<Rightarrow> Some [] | _ \<Rightarrow> None)"

definition matches :: "'x golib_scheme \<Rightarrow> event_match \<Rightarrow> event_row \<Rightarrow> bool" where
  "matches L m e \<longleftrightarrow>
     e_type e = em_type m
     \<and> (em_where m = [] \<or>
        (case payload_map (e_payload e) of None \<Rightarrow> False
         | Some fs \<Rightarrow> list_all (\<lambda>(k, want). case map_of fs k of None \<Rightarrow> False
             | Some got \<Rightarrow> rejson L got = marshal L want) (em_where m)))"

record result_row =
  rs_id :: string
  rs_type :: string
  rs_passed :: bool
  rs_events :: "string list"

definition holds :: "count \<Rightarrow> int \<Rightarrow> bool" where
  "holds c n = (if ct_op c = ''equals'' then n = ct_n c else if ct_op c = ''at_least'' then n \<ge> ct_n c else n \<le> ct_n c)"

text \<open>Each evaluator gives the verdict and the events that are its evidence.\<close>

definition eventCount :: "'x golib_scheme \<Rightarrow> event_match \<Rightarrow> count \<Rightarrow> event_row list \<Rightarrow> bool \<times> string list" where
  "eventCount L m c evs =
     (let ids = map e_id (filter (matches L m) evs) in (holds c (int (length ids)), ids))"

definition forbidden :: "manifest \<Rightarrow> assertion \<Rightarrow> string \<Rightarrow> bool" where
  "forbidden m a operationID =
     (if as_operation a \<noteq> [] then operationID = as_operation a
      else case Operation m operationID of None \<Rightarrow> False
        | Some op \<Rightarrow> behavior_service (op_behavior op) = as_service a)"

fun mutations_by :: "manifest \<Rightarrow> assertion \<Rightarrow> string \<Rightarrow> event_row list \<Rightarrow> string list res" where
  "mutations_by m a operation [] = Inr []"
| "mutations_by m a operation (e # es) =
     (if e_type e = ''tool.request'' then
        bindR (string_field ''operation_id'' (e_payload e)) (\<lambda>op1. mutations_by m a op1 es)
      else if e_type e = ''tool.response'' then mutations_by m a [] es
      else if e_type e = ''state.mutation'' then
        bindR (mutations_by m a operation es) (\<lambda>ids. Inr (if forbidden m a operation then e_id e # ids else ids))
      else mutations_by m a operation es)"

definition mutationForbidden :: "manifest \<Rightarrow> assertion \<Rightarrow> event_row list \<Rightarrow> (bool \<times> string list) res" where
  "mutationForbidden m a evs = bindR (mutations_by m a [] evs) (\<lambda>ids. Inr (ids = [], ids))"

text \<open>\<open>anchor\<close> is empty until the first event is found.\<close>

fun follows_from :: "'x golib_scheme \<Rightarrow> event_match \<Rightarrow> event_match \<Rightarrow> string \<Rightarrow> event_row list \<Rightarrow> bool \<times> string list" where
  "follows_from L f t anchor [] = (False, [])"
| "follows_from L f t anchor (e # es) =
     (if anchor = [] then follows_from L f t (if matches L f e then e_id e else []) es
      else if matches L t e then (True, [anchor, e_id e])
      else follows_from L f t anchor es)"

definition eventFollows :: "'x golib_scheme \<Rightarrow> event_match \<Rightarrow> event_match \<Rightarrow> event_row list \<Rightarrow> bool \<times> string list" where
  "eventFollows L f t evs = follows_from L f t [] evs"

fun order_from :: "'x golib_scheme \<Rightarrow> event_match \<Rightarrow> event_match \<Rightarrow> bool \<Rightarrow> event_row list \<Rightarrow> string list" where
  "order_from L f t seenFirst [] = []"
| "order_from L f t seenFirst (e # es) =
     (if matches L t e \<and> \<not> seenFirst then [e_id e] else []) @ order_from L f t (seenFirst \<or> matches L f e) es"

definition eventOrder :: "'x golib_scheme \<Rightarrow> event_match \<Rightarrow> event_match \<Rightarrow> event_row list \<Rightarrow> bool \<times> string list" where
  "eventOrder L f t evs = (let ids = order_from L f t False evs in (ids = [], ids))"

section \<open>Rows\<close>

text \<open>An unknown table or column is the database's error.\<close>

definition table_rows :: "string \<Rightarrow> string \<Rightarrow> db \<Rightarrow> cell list list res" where
  "table_rows worldID table d =
     (case rows_of (db_world d) worldID table of None \<Rightarrow> Inl (Err ''no such table'') | Some rows \<Rightarrow> Inr rows)"

definition column_value :: "string \<Rightarrow> string \<Rightarrow> cell list \<Rightarrow> cell res" where
  "column_value table column row =
     (case cell_at table column row of None \<Rightarrow> Inl (Err ''no such column'') | Some c \<Rightarrow> Inr c)"

fun cell_is :: "cell \<Rightarrow> val \<Rightarrow> bool" where
  "cell_is (CText s) (VStr t) \<longleftrightarrow> s = t"
| "cell_is (CInt i) (VInt j) \<longleftrightarrow> i = j"
| "cell_is _ _ \<longleftrightarrow> False"

definition meets :: "string \<Rightarrow> cell list \<Rightarrow> string \<times> condition \<Rightarrow> bool res" where
  "meets table row cc =
     bindR (column_value table (fst cc) row) (\<lambda>c.
     Inr (case snd cc of Contains needle \<Rightarrow> instr_pos (cell_text c) needle | Equals v \<Rightarrow> cell_is c v))"

definition row_meets :: "string \<Rightarrow> (string \<times> condition) list \<Rightarrow> cell list \<Rightarrow> bool res" where
  "row_meets table conds row = bindR (mapR (meets table row) conds) (\<lambda>bs. Inr (list_all id bs))"

definition rowCount :: "assertion \<Rightarrow> count \<Rightarrow> string \<Rightarrow> db \<Rightarrow> bool res" where
  "rowCount a c worldID d =
     bindR (table_rows worldID (as_table a) d) (\<lambda>rows.
     bindR (mapR (row_meets (as_table a) (as_where a)) rows) (\<lambda>bs.
     Inr (holds c (int (length (filter id bs))))))"

text \<open>\<open>SELECT field FROM table WHERE id = ?\<close>; \<open>None\<close> when there is no such row.\<close>

fun find_row :: "string \<Rightarrow> string \<Rightarrow> cell list list \<Rightarrow> cell list option res" where
  "find_row table i [] = Inr None"
| "find_row table i (row # rows) =
     bindR (column_value table ''id'' row) (\<lambda>c. if cell_is c (VStr i) then Inr (Some row) else find_row table i rows)"

definition lookup_cell :: "string \<Rightarrow> ref \<Rightarrow> string \<Rightarrow> db \<Rightarrow> cell option res" where
  "lookup_cell worldID r field d =
     bindR (table_rows worldID (rr_table r) d) (\<lambda>rows.
     bindR (find_row (rr_table r) (rr_row r) rows) (\<lambda>found.
     case found of None \<Rightarrow> Inr None
     | Some row \<Rightarrow> bindR (column_value (rr_table r) field row) (\<lambda>c. Inr (Some c))))"

definition val_text :: "val \<Rightarrow> string" where
  "val_text v = (case v of VStr s \<Rightarrow> s | VInt i \<Rightarrow> show_int i | _ \<Rightarrow> [])"

definition fieldEquals :: "assertion \<Rightarrow> ref \<Rightarrow> string \<Rightarrow> db \<Rightarrow> bool res" where
  "fieldEquals a entity worldID d =
     bindR (lookup_cell worldID entity (as_field a) d) (\<lambda>actual.
     case actual of None \<Rightarrow> Inr False
     | Some c \<Rightarrow>
         (case as_value_from a of
            None \<Rightarrow> Inr (cell_text c = val_text (as_value a))
          | Some from \<Rightarrow>
              bindR (lookup_cell worldID from (rr_field from) d) (\<lambda>want.
              Inr (case want of None \<Rightarrow> False | Some w \<Rightarrow> cell_text c = cell_text w))))"

definition relationship :: "assertion \<Rightarrow> string \<Rightarrow> db \<Rightarrow> bool res" where
  "relationship a worldID d =
     bindR (table_rows worldID (as_table a) d) (\<lambda>rows.
     bindR (table_rows worldID (as_references a) d) (\<lambda>targets.
     bindR (mapR (column_value (as_table a) (as_field a)) rows) (\<lambda>values.
     bindR (mapR (column_value (as_references a) ''id'') targets) (\<lambda>ids.
     Inr (list_all (\<lambda>v. v \<in> set ids) values)))))"

section \<open>Checking a run\<close>

text \<open>
  The events of a run, preceded for a fork by its parent's up to the fork; \<open>lineage\<close> is the
  run's row of \<open>fork_lineage\<close>: the parent and the sequence number, if it is a fork.
\<close>

definition Ledger :: "(string \<times> nat) option \<Rightarrow> string \<Rightarrow> db \<Rightarrow> event_row list" where
  "Ledger lineage runID d =
     (case lineage of None \<Rightarrow> Events runID d
      | Some (parent, seq) \<Rightarrow> filter (\<lambda>e. e_seq e \<le> seq) (Events parent d) @ Events runID d)"

type_synonym customs = "(string \<times> (db \<Rightarrow> run_row \<Rightarrow> bool res)) list"

definition check_one ::
    "'x golib_scheme \<Rightarrow> manifest \<Rightarrow> customs \<Rightarrow> run_row \<Rightarrow> event_row list \<Rightarrow> db \<Rightarrow> assertion \<Rightarrow> result_row res" where
  "check_one L m customs run evs d a =
     (let w = r_world run; result = (\<lambda>ok ids. \<lparr>rs_id = as_id a, rs_type = as_declared a, rs_passed = ok, rs_events = ids\<rparr>);
          plain = (\<lambda>r. bindR r (\<lambda>ok. Inr (result ok [])));
          ev = (\<lambda>r. Inr (result (fst r) (snd r))); t = as_type a in
      if t = ''row_count'' then plain (rowCount a (the (as_count a)) w d)
      else if t = ''field_equals'' then plain (fieldEquals a (the (as_entity a)) w d)
      else if t = ''relationship'' then plain (relationship a w d)
      else if t = ''event_count'' then ev (eventCount L (the (as_event a)) (the (as_count a)) evs)
      else if t = ''mutation_forbidden'' then bindR (mutationForbidden m a evs) ev
      else if t = ''event_order'' then ev (eventOrder L (the (as_first a)) (the (as_then a)) evs)
      else if t = ''event_follows'' then ev (eventFollows L (the (as_first a)) (the (as_then a)) evs)
      else if t = ''custom'' then
        (case map_of customs (as_name a) of None \<Rightarrow> Inl (Err ''nil evaluator'') | Some f \<Rightarrow> plain (f d run))
      else Inl (Err ''assertion type is not implemented''))"

definition Check ::
    "'x golib_scheme \<Rightarrow> manifest \<Rightarrow> customs \<Rightarrow> (string \<times> nat) option \<Rightarrow> assertion list \<Rightarrow> string \<Rightarrow> db \<Rightarrow> (bool \<times> result_row list) res" where
  "Check L m customs lineage assertions runID d =
     (if assertions = [] then Inl (Err ''assertion set was not produced by Parse'')
      else bindR (Run runID d) (\<lambda>run.
           bindR (mapR (check_one L m customs run (Ledger lineage runID d) d) assertions) (\<lambda>rs.
           Inr (list_all rs_passed rs, rs))))"

section \<open>What the ledger assertions mean\<close>

lemma order_from_empty:
  "order_from L f t seen evs = [] \<longleftrightarrow>
     (\<forall>j < length evs. matches L t (evs ! j) \<longrightarrow> seen \<or> (\<exists>i < j. matches L f (evs ! i)))"
proof (induction evs arbitrary: seen)
  case (Cons e es)
  show ?case (is "?l \<longleftrightarrow> ?r")
  proof -
    have "?l \<longleftrightarrow> (matches L t e \<longrightarrow> seen) \<and> order_from L f t (seen \<or> matches L f e) es = []" by auto
    also have "\<dots> \<longleftrightarrow> (matches L t e \<longrightarrow> seen) \<and>
        (\<forall>j < length es. matches L t (es ! j) \<longrightarrow> (seen \<or> matches L f e) \<or> (\<exists>i < j. matches L f (es ! i)))"
      by (simp add: Cons.IH)
    also have "\<dots> \<longleftrightarrow> ?r"
      by (auto simp: All_less_Suc2 Ex_less_Suc2)
    finally show ?thesis .
  qed
qed simp

lemma follows_anchored:
  "anchor \<noteq> [] \<Longrightarrow> fst (follows_from L f t anchor evs) \<longleftrightarrow> (\<exists>j < length evs. matches L t (evs ! j))"
  by (induction evs) (auto simp: Ex_less_Suc2)

lemma follows_open:
  assumes "\<forall>e \<in> set evs. e_id e \<noteq> []"
  shows "fst (follows_from L f t [] evs) \<longleftrightarrow>
    (\<exists>i j. i < j \<and> j < length evs \<and> matches L f (evs ! i) \<and> matches L t (evs ! j))"
  using assms
proof (induction evs)
  case (Cons e es)
  show ?case (is "?l \<longleftrightarrow> (\<exists>i j. ?P i j)")
  proof (cases "matches L f e")
    case True
    then have "?l \<longleftrightarrow> (\<exists>j < length es. matches L t (es ! j))" using Cons.prems by (simp add: follows_anchored)
    also have "\<dots> \<longleftrightarrow> (\<exists>i j. ?P i j)"
    proof
      assume "\<exists>j < length es. matches L t (es ! j)"
      then obtain j where "j < length es" "matches L t (es ! j)" by blast
      then have "?P 0 (Suc j)" using True by simp
      then show "\<exists>i j. ?P i j" by blast
    next
      assume "\<exists>i j. ?P i j"
      then obtain i j where "?P i j" by blast
      then have "j - 1 < length es" "matches L t (es ! (j - 1))" by (cases j; simp)+
      then show "\<exists>j < length es. matches L t (es ! j)" by blast
    qed
    finally show ?thesis .
  next
    case False
    then have "?l \<longleftrightarrow> (\<exists>i j. i < j \<and> j < length es \<and> matches L f (es ! i) \<and> matches L t (es ! j))"
      using Cons by simp
    also have "\<dots> \<longleftrightarrow> (\<exists>i j. ?P i j)"
    proof
      assume "\<exists>i j. i < j \<and> j < length es \<and> matches L f (es ! i) \<and> matches L t (es ! j)"
      then obtain i j where "i < j \<and> j < length es \<and> matches L f (es ! i) \<and> matches L t (es ! j)" by blast
      then have "?P (Suc i) (Suc j)" by simp
      then show "\<exists>i j. ?P i j" by blast
    next
      assume "\<exists>i j. ?P i j"
      then obtain i j where p: "?P i j" by blast
      then obtain i' where "i = Suc i'" using False by (cases i) auto
      moreover from p this obtain j' where "j = Suc j'" by (cases j) auto
      ultimately have "i' < j' \<and> j' < length es \<and> matches L f (es ! i') \<and> matches L t (es ! j')" using p by simp
      then show "\<exists>i j. i < j \<and> j < length es \<and> matches L f (es ! i) \<and> matches L t (es ! j)" by blast
    qed
    finally show ?thesis .
  qed
qed simp

text \<open>The operation whose call is open after some events: the last request that has no response yet.\<close>

definition open_operation :: "event_row list \<Rightarrow> string" where
  "open_operation evs =
     (case rev (filter (\<lambda>e. e_type e = ''tool.request'' \<or> e_type e = ''tool.response'') evs) of
        [] \<Rightarrow> []
      | e # _ \<Rightarrow> if e_type e = ''tool.request''
                 then (case string_field ''operation_id'' (e_payload e) of Inr op1 \<Rightarrow> op1 | Inl _ \<Rightarrow> []) else [])"

lemma mutations_by_empty:
  assumes "mutations_by m a (open_operation pre) evs = Inr ids"
  shows "ids = [] \<longleftrightarrow> (\<forall>j < length evs. e_type (evs ! j) = ''state.mutation'' \<longrightarrow>
      \<not> forbidden m a (open_operation (pre @ take j evs)))"
  using assms
proof (induction evs arbitrary: pre ids)
  case (Cons e es)
  let ?G = "\<lambda>pre evs j. e_type (evs ! j) = ''state.mutation'' \<longrightarrow> \<not> forbidden m a (open_operation (pre @ take j evs))"
  have split: "(\<forall>j < length (e # es). ?G pre (e # es) j) \<longleftrightarrow> ?G pre (e # es) 0 \<and> (\<forall>j < length es. ?G (pre @ [e]) es j)"
    by (simp add: All_less_Suc2)
  consider (request) op1 where "e_type e = ''tool.request''" "string_field ''operation_id'' (e_payload e) = Inr op1"
      "mutations_by m a op1 es = Inr ids"
    | (response) "e_type e = ''tool.response''" "mutations_by m a [] es = Inr ids"
    | (mutation) ids' where "e_type e = ''state.mutation''" "mutations_by m a (open_operation pre) es = Inr ids'"
        "ids = (if forbidden m a (open_operation pre) then e_id e # ids' else ids')"
    | (other) "e_type e \<noteq> ''tool.request''" "e_type e \<noteq> ''tool.response''" "e_type e \<noteq> ''state.mutation''"
        "mutations_by m a (open_operation pre) es = Inr ids"
    using Cons.prems by (auto split: if_splits)
  then show ?case
  proof cases
    case request
    then have "open_operation (pre @ [e]) = op1" by (simp add: open_operation_def)
    then show ?thesis using Cons.IH [of "pre @ [e]" ids] request split by simp
  next
    case response
    then have "open_operation (pre @ [e]) = []" by (simp add: open_operation_def)
    then show ?thesis using Cons.IH [of "pre @ [e]" ids] response split by simp
  next
    case mutation
    then have "open_operation (pre @ [e]) = open_operation pre" by (simp add: open_operation_def)
    then show ?thesis using Cons.IH [of "pre @ [e]" ids'] mutation split by auto
  next
    case other
    then have "open_operation (pre @ [e]) = open_operation pre" by (simp add: open_operation_def)
    then show ?thesis using Cons.IH [of "pre @ [e]" ids] other split by auto
  qed
qed simp

text \<open>
  The ledger assertions decide what they say. \<open>event_order\<close> passes exactly when every
  later event has an earlier first event before it; \<open>event_follows\<close> passes exactly when some
  first event is followed by a later one; \<open>event_count\<close> compares the number of matching
  events with its bound; and \<open>mutation_forbidden\<close> passes exactly when no write is recorded
  inside a call of a forbidden operation, which includes a write whose response was lost.
\<close>

theorem ledger_assertions_exact:
  assumes "\<forall>e \<in> set evs. e_id e \<noteq> []"
  shows "(fst (eventOrder L f t evs) \<longleftrightarrow>
        (\<forall>j < length evs. matches L t (evs ! j) \<longrightarrow> (\<exists>i < j. matches L f (evs ! i))))
    \<and> (fst (eventFollows L f t evs) \<longleftrightarrow>
        (\<exists>i j. i < j \<and> j < length evs \<and> matches L f (evs ! i) \<and> matches L t (evs ! j)))
    \<and> (fst (eventCount L f c evs) \<longleftrightarrow> holds c (int (card {i. i < length evs \<and> matches L f (evs ! i)})))
    \<and> (\<forall>ok ids. mutationForbidden m a evs = Inr (ok, ids) \<longrightarrow>
        (ok \<longleftrightarrow> (\<forall>j < length evs. e_type (evs ! j) = ''state.mutation'' \<longrightarrow>
           \<not> forbidden m a (open_operation (take j evs)))))"
proof (intro conjI allI impI)
  show "fst (eventOrder L f t evs) \<longleftrightarrow> (\<forall>j < length evs. matches L t (evs ! j) \<longrightarrow> (\<exists>i < j. matches L f (evs ! i)))"
    by (simp add: eventOrder_def Let_def order_from_empty)
  show "fst (eventFollows L f t evs) \<longleftrightarrow>
      (\<exists>i j. i < j \<and> j < length evs \<and> matches L f (evs ! i) \<and> matches L t (evs ! j))"
    unfolding eventFollows_def by (rule follows_open [OF assms])
  show "fst (eventCount L f c evs) \<longleftrightarrow> holds c (int (card {i. i < length evs \<and> matches L f (evs ! i)}))"
    by (simp add: eventCount_def Let_def length_filter_conv_card)
  fix ok ids
  assume "mutationForbidden m a evs = Inr (ok, ids)"
  then have "mutations_by m a (open_operation []) evs = Inr ids" "ok \<longleftrightarrow> ids = []"
    by (auto simp: mutationForbidden_def open_operation_def)
  then show "ok \<longleftrightarrow> (\<forall>j < length evs. e_type (evs ! j) = ''state.mutation'' \<longrightarrow>
      \<not> forbidden m a (open_operation (take j evs)))"
    using mutations_by_empty [of m a "[]" evs ids] by simp
qed

section \<open>A parsed assertion evaluates\<close>

lemma table_rows_known: "columns_of table = Some cols \<Longrightarrow> \<exists>rows. table_rows worldID table d = Inr rows"
  using rows_known [of table cols "db_world d" worldID] by (auto simp: table_rows_def)

lemma kind_known:
  assumes "kind_of table column \<noteq> None"
  obtains cols k where "columns_of table = Some cols" and "map_of cols column = Some k"
  using assms by (auto simp: kind_of_def split: option.splits)

lemma value_known:
  assumes "kind_of table column \<noteq> None" and "table_rows worldID table d = Inr rows" and "row \<in> set rows"
  shows "\<exists>c. column_value table column row = Inr c"
proof -
  obtain cols k where known: "columns_of table = Some cols" "map_of cols column = Some k"
    using kind_known [OF assms(1)] .
  have "rows_of (db_world d) worldID table = Some rows"
    using assms(2) by (simp add: table_rows_def split: option.splits)
  from cell_known [OF known this assms(3)] obtain c where "cell_at table column row = Some c" .
  then show ?thesis by (simp add: column_value_def)
qed

text \<open>The identifiers of a canonical assertion are names of the allowlist, and its parts are present.\<close>

definition known_ref :: "string \<Rightarrow> ref \<Rightarrow> bool" where
  "known_ref field r \<longleftrightarrow> kind_of (rr_table r) ''id'' \<noteq> None \<and> kind_of (rr_table r) field \<noteq> None"

definition known_names :: "string list \<Rightarrow> assertion \<Rightarrow> bool" where
  "known_names customs a =
     (if as_type a = ''row_count'' then
        columns_of (as_table a) \<noteq> None \<and> list_all (\<lambda>cc. kind_of (as_table a) (fst cc) \<noteq> None) (as_where a)
      else if as_type a = ''field_equals'' then
        (case as_entity a of None \<Rightarrow> False | Some e \<Rightarrow> known_ref (as_field a) e)
        \<and> (case as_value_from a of None \<Rightarrow> True | Some f \<Rightarrow> known_ref (rr_field f) f)
      else if as_type a = ''relationship'' then
        kind_of (as_table a) (as_field a) \<noteq> None \<and> kind_of (as_references a) ''id'' \<noteq> None
      else if as_type a = ''custom'' then as_name a \<in> set customs
      else as_type a \<in> set [''event_count'', ''mutation_forbidden'', ''event_order'', ''event_follows''])"

lemma row_condition_known: "row_condition table cv = Inr cc \<Longrightarrow> kind_of table (fst cc) \<noteq> None"
  by (auto simp: row_condition_def split: option.splits val.splits if_splits)

lemma rowConditions_known:
  "rowConditions table w = Inr conds \<Longrightarrow> list_all (\<lambda>cc. kind_of table (fst cc) \<noteq> None) conds"
  unfolding rowConditions_def list_all_iff
  by (cases w) (simp, metis mapR_known option.simps(5) row_condition_known)

lemma parse_ref_known:
  "parse_ref value withField = Inr r \<Longrightarrow>
     kind_of (rr_table r) ''id'' \<noteq> None \<and> (withField \<longrightarrow> kind_of (rr_table r) (rr_field r) \<noteq> None)"
  by (auto simp: parse_ref_def Let_def split: if_splits)

lemma normalize_field_equals_known:
  assumes "normalize_field_equals r (blank_assertion i ''field_equals'') = Inr a"
  shows "known_names customs a \<and> as_id a = i \<and> as_declared a = ''field_equals''"
proof -
  obtain entity where entity: "parse_ref (ra_entity r) False = Inr entity"
    using assms by (auto simp: normalize_field_equals_def)
  then have idk: "kind_of (rr_table entity) ''id'' \<noteq> None" by (rule parse_ref_known [THEN conjunct1])
  show ?thesis
  proof (cases "kind_of (rr_table entity) (ra_field r)")
    case (Some k)
    show ?thesis
    proof (cases "parse_ref (ra_value_from r) True")
      case (Inl e)
      then show ?thesis using assms entity Some idk
        by (simp add: normalize_field_equals_def Let_def blank_assertion_def split: if_splits)
          (clarify, simp add: known_names_def known_ref_def)
    next
      case (Inr src)
      then have "known_ref (rr_field src) src" using parse_ref_known [OF Inr] by (simp add: known_ref_def)
      then show ?thesis using Inr assms entity Some idk
        by (simp add: normalize_field_equals_def Let_def blank_assertion_def split: if_splits)
          ((clarify, simp add: known_names_def known_ref_def)+)
    qed
  qed (use assms entity in \<open>simp add: normalize_field_equals_def\<close>)
qed

lemma normalize_mutation_known:
  "normalize_mutation m services r (blank_assertion i ''mutation_forbidden'') = Inr a \<Longrightarrow>
     known_names customs a \<and> as_id a = i \<and> as_declared a = ''mutation_forbidden''"
  by (auto simp: normalize_mutation_def known_names_def blank_assertion_def split: if_splits)

lemma declared_types:
  "map_of assertion_fields t = Some allowed \<Longrightarrow>
     t \<in> set [''row_count'', ''field_equals'', ''relationship'', ''event_count'', ''event_exists'', ''event_absent'',
       ''mutation_forbidden'', ''event_order'', ''event_follows'', ''custom'']"
  by (auto simp: assertion_fields_def split: if_splits)

lemma normalize_known:
  assumes "normalize m services customs r = Inr a"
  shows "known_names customs a \<and> as_id a = ra_id r \<and> as_declared a = ra_type r"
proof -
  obtain allowed where "map_of assertion_fields (ra_type r) = Some allowed"
    using assms by (cases "map_of assertion_fields (ra_type r)") (auto simp: normalize_def)
  moreover note declared_types [OF this]
  ultimately show ?thesis
    using assms unfolding set_simps
    apply (elim insertE emptyE)
    subgoal by (auto simp: normalize_def known_names_def blank_assertion_def split: if_splits dest!: rowConditions_known)
    subgoal by (simp add: normalize_def normalize_field_equals_known split: if_splits)
    subgoal by (auto simp: normalize_def known_names_def blank_assertion_def split: if_splits)
    subgoal by (auto simp: normalize_def Let_def known_names_def blank_assertion_def split: if_splits)
    subgoal by (auto simp: normalize_def Let_def known_names_def blank_assertion_def split: if_splits)
    subgoal by (auto simp: normalize_def Let_def known_names_def blank_assertion_def split: if_splits)
    subgoal by (simp add: normalize_def Let_def normalize_mutation_known split: if_splits)
    subgoal by (auto simp: normalize_def Let_def known_names_def blank_assertion_def split: if_splits option.splits)
    subgoal by (auto simp: normalize_def Let_def known_names_def blank_assertion_def split: if_splits option.splits)
    subgoal by (auto simp: normalize_def Let_def known_names_def blank_assertion_def split: if_splits)
    done
qed

lemma parse_assertions_known:
  "parse_assertions m services customs seen rs = Inr checked \<Longrightarrow>
     list_all (known_names customs) checked \<and> map as_id checked = map ra_id rs
     \<and> map as_declared checked = map ra_type rs"
  by (induction rs arbitrary: seen checked) (auto split: if_splits dest!: normalize_known)

lemma rowCount_total:
  assumes "columns_of (as_table a) = Some cols"
    and "list_all (\<lambda>cc. kind_of (as_table a) (fst cc) \<noteq> None) (as_where a)"
  shows "\<exists>ok. rowCount a c worldID d = Inr ok"
proof -
  obtain rows where rows: "table_rows worldID (as_table a) d = Inr rows"
    using table_rows_known [OF assms(1)] by blast
  have met: "\<exists>b. meets (as_table a) row cc = Inr b" if "cc \<in> set (as_where a)" "row \<in> set rows" for row cc
    using value_known [OF _ rows that(2), of "fst cc"] assms(2) that(1) by (auto simp: list_all_iff meets_def)
  have "\<exists>b. row_meets (as_table a) (as_where a) row = Inr b" if "row \<in> set rows" for row
    using mapR_total [of "as_where a" "meets (as_table a) row"] met that by (auto simp: row_meets_def)
  then obtain bs where "mapR (row_meets (as_table a) (as_where a)) rows = Inr bs"
    using mapR_total [of rows "row_meets (as_table a) (as_where a)"] by blast
  then show ?thesis using rows by (simp add: rowCount_def)
qed

lemma find_row_total:
  "(\<And>row. row \<in> set rows \<Longrightarrow> \<exists>c. column_value table ''id'' row = Inr c) \<Longrightarrow>
     \<exists>found. find_row table i rows = Inr found \<and> (case found of None \<Rightarrow> True | Some row \<Rightarrow> row \<in> set rows)"
proof (induction rows)
  case (Cons row rows)
  obtain c where c: "column_value table ''id'' row = Inr c" using Cons.prems [of row] by auto
  show ?case
  proof (cases "cell_is c (VStr i)")
    case True
    then show ?thesis using c by simp
  next
    case False
    obtain found where "find_row table i rows = Inr found" "case found of None \<Rightarrow> True | Some row \<Rightarrow> row \<in> set rows"
      using Cons by auto
    then show ?thesis using c False by (cases found) simp_all
  qed
qed simp

lemma lookup_total:
  assumes "known_ref field r"
  shows "\<exists>v. lookup_cell worldID r field d = Inr v"
proof -
  have known: "kind_of (rr_table r) ''id'' \<noteq> None" "kind_of (rr_table r) field \<noteq> None"
    using assms by (simp_all add: known_ref_def)
  obtain rows where rows: "table_rows worldID (rr_table r) d = Inr rows"
    using kind_known [OF known(1)] table_rows_known by metis
  obtain found where found: "find_row (rr_table r) (rr_row r) rows = Inr found"
      "case found of None \<Rightarrow> True | Some row \<Rightarrow> row \<in> set rows"
    using find_row_total [of rows "rr_table r" "rr_row r"] value_known [OF known(1) rows] by blast
  show ?thesis
  proof (cases found)
    case None
    then show ?thesis using rows found by (simp add: lookup_cell_def)
  next
    case (Some row)
    then obtain c where "column_value (rr_table r) field row = Inr c"
      using value_known [OF known(2) rows] found(2) by auto
    then show ?thesis using rows found(1) Some by (simp add: lookup_cell_def)
  qed
qed

lemma fieldEquals_total:
  assumes "known_ref (as_field a) entity"
    and "case as_value_from a of None \<Rightarrow> True | Some f \<Rightarrow> known_ref (rr_field f) f"
  shows "\<exists>ok. fieldEquals a entity worldID d = Inr ok"
proof -
  obtain v where v: "lookup_cell worldID entity (as_field a) d = Inr v"
    using lookup_total [OF assms(1)] by blast
  show ?thesis
  proof (cases "as_value_from a")
    case None
    then show ?thesis using v by (cases v) (auto simp: fieldEquals_def)
  next
    case (Some f)
    then obtain w where "lookup_cell worldID f (rr_field f) d = Inr w"
      using lookup_total [of "rr_field f" f] assms(2) by auto
    then show ?thesis using v Some by (cases v) (auto simp: fieldEquals_def)
  qed
qed

lemma relationship_total:
  assumes "kind_of (as_table a) (as_field a) \<noteq> None" and "kind_of (as_references a) ''id'' \<noteq> None"
  shows "\<exists>ok. relationship a worldID d = Inr ok"
proof -
  obtain rows where rows: "table_rows worldID (as_table a) d = Inr rows"
    using kind_known [OF assms(1)] table_rows_known by metis
  obtain targets where targets: "table_rows worldID (as_references a) d = Inr targets"
    using kind_known [OF assms(2)] table_rows_known by metis
  obtain vs where vs: "mapR (column_value (as_table a) (as_field a)) rows = Inr vs"
    using mapR_total [of rows "column_value (as_table a) (as_field a)"] value_known [OF assms(1) rows] by blast
  obtain ids where ids: "mapR (column_value (as_references a) ''id'') targets = Inr ids"
    using mapR_total [of targets "column_value (as_references a) ''id''"] value_known [OF assms(2) targets] by blast
  show ?thesis using rows targets vs ids by (simp add: relationship_def)
qed

lemma mutations_by_total:
  "(\<And>e. e \<in> set evs \<Longrightarrow> e_type e = ''tool.request'' \<Longrightarrow> \<exists>op1. string_field ''operation_id'' (e_payload e) = Inr op1) \<Longrightarrow>
     \<exists>ids. mutations_by m a operation evs = Inr ids"
proof (induction evs arbitrary: operation)
  case (Cons e es)
  have rest: "\<exists>ids. mutations_by m a op1 es = Inr ids" for op1 using Cons by simp
  show ?case
  proof (cases "e_type e = ''tool.request''")
    case True
    then obtain op1 where "string_field ''operation_id'' (e_payload e) = Inr op1" using Cons.prems [of e] by auto
    then show ?thesis using True rest [of op1] by simp
  next
    case False
    then show ?thesis using rest [of operation] rest [of "[]"] by auto
  qed
qed simp

lemma check_one_total:
  assumes "known_names (map fst customs) a"
    and "\<forall>(name, f) \<in> set customs. \<exists>ok. f d run = Inr ok"
    and "\<And>e. e \<in> set evs \<Longrightarrow> e_type e = ''tool.request'' \<Longrightarrow> \<exists>op1. string_field ''operation_id'' (e_payload e) = Inr op1"
  shows "\<exists>r. check_one L m customs run evs d a = Inr r \<and> rs_id r = as_id a \<and> rs_type r = as_declared a"
proof -
  consider (rows) "as_type a = ''row_count''" | (field) "as_type a = ''field_equals''"
    | (relationship) "as_type a = ''relationship''" | (count) "as_type a = ''event_count''"
    | (mutation) "as_type a = ''mutation_forbidden''" | (order) "as_type a = ''event_order''"
    | (follows) "as_type a = ''event_follows''" | (custom) "as_type a = ''custom''"
    using assms(1) by (auto simp: known_names_def split: if_splits)
  then show ?thesis
  proof cases
    case rows
    then obtain cols ok where "columns_of (as_table a) = Some cols" "rowCount a (the (as_count a)) (r_world run) d = Inr ok"
      using assms(1) rowCount_total by (auto simp: known_names_def) metis
    then show ?thesis using rows by (simp add: check_one_def Let_def)
  next
    case field
    then obtain e where "as_entity a = Some e" "known_ref (as_field a) e"
        "case as_value_from a of None \<Rightarrow> True | Some f \<Rightarrow> known_ref (rr_field f) f"
      using assms(1) by (cases "as_entity a") (auto simp: known_names_def)
    moreover from this obtain ok where "fieldEquals a e (r_world run) d = Inr ok"
      using fieldEquals_total by blast
    ultimately show ?thesis using field by (simp add: check_one_def Let_def)
  next
    case relationship
    then have "kind_of (as_table a) (as_field a) \<noteq> None" "kind_of (as_references a) ''id'' \<noteq> None"
      using assms(1) by (simp_all add: known_names_def)
    then obtain ok where "relationship a (r_world run) d = Inr ok"
      using relationship_total by blast
    then show ?thesis using relationship by (simp add: check_one_def Let_def)
  next
    case mutation
    obtain ids where "mutations_by m a [] evs = Inr ids" using mutations_by_total assms(3) by metis
    then show ?thesis using mutation by (simp add: check_one_def Let_def mutationForbidden_def)
  next
    case custom
    then have "as_name a \<in> set (map fst customs)" using assms(1) by (simp add: known_names_def)
    then obtain f where f: "map_of customs (as_name a) = Some f" by (cases "map_of customs (as_name a)") (auto simp: map_of_eq_None_iff)
    then obtain ok where "f d run = Inr ok" using assms(2) map_of_SomeD [OF f] by fastforce
    then show ?thesis using custom f by (simp add: check_one_def Let_def)
  qed (simp_all add: check_one_def Let_def)
qed

lemma mapR_projects:
  "(\<And>x. x \<in> set xs \<Longrightarrow> \<exists>y. f x = Inr y \<and> g y = h x \<and> k y = l x) \<Longrightarrow>
     \<exists>ys. mapR f xs = Inr ys \<and> map g ys = map h xs \<and> map k ys = map l xs"
proof (induction xs)
  case (Cons x xs)
  obtain y where y: "f x = Inr y \<and> g y = h x \<and> k y = l x" using Cons.prems [of x] by auto
  obtain ys where ys: "mapR f xs = Inr ys \<and> map g ys = map h xs \<and> map k ys = map l xs" using Cons by auto
  show ?case using y ys by (intro exI [of _ "y # ys"]) simp
qed simp


section \<open>Witnesses\<close>

definition raw_row_count :: raw_assertion where
  "raw_row_count = \<lparr>ra_id = ''one-charge'', ra_type = ''row_count'', ra_table = ''charges'',
     ra_where = Some [(''invoice_id'', VStr ''INV-104'')], ra_equals = Some 1, ra_at_least = None, ra_at_most = None,
     ra_entity = [], ra_field = [], ra_value = VNil, ra_value_from = [], ra_references = [], ra_event = [],
     ra_first = None, ra_then = None, ra_service = [], ra_operation = [], ra_name = []\<rparr>"

lemma raw_row_count_parses:
  "parse_assertions \<lparr>mf_digest = [], mf_operations = []\<rparr> [] [] [] [raw_row_count] =
     Inr [(blank_assertion ''one-charge'' ''row_count'')\<lparr>as_table := ''charges'',
       as_where := [(''invoice_id'', Equals (VStr ''INV-104''))], as_count := Some \<lparr>ct_op = ''equals'', ct_n = 1\<rparr>\<rparr>]"
  by (simp add: raw_row_count_def id_pattern_def Let_def normalize_def assertion_fields_def present_def columns_of_def
      world_columns_def rowConditions_def row_condition_def kind_of_def matchesKind_def bound_def digit_char_def)


theorem ledger_assertions_exact_witness:
  "let request = \<lparr>e_run = ''R'', e_seq = 1, e_id = ''a'', e_world_at = ''t'', e_type = ''tool.request'',
         e_payload = JObj [(''operation_id'', JStr ''createRefund'')]\<rparr>;
       mutated = \<lparr>e_run = ''R'', e_seq = 2, e_id = ''b'', e_world_at = ''t'', e_type = ''state.mutation'', e_payload = JNull\<rparr>;
       onRequest = \<lparr>em_type = ''tool.request'', em_where = []\<rparr>; onWrite = \<lparr>em_type = ''state.mutation'', em_where = []\<rparr>;
       ban = (blank_assertion ''x'' ''mutation_forbidden'')\<lparr>as_operation := ''createRefund''\<rparr>
   in fst (eventOrder sample_lib onRequest onWrite [request, mutated])
    \<and> fst (eventFollows sample_lib onRequest onWrite [request, mutated])
    \<and> \<not> fst (eventFollows sample_lib onWrite onRequest [request, mutated])
    \<and> mutationForbidden \<lparr>mf_digest = [], mf_operations = []\<rparr> ban [request, mutated] = Inr (False, [''b''])"
proof -
  define request where "request = \<lparr>e_run = ''R'', e_seq = 1, e_id = ''a'', e_world_at = ''t'', e_type = ''tool.request'',
         e_payload = JObj [(''operation_id'', JStr ''createRefund'')]\<rparr>"
  define mutated where "mutated = \<lparr>e_run = ''R'', e_seq = 2, e_id = ''b'', e_world_at = ''t'', e_type = ''state.mutation'', e_payload = JNull\<rparr>"
  define onRequest where "onRequest = \<lparr>em_type = ''tool.request'', em_where = []\<rparr>"
  define onWrite where "onWrite = \<lparr>em_type = ''state.mutation'', em_where = []\<rparr>"
  have ids: "\<forall>e \<in> set [request, mutated]. e_id e \<noteq> []" by (simp add: request_def mutated_def)
  have m: "matches sample_lib onRequest request" "\<not> matches sample_lib onRequest mutated"
      "\<not> matches sample_lib onWrite request" "matches sample_lib onWrite mutated"
    by (simp_all add: matches_def request_def mutated_def onRequest_def onWrite_def)
  note exact = ledger_assertions_exact [OF ids]
  have "fst (eventOrder sample_lib onRequest onWrite [request, mutated])"
    using exact [THEN conjunct1, of sample_lib onRequest onWrite] m by (simp add: All_less_Suc2)
  moreover have "fst (eventFollows sample_lib onRequest onWrite [request, mutated])"
    using m ids by (simp add: eventFollows_def)
  moreover have "\<not> fst (eventFollows sample_lib onWrite onRequest [request, mutated])"
    using m ids by (simp add: eventFollows_def)
  moreover have "mutationForbidden \<lparr>mf_digest = [], mf_operations = []\<rparr>
      ((blank_assertion ''x'' ''mutation_forbidden'')\<lparr>as_operation := ''createRefund''\<rparr>) [request, mutated] = Inr (False, [''b''])"
    by (simp add: mutationForbidden_def request_def mutated_def string_field_def struct_field_def json_field_def forbidden_def)
  ultimately show ?thesis unfolding Let_def request_def mutated_def onRequest_def onWrite_def by blast
qed

end
