(* ===== verification/Checkpoint.thy ===== *)
theory Checkpoint
  imports Runner Seed
begin

text \<open>
  Checkpoints (\<open>internal/checkpoint\<close>): the restore points of a recorded run, each named by a
  digest of the ledger up to it, and the reconstruction of a run's state at one of them by
  executing the recorded prefix again in an empty database. \<open>recorded\<close>, an argument of the
  digests, is the \<open>recorded_at\<close> column of the events, by event ID.
\<close>

section \<open>Reading recorded values\<close>

text \<open>
  \<open>canonicalJSON\<close>: a value decoded with its number literals kept and written again, which
  sorts the keys of every object. \<open>unmarshal_number\<close> is the decoded value.
\<close>

fun canonicalJSON :: "json \<Rightarrow> json" where
  "canonicalJSON (JArr xs) = JArr (map canonicalJSON xs)"
| "canonicalJSON (JObj kvs) = JObj (sort_key fst (map (\<lambda>(k, v). (k, canonicalJSON v)) kvs))"
| "canonicalJSON j = j"

fun unmarshal_number :: "json \<Rightarrow> val" where
  "unmarshal_number JNull = VNil"
| "unmarshal_number (JBool b) = VBool b"
| "unmarshal_number (JNum s) = VNumber s"
| "unmarshal_number (JStr s) = VStr s"
| "unmarshal_number (JArr xs) = VArr (map unmarshal_number xs)"
| "unmarshal_number (JObj kvs) = VObj (map (\<lambda>(k, v). (k, unmarshal_number v)) kvs)"

definition equalPayload :: "json \<Rightarrow> json \<Rightarrow> bool" where
  "equalPayload a b \<longleftrightarrow> canonicalJSON a = canonicalJSON b"

text \<open>A payload decoded into \<open>map[string]string\<close>.\<close>

definition string_value :: "json \<Rightarrow> string res" where
  "string_value v = (case v of JNull \<Rightarrow> Inr [] | JStr s \<Rightarrow> Inr s
     | _ \<Rightarrow> Inl (Err ''json: cannot unmarshal into string''))"

definition string_map :: "json \<Rightarrow> (string \<times> string) list res" where
  "string_map j =
     (case j of JNull \<Rightarrow> Inr []
      | JObj kvs \<Rightarrow> mapR (\<lambda>(k, v). bindR (string_value v) (\<lambda>s. Inr (k, s))) kvs
      | _ \<Rightarrow> Inl (Err ''json: cannot unmarshal into map''))"

definition entry :: "string \<Rightarrow> (string \<times> string) list \<Rightarrow> string" where
  "entry k kvs = (case map_of kvs k of None \<Rightarrow> [] | Some s \<Rightarrow> s)"

text \<open>An array field of a struct; a null one is the nil slice.\<close>

definition array_field :: "string \<Rightarrow> json \<Rightarrow> json list res" where
  "array_field k j =
     bindR (struct_field k j) (\<lambda>v. case v of JNull \<Rightarrow> Inr [] | JArr xs \<Rightarrow> Inr xs
       | _ \<Rightarrow> Inl (Err ''json: cannot unmarshal into slice''))"

text \<open>
  A message decoded with \<open>UseNumber\<close>. Its arguments are a map, so its keys are sorted when it
  is written again; of the fields in \<open>m_meta\<close> the empty ones are dropped.
\<close>

definition decode_call :: "json \<Rightarrow> tool_call res" where
  "decode_call j =
     bindR (string_field ''id'' j) (\<lambda>i.
     bindR (string_field ''operation_id'' j) (\<lambda>operation.
     bindR (struct_field ''arguments'' j) (\<lambda>args.
     case args of JNull \<Rightarrow> Inr \<lparr>tc_id = i, tc_operation = operation, tc_arguments = JNull\<rparr>
     | JObj _ \<Rightarrow> Inr \<lparr>tc_id = i, tc_operation = operation, tc_arguments = canonicalJSON args\<rparr>
     | _ \<Rightarrow> Inl (Err ''json: cannot unmarshal into map''))))"

definition decode_interruption :: "json \<Rightarrow> interruption res" where
  "decode_interruption j =
     bindR (string_field ''kind'' j) (\<lambda>kind.
     bindR (int_field ''attempt'' j) (\<lambda>attempt.
     bindR (string_field ''reason'' j) (\<lambda>reason.
     bindR (int_field ''deadline_ms'' j) (\<lambda>deadline.
     bindR (int_field ''status'' j) (\<lambda>status.
     bindR (int_field ''retry_after_ms'' j) (\<lambda>retry.
     Inr \<lparr>ip_kind = kind, ip_attempt = attempt, ip_reason = reason, ip_deadline_ms = deadline,
          ip_status = status, ip_retry_after_ms = retry\<rparr>))))))"

definition decode_usage :: "json \<Rightarrow> (string \<times> json) list res" where
  "decode_usage j =
     bindR (struct_field ''usage'' j) (\<lambda>u.
     if u = JNull then Inr []
     else bindR (int_field ''input_tokens'' u) (\<lambda>a.
          bindR (int_field ''output_tokens'' u) (\<lambda>b.
          bindR (int_field ''total_tokens'' u) (\<lambda>c.
          Inr [(''usage'', JObj [(''input_tokens'', jint a), (''output_tokens'', jint b), (''total_tokens'', jint c)])]))))"

definition decode_meta :: "json \<Rightarrow> (string \<times> json) list res" where
  "decode_meta j =
     bindR (array_field ''raw_output'' j) (\<lambda>raw.
     bindR (string_field ''raw_body'' j) (\<lambda>body.
     bindR (decode_usage j) (\<lambda>usage.
     bindR (string_field ''response_id'' j) (\<lambda>rid.
     bindR (string_field ''server_model'' j) (\<lambda>model.
     bindR (string_field ''finish_reason'' j) (\<lambda>finish.
     bindR (int_field ''http_status'' j) (\<lambda>http.
     Inr ((if raw = [] then [] else [(''raw_output'', JArr raw)]) @ opt_str ''raw_body'' body @ usage
          @ opt_str ''response_id'' rid @ opt_str ''server_model'' model @ opt_str ''finish_reason'' finish
          @ opt_int ''http_status'' http))))))))"

definition decode_message :: "json \<Rightarrow> message res" where
  "decode_message j =
     bindR (string_field ''role'' j) (\<lambda>role.
     bindR (string_field ''content'' j) (\<lambda>content.
     bindR (array_field ''tool_calls'' j) (\<lambda>cs. bindR (mapR decode_call cs) (\<lambda>calls.
     bindR (string_field ''call_id'' j) (\<lambda>call.
     bindR (string_field ''operation_id'' j) (\<lambda>operation.
     bindR (int_field ''status'' j) (\<lambda>status.
     bindR (decode_meta j) (\<lambda>meta.
     bindR (array_field ''interruptions'' j) (\<lambda>xs. bindR (mapR decode_interruption xs) (\<lambda>ips.
     Inr \<lparr>m_role = role, m_content = JStr content, m_tool_calls = calls, m_call_id = call, m_operation = operation,
          m_status = status, m_meta = meta, m_interruptions = ips\<rparr>))))))))))"

text \<open>A stored transcript decoded with \<open>UseNumber\<close>.\<close>

definition read_numbered :: "message list \<Rightarrow> message list res" where
  "read_numbered ms =
     (if list_all (\<lambda>m. list_all readable_call (m_tool_calls m)) ms
      then Inr (map (\<lambda>m. m\<lparr>m_tool_calls :=
             map (\<lambda>t. t\<lparr>tc_arguments := canonicalJSON (tc_arguments t)\<rparr>) (m_tool_calls m)\<rparr>) ms)
      else Inl (Err ''json: cannot unmarshal into map''))"

section \<open>Listing the checkpoints of a run\<close>

definition FormatVersion :: int where "FormatVersion = 1"

record checkpoint =
  cp_id :: string
  cp_run :: string
  cp_seq :: nat
  cp_type :: string
  cp_version :: int
  cp_manifest :: string
  cp_prefix :: string
  cp_turns :: nat
  cp_calls :: nat

text \<open>The text hashed for a ledger: a header line, then one line per event.\<close>

definition writeHashHeader :: "string \<Rightarrow> string \<Rightarrow> string" where
  "writeHashHeader runID digest =
     ''twinwright-checkpoint:'' @ show_int FormatVersion @ '':'' @ runID @ '':'' @ digest @ [CHR 0x0A]"

definition writeHashEvent :: "'x golib_scheme \<Rightarrow> (string \<Rightarrow> string) \<Rightarrow> event_row \<Rightarrow> string" where
  "writeHashEvent L recorded e =
     print_json L (JArr [jint (int (e_seq e)), JStr (e_type e), JStr (recorded (e_id e)), JStr (e_world_at e),
                         canonicalJSON (e_payload e)]) @ [CHR 0x0A]"

definition in_place :: "string \<Rightarrow> nat \<Rightarrow> event_row \<Rightarrow> bool" where
  "in_place runID i e \<longleftrightarrow> e_run e = runID \<and> e_seq e = i + 1 \<and> e_id e = event_id runID (i + 1)"

text \<open>The variables of the scan that say which action is open.\<close>

record scan =
  sc_model :: bool
  sc_tool :: bool
  sc_call :: string
  sc_operation :: string
  sc_turns :: nat
  sc_calls :: nat

definition start_scan :: scan where
  "start_scan = \<lparr>sc_model = False, sc_tool = False, sc_call = [], sc_operation = [], sc_turns = 0, sc_calls = 0\<rparr>"

definition start_matches :: "run_row \<Rightarrow> (string \<times> string) list \<Rightarrow> bool" where
  "start_matches run started \<longleftrightarrow>
     entry ''scenario'' started = r_scenario run \<and> entry ''provider'' started = r_provider run
   \<and> entry ''model'' started = r_model run \<and> entry ''world_id'' started = r_world run"

definition call_and_operation :: "json \<Rightarrow> (string \<times> string) res" where
  "call_and_operation j =
     bindR (string_field ''call_id'' j) (\<lambda>c. bindR (string_field ''operation_id'' j) (\<lambda>p. Inr (c, p)))"

text \<open>One event of the scan: the new variables and whether the event is a restore boundary.\<close>

definition scan_event :: "run_row \<Rightarrow> nat \<Rightarrow> nat \<Rightarrow> event_row \<Rightarrow> scan \<Rightarrow> (scan \<times> bool) res" where
  "scan_event run tip i e s =
     (let t = e_type e in
      if t = ''execution.started'' then
        (if i \<noteq> 0 then Inl (Err ''unexpected start event'')
         else bindR (string_map (e_payload e)) (\<lambda>started.
              if start_matches run started then Inr (s, False)
              else Inl (Err ''execution start metadata differs from run'')))
      else if t = ''model.request'' then
        (if sc_model s \<or> sc_tool s then Inl (Err ''overlapping model request'') else Inr (s\<lparr>sc_model := True\<rparr>, False))
      else if t = ''model.response'' then
        (if \<not> sc_model s \<or> sc_tool s then Inl (Err ''model response without request'')
         else if string_field ''role'' (e_payload e) \<noteq> Inr ''assistant'' then Inl (Err ''invalid model response'')
         else Inr (s\<lparr>sc_model := False, sc_turns := sc_turns s + 1\<rparr>, True))
      else if t = ''tool.request'' then
        (if sc_model s \<or> sc_tool s then Inl (Err ''overlapping tool request'')
         else case call_and_operation (e_payload e) of
             Inl _ \<Rightarrow> Inl (Err ''invalid tool request'')
           | Inr (c, p) \<Rightarrow> if c = [] \<or> p = [] then Inl (Err ''invalid tool request'')
               else Inr (s\<lparr>sc_tool := True, sc_call := c, sc_operation := p\<rparr>, False))
      else if t = ''provider.interrupted'' then
        (if \<not> sc_model s then Inl (Err ''provider interruption outside a model call'') else Inr (s, False))
      else if t \<in> set [''state.mutation'', ''retry'', ''chaos.injected'', ''chaos.actor_mutation'',
                       ''authorization.allowed'', ''authorization.denied''] then
        (if \<not> sc_tool s then Inl (Err ''event without tool request'') else Inr (s, False))
      else if t = ''error'' then
        (if string_field ''kind'' (e_payload e) \<noteq> Inr ''injected_503'' \<or> \<not> sc_tool s
         then Inl (Err ''unsupported error'') else Inr (s, False))
      else if t = ''tool.response'' then
        (if \<not> sc_tool s then Inl (Err ''tool response without request'')
         else if call_and_operation (e_payload e) \<noteq> Inr (sc_call s, sc_operation s)
         then Inl (Err ''tool response does not match request'')
         else Inr (s\<lparr>sc_tool := False, sc_calls := sc_calls s + 1\<rparr>, True))
      else if t = ''execution.paused'' \<or> t = ''execution.completed'' then
        (if sc_model s \<or> sc_tool s then Inl (Err ''execution ended during action'')
         else if t = ''execution.completed'' \<and> i \<noteq> tip - 1 then Inl (Err ''completion event is not last'')
         else Inr (s, True))
      else Inl (Err ''unsupported event type''))"

definition point_at :: "'x golib_scheme \<Rightarrow> string \<Rightarrow> string \<Rightarrow> string \<Rightarrow> event_row \<Rightarrow> scan \<Rightarrow> checkpoint" where
  "point_at L runID digest text1 e s =
     (let p = hex_digest L text1 in
      \<lparr>cp_id = ''CP-'' @ take 20 p, cp_run = runID, cp_seq = e_seq e, cp_type = e_type e, cp_version = FormatVersion,
       cp_manifest = digest, cp_prefix = p, cp_turns = sc_turns s, cp_calls = sc_calls s\<rparr>)"

text \<open>The loop over the ledger; \<open>text1\<close> is what has been hashed so far.\<close>

fun list_events ::
    "'x golib_scheme \<Rightarrow> (string \<Rightarrow> string) \<Rightarrow> string \<Rightarrow> run_row \<Rightarrow> nat \<Rightarrow> nat \<Rightarrow> string \<Rightarrow> scan \<Rightarrow> event_row list
       \<Rightarrow> (scan \<times> checkpoint list) res" where
  "list_events L recorded digest run tip i text1 s [] = Inr (s, [])"
| "list_events L recorded digest run tip i text1 s (e # es) =
     (if i = 0 \<and> e_type e \<noteq> ''execution.started'' then Inl (Err ''run ledger lacks start event'')
      else if \<not> in_place (r_id run) i e then Inl (Err ''ledger sequence or ID differs'')
      else
        let text2 = text1 @ writeHashEvent L recorded e in
        bindR (scan_event run tip i e s) (\<lambda>(s1, boundary).
        bindR (list_events L recorded digest run tip (Suc i) text2 s1 es) (\<lambda>(s2, points).
        Inr (s2, if boundary then point_at L (r_id run) digest text2 e s1 # points else points))))"

definition list_points ::
    "'x golib_scheme \<Rightarrow> (string \<Rightarrow> string) \<Rightarrow> string \<Rightarrow> run_row \<Rightarrow> event_row list \<Rightarrow> checkpoint list res" where
  "list_points L recorded digest run evs =
     bindR (list_events L recorded digest run (length evs) 0 (writeHashHeader (r_id run) digest) start_scan evs)
       (\<lambda>(s, points).
        if sc_model s \<or> sc_tool s then Inl (Err ''run ledger ends during an action'')
        else if sc_turns s \<noteq> r_step run then Inl (Err ''run step differs from model response count'')
        else if r_status run = ''paused'' \<and> e_type (last evs) \<noteq> ''execution.paused''
        then Inl (Err ''paused run lacks terminal pause event'')
        else if r_status run = ''completed'' \<and> e_type (last evs) \<noteq> ''execution.completed''
        then Inl (Err ''completed run lacks terminal completion event'')
        else Inr points)"

definition List ::
    "'x golib_scheme \<Rightarrow> (string \<Rightarrow> string) \<Rightarrow> string \<Rightarrow> manifest \<Rightarrow> db \<Rightarrow> checkpoint list res" where
  "List L recorded runID m d =
     bindR (ValidateManifest L m) (\<lambda>_.
     bindR (Run runID d) (\<lambda>run.
     if r_status run \<noteq> ''paused'' \<and> r_status run \<noteq> ''completed''
     then Inl (Err ''checkpoints require paused or completed run'')
     else case sel w_id (r_world run) (worlds (db_world d)) of
         None \<Rightarrow> Inl ErrNoRows
       | Some w \<Rightarrow>
           if w_digest w \<noteq> mf_digest m then Inl (Err ''manifest mismatch'')
           else if Events runID d = [] then Inl (Err ''run has no events'')
           else list_points L recorded (mf_digest m) run (Events runID d)))"

fun prefix_text ::
    "'x golib_scheme \<Rightarrow> (string \<Rightarrow> string) \<Rightarrow> string \<Rightarrow> nat \<Rightarrow> string \<Rightarrow> event_row list \<Rightarrow> string res" where
  "prefix_text L recorded runID i text1 [] = Inr text1"
| "prefix_text L recorded runID i text1 (e # es) =
     (if \<not> in_place runID i e then Inl (Err ''ledger sequence or ID differs'')
      else prefix_text L recorded runID (Suc i) (text1 @ writeHashEvent L recorded e) es)"

definition PrefixDigest ::
    "'x golib_scheme \<Rightarrow> (string \<Rightarrow> string) \<Rightarrow> string \<Rightarrow> string \<Rightarrow> event_row list \<Rightarrow> string res" where
  "PrefixDigest L recorded runID digest evs =
     bindR (prefix_text L recorded runID 0 (writeHashHeader runID digest) evs) (\<lambda>t. Inr (hex_digest L t))"

definition Select :: "checkpoint list \<Rightarrow> nat \<Rightarrow> checkpoint res" where
  "Select points seq =
     (case find (\<lambda>p. cp_seq p = seq) points of
        None \<Rightarrow> Inl (Err ''event is not a checkpoint'') | Some p \<Rightarrow> Inr p)"

section \<open>Reconstructing the state at a checkpoint\<close>

text \<open>A store opened in memory, with the migrated and empty schema.\<close>

definition fresh_db :: db where
  "fresh_db = \<lparr>db_world = empty_world, db_runs = \<lparr>runs = [], events = [], tool_results = []\<rparr>,
     db_policy = empty_policy, db_coord = empty_coord\<rparr>"

definition replay_dispatcher :: "'x lib_scheme \<Rightarrow> manifest \<Rightarrow> dispatcher" where
  "replay_dispatcher L m = \<lparr>dp_manifest = m, dp_registry = builtin L, dp_fence = None\<rparr>"

definition recorded_call :: "json \<Rightarrow> (string \<times> string \<times> args) res" where
  "recorded_call j =
     bindR (call_and_operation j) (\<lambda>(c, p).
     bindR (struct_field ''arguments'' j) (\<lambda>v.
     case v of JNull \<Rightarrow> Inr (c, p, [])
     | JObj kvs \<Rightarrow> Inr (c, p, map (\<lambda>(k, v). (k, unmarshal_number v)) kvs)
     | _ \<Rightarrow> Inl (Err ''json: cannot unmarshal into map'')))"

text \<open>
  The loop over the recorded prefix after its first event. A tool request is executed, which
  writes all the events of the call; \<open>skipping\<close> passes over the recorded ones up to the response.
\<close>

fun rebuild ::
    "'x lib_scheme \<Rightarrow> manifest \<Rightarrow> string \<Rightarrow> bool \<Rightarrow> event_row list \<Rightarrow> message list \<Rightarrow> nat \<Rightarrow> db \<Rightarrow> db res" where
  "rebuild L m runID skipping [] history step d =
     (if skipping then Inl (Err ''tool call has no response before checkpoint'') else Inr d)"
| "rebuild L m runID skipping (e # es) history step d =
     (let t = e_type e in
      if skipping then
        (if t \<noteq> ''tool.response'' then rebuild L m runID True es history step d
         else bindR (Run runID d) (\<lambda>current.
              bindR (read_numbered (r_transcript current)) (\<lambda>history1.
              rebuild L m runID False es history1 step d)))
      else if t = ''model.request'' then
        bindR (Run runID d) (\<lambda>current.
        bindR (read_transcript L (r_transcript current)) (\<lambda>requestHistory.
        bindR (Exposed L runID (mf_operations m) d) (\<lambda>ops.
        let request = model_request L current requestHistory ops in
        if \<not> equalPayload (e_payload e) request then Inl (Err ''model request differs from reconstructed context'')
        else bindR (StartModelCall L runID request d) (\<lambda>(_, d1). rebuild L m runID False es history step d1))))
      else if t = ''model.response'' then
        bindR (decode_message (e_payload e)) (\<lambda>message.
        bindR (SaveTurn L runID (Suc step) (history @ [message]) (message_json L message)
                 (interruptionPayloads (m_interruptions message)) d)
          (\<lambda>(_, d1). rebuild L m runID False es (history @ [message]) (Suc step) d1))
      else if t = ''provider.interrupted'' then rebuild L m runID False es history step d
      else if t = ''tool.request'' then
        bindR (recorded_call (e_payload e)) (\<lambda>(c, p, args).
        case Invoke L (replay_dispatcher L m) 0 NoCrash runID c p args d of
          (Inl err, _) \<Rightarrow> Inl err
        | (Inr _, d1) \<Rightarrow> rebuild L m runID True es history step d1)
      else if t = ''execution.paused'' \<or> t = ''execution.completed'' then
        bindR (SaveStatus L runID (if t = ''execution.completed'' then ''completed'' else ''paused'') t
                 (canonicalJSON (e_payload e)) d)
          (\<lambda>(_, d1). rebuild L m runID False es history step d1)
      else Inl (Err ''unexpected standalone event''))"

definition compareToolResult :: "string \<Rightarrow> string \<Rightarrow> db \<Rightarrow> db \<Rightarrow> unit res" where
  "compareToolResult runID callID source target =
     (let read = (\<lambda>d. sel (\<lambda>r. (tr_run r, tr_call r)) (runID, callID) (results d)) in
      case (read source, read target) of
        (Some l, Some r) \<Rightarrow>
          if tr_operation l \<noteq> tr_operation r \<or> tr_status l \<noteq> tr_status r
             \<or> \<not> equalPayload (tr_arguments l) (tr_arguments r) \<or> \<not> equalPayload (tr_body l) (tr_body r)
          then Inl (Err ''checkpoint tool result differs'') else Inr ()
      | _ \<Rightarrow> Inl ErrNoRows)"

definition same_event :: "event_row \<Rightarrow> event_row \<Rightarrow> bool" where
  "same_event l r \<longleftrightarrow>
     e_type l = e_type r \<and> e_world_at l = e_world_at r \<and> equalPayload (e_payload l) (e_payload r)"

fun compare_prefix :: "string \<Rightarrow> db \<Rightarrow> db \<Rightarrow> (event_row \<times> event_row) list \<Rightarrow> unit res" where
  "compare_prefix runID source target [] = Inr ()"
| "compare_prefix runID source target ((l, r) # es) =
     (if \<not> same_event l r then Inl (Err ''checkpoint replay diverged'')
      else bindR (if e_type l = ''tool.request''
                  then bindR (string_field ''call_id'' (e_payload l)) (\<lambda>c. compareToolResult runID c source target)
                  else Inr ())
             (\<lambda>_. compare_prefix runID source target es))"

definition compareTranscriptPrefix :: "'x golib_scheme \<Rightarrow> message list \<Rightarrow> message list \<Rightarrow> unit res" where
  "compareTranscriptPrefix L source rebuilt =
     (if length source < length rebuilt then Inl (Err ''source transcript is shorter than checkpoint transcript'')
      else if list_all (\<lambda>(s, r). equalPayload (message_json L s) (message_json L r)) (zip source rebuilt) then Inr ()
      else Inl (Err ''source transcript differs''))"

text \<open>The empty database with the run's world, its row and its policies.\<close>

definition replay_start :: "'x lib_scheme \<Rightarrow> run_row \<Rightarrow> world_row \<Rightarrow> db \<Rightarrow> db res" where
  "replay_start L original w source =
     bindR (SeedScenario L (w_seed w) (w_digest w) (r_scenario original) fresh_db) (\<lambda>(world, d1).
     bindR (CreateReplayRun L original (w_id world) d1) (\<lambda>(_, d2).
     bindR (case ChaosPolicy (r_id original) source of
              Inl _ \<Rightarrow> Inr ((), d2) | Inr (policy, digest) \<Rightarrow> AttachChaos L (r_id original) policy digest d2) (\<lambda>(_, d3).
     bindR (case AuthPolicy (r_id original) source of
              Inl _ \<Rightarrow> Inr ((), d3) | Inr (policy, digest) \<Rightarrow> AttachAuth L (r_id original) policy digest d3) (\<lambda>(_, d4).
     Inr d4))))"

definition Reconstruct ::
    "'x lib_scheme \<Rightarrow> (string \<Rightarrow> string) \<Rightarrow> string \<Rightarrow> checkpoint \<Rightarrow> manifest \<Rightarrow> db \<Rightarrow> (db \<times> run_row) res" where
  "Reconstruct L recorded runID selected m source =
     bindR (List L recorded runID m source) (\<lambda>points.
     bindR (Select points (cp_seq selected)) (\<lambda>current.
     if current \<noteq> selected then Inl (Err ''checkpoint no longer matches source prefix'')
     else bindR (Run runID source) (\<lambda>original.
       case sel w_id (r_world original) (worlds (db_world source)) of
         None \<Rightarrow> Inl ErrNoRows
       | Some w \<Rightarrow>
           bindR (replay_start L original w source) (\<lambda>d0.
           bindR (rebuild L m runID False (drop 1 (take (cp_seq selected) (Events runID source))) [] 0 d0) (\<lambda>target.
           let generated = Events runID target in
           if length generated \<noteq> cp_seq selected then Inl (Err ''checkpoint event count differs'')
           else bindR (compare_prefix runID source target
                        (drop 1 (zip (take (cp_seq selected) (Events runID source)) generated))) (\<lambda>_.
                bindR (Run runID target) (\<lambda>rebuilt.
                bindR (compareTranscriptPrefix L (r_transcript original) (r_transcript rebuilt)) (\<lambda>_.
                Inr (target, rebuilt)))))))))"

section \<open>What a checkpoint is\<close>

definition boundary_types :: "string list" where
  "boundary_types = [''model.response'', ''tool.response'', ''execution.paused'', ''execution.completed'']"

abbreviation type_count :: "string \<Rightarrow> event_row list \<Rightarrow> nat" where
  "type_count t evs \<equiv> count_list (map e_type evs) t"

text \<open>The variables of the scan count the requests and responses passed, and at most one action is open.\<close>

definition scan_ok :: "event_row list \<Rightarrow> scan \<Rightarrow> bool" where
  "scan_ok pre s \<longleftrightarrow>
     type_count ''model.response'' pre = sc_turns s
   \<and> type_count ''model.request'' pre = sc_turns s + of_bool (sc_model s)
   \<and> type_count ''tool.response'' pre = sc_calls s
   \<and> type_count ''tool.request'' pre = sc_calls s + of_bool (sc_tool s)
   \<and> \<not> (sc_model s \<and> sc_tool s)"

text \<open>
  A checkpoint of a ledger: it names the digest of the events up to it, and no model call and
  no tool call is open there.
\<close>

definition checkpoint_of :: "'x golib_scheme \<Rightarrow> (string \<Rightarrow> string) \<Rightarrow> string \<Rightarrow> string \<Rightarrow> event_row list \<Rightarrow> checkpoint \<Rightarrow> bool" where
  "checkpoint_of L recorded runID digest evs p \<longleftrightarrow>
     (let pre = take (cp_seq p) evs in
      cp_version p = FormatVersion \<and> cp_run p = runID \<and> cp_manifest p = digest
    \<and> 0 < cp_seq p \<and> cp_seq p \<le> length evs \<and> cp_type p = e_type (last pre)
    \<and> PrefixDigest L recorded runID digest pre = Inr (cp_prefix p) \<and> cp_id p = ''CP-'' @ take 20 (cp_prefix p)
    \<and> type_count ''model.request'' pre = cp_turns p \<and> type_count ''model.response'' pre = cp_turns p
    \<and> type_count ''tool.request'' pre = cp_calls p \<and> type_count ''tool.response'' pre = cp_calls p)"

text \<open>An accepted event changes the variables in a way that depends on nothing but the event.\<close>

definition scan_next :: "event_row \<Rightarrow> scan \<Rightarrow> scan \<times> bool" where
  "scan_next e s =
     (if e_type e = ''model.request'' then (s\<lparr>sc_model := True\<rparr>, False)
      else if e_type e = ''model.response'' then (s\<lparr>sc_model := False, sc_turns := sc_turns s + 1\<rparr>, True)
      else if e_type e = ''tool.request'' then
        (case call_and_operation (e_payload e) of Inl _ \<Rightarrow> (s, False)
         | Inr (c, p) \<Rightarrow> (s\<lparr>sc_tool := True, sc_call := c, sc_operation := p\<rparr>, False))
      else if e_type e = ''tool.response'' then (s\<lparr>sc_tool := False, sc_calls := sc_calls s + 1\<rparr>, True)
      else (s, e_type e = ''execution.paused'' \<or> e_type e = ''execution.completed''))"

lemma scan_event_next: "scan_event run tip i e s = Inr x \<Longrightarrow> x = scan_next e s"
  unfolding scan_event_def scan_next_def Let_def by (auto split: if_splits sum.splits)

lemma scan_event_guard:
  assumes "scan_event run tip i e s = Inr x"
  shows "e_type e = ''model.request'' \<Longrightarrow> \<not> sc_model s \<and> \<not> sc_tool s"
    and "e_type e = ''model.response'' \<Longrightarrow> sc_model s \<and> \<not> sc_tool s"
    and "e_type e = ''tool.request'' \<Longrightarrow> \<not> sc_model s \<and> \<not> sc_tool s \<and> (\<exists>y. call_and_operation (e_payload e) = Inr y)"
    and "e_type e = ''tool.response'' \<Longrightarrow> sc_tool s"
    and "e_type e = ''execution.paused'' \<or> e_type e = ''execution.completed'' \<Longrightarrow> \<not> sc_model s \<and> \<not> sc_tool s"
  using assms by (auto simp: scan_event_def split: if_splits sum.splits)

lemma scan_event_ok:
  assumes "scan_event run tip i e s = Inr (s1, b)" and "scan_ok pre s"
  shows "scan_ok (pre @ [e]) s1 \<and> (b \<longleftrightarrow> e_type e \<in> set boundary_types) \<and> (b \<longrightarrow> \<not> sc_model s1 \<and> \<not> sc_tool s1)"
proof -
  note guard = scan_event_guard [OF assms(1)]
  have step: "s1 = fst (scan_next e s)" "b = snd (scan_next e s)"
    using scan_event_next [OF assms(1)] by (metis fst_conv, metis snd_conv)
  consider "e_type e = ''model.request''" | "e_type e = ''model.response''" | "e_type e = ''tool.request''"
    | "e_type e = ''tool.response''" | "e_type e \<notin> set [''model.request'', ''model.response'', ''tool.request'', ''tool.response'']"
    by auto
  then show ?thesis
  proof cases
    case 1
    then show ?thesis using guard(1) assms(2) by (simp add: step scan_next_def scan_ok_def boundary_types_def)
  next
    case 2
    then show ?thesis using guard(2) assms(2) by (simp add: step scan_next_def scan_ok_def boundary_types_def)
  next
    case 3
    then show ?thesis using guard(3) assms(2) by (auto simp: step scan_next_def scan_ok_def boundary_types_def)
  next
    case 4
    then show ?thesis using guard(4) assms(2) by (simp add: step scan_next_def scan_ok_def boundary_types_def)
  next
    case 5
    then show ?thesis using guard(5) assms(2) by (auto simp: step scan_next_def scan_ok_def boundary_types_def)
  qed
qed

lemma prefix_text_snoc:
  "prefix_text L recorded runID i t0 pre = Inr t1 \<Longrightarrow> in_place runID (i + length pre) e \<Longrightarrow>
     prefix_text L recorded runID i t0 (pre @ [e]) = Inr (t1 @ writeHashEvent L recorded e)"
  by (induction pre arbitrary: i t0) (auto split: if_splits)

lemma point_at_checkpoint:
  assumes "prefix_text L recorded (r_id run) 0 (writeHashHeader (r_id run) digest) (pre @ [e]) = Inr text2"
    and "in_place (r_id run) (length pre) e" and "scan_ok (pre @ [e]) s1" and "\<not> sc_model s1" and "\<not> sc_tool s1"
  shows "checkpoint_of L recorded (r_id run) digest (pre @ e # es) (point_at L (r_id run) digest text2 e s1)"
  using assms by (simp add: checkpoint_of_def point_at_def Let_def scan_ok_def in_place_def PrefixDigest_def)

lemma list_events_exact:
  assumes "list_events L recorded digest run tip i text1 s es = Inr (s2, ps)" and "i = length pre"
    and "prefix_text L recorded (r_id run) 0 (writeHashHeader (r_id run) digest) pre = Inr text1" and "scan_ok pre s"
  shows "list_all (checkpoint_of L recorded (r_id run) digest (pre @ es)) ps
    \<and> map cp_seq ps = map e_seq (filter (\<lambda>e. e_type e \<in> set boundary_types) es)"
  using assms
proof (induction es arbitrary: i text1 s pre s2 ps)
  case (Cons e es)
  let ?text2 = "text1 @ writeHashEvent L recorded e"
  from Cons.prems(1) obtain s1 b ps1 where place: "in_place (r_id run) i e"
      and scan: "scan_event run tip i e s = Inr (s1, b)"
      and rest: "list_events L recorded digest run tip (Suc i) ?text2 s1 es = Inr (s2, ps1)"
      and ps: "ps = (if b then point_at L (r_id run) digest ?text2 e s1 # ps1 else ps1)"
    by (auto simp: Let_def split: if_splits)
  note ok = scan_event_ok [OF scan Cons.prems(4)]
  have text2: "prefix_text L recorded (r_id run) 0 (writeHashHeader (r_id run) digest) (pre @ [e]) = Inr ?text2"
    by (rule prefix_text_snoc [OF Cons.prems(3)]) (use place Cons.prems(2) in simp)
  have ih: "list_all (checkpoint_of L recorded (r_id run) digest (pre @ e # es)) ps1"
      "map cp_seq ps1 = map e_seq (filter (\<lambda>e. e_type e \<in> set boundary_types) es)"
    using Cons.IH [OF rest _ text2, of ] ok Cons.prems(2) by simp_all
  have "checkpoint_of L recorded (r_id run) digest (pre @ e # es) (point_at L (r_id run) digest ?text2 e s1)" if b
    using point_at_checkpoint [OF text2] place Cons.prems(2) ok that by simp
  moreover have "cp_seq (point_at L (r_id run) digest ?text2 e s1) = e_seq e" by (simp add: point_at_def Let_def)
  ultimately show ?case using ps ih ok by auto
qed simp

text \<open>The digest of a longer ledger starts with what the shorter one hashed.\<close>

lemma list_events_append:
  assumes "list_events L recorded digest run tip i text1 s es = Inr (s2, ps)"
    and "list_events L recorded digest run' tip' i text1 s (es @ fs) = Inr (s3, ps')" and "r_id run' = r_id run"
  shows "\<exists>qs. ps' = ps @ qs"
  using assms
proof (induction es arbitrary: i text1 s ps ps' s2 s3)
  case (Cons e es)
  let ?text2 = "text1 @ writeHashEvent L recorded e"
  from Cons.prems(1) obtain s1 b ps1 where
      scan: "scan_event run tip i e s = Inr (s1, b)" "list_events L recorded digest run tip (Suc i) ?text2 s1 es = Inr (s2, ps1)"
      "ps = (if b then point_at L (r_id run) digest ?text2 e s1 # ps1 else ps1)"
    by (auto simp: Let_def split: if_splits)
  from Cons.prems(2) obtain s1' b' ps1' where
      scan': "scan_event run' tip' i e s = Inr (s1', b')"
      "list_events L recorded digest run' tip' (Suc i) ?text2 s1' (es @ fs) = Inr (s3, ps1')"
      "ps' = (if b' then point_at L (r_id run) digest ?text2 e s1' # ps1' else ps1')"
    using Cons.prems(3) by (auto simp: Let_def split: if_splits)
  have "s1' = s1 \<and> b' = b"
    using scan_event_next [OF scan(1)] scan_event_next [OF scan'(1)] by (metis prod.inject)
  then show ?case using Cons.IH [OF scan(2) _ Cons.prems(3)] scan scan' by auto
qed simp

section \<open>The checkpoints of a run\<close>

lemma Run_id: "Run runID d = Inr run \<Longrightarrow> r_id run = runID"
  by (auto simp: Run_def split: option.splits dest: sel_SomeD)

lemma List_ok:
  assumes "List L recorded runID m d = Inr ps"
  obtains run s where "Run runID d = Inr run" "r_id run = runID" "Events runID d \<noteq> []"
    "list_events L recorded (mf_digest m) run (length (Events runID d)) 0 (writeHashHeader runID (mf_digest m))
       start_scan (Events runID d) = Inr (s, ps)"
  using assms Run_id [of runID d]
  by (auto simp: List_def list_points_def split: if_splits option.splits intro: that)

lemma scan_ok_start: "scan_ok [] start_scan"
  by (simp add: scan_ok_def start_scan_def)

lemma List_exact:
  assumes "List L recorded runID m d = Inr ps"
  shows "list_all (checkpoint_of L recorded runID (mf_digest m) (Events runID d)) ps
    \<and> map cp_seq ps = map e_seq (filter (\<lambda>e. e_type e \<in> set boundary_types) (Events runID d))"
  using assms
proof (rule List_ok)
  fix run s
  assume run: "r_id run = runID" and l: "list_events L recorded (mf_digest m) run (length (Events runID d)) 0
      (writeHashHeader runID (mf_digest m)) start_scan (Events runID d) = Inr (s, ps)"
  show ?thesis using list_events_exact [OF l, of "[]"] run scan_ok_start by simp
qed

text \<open>
  C14. The checkpoints of a run are exactly its model responses, tool responses, pauses and
  completion, in ledger order. Each one is named by the digest of the events up to it, the same
  digest a fork recomputes before it trusts the checkpoint, and at each one every model request
  and every tool request made so far has its response, so no action is cut in half.
\<close>

theorem checkpoints_exact:
  assumes "List L recorded runID m d = Inr ps"
  shows "list_all (checkpoint_of L recorded runID (mf_digest m) (Events runID d)) ps
    \<and> map cp_seq ps = map e_seq (filter (\<lambda>e. e_type e \<in> set boundary_types) (Events runID d))"
  using assms by (rule List_exact)

text \<open>
  Checkpoints are stable: when a run goes on, every checkpoint it had is still listed, with
  the same name, digest and counts, and new ones only follow.
\<close>

theorem checkpoints_stable:
  assumes "List L recorded runID m d = Inr ps" and "List L recorded runID m d' = Inr ps'"
    and "Events runID d' = Events runID d @ new"
  shows "\<exists>qs. ps' = ps @ qs"
proof -
  obtain run s where run: "r_id run = runID" and l: "list_events L recorded (mf_digest m) run (length (Events runID d)) 0
      (writeHashHeader runID (mf_digest m)) start_scan (Events runID d) = Inr (s, ps)"
    using assms(1) by (rule List_ok)
  obtain run' s' where run': "r_id run' = runID" and l': "list_events L recorded (mf_digest m) run' (length (Events runID d')) 0
      (writeHashHeader runID (mf_digest m)) start_scan (Events runID d') = Inr (s', ps')"
    using assms(2) by (rule List_ok)
  show ?thesis
    using list_events_append [OF l l' [unfolded assms(3)]] run run' by simp
qed

section \<open>What a reconstruction gives\<close>

text \<open>The databases a reconstruction goes through keep the invariants and only grow.\<close>

definition rebuilds :: "db \<Rightarrow> db \<Rightarrow> bool" where
  "rebuilds d d' \<longleftrightarrow> (world_ok (db_world d) \<longrightarrow> world_ok (db_world d')) \<and> (ledger_inv d \<longrightarrow> ledger_inv d')
     \<and> prefix (ledger d) (ledger d')"

lemma rebuilds_refl: "rebuilds d d"
  by (simp add: rebuilds_def)

lemma rebuilds_trans [trans]: "rebuilds d d' \<Longrightarrow> rebuilds d' d'' \<Longrightarrow> rebuilds d d''"
  using prefix_order.trans unfolding rebuilds_def by blast

lemma rebuilds_grows: "ledger_grows d d' \<Longrightarrow> db_world d' = db_world d \<Longrightarrow> rebuilds d d'"
  by (auto simp: rebuilds_def ledger_grows_def prefix_def)

lemma rebuilds_append: "AppendEventTx L runID typ payload d = Inr (u, d') \<Longrightarrow> rebuilds d d'"
  by (intro rebuilds_grows AppendEventTx_grows AppendEventTx_frame(3))

lemma rebuilds_turn: "SaveTurn L runID step transcript response ps d = Inr (u, d') \<Longrightarrow> rebuilds d d'"
  by (intro rebuilds_grows SaveTurn_grows(1) SaveTurn_grows(3))

lemma rebuilds_status: "SaveStatus L runID status typ payload d = Inr (u, d') \<Longrightarrow> rebuilds d d'"
  by (intro rebuilds_grows SaveStatus_grows(1) SaveStatus_grows(3))

lemma rebuilds_call:
  assumes "Invoke L (replay_dispatcher L m) now crash runID c p args d = (out, d')"
  shows "rebuilds d d'"
proof -
  have "dp_registry (replay_dispatcher L m) = builtin L" by (simp add: replay_dispatcher_def)
  from Invoke_sound [OF this assms] show ?thesis by (simp add: rebuilds_def)
qed

lemma answered_iff:
  "(case x of (Inl err, _) \<Rightarrow> Inl err | (Inr _, d1) \<Rightarrow> f d1) = Inr y \<longleftrightarrow> (\<exists>r d1. x = (Inr r, d1) \<and> f d1 = Inr y)"
  by (auto split: prod.splits sum.splits)

lemma rebuild_rebuilds: "rebuild L m runID skipping es history step d = Inr d' \<Longrightarrow> rebuilds d d'"
proof (induction es arbitrary: skipping history step d)
  case (Cons e es)
  consider (skip) history1 skipping1 step1 where "rebuild L m runID skipping1 es history1 step1 d = Inr d'"
    | (request) req d1 where "StartModelCall L runID req d = Inr ((), d1)"
        "rebuild L m runID False es history step d1 = Inr d'"
    | (response) msg d1 where "SaveTurn L runID (Suc step) (history @ [msg]) (message_json L msg)
          (interruptionPayloads (m_interruptions msg)) d = Inr ((), d1)"
        "rebuild L m runID False es (history @ [msg]) (Suc step) d1 = Inr d'"
    | (call) c p args r d1 where "Invoke L (replay_dispatcher L m) 0 NoCrash runID c p args d = (Inr r, d1)"
        "rebuild L m runID True es history step d1 = Inr d'"
    | (status) st t pl d1 where "SaveStatus L runID st t pl d = Inr ((), d1)"
        "rebuild L m runID False es history step d1 = Inr d'"
    using Cons.prems by (auto simp: Let_def answered_iff split: if_splits)
  then show ?case
  proof cases
    case skip
    then show ?thesis by (rule Cons.IH)
  next
    case request
    then show ?thesis
      using rebuilds_trans [OF rebuilds_append Cons.IH] by (simp add: StartModelCall_def Append_def)
  next
    case response
    then show ?thesis using rebuilds_trans [OF rebuilds_turn Cons.IH] by blast
  next
    case call
    then show ?thesis using rebuilds_trans [OF rebuilds_call Cons.IH] by blast
  next
    case status
    then show ?thesis using rebuilds_trans [OF rebuilds_status Cons.IH] by blast
  qed
qed (auto simp: rebuilds_refl split: if_splits)

lemma fresh_db_ok: "world_ok (db_world fresh_db)" "ledger_inv fresh_db" "ledger fresh_db = []"
  by (simp_all add: fresh_db_def world_ok_def world_keys_def keyed_def billing_ok_def empty_world_def ledger_inv_def
      contiguous_def)

lemma AttachChaos_frame:
  "AttachChaos L runID policy digest d = Inr (u, d') \<Longrightarrow> db_world d' = db_world d \<and> db_runs d' = db_runs d"
  by (auto simp: AttachChaos_def)

lemma AttachAuth_frame:
  "AttachAuth L runID policy digest d = Inr (u, d') \<Longrightarrow> db_world d' = db_world d \<and> db_runs d' = db_runs d"
  by (auto simp: AttachAuth_def)

lemma replay_start_ok:
  assumes "replay_start L original w source = Inr d0"
  shows "world_ok (db_world d0)" and "ledger_inv d0"
    and "\<exists>e. ledger d0 = [e] \<and> e_run e = r_id original \<and> e_type e = ''execution.started''"
proof -
  obtain world d1 r d2 d3 where d1: "SeedScenario L (w_seed w) (w_digest w) (r_scenario original) fresh_db = Inr (world, d1)"
      and d2: "CreateReplayRun L original (w_id world) d1 = Inr (r, d2)"
      and d3: "(case ChaosPolicy (r_id original) source of Inl _ \<Rightarrow> Inr ((), d2)
          | Inr (policy, digest) \<Rightarrow> AttachChaos L (r_id original) policy digest d2) = Inr ((), d3)"
      and d0: "(case AuthPolicy (r_id original) source of Inl _ \<Rightarrow> Inr ((), d3)
          | Inr (policy, digest) \<Rightarrow> AttachAuth L (r_id original) policy digest d3) = Inr ((), d0)"
    using assms by (auto simp: replay_start_def)
  have seeded: "world_ok (db_world d1)" "ledger d1 = []" "ledger_inv d1"
    using SeedScenario_ok [OF d1] fresh_db_ok by (auto simp: ledger_inv_def)
  obtain rs u where a: "AppendEventTx L (r_id original) ''execution.started'' u (map_runs (\<lambda>_. rs) d1) = Inr ((), d2)"
    using d2 by (auto simp: CreateReplayRun_def Let_def)
  have d2_ok: "world_ok (db_world d2)" "ledger_inv d2"
    using AppendEventTx_frame(3) [OF a] AppendEventTx_grows [OF a] seeded by (simp_all add: ledger_grows_def ledger_inv_def)
  have led: "\<exists>e. ledger d2 = [e] \<and> e_run e = r_id original \<and> e_type e = ''execution.started''"
    using a by (rule AppendEventTx_ok) (use seeded in auto)
  have "db_world d3 = db_world d2 \<and> db_runs d3 = db_runs d2"
    using d3 by (auto split: sum.splits dest: AttachChaos_frame)
  moreover have "db_world d0 = db_world d3 \<and> db_runs d0 = db_runs d3"
    using d0 by (auto split: sum.splits dest: AttachAuth_frame)
  ultimately show "world_ok (db_world d0)" "ledger_inv d0"
      "\<exists>e. ledger d0 = [e] \<and> e_run e = r_id original \<and> e_type e = ''execution.started''"
    using d2_ok led ledger_inv_runs [of d0 d2] by auto
qed

lemma compare_prefix_ok:
  assumes "compare_prefix runID source target zs = Inr ()" and "(l, r) \<in> set zs"
  shows "same_event l r"
    and "e_type l = ''tool.request'' \<Longrightarrow> string_field ''call_id'' (e_payload l) = Inr c \<Longrightarrow>
      compareToolResult runID c source target = Inr ()"
  using assms by (induction zs) (auto split: if_splits)

lemma list_events_start:
  "list_events L recorded digest run tip 0 text1 s evs = Inr x \<Longrightarrow> evs \<noteq> [] \<Longrightarrow> e_type (hd evs) = ''execution.started''"
  by (cases evs) (auto split: if_splits)

lemma Select_ok: "Select ps n = Inr p \<Longrightarrow> p \<in> set ps \<and> cp_seq p = n"
  by (auto simp: Select_def find_Some_iff split: option.splits)

lemma first_event:
  assumes "ledger_inv d" and "ledger d0 = [e]" and "e_run e = runID" and "prefix (ledger d0) (ledger d)"
  shows "Events runID d \<noteq> []" and "hd (Events runID d) = e"
  using assms by (auto simp: Events_ledger ledger_inv_def prefix_def)

text \<open>The steps of a successful reconstruction.\<close>

lemma Reconstruct_ok:
  assumes "Reconstruct L recorded runID p m source = Inr (target, rebuilt)"
  obtains ps original w d0 where "List L recorded runID m source = Inr ps" "p \<in> set ps" "Run runID source = Inr original"
    "replay_start L original w source = Inr d0"
    "rebuild L m runID False (drop 1 (take (cp_seq p) (Events runID source))) [] 0 d0 = Inr target"
    "length (Events runID target) = cp_seq p"
    "compare_prefix runID source target (drop 1 (zip (take (cp_seq p) (Events runID source)) (Events runID target))) = Inr ()"
    "Run runID target = Inr rebuilt" "compareTranscriptPrefix L (r_transcript original) (r_transcript rebuilt) = Inr ()"
  using assms
  by (auto simp: Reconstruct_def Let_def split: if_splits option.splits dest!: Select_ok intro: that)

lemma compareTranscriptPrefix_ok:
  assumes "compareTranscriptPrefix L source rebuilt = Inr ()" and "i < length rebuilt"
  shows "i < length source \<and> equalPayload (message_json L (source ! i)) (message_json L (rebuilt ! i))"
proof -
  have len: "length rebuilt \<le> length source"
      and all: "list_all (\<lambda>(s, r). equalPayload (message_json L s) (message_json L r)) (zip source rebuilt)"
    using assms(1) by (auto simp: compareTranscriptPrefix_def split: if_splits)
  then show ?thesis using assms(2) by (auto simp: list_all_length)
qed

text \<open>
  C13. A reconstruction that succeeds reproduced the recorded prefix by executing it: in a
  database that started empty and whose world and ledger satisfy their invariants, the run's
  ledger has the events of the recorded one up to the checkpoint, of the same types, world times
  and payloads, every tool call of the prefix has the recorded result, and the transcript is the
  recorded one as far as it goes.
\<close>

theorem reconstruction_reproduces:
  assumes "Reconstruct L recorded runID p m source = Inr (target, rebuilt)"
  shows "checkpoint_of L recorded runID (mf_digest m) (Events runID source) p
    \<and> map e_type (Events runID target) = map e_type (take (cp_seq p) (Events runID source))
    \<and> (\<forall>i. 0 < i \<and> i < cp_seq p \<longrightarrow> same_event (Events runID source ! i) (Events runID target ! i))
    \<and> (\<forall>i c. 0 < i \<and> i < cp_seq p \<and> e_type (Events runID source ! i) = ''tool.request''
         \<and> string_field ''call_id'' (e_payload (Events runID source ! i)) = Inr c \<longrightarrow>
         compareToolResult runID c source target = Inr ())
    \<and> world_ok (db_world target) \<and> ledger_inv target \<and> Run runID target = Inr rebuilt
    \<and> (\<exists>original. Run runID source = Inr original \<and> (\<forall>i < length (r_transcript rebuilt).
         i < length (r_transcript original) \<and>
         equalPayload (message_json L (r_transcript original ! i)) (message_json L (r_transcript rebuilt ! i))))"
  using assms
proof (rule Reconstruct_ok)
  let ?src = "Events runID source" and ?tgt = "Events runID target" and ?n = "cp_seq p"
  fix ps original w d0
  assume points: "List L recorded runID m source = Inr ps" "p \<in> set ps" and original: "Run runID source = Inr original"
    and start: "replay_start L original w source = Inr d0"
    and re: "rebuild L m runID False (drop 1 (take ?n ?src)) [] 0 d0 = Inr target"
    and len: "length ?tgt = ?n" and cmp: "compare_prefix runID source target (drop 1 (zip (take ?n ?src) ?tgt)) = Inr ()"
    and rebuilt: "Run runID target = Inr rebuilt"
    and trans: "compareTranscriptPrefix L (r_transcript original) (r_transcript rebuilt) = Inr ()"
  have cp: "checkpoint_of L recorded runID (mf_digest m) ?src p"
    using List_exact [OF points(1)] points(2) by (simp add: list_all_iff)
  then have n: "0 < ?n" "?n \<le> length ?src" by (simp_all add: checkpoint_of_def Let_def)
  have rebuilds: "rebuilds d0 target" by (rule rebuild_rebuilds [OF re])
  then have inv: "world_ok (db_world target)" "ledger_inv target" "prefix (ledger d0) (ledger target)"
    using replay_start_ok [OF start] by (simp_all add: rebuilds_def)
  have pairs: "(?src ! i, ?tgt ! i) \<in> set (drop 1 (zip (take ?n ?src) ?tgt))" if "0 < i" "i < ?n" for i
  proof -
    have "drop 1 (zip (take ?n ?src) ?tgt) ! (i - 1) = (?src ! i, ?tgt ! i)" "i - 1 < length (drop 1 (zip (take ?n ?src) ?tgt))"
      using that n len by auto
    then show ?thesis by (metis nth_mem)
  qed
  have same: "same_event (?src ! i) (?tgt ! i)" if "0 < i" "i < ?n" for i
    by (rule compare_prefix_ok(1) [OF cmp pairs [OF that]])
  have "e_type (?src ! 0) = ''execution.started''"
    using points(1) by (rule List_ok) (auto dest: list_events_start simp: hd_conv_nth)
  moreover have "e_type (?tgt ! 0) = ''execution.started''"
    using first_event [OF inv(2) _ _ inv(3)] replay_start_ok(3) [OF start] Run_id [OF original] by (auto simp: hd_conv_nth)
  ultimately have "e_type (?tgt ! i) = e_type (?src ! i)" if "i < ?n" for i
    using same [of i] that by (cases "i = 0") (simp_all add: same_event_def)
  then have "map e_type ?tgt = map e_type (take ?n ?src)"
    using n len by (intro nth_equalityI) simp_all
  moreover have "compareToolResult runID c source target = Inr ()"
    if "0 < i" "i < ?n" "e_type (?src ! i) = ''tool.request''" "string_field ''call_id'' (e_payload (?src ! i)) = Inr c" for i c
    by (rule compare_prefix_ok(2) [OF cmp pairs [OF that(1,2)] that(3,4)])
  ultimately show ?thesis
    using cp same inv(1,2) rebuilt original compareTranscriptPrefix_ok [OF trans] by blast
qed

section \<open>A recorded run\<close>

text \<open>A completed run of one turn, as the runner leaves it.\<close>

definition ckpt_manifest :: manifest where
  "ckpt_manifest = \<lparr>mf_digest = digestOperations sample_full [op_getCustomer], mf_operations = [op_getCustomer]\<rparr>"

definition cp_answer :: message where
  "cp_answer = \<lparr>m_role = ''assistant'', m_content = JStr ''done'', m_tool_calls = [], m_call_id = [], m_operation = [],
     m_status = 0, m_meta = [], m_interruptions = []\<rparr>"

definition cp_run0 :: run_row where
  "cp_run0 = \<lparr>r_id = ''R'', r_world = ''W1'', r_scenario = ''duplicate-charge'', r_provider = ''p'', r_model = ''m'',
     r_task = ''t'', r_status = ''completed'', r_step = 1, r_transcript = [cp_answer], r_fault_operation = [],
     r_fault_consumed = 0, r_principal = ''local-unrestricted''\<rparr>"

definition cp_event :: "nat \<Rightarrow> string \<Rightarrow> json \<Rightarrow> event_row" where
  "cp_event n typ payload = \<lparr>e_run = ''R'', e_seq = n, e_id = event_id ''R'' n, e_world_at = show_int (int n),
     e_type = typ, e_payload = payload\<rparr>"

definition cp_ledger :: "event_row list" where
  "cp_ledger =
     [cp_event 1 ''execution.started'' (started_payload ''duplicate-charge'' ''p'' ''m'' ''W1''),
      cp_event 2 ''model.request'' (model_request sample_full cp_run0 [] [op_getCustomer]),
      cp_event 3 ''model.response'' (message_json sample_full cp_answer),
      cp_event 4 ''execution.completed'' (jmap [(''step'', jint 1)])]"

definition cp_db :: db where
  "cp_db = fresh_db\<lparr>db_world := empty_world\<lparr>worlds := [\<lparr>w_id = ''W1'', w_seed = 1, w_digest = mf_digest ckpt_manifest,
       w_base_at = ''2026''\<rparr>]\<rparr>, db_runs := \<lparr>runs = [cp_run0], events = cp_ledger, tool_results = []\<rparr>\<rparr>"

lemma cp_valid: "ValidateManifest sample_full ckpt_manifest = Inr ()"
proof -
  have "to_upper ''get'' = ''GET''" by code_simp
  then show ?thesis
    by (simp add: ValidateManifest_def ckpt_manifest_def validateContract_def op_getCustomer_def text_le_def routes_def get_route_def)
qed

lemma cp_reads: "Run ''R'' cp_db = Inr cp_run0" "Events ''R'' cp_db = cp_ledger"
    "sel w_id ''W1'' (worlds (db_world cp_db)) = Some \<lparr>w_id = ''W1'', w_seed = 1, w_digest = mf_digest ckpt_manifest, w_base_at = ''2026''\<rparr>"
  by (simp_all add: Run_def cp_db_def cp_run0_def Events_def cp_ledger_def cp_event_def)

lemma cp_list: "\<exists>ps. List sample_full recorded ''R'' ckpt_manifest cp_db = Inr ps"
proof -
  have "string_map (started_payload ''duplicate-charge'' ''p'' ''m'' ''W1'') =
      Inr [(''model'', ''m''), (''provider'', ''p''), (''scenario'', ''duplicate-charge''), (''world_id'', ''W1'')]"
    by (simp add: string_map_def started_payload_def jmap_def string_value_def)
  then have "\<exists>ps. list_points sample_full recorded (mf_digest ckpt_manifest) cp_run0 cp_ledger = Inr ps"
    by (simp add: list_points_def cp_ledger_def cp_event_def scan_event_def in_place_def start_scan_def Let_def
        start_matches_def entry_def cp_run0_def message_json_def cp_answer_def string_field_def struct_field_def json_field_def
        numeral_eq_Suc)
  moreover have "r_status cp_run0 = ''completed''" "r_world cp_run0 = ''W1''" "cp_ledger \<noteq> []"
    by (simp_all add: cp_run0_def cp_ledger_def)
  ultimately show ?thesis by (simp add: List_def cp_valid cp_reads)
qed

text \<open>What seeding leaves in the world tables of an empty database.\<close>

definition cp_world :: "string \<Rightarrow> world_tables res" where
  "cp_world x = foldR (\<lambda>s. s) (seed_billing sample_full 1 (mf_digest ckpt_manifest) ''duplicate-charge'' x
     @ seed_company sample_full 1 ''duplicate-charge'' x) empty_world"

lemmas cp_world_defs = cp_world_def seed_billing_def seed_company_def Let_def insert_world_def insert_customer_def
  insert_invoice_def insert_charge_def insert_subscription_def ins_def empty_world_def

lemma cp_seed:
  "\<exists>world v. SeedScenario sample_full 1 (mf_digest ckpt_manifest) ''duplicate-charge'' fresh_db = Inr (world, fresh_db\<lparr>db_world := v\<rparr>)
     \<and> cp_world (w_id world) = Inr v"
proof -
  have "\<exists>v. cp_world x = Inr v" for x by (simp add: cp_world_defs)
  then obtain v where v: "cp_world (world_prefix sample_full 1 (mf_digest ckpt_manifest) @ ''-'' @ pad6 1) = Inr v" by blast
  then show ?thesis
    by (simp add: SeedScenario_def scenarios_def Let_def fresh_db_def cp_world_def [symmetric]) (simp add: empty_world_def)
qed

lemma sample_times: "parse_rfc3339 sample_full t = Some 0" "format_rfc3339 sample_full i = show_int i"
  by (simp_all add: sample_full_def authlib.defs sample_authlib_def golib.defs sample_lib_def)

text \<open>Appending to a run whose world is there, with the sample clock.\<close>

lemma cp_append:
  assumes "sel r_id ''R'' (run_rows d) = Some r" and "sel w_id (r_world r) (worlds (db_world d)) = Some w"
    and "ledger d = rows" and "map e_seq rows = [1 ..< Suc (length rows)]" and "\<forall>e \<in> set rows. e_run e = ''R''"
    and "\<forall>e \<in> set rows. e_id e = event_id ''R'' (e_seq e)"
  shows "AppendEventTx sample_full ''R'' typ payload d =
    Inr ((), map_events (\<lambda>_. rows @ [cp_event (Suc (length rows)) typ payload]) d)"
proof -
  have filt: "filter (\<lambda>e. e_run e = ''R'') rows = rows" using assms(5) by (simp add: filter_id_conv)
  have "contiguous e_run e_seq ''R'' rows" using assms(4) filt by (simp add: contiguous_def)
  then have seq: "next_seq e_run e_seq ''R'' rows = Suc (length rows)"
    using filt by (simp add: next_seq_contiguous)
  have "Suc (length rows) \<notin> set (map e_seq rows)" using assms(4) by simp
  then have fresh: "(''R'', Suc (length rows)) \<notin> (\<lambda>e. (e_run e, e_seq e)) ` set rows"
      "event_id ''R'' (Suc (length rows)) \<notin> e_id ` set rows"
    using assms(6) by (auto dest: event_id_inj)
  show ?thesis
    using assms(1-3) fresh by (simp add: AppendEventTx_def seq sample_times Let_def ins_def cp_event_def)
qed

lemma cp_rebuild:
  assumes rows: "sel r_id ''R'' (run_rows d) = Some (cp_run0\<lparr>r_world := x, r_status := ''running'', r_step := 0, r_transcript := []\<rparr>)"
    and world: "sel w_id x (worlds (db_world d)) = Some w" and led: "ledger d = [cp_event 1 typ p]"
    and policy: "db_policy d = empty_policy"
  shows "\<exists>d' r. rebuild sample_full ckpt_manifest ''R'' False (tl cp_ledger) [] 0 d = Inr d'
    \<and> ledger d' = cp_event 1 typ p # tl cp_ledger \<and> Run ''R'' d' = Inr r \<and> r_transcript r = [cp_answer] \<and> r_world r = x
    \<and> db_world d' = db_world d \<and> db_policy d' = db_policy d \<and> results d' = results d"
proof -
  let ?r0 = "cp_run0\<lparr>r_world := x, r_status := ''running'', r_step := 0, r_transcript := []\<rparr>"
  let ?req = "model_request sample_full cp_run0 [] [op_getCustomer]" and ?res = "message_json sample_full cp_answer"
  let ?turn = "\<lambda>r. r\<lparr>r_step := 1, r_transcript := [cp_answer], r_status := ''running''\<rparr>"
  let ?fin = "\<lambda>r. r\<lparr>r_status := ''completed''\<rparr>"
  have req: "model_request sample_full ?r0 [] [op_getCustomer] = ?req" by (simp add: model_request_def)
  have dec: "decode_message ?res = Inr cp_answer"
    by (simp add: decode_message_def message_json_def cp_answer_def content_text_def opt_str_def opt_int_def string_field_def
        int_field_def array_field_def struct_field_def json_field_def decode_meta_def decode_usage_def)
  define d1 where "d1 = map_events (\<lambda>_. [cp_event 1 typ p, cp_event 2 ''model.request'' ?req]) d"
  define d2 where "d2 = map_events (\<lambda>_. [cp_event 1 typ p, cp_event 2 ''model.request'' ?req, cp_event 3 ''model.response'' ?res]) d1"
  define d3 where "d3 = update_run ''R'' ?fin (update_run ''R'' ?turn d2)"
  define d4 where "d4 = map_events (\<lambda>_. [cp_event 1 typ p, cp_event 2 ''model.request'' ?req, cp_event 3 ''model.response'' ?res,
      cp_event 4 ''execution.completed'' (jmap [(''step'', jint 1)])]) d3"
  have id: "r_id ?r0 = ''R''" by (simp add: cp_run0_def)
  have a1: "AppendEventTx sample_full ''R'' ''model.request'' ?req d = Inr ((), d1)"
    using cp_append [OF rows, of w "[cp_event 1 typ p]"] world led by (simp add: d1_def cp_event_def numeral_eq_Suc)
  have a2: "AppendEventTx sample_full ''R'' ''model.response'' ?res d1 = Inr ((), d2)"
    using cp_append [of d1 ?r0 w "[cp_event 1 typ p, cp_event 2 ''model.request'' ?req]"] rows world
    by (simp add: d1_def d2_def cp_event_def numeral_eq_Suc)
  have row3: "sel r_id ''R'' (run_rows d3) = Some (?fin (?turn ?r0))"
    using rows id by (simp add: d1_def d2_def d3_def sel_upd_key)
  have a3: "AppendEventTx sample_full ''R'' ''execution.completed'' (jmap [(''step'', jint 1)]) d3 = Inr ((), d4)"
    using cp_append [OF row3, of w "[cp_event 1 typ p, cp_event 2 ''model.request'' ?req, cp_event 3 ''model.response'' ?res]"] world
    by (simp add: d1_def d2_def d3_def d4_def cp_event_def numeral_eq_Suc)
  have quiet: "m_interruptions cp_answer = []" by (simp add: cp_answer_def)
  have run: "Run ''R'' d = Inr ?r0" using rows by (simp add: Run_def)
  have ops: "Exposed sample_full ''R'' (mf_operations ckpt_manifest) d = Inr [op_getCustomer]"
    using policy by (simp add: Exposed_def load_def empty_policy_def ckpt_manifest_def)
  have "rebuild sample_full ckpt_manifest ''R'' False (tl cp_ledger) [] 0 d = Inr d4"
    using a3 by (simp add: cp_ledger_def cp_event_def run ops req a1 a2 dec quiet read_transcript_def equalPayload_def
        StartModelCall_def Append_def SaveTurn_def SaveStatus_def d3_def jmap_def jint_def interruptionPayloads_def)
  moreover have "ledger d4 = cp_event 1 typ p # tl cp_ledger" by (simp add: d4_def cp_ledger_def)
  moreover have "Run ''R'' d4 = Inr (?fin (?turn ?r0))" using row3 by (simp add: Run_def d4_def)
  moreover have "db_world d4 = db_world d" "db_policy d4 = db_policy d" "results d4 = results d"
    by (simp_all add: d1_def d2_def d3_def d4_def)
  ultimately show ?thesis by (intro exI [of _ d4] exI [of _ "?fin (?turn ?r0)"]) simp
qed

lemma cp_start:
  "\<exists>d0 world p w. replay_start sample_full cp_run0 \<lparr>w_id = ''W1'', w_seed = 1, w_digest = mf_digest ckpt_manifest, w_base_at = ''2026''\<rparr> cp_db = Inr d0
     \<and> sel r_id ''R'' (run_rows d0) = Some (cp_run0\<lparr>r_world := world, r_status := ''running'', r_step := 0, r_transcript := []\<rparr>)
     \<and> sel w_id world (worlds (db_world d0)) = Some w \<and> ledger d0 = [cp_event 1 ''execution.started'' p]
     \<and> db_policy d0 = empty_policy \<and> cp_world world = Inr (db_world d0) \<and> results d0 = []"
proof -
  obtain world v where seed: "SeedScenario sample_full 1 (mf_digest ckpt_manifest) ''duplicate-charge'' fresh_db
        = Inr (world, fresh_db\<lparr>db_world := v\<rparr>)" and v: "cp_world (w_id world) = Inr v"
    using cp_seed by blast
  define d1 where "d1 = fresh_db\<lparr>db_world := v\<rparr>"
  note seed = seed [folded d1_def]
  have d1: "worlds (db_world d1) = [world]" "db_runs d1 = \<lparr>runs = [], events = [], tool_results = []\<rparr>" "db_policy d1 = empty_policy"
      "cp_world (w_id world) = Inr (db_world d1)"
    using SeedScenario_ok [OF seed] v by (simp_all add: fresh_db_def empty_world_def d1_def)
  let ?r = "cp_run0\<lparr>r_world := w_id world, r_status := ''running'', r_step := 0, r_transcript := []\<rparr>"
  let ?p = "started_payload ''duplicate-charge'' ''p'' ''m'' (w_id world)"
  let ?d2 = "map_runs (\<lambda>_. [?r]) d1"
  have "AppendEventTx sample_full ''R'' ''execution.started'' ?p ?d2
      = Inr ((), map_events (\<lambda>_. [cp_event 1 ''execution.started'' ?p]) ?d2)"
    using cp_append [of ?d2 ?r world "[]"] d1 by (simp add: cp_run0_def)
  then have "CreateReplayRun sample_full cp_run0 (w_id world) d1 = Inr (?r, map_events (\<lambda>_. [cp_event 1 ''execution.started'' ?p]) ?d2)"
    using d1 by (simp add: CreateReplayRun_def Let_def ins_def cp_run0_def)
  then have "replay_start sample_full cp_run0 \<lparr>w_id = ''W1'', w_seed = 1, w_digest = mf_digest ckpt_manifest, w_base_at = ''2026''\<rparr> cp_db
      = Inr (map_events (\<lambda>_. [cp_event 1 ''execution.started'' ?p]) ?d2)"
    using seed by (simp add: replay_start_def ChaosPolicy_def AuthPolicy_def cp_db_def fresh_db_def empty_policy_def cp_run0_def)
  then show ?thesis using d1 by (auto simp: cp_run0_def)
qed

theorem checkpoints_exact_witness:
  "\<exists>ps. List sample_full (\<lambda>_. []) ''R'' ckpt_manifest cp_db = Inr ps \<and> map cp_seq ps = [3, 4]"
proof -
  obtain ps where ps: "List sample_full (\<lambda>_. []) ''R'' ckpt_manifest cp_db = Inr ps" using cp_list by blast
  have "map cp_seq ps = map e_seq (filter (\<lambda>e. e_type e \<in> set boundary_types) cp_ledger)"
    using checkpoints_exact [OF ps] by (simp only: cp_reads)
  then show ?thesis using ps by (simp add: cp_ledger_def cp_event_def boundary_types_def)
qed

text \<open>The run paused before its turn, and resumed to the end.\<close>

definition cp_paused :: "bool \<Rightarrow> db" where
  "cp_paused resumed = cp_db\<lparr>db_runs :=
     \<lparr>runs = [if resumed then cp_run0 else cp_run0\<lparr>r_status := ''paused'', r_step := 0, r_transcript := []\<rparr>],
      events = [cp_event 1 ''execution.started'' (started_payload ''duplicate-charge'' ''p'' ''m'' ''W1''),
                cp_event 2 ''execution.paused'' (jmap [(''step'', jint 0)])]
        @ (if resumed then [cp_event 3 ''model.request'' JNull, cp_event 4 ''model.response'' (message_json sample_full cp_answer),
             cp_event 5 ''execution.completed'' (jmap [(''step'', jint 1)])] else []),
      tool_results = []\<rparr>\<rparr>"

lemma cp_paused_list: "\<exists>ps. List sample_full (\<lambda>_. []) ''R'' ckpt_manifest (cp_paused resumed) = Inr ps"
proof -
  have "string_map (started_payload ''duplicate-charge'' ''p'' ''m'' ''W1'') =
      Inr [(''model'', ''m''), (''provider'', ''p''), (''scenario'', ''duplicate-charge''), (''world_id'', ''W1'')]"
    by (simp add: string_map_def started_payload_def jmap_def string_value_def)
  then show ?thesis
    by (simp add: List_def cp_valid cp_paused_def Run_def Events_def cp_db_def cp_run0_def cp_event_def
        list_points_def scan_event_def in_place_def start_scan_def Let_def start_matches_def entry_def
        message_json_def cp_answer_def string_field_def struct_field_def json_field_def numeral_eq_Suc)
qed

theorem checkpoints_stable_witness:
  "\<exists>ps ps' qs. List sample_full (\<lambda>_. []) ''R'' ckpt_manifest (cp_paused False) = Inr ps
     \<and> List sample_full (\<lambda>_. []) ''R'' ckpt_manifest (cp_paused True) = Inr ps' \<and> ps' = ps @ qs"
proof -
  obtain ps where ps: "List sample_full (\<lambda>_. []) ''R'' ckpt_manifest (cp_paused False) = Inr ps" using cp_paused_list by blast
  obtain ps' where ps': "List sample_full (\<lambda>_. []) ''R'' ckpt_manifest (cp_paused True) = Inr ps'" using cp_paused_list by blast
  have "Events ''R'' (cp_paused True) = Events ''R'' (cp_paused False) @
      [cp_event 3 ''model.request'' JNull, cp_event 4 ''model.response'' (message_json sample_full cp_answer),
       cp_event 5 ''execution.completed'' (jmap [(''step'', jint 1)])]"
    by (simp add: Events_def cp_paused_def cp_event_def)
  from checkpoints_stable [OF ps ps' this] ps ps' show ?thesis by blast
qed

lemma cp_reconstructs:
  "\<exists>ps p d r. List sample_full (\<lambda>_. []) ''R'' ckpt_manifest cp_db = Inr ps \<and> p \<in> set ps \<and> cp_seq p = 4
     \<and> Reconstruct sample_full (\<lambda>_. []) ''R'' p ckpt_manifest cp_db = Inr (d, r)
     \<and> cp_world (r_world r) = Inr (db_world d) \<and> db_policy d = empty_policy \<and> results d = []"
proof -
  obtain ps where ps: "List sample_full (\<lambda>_. []) ''R'' ckpt_manifest cp_db = Inr ps" using cp_list by blast
  have seqs: "map cp_seq ps = [3, 4]"
    using List_exact [OF ps] by (simp add: cp_reads) (simp add: cp_ledger_def cp_event_def boundary_types_def)
  then obtain p q where p: "ps = [q, p]" "cp_seq q = 3" "cp_seq p = 4" by (auto simp: map_eq_Cons_conv)
  obtain d0 world x w where start: "replay_start sample_full cp_run0
        \<lparr>w_id = ''W1'', w_seed = 1, w_digest = mf_digest ckpt_manifest, w_base_at = ''2026''\<rparr> cp_db = Inr d0"
      and rows: "sel r_id ''R'' (run_rows d0) = Some (cp_run0\<lparr>r_world := world, r_status := ''running'', r_step := 0, r_transcript := []\<rparr>)"
        "sel w_id world (worlds (db_world d0)) = Some w" "ledger d0 = [cp_event 1 ''execution.started'' x]" "db_policy d0 = empty_policy"
        and seeded: "cp_world world = Inr (db_world d0)" "results d0 = []"
    using cp_start by blast
  obtain d r where d: "rebuild sample_full ckpt_manifest ''R'' False (tl cp_ledger) [] 0 d0 = Inr d"
      "ledger d = cp_event 1 ''execution.started'' x # tl cp_ledger" "Run ''R'' d = Inr r" "r_transcript r = [cp_answer]"
      "r_world r = world" "db_world d = db_world d0" "db_policy d = db_policy d0" "results d = results d0"
    using cp_rebuild [OF rows] by blast
  have evs: "Events ''R'' d = cp_event 1 ''execution.started'' x # tl cp_ledger"
    using d(2) by (simp add: Events_def cp_ledger_def cp_event_def)
  have full: "take 4 cp_ledger = cp_ledger" "drop 1 cp_ledger = tl cp_ledger" "length cp_ledger = 4"
    by (simp_all add: cp_ledger_def)
  have cmp: "compare_prefix ''R'' cp_db d (drop 1 (zip cp_ledger (cp_event 1 ''execution.started'' x # tl cp_ledger))) = Inr ()"
    by (simp add: cp_ledger_def cp_event_def same_event_def equalPayload_def numeral_eq_Suc)
  have row: "r_world cp_run0 = ''W1''" "r_transcript cp_run0 = [cp_answer]" by (simp_all add: cp_run0_def)
  have "Reconstruct sample_full (\<lambda>_. []) ''R'' p ckpt_manifest cp_db = Inr (d, r)"
    using ps p start d(1) cmp d(3,4) row
    unfolding Reconstruct_def Let_def
    by (simp add: Select_def cp_reads evs full compareTranscriptPrefix_def equalPayload_def del: rebuild.simps drop_Suc_Cons
        One_nat_def)
  then show ?thesis using ps p d seeded rows(4) by (intro exI [of _ ps] exI [of _ p] exI [of _ d] exI [of _ r]) simp
qed

theorem reconstruction_reproduces_witness:
  "\<exists>p target rebuilt. Reconstruct sample_full (\<lambda>_. []) ''R'' p ckpt_manifest cp_db = Inr (target, rebuilt)
     \<and> map e_type (Events ''R'' target) = [''execution.started'', ''model.request'', ''model.response'', ''execution.completed'']"
proof -
  obtain p d r where p: "cp_seq p = 4" and rec: "Reconstruct sample_full (\<lambda>_. []) ''R'' p ckpt_manifest cp_db = Inr (d, r)"
    using cp_reconstructs by blast
  have "map e_type (Events ''R'' d) = map e_type (take (cp_seq p) (Events ''R'' cp_db))"
    using reconstruction_reproduces [OF rec] by blast
  then have "map e_type (Events ''R'' d) = [''execution.started'', ''model.request'', ''model.response'', ''execution.completed'']"
    by (simp add: cp_reads p) (simp add: cp_ledger_def cp_event_def)
  with rec show ?thesis by (intro exI [of _ p] exI [of _ d] exI [of _ r] conjI)
qed

end
