(* ===== verification/Isolation.thy ===== *)
theory Isolation
  imports Execution
begin

text \<open>
  Runs are isolated: executing a run changes rows of that run and of its world, and none of any
  other run or world. Every stage of a tool call and every write of the runner is shown to stay
  within its run; the coordination tables, which a guarded write also touches, are left out.
\<close>

section \<open>Databases that differ in one run\<close>

definition policies_outside :: "string \<Rightarrow> policy_tables \<Rightarrow> policy_tables" where
  "policies_outside x p =
     \<lparr>run_chaos = filter (\<lambda>r. rp_run r \<noteq> x) (run_chaos p),
      chaos_rule_state = filter (\<lambda>r. cs_run r \<noteq> x) (chaos_rule_state p),
      chaos_snapshots = filter (\<lambda>r. sn_run r \<noteq> x) (chaos_snapshots p),
      chaos_hidden_outcomes = filter (\<lambda>r. hd_run r \<noteq> x) (chaos_hidden_outcomes p),
      run_auth = filter (\<lambda>r. rp_run r \<noteq> x) (run_auth p),
      auth_state = filter (\<lambda>r. as_run r \<noteq> x) (auth_state p)\<rparr>"

text \<open>Two databases that differ in the rows of one run and one world only.\<close>

definition apart :: "string \<Rightarrow> string \<Rightarrow> db \<Rightarrow> db \<Rightarrow> bool" where
  "apart run world d d' \<longleftrightarrow>
     filter (\<lambda>r. r_id r \<noteq> run) (run_rows d') = filter (\<lambda>r. r_id r \<noteq> run) (run_rows d)
   \<and> filter (\<lambda>e. e_run e \<noteq> run) (ledger d') = filter (\<lambda>e. e_run e \<noteq> run) (ledger d)
   \<and> filter (\<lambda>r. tr_run r \<noteq> run) (results d') = filter (\<lambda>r. tr_run r \<noteq> run) (results d)
   \<and> policies_outside run (db_policy d') = policies_outside run (db_policy d)
   \<and> filter (\<lambda>w. w_id w \<noteq> world) (worlds (db_world d')) = filter (\<lambda>w. w_id w \<noteq> world) (worlds (db_world d))
   \<and> (outside world (db_world d'))\<lparr>worlds := []\<rparr> = (outside world (db_world d))\<lparr>worlds := []\<rparr>
   \<and> db_coord d' = db_coord d"

lemma apart_refl [simp]: "apart run world d d"
  by (simp add: apart_def)

lemma apart_trans [trans]: "apart run world d d' \<Longrightarrow> apart run world d' d'' \<Longrightarrow> apart run world d d''"
  by (simp add: apart_def)

lemma AppendEventTx_apart:
  assumes "AppendEventTx L runID typ payload d = Inr (u, d')"
  shows "apart runID world d d'"
proof -
  obtain row where "d' = map_events (\<lambda>log. log @ [row]) d" "e_run row = runID" using assms by (rule AppendEventTx_ok)
  then show ?thesis by (simp add: apart_def)
qed

text \<open>What a write of a run may change: rows of the run and its world, but not which world a run has.\<close>

definition touches :: "string \<Rightarrow> string \<Rightarrow> db \<Rightarrow> db \<Rightarrow> bool" where
  "touches run world d d' \<longleftrightarrow>
     apart run world d (d'\<lparr>db_coord := db_coord d\<rparr>)
   \<and> map (\<lambda>r. (r_id r, r_world r)) (run_rows d') = map (\<lambda>r. (r_id r, r_world r)) (run_rows d)"

lemma touches_refl [simp]: "touches run world d d"
  by (simp add: touches_def)

lemma touches_trans [trans]: "touches run world d d' \<Longrightarrow> touches run world d' d'' \<Longrightarrow> touches run world d d''"
  by (simp add: touches_def apart_def)

lemma touches_coord:
  "db_runs d' = db_runs d \<Longrightarrow> db_world d' = db_world d \<Longrightarrow> db_policy d' = db_policy d \<Longrightarrow> touches run world d d'"
  by (simp add: touches_def apart_def)

lemma touches_append: "AppendEventTx L run t payload d = Inr (u, d') \<Longrightarrow> touches run world d d'"
  using AppendEventTx_apart [of L run t payload d u d' world] AppendEventTx_frame [of L run t payload d u d']
  by (simp add: touches_def apart_def)

lemma touches_policy:
  "policies_outside run (f (db_policy d)) = policies_outside run (db_policy d) \<Longrightarrow> touches run world d (map_policy f d)"
  by (simp add: touches_def apart_def)

lemma touches_update_run:
  assumes "\<And>r. r_id (f r) = r_id r" and "\<And>r. r_world (f r) = r_world r"
  shows "touches run world d (update_run run f d)"
proof -
  have "filter (\<lambda>r. r_id r \<noteq> run) (upd (\<lambda>r. r_id r = run) f t) = filter (\<lambda>r. r_id r \<noteq> run) t" for t
    by (rule upd_filter_other) (simp_all add: assms)
  moreover have "map (\<lambda>r. (r_id r, r_world r)) (upd (\<lambda>r. r_id r = run) f t) = map (\<lambda>r. (r_id r, r_world r)) t" for t
    by (induction t) (auto simp: upd_def assms)
  ultimately show ?thesis by (simp add: touches_def apart_def)
qed

lemma touches_world:
  assumes "service h" and "h worldID runID' callID behavior args (db_world d) = Inr (out, w)"
  shows "touches run worldID d (d\<lparr>db_world := w\<rparr>)"
proof -
  have "outside worldID w = outside worldID (db_world d)" using service.stays_inside [OF assms] by simp
  then have "outside worldID w = outside worldID (db_world d)" "worlds w = worlds (db_world d)"
    by (simp_all add: outside_def)
  then show ?thesis by (simp add: touches_def apart_def)
qed

section \<open>Policy state\<close>

lemma upsert_filter_other:
  assumes "\<And>x. k x = k r \<Longrightarrow> \<not> q x" and "\<And>x. q (f x) = q x"
  shows "filter q (upsert k r f t) = filter q t"
proof (cases "k r \<in> set (map k t)")
  case True
  have "filter q (upd (\<lambda>x. k x = k r) f t) = filter q t" by (rule upd_filter_other) (use assms in auto)
  then show ?thesis using True by (simp add: upsert_def)
next
  case False
  have "\<not> q r" by (rule assms(1)) simp
  then show ?thesis using False by (simp add: upsert_def)
qed

lemma next_call_outside: "policies_outside run (next_call run p) = policies_outside run p"
  by (simp add: policies_outside_def next_call_def) (rule upsert_filter_other, auto)

lemma count_call_touches: "touches run world d (count_call run ruleID d)"
  unfolding count_call_def
  by (intro touches_policy) (simp add: policies_outside_def, rule upsert_filter_other, auto)

lemma add_injection_touches: "touches run world d (add_injection n run ruleID d)"
proof -
  have "filter (\<lambda>r. cs_run r \<noteq> run) (upd (\<lambda>s. cs_run s = run \<and> cs_rule s = ruleID) (\<lambda>s. s\<lparr>cs_injections := cs_injections s + n\<rparr>) t)
      = filter (\<lambda>r. cs_run r \<noteq> run) t" for t by (rule upd_filter_other) auto
  then show ?thesis unfolding add_injection_def by (intro touches_policy) (simp add: policies_outside_def)
qed

lemma SaveSnapshot_touches: "touches run world d (SaveSnapshot L run ruleID oid arguments status body d)"
  unfolding SaveSnapshot_def
  by (intro touches_policy) (simp add: policies_outside_def, rule upsert_filter_other, auto)

lemma rule_step_touches:
  assumes "rule_step L run oid arguments rule (sel0, d) = Inr (sel1, d1)"
  shows "touches run world d d1"
proof -
  have "d1 = d \<or> d1 = count_call run (cr_id rule) d \<or> (\<exists>n. d1 = add_injection n run (cr_id rule) (count_call run (cr_id rule) d))"
    using assms by (auto simp: rule_step_def Let_def split: if_splits option.splits)
  then show ?thesis using count_call_touches add_injection_touches touches_trans touches_refl by metis
qed

lemma chaos_Decide_touches:
  assumes "chaos_Decide L run oid arguments d = Inr (dec, d')"
  shows "touches run world d d'"
proof -
  have "touches run world d (snd s)" if "foldR (rule_step L run oid arguments) rules (no_rule, d) = Inr s" for rules s
    using that
  proof (rule foldR_invariant [where I = "\<lambda>s. touches run world d (snd s)"])
    fix r s s'
    assume "touches run world d (snd s)" and "rule_step L run oid arguments r s = Inr s'"
    then show "touches run world d (snd s')"
      using rule_step_touches [of L run oid arguments r "fst s" "snd s" "fst s'" "snd s'"] touches_trans by auto
  qed simp
  then show ?thesis using assms by (fastforce simp: chaos_Decide_def split: option.splits)
qed

section \<open>The stages of a tool call\<close>

lemma authorize_touches:
  assumes "authorize L c v d = Inr (v', d')"
  shows "touches (c_run c) world d d'"
proof (cases "v_skip v")
  case True
  then show ?thesis using assms by (simp add: authorize_def)
next
  case False
  then obtain a d1 where a: "Decide L (c_run c) (c_world c) (c_op c) (c_args c) d = Inr (a, d1)"
      and rest: "d' = d1 \<or> (\<exists>t p. AppendEventTx L (c_run c) t p d1 = Inr ((), d'))"
    using assms by (auto simp: authorize_def Let_def split: if_splits)
  have "d1 = d \<or> d1 = map_policy (next_call (c_run c)) d"
    using a by (auto simp: Decide_def Let_def split: option.splits if_splits)
  then have "touches (c_run c) world d d1" using touches_policy [of "c_run c" "next_call (c_run c)" d] next_call_outside by auto
  also have "touches (c_run c) world d1 d'" using rest by (auto intro: touches_append)
  finally show ?thesis .
qed

lemma invokeActor_touches:
  assumes "registry_ok (dp_registry D)" and "invokeActor L D c dec d = Inr (u, d')"
  shows "touches (c_run c) (c_world c) d d'"
proof -
  from assms(2) obtain h run' call' b xs out w p where
      h: "Lookup (dp_registry D) b = Some h" "h (c_world c) run' call' b xs (db_world d) = Inr (out, w)"
      and e: "AppendEventTx L (c_run c) ''chaos.actor_mutation'' p (d\<lparr>db_world := w\<rparr>) = Inr (u, d')"
    unfolding invokeActor_def by (fastforce split: option.splits if_splits prod.splits)
  show ?thesis
    using touches_world [OF registry_service [OF assms(1) h(1)] h(2)] touches_append [OF e] touches_trans by blast
qed

lemma inject_touches:
  assumes "registry_ok (dp_registry D)" and "inject L D c arguments v d = Inr (v', d')"
  shows "touches (c_run c) (c_world c) d d'"
proof (cases "v_skip v")
  case True
  then show ?thesis using assms(2) by (simp add: inject_def)
next
  case False
  obtain dec d1 where dec: "chaos_Decide L (c_run c) (op_id (c_op c)) arguments d = Inr (dec, d1)"
    using assms(2) False by (auto simp: inject_def)
  obtain d2 where d2: "d2 = d1 \<or> (\<exists>p. AppendEventTx L (c_run c) ''chaos.injected'' p d1 = Inr ((), d2))"
      and d': "d' = d2 \<or> invokeActor L D c dec d2 = Inr ((), d')"
    using assms(2) False dec by (auto simp: inject_def Let_def split: if_splits)
  have "touches (c_run c) (c_world c) d d1" by (rule chaos_Decide_touches [OF dec])
  also have "touches (c_run c) (c_world c) d1 d2" using d2 by (auto intro: touches_append)
  also have "touches (c_run c) (c_world c) d2 d'" using d' invokeActor_touches [OF assms(1)] by auto
  finally show ?thesis .
qed

lemma handle_call_touches:
  assumes "registry_ok (dp_registry D)" and "handle_call L D c v d = Inr (v', d')"
  shows "touches (c_run c) (c_world c) d d'"
proof -
  let ?d1 = "update_run (c_run c) (\<lambda>r. r\<lparr>r_fault_consumed := 1\<rparr>) d"
  consider "v_skip v" | "\<not> v_skip v" "c_fault c = op_id (c_op c) \<and> c_consumed c = 0"
    | "\<not> v_skip v" "\<not> (c_fault c = op_id (c_op c) \<and> c_consumed c = 0)" by blast
  then show ?thesis
  proof cases
    case 1
    then show ?thesis using assms(2) by (simp add: handle_call_def)
  next
    case 2
    then obtain p where e: "AppendEventTx L (c_run c) ''error'' p ?d1 = Inr ((), d')"
      using assms(2) by (auto simp: handle_call_def)
    have "touches (c_run c) (c_world c) d ?d1" by (rule touches_update_run) simp_all
    then show ?thesis using touches_append [OF e] touches_trans by blast
  next
    case 3
    then obtain d1 where d1: "(if c_fault c = op_id (c_op c) \<and> c_consumed c = 1 \<and> \<not> retried (c_run c) d
          then AppendEventTx L (c_run c) ''retry'' (call_payload c) d else Inr ((), d)) = Inr ((), d1)"
        and k: "(case Lookup (dp_registry D) (op_behavior (c_op c)) of None \<Rightarrow> Inl (Err ''unsupported behavior'')
          | Some h \<Rightarrow> bindR (h (c_world c) (c_run c) (c_call c) (op_behavior (c_op c)) (c_args c) (db_world d1))
              (\<lambda>((status, body, mutation), w).
                 Inr (v\<lparr>v_status := status, v_response := body, v_mutation := mutation, v_ran := True\<rparr>,
                      d1\<lparr>db_world := w\<rparr>))) = Inr (v', d')"
      using assms(2) unfolding handle_call_def by (auto simp del: if_split_asm)
    obtain h out w where h: "Lookup (dp_registry D) (op_behavior (c_op c)) = Some h"
          "h (c_world c) (c_run c) (c_call c) (op_behavior (c_op c)) (c_args c) (db_world d1) = Inr (out, w)"
        and d': "d' = d1\<lparr>db_world := w\<rparr>"
      using k by (auto split: option.splits)
    have "touches (c_run c) (c_world c) d d1" using d1 by (auto intro: touches_append split: if_splits)
    also have "touches (c_run c) (c_world c) d1 d'"
      unfolding d' by (rule touches_world [OF registry_service [OF assms(1) h(1)] h(2)])
    finally show ?thesis .
  qed
qed

lemma capture_touches: "touches (c_run c) world d (capture L c arguments v d)"
proof -
  have "touches run world d (fold (\<lambda>ruleID. SaveSnapshot L run ruleID oid arguments s b) rs d)" for rs run oid s b
    by (induction rs arbitrary: d) (auto intro: touches_trans SaveSnapshot_touches)
  then show ?thesis by (simp add: capture_def)
qed

lemma settle_post_touches: "settle_post c v d = Inr (v', d') \<Longrightarrow> touches (c_run c) world d d'"
  by (auto simp: settle_post_def add_injection_touches split: if_splits)

lemma hide_outcome_touches:
  assumes "hide_outcome L c v d = Inr (v', d')"
  shows "touches (c_run c) world d d'"
proof (cases "v_post v")
  case True
  then obtain t p where t: "ins (\<lambda>h. (hd_run h, hd_call h))
        \<lparr>hd_run = c_run c, hd_call = c_call c, hd_rule = cd_id (v_decision v), hd_status = v_status v, hd_body = v_response v\<rparr>
        (chaos_hidden_outcomes (db_policy d)) = Inr t"
      and e: "AppendEventTx L (c_run c) ''chaos.injected'' p (map_policy (\<lambda>p. p\<lparr>chaos_hidden_outcomes := t\<rparr>) d) = Inr ((), d')"
    using assms by (auto simp: hide_outcome_def Let_def)
  have "touches (c_run c) world d (map_policy (\<lambda>p. p\<lparr>chaos_hidden_outcomes := t\<rparr>) d)"
    using t by (intro touches_policy) (auto simp: policies_outside_def ins_Inr)
  then show ?thesis using touches_append [OF e] touches_trans by blast
qed (use assms in \<open>simp add: hide_outcome_def\<close>)

lemma record_call_touches:
  assumes "record_call L c arguments transcript v d = Inr (r, d')"
  shows "touches (c_run c) world d d'"
proof -
  let ?f = "\<lambda>r. r\<lparr>r_transcript := map (remarshal L) transcript @ [tool_message c (v_status v) (v_response v)]\<rparr>"
  obtain d1 where d1: "(case v_mutation v of None \<Rightarrow> Inr ((), d)
            | Some m \<Rightarrow> AppendEventTx L (c_run c) ''state.mutation'' m d) = Inr ((), d1)"
    using assms by (auto simp: record_call_def)
  from assms d1 obtain d2 p row t where d2: "AppendEventTx L (c_run c) ''tool.response'' p d1 = Inr ((), d2)"
      and row: "ins (\<lambda>r. (tr_run r, tr_call r)) row (results d2) = Inr t" "tr_run row = c_run c"
      and d': "d' = update_run (c_run c) ?f (d2\<lparr>db_runs := (db_runs d2)\<lparr>tool_results := t\<rparr>\<rparr>)"
    by (auto simp: record_call_def)
  have t: "filter (\<lambda>r. tr_run r \<noteq> c_run c) t = filter (\<lambda>r. tr_run r \<noteq> c_run c) (results d2)"
    using row by (auto simp: ins_Inr)
  have "touches (c_run c) world d d1" using d1 by (auto intro: touches_append split: option.splits)
  also have "touches (c_run c) world d1 d2" by (rule touches_append [OF d2])
  also have "touches (c_run c) world d2 (d2\<lparr>db_runs := (db_runs d2)\<lparr>tool_results := t\<rparr>\<rparr>)"
    using t by (simp add: touches_def apart_def)
  also have "touches (c_run c) world (d2\<lparr>db_runs := (db_runs d2)\<lparr>tool_results := t\<rparr>\<rparr>) d'"
    unfolding d' by (rule touches_update_run) simp_all
  finally show ?thesis .
qed

lemma execute_call_touches:
  assumes ok: "registry_ok (dp_registry D)" and "execute_call L D c transcript d = Inr (r, d')"
  shows "touches (c_run c) (c_world c) d d'"
  using assms(2)
proof (rule execute_call_stages)
  fix u d1 v1 d2 v2 d3 v3 d4 v4 d5 v5 d6 p v0
  assume s: "AppendEventTx L (c_run c) ''tool.request''
       (jmap [(''call_id'', JStr (c_call c)), (''operation_id'', JStr (op_id (c_op c))),
              (''arguments'', marshal_args L (c_args c))]) d = Inr (u, d1)"
    "authorize L c (case validate L (c_op c) (c_args c) of None \<Rightarrow> start_vars
       | Some msg \<Rightarrow> answer 400 (error_body msg) start_vars) d1 = Inr (v1, d2)"
    "inject L D c (marshal_args L (c_args c)) v1 d2 = Inr (v2, d3)" "handle_call L D c v2 d3 = Inr (v3, d4)"
    "settle_post c v3 (capture L c (marshal_args L (c_args c)) v3 d4) = Inr (v4, d5)" "hide_outcome L c v4 d5 = Inr (v5, d6)"
    "record_call L c (marshal_args L (c_args c)) transcript v5 d6 = Inr (r, d')"
  note touches_append [OF s(1), of "c_world c"]
  also note authorize_touches [OF s(2)]
  also note inject_touches [OF ok s(3)]
  also note handle_call_touches [OF ok s(4)]
  also note capture_touches
  also note settle_post_touches [OF s(5)]
  also note hide_outcome_touches [OF s(6)]
  also note record_call_touches [OF s(7)]
  finally show ?thesis .
qed

section \<open>A tool call and the runner's writes\<close>

lemma Invoke_touches:
  assumes ok: "registry_ok (dp_registry D)" and inv: "Invoke L D now crash runID callID operationID args d = (out, d')"
    and row: "sel r_id runID (run_rows d) = Some row"
  shows "touches runID (r_world row) d d'"
proof -
  have "d' = d \<or> (\<exists>r. invoke_guarded L D now runID callID operationID args d = Inr (r, d') \<and> \<not> saved_call runID callID d)"
    using inv by (auto simp: Invoke_def split: sum.splits if_splits crash.splits)
  then consider "d' = d" | r where "invoke_guarded L D now runID callID operationID args d = Inr (r, d')" "\<not> saved_call runID callID d"
    by blast
  then show ?thesis
  proof cases
    case (2 r)
    obtain d0 where d0: "db_runs d0 = db_runs d" "db_world d0 = db_world d" "db_policy d0 = db_policy d"
        and tx: "invoke_tx L D runID callID operationID args d0 = Inr (r, d')"
      using 2(1) by (rule invoke_guarded_cases)
    have "\<not> saved_call runID callID d0" using 2(2) saved_call_runs [OF d0(1)] by simp
    from tx this obtain op row0 where row0: "sel r_id runID (run_rows d0) = Some row0"
      and x: "execute_call L D \<lparr>c_run = runID, c_call = callID, c_op = op, c_args = args, c_world = r_world row0,
           c_fault = r_fault_operation row0, c_consumed = r_fault_consumed row0\<rparr> (r_transcript row0) d0 = Inr (r, d')"
      by (rule invoke_tx_fresh)
    have "row0 = row" using row row0 d0(1) by simp
    then show ?thesis
      using touches_trans [OF touches_coord [OF d0] execute_call_touches [OF ok x]] by simp
  qed simp
qed

lemma touches_guarded:
  assumes "guarded f now body d = Inr (x, d')" and "\<And>d1. body d1 = Inr (x, d') \<Longrightarrow> touches run world d1 d'"
  shows "touches run world d d'"
  using assms(1)
proof (rule guarded_ok)
  assume "body d = Inr (x, d')"
  then show ?thesis by (rule assms(2))
next
  fix g d1
  assume "GuardFenceTx g now d = Inr ((), d1)" and body: "body d1 = Inr (x, d')"
  then have "touches run world d d1" using GuardFenceTx_frame by (intro touches_coord) blast+
  then show ?thesis using assms(2) [OF body] touches_trans by blast
qed

lemma touches_interruptions: "appendInterruptionsTx L run ps d = Inr (u, d') \<Longrightarrow> touches run world d d'"
proof (induction ps arbitrary: d)
  case (Cons p ps)
  then obtain d1 where "AppendEventTx L run ''provider.interrupted'' p d = Inr ((), d1)" "appendInterruptionsTx L run ps d1 = Inr (u, d')"
    by auto
  then show ?case using Cons.IH touches_append touches_trans by blast
qed simp

lemma SaveStatusGuarded_touches:
  assumes "SaveStatusGuarded L f now run status t payload d = Inr (u, d')"
  shows "touches run world d d'"
  using assms unfolding SaveStatusGuarded_def
proof (rule touches_guarded)
  fix d1
  assume e: "AppendEventTx L run t payload (update_run run (\<lambda>r. r\<lparr>r_status := status\<rparr>) d1) = Inr (u, d')"
  have "touches run world d1 (update_run run (\<lambda>r. r\<lparr>r_status := status\<rparr>) d1)" by (rule touches_update_run) simp_all
  then show "touches run world d1 d'" using touches_append [OF e] touches_trans by blast
qed

lemma SaveTurnGuarded_touches:
  assumes "SaveTurnGuarded L f now run step transcript response ps d = Inr (u, d')"
  shows "touches run world d d'"
  using assms unfolding SaveTurnGuarded_def
proof (rule touches_guarded)
  let ?f = "\<lambda>r. r\<lparr>r_step := step, r_transcript := transcript, r_status := ''running''\<rparr>"
  fix d1
  assume "bindR (appendInterruptionsTx L run ps d1) (\<lambda>(_, d1). bindR (AppendEventTx L run ''model.response'' response d1)
      (\<lambda>(_, d2). Inr ((), update_run run ?f d2))) = Inr (u, d')"
  then obtain d2 d3 where d2: "appendInterruptionsTx L run ps d1 = Inr ((), d2)"
      and d3: "AppendEventTx L run ''model.response'' response d2 = Inr ((), d3)" and d': "d' = update_run run ?f d3"
    by auto
  have "touches run world d1 d2" by (rule touches_interruptions [OF d2])
  also have "touches run world d2 d3" by (rule touches_append [OF d3])
  also have "touches run world d3 d'" unfolding d' by (rule touches_update_run) simp_all
  finally show "touches run world d1 d'" .
qed

lemma FailModelTurnGuarded_touches:
  assumes "FailModelTurnGuarded L f now run response ps msg d = Inr (u, d')"
  shows "touches run world d d'"
  using assms unfolding FailModelTurnGuarded_def
proof (rule touches_guarded)
  let ?f = "\<lambda>r. r\<lparr>r_status := ''failed''\<rparr>"
  fix d1
  assume "bindR (appendInterruptionsTx L run ps d1) (\<lambda>(_, d1). bindR (AppendEventTx L run ''model.response'' response d1)
      (\<lambda>(_, d2). bindR (AppendEventTx L run ''error'' (provider_error msg) d2)
      (\<lambda>(_, d3). Inr ((), update_run run ?f d3)))) = Inr (u, d')"
  then obtain d2 d3 d4 where d2: "appendInterruptionsTx L run ps d1 = Inr ((), d2)"
      and d3: "AppendEventTx L run ''model.response'' response d2 = Inr ((), d3)"
      and d4: "AppendEventTx L run ''error'' (provider_error msg) d3 = Inr ((), d4)" and d': "d' = update_run run ?f d4"
    by auto
  have "touches run world d1 d2" by (rule touches_interruptions [OF d2])
  also have "touches run world d2 d3" by (rule touches_append [OF d3])
  also have "touches run world d3 d4" by (rule touches_append [OF d4])
  also have "touches run world d4 d'" unfolding d' by (rule touches_update_run) simp_all
  finally show "touches run world d1 d'" .
qed

lemma startModelCall_touches:
  assumes "startModelCall L f now run request d = Inr (u, d')"
  shows "touches run world d d'"
proof -
  have "d' = d \<or> AppendGuarded L f now run ''model.request'' request d = Inr (u, d')"
    using assms by (auto simp: startModelCall_def split: sum.splits if_splits)
  moreover have "touches run world d d'" if "AppendGuarded L f now run ''model.request'' request d = Inr (u, d')"
    using that unfolding AppendGuarded_def by (rule touches_guarded) (rule touches_append)
  ultimately show ?thesis by auto
qed

section \<open>The loop\<close>

fun pass_db :: "pass \<Rightarrow> db" where
  "pass_db (Stop r d) = d"
| "pass_db (Again used d) = d"

lemma commit_touches:
  "(\<And>y d'. body d = Inr (y, d') \<Longrightarrow> touches run world d d') \<Longrightarrow> touches run world d (snd (commit body d))"
  by (cases "body d") (auto simp: commit_def)

lemma commit_status_touches: "touches run world d (snd (commit (SaveStatusGuarded L f now run status t payload) d))"
  by (rule commit_touches) (rule SaveStatusGuarded_touches)

lemma commit_fail_touches: "touches run world d (snd (commit (FailModelTurnGuarded L f now run response ps msg) d))"
  by (rule commit_touches) (rule FailModelTurnGuarded_touches)

lemma commit_turn_touches: "touches run world d (snd (commit (SaveTurnGuarded L f now run step transcript response ps) d))"
  by (rule commit_touches) (rule SaveTurnGuarded_touches)

lemma commit_start_touches: "touches run world d (snd (commit (startModelCall L f now run request) d))"
  by (rule commit_touches) (rule startModelCall_touches)

lemma dispatch_call_touches:
  assumes "registry_ok (dp_registry (rn_dispatch R))" and "sel r_id runID (run_rows d) = Some row"
  shows "touches runID (r_world row) d (pass_db (dispatch_call L R E n runID used t d))"
proof (cases "Invoke L (rn_dispatch R) (en_clock E n 0) (tool_crash (en_crash E n) runID t) runID (tc_id t)
      (tc_operation t) (call_args L t) d")
  case (Pair out d1)
  have d1: "touches runID (r_world row) d d1" by (rule Invoke_touches [OF assms(1) Pair assms(2)])
  have "touches runID (r_world row) d (snd (commit (SaveStatusGuarded L (rn_fence R) (en_clock E n 1) runID ''failed'' ''error''
      (dispatch_error t e)) d1))" for e
    by (rule touches_trans [OF d1 commit_status_touches])
  then show ?thesis
    using d1 unfolding dispatch_call_def Pair
    by (simp split: sum.split prod.split add: split_beta)
qed

lemma end_run_touches: "touches (r_id run) world d (pass_db (end_run L R E n run status t d))"
  using commit_status_touches [of "r_id run" world d L "rn_fence R" "en_clock E n 0" status t "jmap [(''step'', jint (int (r_step run)))]"]
  by (auto simp: end_run_def split: sum.split prod.split) 

lemma fail_turn_touches: "touches runID world d (pass_db (fail_turn L R E n runID m e d))"
  using commit_fail_touches [of runID world d L "rn_fence R" "en_clock E n 1" "message_json L m"
      "interruptionPayloads (m_interruptions m)" "err_text e"]
  by (auto simp: fail_turn_def split: sum.split prod.split)

lemma save_turn_touches: "touches (r_id run) world d (pass_db (save_turn L R E n run history used m d))"
  using commit_turn_touches [of "r_id run" world d L "rn_fence R" "en_clock E n 1" "Suc (r_step run)" "history @ [m]"
      "message_json L m" "interruptionPayloads (m_interruptions m)"]
  by (auto simp: save_turn_def split: sum.split prod.split)

lemma model_turn_touches: "touches (r_id run) world d (pass_db (model_turn L R E n run history used d))"
proof (cases "Exposed L (r_id run) (mf_operations (rn_manifest R)) d")
  case (Inr ops)
  obtain x d1 where c: "commit (startModelCall L (rn_fence R) (en_clock E n 0) (r_id run) (model_request L run history ops)) d
      = (x, d1)" by (rule prod.exhaust)
  have d1: "touches (r_id run) world d d1"
    using commit_start_touches [of "r_id run" world d L "rn_fence R" "en_clock E n 0" "model_request L run history ops"]
    by (simp add: c)
  have "touches (r_id run) world d (pass_db (fail_turn L R E n (r_id run) m e d1))"
    "touches (r_id run) world d (pass_db (save_turn L R E n run history used m d1))" for m e
    by (rule touches_trans [OF d1 fail_turn_touches], rule touches_trans [OF d1 save_turn_touches])
  then show ?thesis using d1 Inr c by (simp add: model_turn_def split: sum.split prod.split option.split)
qed (simp add: model_turn_def)

lemma execute_pass_touches:
  assumes "registry_ok (dp_registry (rn_dispatch R))" and "sel r_id runID (run_rows d) = Some row"
  shows "touches runID (r_world row) d (pass_db (execute_pass L R E runID maxSteps n used d))"
proof -
  have run: "Run runID d = Inr row" "r_id row = runID" using assms(2) by (auto simp: Run_def dest: sel_SomeD)
  note parts = dispatch_call_touches [OF assms] end_run_touches [of row, unfolded run(2)]
    model_turn_touches [of row, unfolded run(2)]
  show ?thesis
    by (simp add: execute_pass_def run parts split: sum.split option.split)
qed

lemma touches_row:
  assumes "touches run world d d'" and "sel r_id run (run_rows d) = Some row"
  obtains row' where "sel r_id run (run_rows d') = Some row'" "r_world row' = r_world row"
proof -
  have keep: "map_option r_world (sel r_id run ts) = map_option r_world (sel r_id run us)"
    if "map (\<lambda>r. (r_id r, r_world r)) ts = map (\<lambda>r. (r_id r, r_world r)) us" for ts us
    using that by (induction ts us rule: list_induct2') (auto simp: sel_def)
  have "map_option r_world (sel r_id run (run_rows d')) = Some (r_world row)"
    using keep [of "run_rows d'" "run_rows d"] assms by (simp add: touches_def)
  then show thesis using that by auto
qed

lemma execute_loop_touches:
  assumes ok: "registry_ok (dp_registry (rn_dispatch R))" and "sel r_id runID (run_rows d) = Some row"
    and "execute_loop L R E runID maxSteps fuel n used d = Some (r, d')"
  shows "touches runID (r_world row) d d'"
  using assms(2,3)
proof (induction fuel arbitrary: n used d row)
  case (Suc fuel)
  note pass = execute_pass_touches [OF ok Suc.prems(1), of L E maxSteps n used]
  show ?case
  proof (cases "execute_pass L R E runID maxSteps n used d")
    case (Stop r1 d1)
    then show ?thesis using Suc.prems(2) pass by simp
  next
    case (Again used' d1)
    then have t: "touches runID (r_world row) d d1" using pass by simp
    from t Suc.prems(1) obtain row' where row': "sel r_id runID (run_rows d1) = Some row'" "r_world row' = r_world row"
      by (rule touches_row)
    have "touches runID (r_world row') d1 d'" by (rule Suc.IH [OF row'(1)]) (use Again Suc.prems(2) in simp)
    then show ?thesis using touches_trans [OF t] row'(2) by simp
  qed
qed simp

section \<open>Isolation\<close>

lemma Execute_touches:
  assumes "dp_registry (rn_dispatch R) = builtin L" and "Run runID d = Inr run"
    and "Execute L R E runID maxSteps fuel d = Some (r, d')"
  shows "touches runID (r_world run) d d'"
proof (cases "maxSteps < 1 \<or> E = None")
  case True
  then show ?thesis using assms(3) by (auto simp: Execute_def split: if_splits option.splits)
next
  case False
  then obtain F where F: "execute_loop L R F runID (nat maxSteps) fuel 0 0 d = Some (r, d')"
    using assms(3) by (auto simp: Execute_def)
  have "registry_ok (dp_registry (rn_dispatch R))" using registry_ok_builtin [of L] assms(1) by simp
  from execute_loop_touches [OF this conjunct1 [OF Run_Inr [OF assms(2)]] F] show ?thesis .
qed

text \<open>
  C19. Executing a run touches that run and its world, and nothing else. Whatever the provider
  answers, wherever the process crashes and however far the loop gets, the rows of every other
  run (its record, events, saved results, chaos and authorization state) and of every other
  world are exactly what they were, and the run keeps its world; only coordination rows, which
  the guarded writes renew, may change besides.
\<close>

theorem execution_isolated:
  assumes "dp_registry (rn_dispatch R) = builtin L" and "Run runID d = Inr run"
    and "Execute L R E runID maxSteps fuel d = Some (r, d')"
  shows "touches runID (r_world run) d d'"
  using assms by (rule Execute_touches)

theorem execution_isolated_witness:
  "\<exists>run fuel r d'. Run ''R'' leased_db = Inr run
     \<and> Execute sample_full sample_runner (Some sample_env) ''R'' 3 fuel leased_db = Some (r, d')
     \<and> touches ''R'' (r_world run) leased_db d'"
proof -
  obtain fuel r d' where e: "Execute sample_full sample_runner (Some sample_env) ''R'' 3 fuel leased_db = Some (r, d')"
    using sample_execution by (elim exE) (rule that)
  obtain run where run: "Run ''R'' leased_db = Inr run" by (simp add: Run_def sample_defs)
  from execution_isolated [OF sample_registry run e] show ?thesis using run e by (intro exI conjI)
qed

end
