(* ===== verification/Fork.thy ===== *)
theory Fork
  imports Checkpoint Tables Isolation
begin

text \<open>
  Forks (\<open>internal/fork\<close>): a child run that starts from a checkpoint of a recorded run, in a
  world of its own. \<open>Create\<close> rebuilds the checkpoint, verifies inside one transaction that the
  source is still what was rebuilt, and writes the child; \<open>ReconstructForReplay\<close> builds the
  child's starting point again in memory. The database a fork is prepared from and the one its
  transaction runs on are two arguments, so other writers may have come between. Reading policy
  documents is an argument (\<open>readers\<close>).
\<close>

section \<open>Tables of forks\<close>

record checkpoint_row =
  ck_id :: string
  ck_run :: string
  ck_seq :: nat
  ck_version :: int
  ck_manifest :: string
  ck_prefix :: string

record fork_lineage_row =
  fl_child :: string
  fl_parent :: string
  fl_seq :: nat
  fl_checkpoint :: string
  fl_version :: int
  fl_manifest :: string
  fl_prefix :: string
  fl_provider :: string
  fl_model :: string
  fl_chaos_replaced :: bool
  fl_auth_replaced :: bool

record observation =
  ob_call :: string
  ob_status :: int
  ob_body :: json

record fork_tables =
  checkpoints :: "checkpoint_row list"
  fork_lineage :: "fork_lineage_row list"
  fork_observations :: "(string \<times> observation) list"

definition Lineage :: "string \<Rightarrow> fork_tables \<Rightarrow> fork_lineage_row res" where
  "Lineage childID f = (case sel fl_child childID (fork_lineage f) of None \<Rightarrow> Inl ErrNoRows | Some l \<Rightarrow> Inr l)"

definition ObservationOverride :: "string \<Rightarrow> fork_tables \<Rightarrow> observation res" where
  "ObservationOverride childID f =
     (case sel fst childID (fork_observations f) of None \<Rightarrow> Inl ErrNoRows | Some (_, b) \<Rightarrow> Inr b)"

section \<open>Options\<close>

text \<open>
  What reading a policy gives: its canonical JSON with its digest, for an authorization policy
  after its principal. The \<open>stored\<close> readers check a stored policy against its digest.
\<close>

record readers =
  rd_chaos :: "string \<Rightarrow> manifest \<Rightarrow> (string \<times> string) res"
  rd_auth :: "string \<Rightarrow> manifest \<Rightarrow> (string \<times> string \<times> string) res"
  rd_chaos_stored :: "string \<Rightarrow> string \<Rightarrow> manifest \<Rightarrow> unit res"
  rd_auth_stored :: "string \<Rightarrow> string \<Rightarrow> manifest \<Rightarrow> string res"

record fork_options =
  fo_provider :: string
  fo_model :: string
  fo_fault :: "string option"
  fo_chaos :: string
  fo_auth :: string
  fo_observation :: "observation option"

definition KnownProvider :: "string \<Rightarrow> bool" where
  "KnownProvider p \<longleftrightarrow> p \<in> set [''scripted'', ''openai'', ''openai-compatible'', ''anthropic'', ''exec'']"

definition chosen :: "string \<Rightarrow> string \<Rightarrow> string" where
  "chosen option1 inherited = (if option1 \<noteq> [] then option1 else inherited)"

definition ValidateOptions :: "readers \<Rightarrow> run_row \<Rightarrow> manifest \<Rightarrow> fork_options \<Rightarrow> unit res" where
  "ValidateOptions R parent m opts =
     bindR (case fo_fault opts of
              None \<Rightarrow> Inr ()
            | Some p \<Rightarrow> if p \<noteq> [] \<and> Operation m p = None then Inl (Err ''unknown fault operation'') else Inr ()) (\<lambda>_.
     bindR (if fo_chaos opts = [] then Inr ()
            else if fo_fault opts \<noteq> None \<and> fo_fault opts \<noteq> Some []
            then Inl (Err ''fork fault and chaos policy cannot be combined'')
            else bindR (rd_chaos R (fo_chaos opts) m) (\<lambda>_. Inr ())) (\<lambda>_.
     bindR (if fo_auth opts = [] then Inr () else bindR (rd_auth R (fo_auth opts) m) (\<lambda>_. Inr ())) (\<lambda>_.
     if fo_provider opts \<noteq> [] \<and> \<not> KnownProvider (fo_provider opts) then Inl (Err ''unsupported fork provider'')
     else if fo_provider opts \<noteq> [] \<and> fo_provider opts \<noteq> r_provider parent \<and> fo_model opts = []
     then Inl (Err ''changing fork provider requires an explicit model'')
     else if chosen (fo_provider opts) (r_provider parent) = [] \<or> chosen (fo_model opts) (r_model parent) = []
     then Inl (Err ''fork provider and model are required'')
     else Inr ())))"

section \<open>Overriding an observation\<close>

definition prepareObservation :: "event_row list \<Rightarrow> checkpoint \<Rightarrow> observation \<Rightarrow> (observation \<times> json) res" where
  "prepareObservation evs selected b =
     (if ob_call b = [] then Inl (Err ''observation override requires a call ID'')
      else if ob_status b \<noteq> 0 \<and> (ob_status b < 100 \<or> ob_status b > 599)
      then Inl (Err ''observation override status must be 0 or 100 to 599'')
      else
        let body = canonicalJSON (ob_body b) in
        if cp_type selected \<noteq> ''tool.response'' \<or> cp_seq selected < 1 \<or> cp_seq selected > length evs
        then Inl (Err ''observation override requires a tool response checkpoint'')
        else
          let payload = e_payload (evs ! (cp_seq selected - 1)) in
          bindR (string_field ''call_id'' payload) (\<lambda>call.
          bindR (string_field ''operation_id'' payload) (\<lambda>operation.
          bindR (int_field ''status'' payload) (\<lambda>status.
          if call \<noteq> ob_call b then Inl (Err ''checkpoint is the response to another call'')
          else Inr (b\<lparr>ob_body := body\<rparr>,
                    jmap [(''call_id'', JStr (ob_call b)), (''operation_id'', JStr operation),
                          (''original_status'', jint status), (''status'', jint (ob_status b)), (''body'', body)])))))"

definition applyObservation :: "message list \<Rightarrow> observation \<Rightarrow> message list res" where
  "applyObservation transcript b =
     (if transcript = [] then Inl (Err ''transcript has no observation for call'')
      else
        let final = last transcript in
        if m_role final \<noteq> ''tool'' \<or> m_call_id final \<noteq> ob_call b
        then Inl (Err ''transcript does not end with the observation for call'')
        else Inr (butlast transcript @ [final\<lparr>m_content := ob_body b, m_status := ob_status b\<rparr>]))"

definition overrideToolResult :: "string \<Rightarrow> observation \<Rightarrow> tool_result_row list \<Rightarrow> tool_result_row list res" where
  "overrideToolResult runID b t =
     (let hit = (\<lambda>r. tr_run r = runID \<and> tr_call r = ob_call b) in
      if length (filter hit t) \<noteq> 1 then Inl (Err ''observation override found no saved result for call'')
      else Inr (upd hit (\<lambda>r. r\<lparr>tr_status := ob_status b, tr_body := ob_body b\<rparr>) t))"

section \<open>Copying a world\<close>

text \<open>The rows of a world inserted again under another world, as \<open>copyWorldTable\<close> does for one table.\<close>

definition copy_rows ::
    "('r \<Rightarrow> 'k) \<Rightarrow> ('r \<Rightarrow> string) \<Rightarrow> ('r \<Rightarrow> 'r) \<Rightarrow> string \<Rightarrow> 'r list \<Rightarrow> 'r list \<Rightarrow> 'r list res" where
  "copy_rows key world_of moved from source target =
     ins_all key (map moved (filter (\<lambda>r. world_of r = from) source)) target"

definition copy_billing :: "world_tables \<Rightarrow> string \<Rightarrow> string \<Rightarrow> world_tables \<Rightarrow> world_tables res" where
  "copy_billing s from to w =
     bindR (copy_rows (\<lambda>r. (cu_world r, cu_id r)) cu_world (\<lambda>r. r\<lparr>cu_world := to\<rparr>) from (customers s) (customers w)) (\<lambda>t1.
     bindR (copy_rows (\<lambda>r. (in_world r, in_id r)) in_world (\<lambda>r. r\<lparr>in_world := to\<rparr>) from (invoices s) (invoices w)) (\<lambda>t2.
     bindR (copy_rows (\<lambda>r. (ch_world r, ch_id r)) ch_world (\<lambda>r. r\<lparr>ch_world := to\<rparr>) from (charges s) (charges w)) (\<lambda>t3.
     bindR (copy_rows (\<lambda>r. (rf_world r, rf_id r)) rf_world (\<lambda>r. r\<lparr>rf_world := to\<rparr>) from (refunds s) (refunds w)) (\<lambda>t4.
     bindR (copy_rows (\<lambda>r. (su_world r, su_id r)) su_world (\<lambda>r. r\<lparr>su_world := to\<rparr>) from (subscriptions s) (subscriptions w)) (\<lambda>t5.
     Inr (w\<lparr>customers := t1, invoices := t2, charges := t3, refunds := t4, subscriptions := t5\<rparr>))))))"

definition copy_company :: "world_tables \<Rightarrow> string \<Rightarrow> string \<Rightarrow> world_tables \<Rightarrow> world_tables res" where
  "copy_company s from to w =
     bindR (copy_rows (\<lambda>r. (ac_world r, ac_id r)) ac_world (\<lambda>r. r\<lparr>ac_world := to\<rparr>) from (crm_accounts s) (crm_accounts w)) (\<lambda>t1.
     bindR (copy_rows (\<lambda>r. (ct_world r, ct_id r)) ct_world (\<lambda>r. r\<lparr>ct_world := to\<rparr>) from (crm_contacts s) (crm_contacts w)) (\<lambda>t2.
     bindR (copy_rows (\<lambda>r. (no_world r, no_id r)) no_world (\<lambda>r. r\<lparr>no_world := to\<rparr>) from (crm_notes s) (crm_notes w)) (\<lambda>t3.
     bindR (copy_rows (\<lambda>r. (pj_world r, pj_id r)) pj_world (\<lambda>r. r\<lparr>pj_world := to\<rparr>) from (ticket_projects s) (ticket_projects w)) (\<lambda>t4.
     bindR (copy_rows (\<lambda>r. (is_world r, is_id r)) is_world (\<lambda>r. r\<lparr>is_world := to\<rparr>) from (ticket_issues s) (ticket_issues w)) (\<lambda>t5.
     bindR (copy_rows (\<lambda>r. (cm_world r, cm_id r)) cm_world (\<lambda>r. r\<lparr>cm_world := to\<rparr>) from (ticket_comments s) (ticket_comments w)) (\<lambda>t6.
     Inr (w\<lparr>crm_accounts := t1, crm_contacts := t2, crm_notes := t3, ticket_projects := t4, ticket_issues := t5,
            ticket_comments := t6\<rparr>)))))))"

definition copy_messages :: "world_tables \<Rightarrow> string \<Rightarrow> string \<Rightarrow> world_tables \<Rightarrow> world_tables res" where
  "copy_messages s from to w =
     bindR (copy_rows (\<lambda>r. (wk_world r, wk_id r)) wk_world (\<lambda>r. r\<lparr>wk_world := to\<rparr>) from (message_workspaces s) (message_workspaces w)) (\<lambda>t1.
     bindR (copy_rows (\<lambda>r. (cn_world r, cn_id r)) cn_world (\<lambda>r. r\<lparr>cn_world := to\<rparr>) from (message_channels s) (message_channels w)) (\<lambda>t2.
     bindR (copy_rows (\<lambda>r. (me_world r, me_channel r, me_principal r)) me_world (\<lambda>r. r\<lparr>me_world := to\<rparr>) from (message_members s) (message_members w)) (\<lambda>t3.
     bindR (copy_rows (\<lambda>r. (ms_world r, ms_id r)) ms_world (\<lambda>r. r\<lparr>ms_world := to\<rparr>) from (message_messages s) (message_messages w)) (\<lambda>t4.
     Inr (w\<lparr>message_workspaces := t1, message_channels := t2, message_members := t3, message_messages := t4\<rparr>)))))"

text \<open>The loop over \<open>worldTables\<close>, in its order.\<close>

definition copyWorldTables :: "world_tables \<Rightarrow> string \<Rightarrow> string \<Rightarrow> world_tables \<Rightarrow> world_tables res" where
  "copyWorldTables s from to w =
     bindR (copy_billing s from to w) (\<lambda>w1. bindR (copy_company s from to w1) (\<lambda>w2. copy_messages s from to w2))"

definition copyToolResults :: "tool_result_row list \<Rightarrow> string \<Rightarrow> string \<Rightarrow> tool_result_row list \<Rightarrow> tool_result_row list res" where
  "copyToolResults source parentID childID t =
     ins_all (\<lambda>r. (tr_run r, tr_call r))
       (map (\<lambda>r. r\<lparr>tr_run := childID\<rparr>) (order_by (\<lambda>r. [tr_call r]) (filter (\<lambda>r. tr_run r = parentID) source))) t"

section \<open>Creating a fork\<close>

definition verifySourceInTransaction ::
    "'x golib_scheme \<Rightarrow> (string \<Rightarrow> string) \<Rightarrow> run_row \<Rightarrow> checkpoint \<Rightarrow> nat \<Rightarrow> db \<Rightarrow> unit res" where
  "verifySourceInTransaction L recorded parent selected initialTip d =
     (case sel r_id (r_id parent) (run_rows d) of
        None \<Rightarrow> Inl ErrNoRows
      | Some r \<Rightarrow>
          (case sel w_id (r_world r) (worlds (db_world d)) of
             None \<Rightarrow> Inl ErrNoRows
           | Some w \<Rightarrow>
               if (r_status r \<noteq> ''paused'' \<and> r_status r \<noteq> ''completed'') \<or> r_world r \<noteq> r_world parent
                  \<or> w_digest w \<noteq> cp_manifest selected
               then Inl (Err ''source run changed during fork'')
               else
                 let evs = Events (r_id parent) d; pre = filter (\<lambda>e. e_seq e \<le> cp_seq selected) evs in
                 if length evs \<noteq> initialTip \<or> length pre \<noteq> cp_seq selected
                 then Inl (Err ''source ledger changed during fork'')
                 else if PrefixDigest L recorded (r_id parent) (cp_manifest selected) pre \<noteq> Inr (cp_prefix selected)
                 then Inl (Err ''source checkpoint changed during fork'')
                 else Inr ()))"

definition forked_payload :: "string \<Rightarrow> checkpoint \<Rightarrow> string \<Rightarrow> json" where
  "forked_payload parentID selected digest =
     jmap [(''parent_run_id'', JStr parentID), (''fork_event_seq'', jint (int (cp_seq selected))),
           (''checkpoint_id'', JStr (cp_id selected)), (''manifest_digest'', JStr digest)]"

definition insert_policy :: "string \<Rightarrow> string \<Rightarrow> string \<Rightarrow> run_policy_row list \<Rightarrow> run_policy_row list res" where
  "insert_policy runID encoded digest t = ins rp_run \<lparr>rp_run = runID, rp_json = encoded, rp_digest = digest\<rparr> t"

text \<open>The child's chaos and authorization state: a new policy, or a copy of the checkpoint's.\<close>

definition child_chaos :: "readers \<Rightarrow> manifest \<Rightarrow> fork_options \<Rightarrow> db \<Rightarrow> string \<Rightarrow> string \<Rightarrow> db \<Rightarrow> db res" where
  "child_chaos R m opts rebuilt parentID childID d =
     (if fo_chaos opts \<noteq> [] then
        bindR (rd_chaos R (fo_chaos opts) m) (\<lambda>(encoded, digest).
        bindR (insert_policy childID encoded digest (run_chaos (db_policy d))) (\<lambda>t.
        Inr (map_policy (\<lambda>p. p\<lparr>run_chaos := t\<rparr>) d)))
      else bindR (chaos_CopyRun (db_policy rebuilt) parentID childID (db_policy d)) (\<lambda>p. Inr (map_policy (\<lambda>_. p) d)))"

definition child_auth :: "readers \<Rightarrow> manifest \<Rightarrow> fork_options \<Rightarrow> db \<Rightarrow> string \<Rightarrow> string \<Rightarrow> db \<Rightarrow> db res" where
  "child_auth R m opts rebuilt parentID childID d =
     (if fo_auth opts \<noteq> [] then
        bindR (rd_auth R (fo_auth opts) m) (\<lambda>(_, encoded, digest).
        bindR (insert_policy childID encoded digest (run_auth (db_policy d))) (\<lambda>t.
        Inr (map_policy (\<lambda>p. p\<lparr>run_auth := t\<rparr>) d)))
      else bindR (auth_CopyRun rebuilt parentID childID d) (\<lambda>(_, d1). Inr d1))"

text \<open>What a fork takes into its transaction.\<close>

record fork_plan =
  pl_parent :: run_row
  pl_selected :: checkpoint
  pl_tip :: nat
  pl_rebuilt :: db
  pl_run :: run_row
  pl_world :: world_row
  pl_observation :: "(observation \<times> json) option"

text \<open>The child's rows: its world, its run and its saved results.\<close>

definition write_child :: "fork_plan \<Rightarrow> run_row \<Rightarrow> db \<Rightarrow> db res" where
  "write_child P child d =
     bindR (ins w_id ((pl_world P)\<lparr>w_id := r_world child\<rparr>) (worlds (db_world d))) (\<lambda>ws.
     bindR (copyWorldTables (db_world (pl_rebuilt P)) (r_world (pl_run P)) (r_world child) ((db_world d)\<lparr>worlds := ws\<rparr>)) (\<lambda>w.
     bindR (ins r_id child (run_rows d)) (\<lambda>rs.
     bindR (copyToolResults (results (pl_rebuilt P)) (r_id (pl_parent P)) (r_id child) (results d)) (\<lambda>t.
     bindR (case pl_observation P of None \<Rightarrow> Inr t | Some (b, _) \<Rightarrow> overrideToolResult (r_id child) b t) (\<lambda>t1.
     Inr (d\<lparr>db_world := w, db_runs := (db_runs d)\<lparr>runs := rs, tool_results := t1\<rparr>\<rparr>))))))"

definition write_lineage :: "manifest \<Rightarrow> fork_options \<Rightarrow> fork_plan \<Rightarrow> string \<Rightarrow> fork_tables \<Rightarrow> fork_tables res" where
  "write_lineage m opts P childID f =
     (let p = pl_selected P; parent = pl_parent P in
      bindR (case pl_observation P of None \<Rightarrow> Inr (fork_observations f)
             | Some (b, _) \<Rightarrow> ins fst (childID, b) (fork_observations f)) (\<lambda>obs.
      bindR (ins fl_child
               \<lparr>fl_child = childID, fl_parent = r_id parent, fl_seq = cp_seq p, fl_checkpoint = cp_id p, fl_version = cp_version p,
                fl_manifest = cp_manifest p, fl_prefix = cp_prefix p, fl_provider = r_provider parent, fl_model = r_model parent,
                fl_chaos_replaced = (fo_chaos opts \<noteq> []), fl_auth_replaced = (fo_auth opts \<noteq> [])\<rparr> (fork_lineage f)) (\<lambda>fl.
      Inr \<lparr>checkpoints = (if cp_id p \<in> set (map ck_id (checkpoints f)) then checkpoints f
             else checkpoints f @ [\<lparr>ck_id = cp_id p, ck_run = r_id parent, ck_seq = cp_seq p, ck_version = cp_version p,
                                    ck_manifest = cp_manifest p, ck_prefix = cp_prefix p\<rparr>]),
           fork_lineage = fl, fork_observations = obs\<rparr>)))"

definition append_fork :: "'x golib_scheme \<Rightarrow> manifest \<Rightarrow> fork_plan \<Rightarrow> string \<Rightarrow> db \<Rightarrow> db res" where
  "append_fork L m P childID d =
     bindR (AppendEventTx L childID ''execution.forked'' (forked_payload (r_id (pl_parent P)) (pl_selected P) (mf_digest m)) d)
       (\<lambda>(_, d1). case pl_observation P of
          None \<Rightarrow> Inr d1
        | Some (_, payload) \<Rightarrow>
            bindR (AppendEventTx L childID ''observation.overridden'' payload d1) (\<lambda>(_, d2). Inr d2))"

definition inherited_fault :: "run_row \<Rightarrow> fork_options \<Rightarrow> string" where
  "inherited_fault parent opts =
     (if fo_chaos opts \<noteq> [] then [] else case fo_fault opts of None \<Rightarrow> r_fault_operation parent | Some p \<Rightarrow> p)"

definition plan_fork ::
    "'x lib_scheme \<Rightarrow> (string \<Rightarrow> string) \<Rightarrow> readers \<Rightarrow> manifest \<Rightarrow> fork_options \<Rightarrow> checkpoint \<Rightarrow> db \<Rightarrow> fork_plan res" where
  "plan_fork L recorded R m opts selected source =
     (if cp_version selected \<noteq> FormatVersion \<or> cp_manifest selected \<noteq> mf_digest m
      then Inl (Err ''checkpoint format or manifest mismatch'')
      else bindR (Run (cp_run selected) source) (\<lambda>parent.
        bindR (ValidateOptions R parent m opts) (\<lambda>_.
        let evs = Events (r_id parent) source in
        bindR (case fo_observation opts of None \<Rightarrow> Inr None
               | Some b \<Rightarrow> bindR (prepareObservation evs selected b) (\<lambda>x. Inr (Some x))) (\<lambda>override.
        bindR (Reconstruct L recorded (r_id parent) selected m source) (\<lambda>(rebuilt, run).
        bindR (case override of None \<Rightarrow> Inr (r_transcript run)
               | Some (b, _) \<Rightarrow> applyObservation (r_transcript run) b) (\<lambda>transcript.
        case sel w_id (r_world run) (worlds (db_world rebuilt)) of
          None \<Rightarrow> Inl ErrNoRows
        | Some w \<Rightarrow>
            Inr \<lparr>pl_parent = parent, pl_selected = selected, pl_tip = length evs, pl_rebuilt = rebuilt,
                 pl_run = run\<lparr>r_transcript := transcript\<rparr>, pl_world = w, pl_observation = override\<rparr>))))))"

text \<open>\<open>worldBytes\<close> and \<open>runBytes\<close> are what the random generator returned for the two IDs.\<close>

definition child_row :: "readers \<Rightarrow> manifest \<Rightarrow> fork_options \<Rightarrow> fork_plan \<Rightarrow> nat list \<Rightarrow> nat list \<Rightarrow> run_row res" where
  "child_row R m opts P worldBytes runBytes =
     (let parent = pl_parent P; fault = inherited_fault parent opts in
      bindR (if fo_auth opts \<noteq> [] then bindR (rd_auth R (fo_auth opts) m) (\<lambda>(principal, _). Inr principal)
             else Inr (r_principal parent)) (\<lambda>principal.
      Inr \<lparr>r_id = ''R-'' @ hex_encode runBytes, r_world = ''W-F-'' @ hex_encode worldBytes, r_scenario = r_scenario parent,
           r_provider = chosen (fo_provider opts) (r_provider parent), r_model = chosen (fo_model opts) (r_model parent),
           r_task = r_task parent, r_status = ''paused'', r_step = r_step (pl_run P), r_transcript = r_transcript (pl_run P),
           r_fault_operation = fault,
           r_fault_consumed = (if fault \<noteq> r_fault_operation parent then 0 else r_fault_consumed (pl_run P)),
           r_principal = principal\<rparr>))"

type_synonym fork_state = "db \<times> fork_tables"

definition fork_tx ::
    "'x lib_scheme \<Rightarrow> (string \<Rightarrow> string) \<Rightarrow> readers \<Rightarrow> manifest \<Rightarrow> fork_options \<Rightarrow> fork_plan \<Rightarrow> nat list \<Rightarrow> nat list \<Rightarrow>
       fork_state \<Rightarrow> (run_row \<times> fork_state) res" where
  "fork_tx L recorded R m opts P worldBytes runBytes = (\<lambda>(d, f).
     bindR (verifySourceInTransaction L recorded (pl_parent P) (pl_selected P) (pl_tip P) d) (\<lambda>_.
     bindR (child_row R m opts P worldBytes runBytes) (\<lambda>child.
     bindR (write_child P child d) (\<lambda>d1.
     bindR (child_chaos R m opts (pl_rebuilt P) (r_id (pl_parent P)) (r_id child) d1) (\<lambda>d2.
     bindR (child_auth R m opts (pl_rebuilt P) (r_id (pl_parent P)) (r_id child) d2) (\<lambda>d3.
     bindR (write_lineage m opts P (r_id child) f) (\<lambda>f1.
     bindR (append_fork L m P (r_id child) d3) (\<lambda>d4.
     Inr (child, d4, f1)))))))))"

text \<open>\<open>source\<close> is the database the fork is prepared from, the last argument the one it is written to.\<close>

definition Create ::
    "'x lib_scheme \<Rightarrow> (string \<Rightarrow> string) \<Rightarrow> readers \<Rightarrow> manifest \<Rightarrow> fork_options \<Rightarrow> checkpoint \<Rightarrow> nat list \<Rightarrow> nat list \<Rightarrow>
       db \<Rightarrow> fork_state \<Rightarrow> run_row res \<times> fork_state" where
  "Create L recorded R m opts selected worldBytes runBytes source s =
     (case plan_fork L recorded R m opts selected source of
        Inl e \<Rightarrow> (Inl e, s)
      | Inr P \<Rightarrow> (case fork_tx L recorded R m opts P worldBytes runBytes s of
          Inl e \<Rightarrow> (Inl e, s) | Inr (child, s') \<Rightarrow> (Inr child, s')))"

section \<open>The child's starting point, for replay\<close>

definition ReconstructForReplay ::
    "'x lib_scheme \<Rightarrow> (string \<Rightarrow> string) \<Rightarrow> readers \<Rightarrow> manifest \<Rightarrow> run_row \<Rightarrow> fork_lineage_row \<Rightarrow> fork_state \<Rightarrow> db res" where
  "ReconstructForReplay L recorded R m child l = (\<lambda>(source, f).
     if fl_child l \<noteq> r_id child \<or> fl_version l \<noteq> FormatVersion \<or> fl_manifest l \<noteq> mf_digest m
     then Inl (Err ''fork lineage format or manifest mismatch'')
     else bindR (Run (fl_parent l) source) (\<lambda>parent.
       if r_provider parent \<noteq> fl_provider l \<or> r_model parent \<noteq> fl_model l \<or> r_scenario parent \<noteq> r_scenario child
          \<or> r_task parent \<noteq> r_task child
       then Inl (Err ''fork parent metadata differs from lineage'')
       else bindR (List L recorded (r_id parent) m source) (\<lambda>points.
         bindR (Select points (fl_seq l)) (\<lambda>selected.
         if cp_id selected \<noteq> fl_checkpoint l \<or> cp_prefix selected \<noteq> fl_prefix l \<or> cp_version selected \<noteq> fl_version l
         then Inl (Err ''fork lineage checkpoint differs from parent prefix'')
         else case sel w_id (r_world child) (worlds (db_world source)) of
           None \<Rightarrow> Inl ErrNoRows
         | Some cw \<Rightarrow>
             if w_digest cw \<noteq> mf_digest m then Inl (Err ''fork child manifest mismatch'')
             else bindR (Reconstruct L recorded (r_id parent) selected m source) (\<lambda>(target, rebuilt).
               case sel w_id (r_world rebuilt) (worlds (db_world target)) of
                 None \<Rightarrow> Inl ErrNoRows
               | Some pw \<Rightarrow>
                   if w_seed cw \<noteq> w_seed pw \<or> w_digest cw \<noteq> w_digest pw \<or> w_base_at cw \<noteq> w_base_at pw
                   then Inl (Err ''fork child world metadata differs from checkpoint'')
                   else
                     bindR (case ObservationOverride (r_id child) f of
                              Inl _ \<Rightarrow> Inr None
                            | Inr b \<Rightarrow> bindR (prepareObservation (Events (r_id parent) source) selected b) (\<lambda>x. Inr (Some x))) (\<lambda>override.
                     bindR (case override of None \<Rightarrow> Inr (r_transcript rebuilt)
                            | Some (b, _) \<Rightarrow> applyObservation (r_transcript rebuilt) b) (\<lambda>transcript.
                     let start = child\<lparr>r_status := ''paused'', r_step := r_step rebuilt, r_transcript := transcript,
                                        r_fault_consumed := (if r_fault_operation child \<noteq> r_fault_operation parent then 0
                                                             else r_fault_consumed rebuilt)\<rparr>;
                         P = \<lparr>pl_parent = parent, pl_selected = selected, pl_tip = 0, pl_rebuilt = target, pl_run = rebuilt,
                              pl_world = cw, pl_observation = override\<rparr> in
                     bindR (write_child P start target) (\<lambda>d1.
                     bindR (if fl_chaos_replaced l then
                              bindR (ChaosPolicy (r_id child) source) (\<lambda>(encoded, digest).
                              bindR (rd_chaos_stored R encoded digest m) (\<lambda>_.
                              bindR (insert_policy (r_id child) encoded digest (run_chaos (db_policy d1))) (\<lambda>t.
                              Inr (map_policy (\<lambda>p. p\<lparr>run_chaos := t\<rparr>) d1))))
                            else bindR (CopyRunInTx (r_id parent) (r_id child) (db_policy d1)) (\<lambda>p. Inr (map_policy (\<lambda>_. p) d1))) (\<lambda>d2.
                     bindR (if fl_auth_replaced l then
                              bindR (AuthPolicy (r_id child) source) (\<lambda>(encoded, digest).
                              bindR (rd_auth_stored R encoded digest m) (\<lambda>_.
                              bindR (insert_policy (r_id child) encoded digest (run_auth (db_policy d2))) (\<lambda>t.
                              Inr (map_policy (\<lambda>p. p\<lparr>run_auth := t\<rparr>) d2))))
                            else bindR (auth_CopyRun d2 (r_id parent) (r_id child) d2) (\<lambda>(_, d3). Inr d3)) (\<lambda>d3.
                     append_fork L m P (r_id child) d3))))))))))"

section \<open>Comparing a fork with its parent\<close>

text \<open>Two sorted lists of rows merged into the rows only one of them has.\<close>

function rowDifference :: "string list \<Rightarrow> string list \<Rightarrow> string list \<times> string list" where
  "rowDifference [] [] = ([], [])"
| "rowDifference (p # ps) [] = (let (l, r) = rowDifference ps [] in (p # l, r))"
| "rowDifference [] (c # cs) = (let (l, r) = rowDifference [] cs in (l, c # r))"
| "rowDifference (p # ps) (c # cs) =
     (if p \<noteq> c \<and> text_le p c then (let (l, r) = rowDifference ps (c # cs) in (p # l, r))
      else if p \<noteq> c then (let (l, r) = rowDifference (p # ps) cs in (l, c # r))
      else rowDifference ps cs)"
  by pat_completeness auto
termination by (relation "measure (\<lambda>(p, c). length p + length c)") auto

definition cell_json :: "cell \<Rightarrow> json" where
  "cell_json c = (case c of CText s \<Rightarrow> JStr s | CInt i \<Rightarrow> jint i)"

text \<open>The rows of a table in a world, each as the JSON text of its columns, sorted.\<close>

definition compareRows :: "'x golib_scheme \<Rightarrow> world_tables \<Rightarrow> string \<Rightarrow> string \<Rightarrow> string list" where
  "compareRows L w table worldID =
     order_by (\<lambda>s. [s]) (case rows_of w worldID table of None \<Rightarrow> []
       | Some rows \<Rightarrow> map (\<lambda>row. print_json L (JArr (map cell_json row))) rows)"

record state_difference =
  df_table :: string
  df_parent_only :: "string list"
  df_child_only :: "string list"

definition stateDifferences :: "'x golib_scheme \<Rightarrow> world_tables \<Rightarrow> string \<Rightarrow> string \<Rightarrow> state_difference list" where
  "stateDifferences L w parentWorld childWorld =
     filter (\<lambda>x. df_parent_only x \<noteq> [] \<or> df_child_only x \<noteq> [])
       (map (\<lambda>(table, _). let (l, r) = rowDifference (compareRows L w table parentWorld) (compareRows L w table childWorld) in
               \<lparr>df_table = table, df_parent_only = l, df_child_only = r\<rparr>) world_columns)"

section \<open>What a comparison reports\<close>

lemma text_le_trans: "text_le a b \<Longrightarrow> text_le b c \<Longrightarrow> text_le a c"
  unfolding text_le_def by (rule lexordp_eq_trans)

lemma text_le_linear: "text_le a b \<or> text_le b a"
  unfolding text_le_def by (rule lexordp_eq_linear)

lemma text_le_antisym: "text_le a b \<Longrightarrow> text_le b a \<Longrightarrow> a = b"
proof -
  assume "text_le a b" "text_le b a"
  then have "(map of_char a :: nat list) = map of_char b" unfolding text_le_def by (rule lexordp_eq_antisym)
  then show "a = b" by (simp add: inj_map_eq_map inj_of_char)
qed

lemma texts_le_single: "texts_le [a] [b] = text_le a b"
  by (auto simp: text_le_def lexordp_eq_refl)

lemma insert_by_sorted:
  "sorted_wrt text_le xs \<Longrightarrow> sorted_wrt text_le (insert_by (\<lambda>s. [s]) x xs)"
proof (induction xs)
  case (Cons y ys)
  show ?case
  proof (cases "text_le x y")
    case True
    then show ?thesis using Cons.prems text_le_trans by (fastforce simp: texts_le_single)
  next
    case False
    then have "text_le y x" using text_le_linear by blast
    moreover have "set (insert_by (\<lambda>s. [s]) x ys) = insert x (set ys)"
      using insert_by_mset [of "\<lambda>s. [s]" x ys] by (metis set_mset_add_mset_insert set_mset_mset)
    ultimately show ?thesis using Cons False by (auto simp: texts_le_single)
  qed
qed simp

lemma order_by_sorted: "sorted_wrt text_le (order_by (\<lambda>s. [s]) xs)"
  unfolding order_by_def by (induction xs) (auto intro: insert_by_sorted)

text \<open>What is smaller than the first of a sorted list is not in it.\<close>

lemma before_sorted:
  assumes "sorted_wrt text_le (c # cs)" and "text_le p c" and "p \<noteq> c"
  shows "p \<notin> set (c # cs)"
  using assms text_le_antisym by auto

lemma diff_add_left: "p \<notin># N \<Longrightarrow> add_mset p M - N = add_mset p (M - N)"
  by (simp add: add_mset_diff_bothsides multiset_eq_iff not_in_iff)

lemma rowDifference_mset:
  assumes "sorted_wrt text_le ps" and "sorted_wrt text_le cs"
  shows "mset (fst (rowDifference ps cs)) = mset ps - mset cs \<and> mset (snd (rowDifference ps cs)) = mset cs - mset ps"
  using assms
proof (induction ps cs rule: rowDifference.induct)
  case (4 p ps c cs)
  consider (less) "p \<noteq> c" "text_le p c" | (more) "p \<noteq> c" "\<not> text_le p c" | (same) "p = c" by blast
  then show ?case
  proof cases
    case less
    have "p \<notin> set (c # cs)" using before_sorted [OF 4(5) less(2,1)] .
    then have "p \<notin># mset (c # cs)" by simp
    then show ?thesis
      using 4(1) [OF conjI [OF less]] 4(4,5) less diff_add_left [of p "mset (c # cs)" "mset ps"]
      by (auto split: prod.splits simp: diff_single_trivial)
  next
    case more
    then have "text_le c p" "c \<noteq> p" using text_le_linear by blast+
    then have "c \<notin># mset (p # ps)" using before_sorted [OF 4(4)] by simp
    then show ?thesis
      using 4(2) [OF _ more(1)] 4(4,5) more diff_add_left [of c "mset (p # ps)" "mset cs"]
      by (auto split: prod.splits simp: diff_single_trivial)
  next
    case same
    then show ?thesis using 4(3) 4(4,5) by simp
  qed
qed (auto split: prod.splits)

text \<open>The rows of one table as a comparison sees them.\<close>

definition row_texts :: "'x golib_scheme \<Rightarrow> world_tables \<Rightarrow> string \<Rightarrow> string \<Rightarrow> string multiset" where
  "row_texts L w table worldID =
     (case rows_of w worldID table of None \<Rightarrow> {#} | Some rows \<Rightarrow> {# print_json L (JArr (map cell_json row)). row \<in># mset rows #})"

lemma compareRows_mset: "mset (compareRows L w table worldID) = row_texts L w table worldID"
  by (simp add: compareRows_def row_texts_def order_by_mset split: option.splits)

text \<open>
  The comparison of a fork with its parent is exact. A table is reported when the rows of
  the two worlds in it differ as collections, and only then; what is reported for it is the rows
  the parent has beyond the child's and the rows the child has beyond the parent's, each as
  often as it is there.
\<close>

theorem state_differences_exact:
  "set (map df_table (stateDifferences L w p c)) =
     {table \<in> set (map fst world_columns). row_texts L w table p \<noteq> row_texts L w table c}
   \<and> list_all (\<lambda>x. mset (df_parent_only x) = row_texts L w (df_table x) p - row_texts L w (df_table x) c
        \<and> mset (df_child_only x) = row_texts L w (df_table x) c - row_texts L w (df_table x) p) (stateDifferences L w p c)"
proof -
  let ?diff = "\<lambda>table. rowDifference (compareRows L w table p) (compareRows L w table c)"
  let ?x = "\<lambda>table. \<lparr>df_table = table, df_parent_only = fst (?diff table), df_child_only = snd (?diff table)\<rparr>"
  have sd: "stateDifferences L w p c = filter (\<lambda>x. df_parent_only x \<noteq> [] \<or> df_child_only x \<noteq> []) (map ?x (map fst world_columns))"
    by (simp add: stateDifferences_def comp_def case_prod_unfold Let_def)
  have ms: "mset (fst (?diff table)) = row_texts L w table p - row_texts L w table c"
      "mset (snd (?diff table)) = row_texts L w table c - row_texts L w table p" for table
    using rowDifference_mset [of "compareRows L w table p" "compareRows L w table c"] order_by_sorted
    by (simp_all add: compareRows_mset) (simp_all add: compareRows_def)
  have eq: "fst (?diff table) \<noteq> [] \<or> snd (?diff table) \<noteq> [] \<longleftrightarrow> row_texts L w table p \<noteq> row_texts L w table c" for table
  proof -
    have "fst (?diff table) = [] \<longleftrightarrow> row_texts L w table p \<subseteq># row_texts L w table c"
        "snd (?diff table) = [] \<longleftrightarrow> row_texts L w table c \<subseteq># row_texts L w table p"
      using ms [of table] by (metis Diff_eq_empty_iff_mset mset_zero_iff)+
    then show ?thesis by (metis subset_mset.antisym subset_mset.order_refl)
  qed
  show ?thesis
  proof
    show "set (map df_table (stateDifferences L w p c)) =
        {table \<in> set (map fst world_columns). row_texts L w table p \<noteq> row_texts L w table c}"
      unfolding sd using eq by force
    show "list_all (\<lambda>x. mset (df_parent_only x) = row_texts L w (df_table x) p - row_texts L w (df_table x) c
        \<and> mset (df_child_only x) = row_texts L w (df_table x) c - row_texts L w (df_table x) p) (stateDifferences L w p c)"
      unfolding sd list_all_iff using ms by auto
  qed
qed

section \<open>What a fork writes\<close>

lemma ins_all_ok: "ins_all k rows t = Inr t' \<Longrightarrow> t' = t @ rows \<and> (keyed k t \<longrightarrow> keyed k t')"
proof (induction rows arbitrary: t)
  case (Cons r rows)
  then obtain t1 where t1: "ins k r t = Inr t1" "ins_all k rows t1 = Inr t'" by (auto simp: ins_all_def)
  then have "t1 = t @ [r]" "keyed k t \<longrightarrow> keyed k t1" by (auto simp: ins_Inr keyed_snoc)
  then show ?case using Cons.IH [OF t1(2)] by auto
qed (simp add: ins_all_def)

text \<open>The rows of a world in another's table, renamed.\<close>

definition moved_rows :: "('r \<Rightarrow> string) \<Rightarrow> ('r \<Rightarrow> 'r) \<Rightarrow> string \<Rightarrow> 'r list \<Rightarrow> 'r list" where
  "moved_rows world_of moved from source = map moved (filter (\<lambda>r. world_of r = from) source)"

lemma copy_rows_Inr:
  "copy_rows key world_of moved from source target = Inr t \<Longrightarrow> t = target @ moved_rows world_of moved from source"
  unfolding copy_rows_def moved_rows_def by (blast dest: ins_all_ok)

lemma copy_rows_keyed:
  "copy_rows key world_of moved from source target = Inr t \<Longrightarrow> keyed key target \<Longrightarrow> keyed key t"
  unfolding copy_rows_def by (blast dest: ins_all_ok)

lemmas copy_defs = copy_billing_def copy_company_def copy_messages_def

lemma copyWorldTables_record:
  assumes "copyWorldTables s from to w = Inr w'"
  shows "w' = w\<lparr>
    customers := customers w @ moved_rows cu_world (\<lambda>r. r\<lparr>cu_world := to\<rparr>) from (customers s),
    invoices := invoices w @ moved_rows in_world (\<lambda>r. r\<lparr>in_world := to\<rparr>) from (invoices s),
    charges := charges w @ moved_rows ch_world (\<lambda>r. r\<lparr>ch_world := to\<rparr>) from (charges s),
    refunds := refunds w @ moved_rows rf_world (\<lambda>r. r\<lparr>rf_world := to\<rparr>) from (refunds s),
    subscriptions := subscriptions w @ moved_rows su_world (\<lambda>r. r\<lparr>su_world := to\<rparr>) from (subscriptions s),
    crm_accounts := crm_accounts w @ moved_rows ac_world (\<lambda>r. r\<lparr>ac_world := to\<rparr>) from (crm_accounts s),
    crm_contacts := crm_contacts w @ moved_rows ct_world (\<lambda>r. r\<lparr>ct_world := to\<rparr>) from (crm_contacts s),
    crm_notes := crm_notes w @ moved_rows no_world (\<lambda>r. r\<lparr>no_world := to\<rparr>) from (crm_notes s),
    ticket_projects := ticket_projects w @ moved_rows pj_world (\<lambda>r. r\<lparr>pj_world := to\<rparr>) from (ticket_projects s),
    ticket_issues := ticket_issues w @ moved_rows is_world (\<lambda>r. r\<lparr>is_world := to\<rparr>) from (ticket_issues s),
    ticket_comments := ticket_comments w @ moved_rows cm_world (\<lambda>r. r\<lparr>cm_world := to\<rparr>) from (ticket_comments s),
    message_workspaces := message_workspaces w @ moved_rows wk_world (\<lambda>r. r\<lparr>wk_world := to\<rparr>) from (message_workspaces s),
    message_channels := message_channels w @ moved_rows cn_world (\<lambda>r. r\<lparr>cn_world := to\<rparr>) from (message_channels s),
    message_members := message_members w @ moved_rows me_world (\<lambda>r. r\<lparr>me_world := to\<rparr>) from (message_members s),
    message_messages := message_messages w @ moved_rows ms_world (\<lambda>r. r\<lparr>ms_world := to\<rparr>) from (message_messages s)\<rparr>"
proof -
  obtain w1 w2 where w1: "copy_billing s from to w = Inr w1" and w2: "copy_company s from to w1 = Inr w2"
    and w3: "copy_messages s from to w2 = Inr w'" using assms by (auto simp: copyWorldTables_def)
  note w1' = w1 [unfolded copy_billing_def bindR_Inr_iff]
  note w2' = w2 [unfolded copy_company_def bindR_Inr_iff]
  note w3' = w3 [unfolded copy_messages_def bindR_Inr_iff]
  have e1: "w1 = w\<lparr>
    customers := customers w @ moved_rows cu_world (\<lambda>r. r\<lparr>cu_world := to\<rparr>) from (customers s),
    invoices := invoices w @ moved_rows in_world (\<lambda>r. r\<lparr>in_world := to\<rparr>) from (invoices s),
    charges := charges w @ moved_rows ch_world (\<lambda>r. r\<lparr>ch_world := to\<rparr>) from (charges s),
    refunds := refunds w @ moved_rows rf_world (\<lambda>r. r\<lparr>rf_world := to\<rparr>) from (refunds s),
    subscriptions := subscriptions w @ moved_rows su_world (\<lambda>r. r\<lparr>su_world := to\<rparr>) from (subscriptions s)\<rparr>"
    using w1' by (elim exE conjE) (drule copy_rows_Inr | simp only: sum.inject)+
  have e2: "w2 = w1\<lparr>
    crm_accounts := crm_accounts w1 @ moved_rows ac_world (\<lambda>r. r\<lparr>ac_world := to\<rparr>) from (crm_accounts s),
    crm_contacts := crm_contacts w1 @ moved_rows ct_world (\<lambda>r. r\<lparr>ct_world := to\<rparr>) from (crm_contacts s),
    crm_notes := crm_notes w1 @ moved_rows no_world (\<lambda>r. r\<lparr>no_world := to\<rparr>) from (crm_notes s),
    ticket_projects := ticket_projects w1 @ moved_rows pj_world (\<lambda>r. r\<lparr>pj_world := to\<rparr>) from (ticket_projects s),
    ticket_issues := ticket_issues w1 @ moved_rows is_world (\<lambda>r. r\<lparr>is_world := to\<rparr>) from (ticket_issues s),
    ticket_comments := ticket_comments w1 @ moved_rows cm_world (\<lambda>r. r\<lparr>cm_world := to\<rparr>) from (ticket_comments s)\<rparr>"
    using w2' by (elim exE conjE) (drule copy_rows_Inr | simp only: sum.inject)+
  have e3: "w' = w2\<lparr>
    message_workspaces := message_workspaces w2 @ moved_rows wk_world (\<lambda>r. r\<lparr>wk_world := to\<rparr>) from (message_workspaces s),
    message_channels := message_channels w2 @ moved_rows cn_world (\<lambda>r. r\<lparr>cn_world := to\<rparr>) from (message_channels s),
    message_members := message_members w2 @ moved_rows me_world (\<lambda>r. r\<lparr>me_world := to\<rparr>) from (message_members s),
    message_messages := message_messages w2 @ moved_rows ms_world (\<lambda>r. r\<lparr>ms_world := to\<rparr>) from (message_messages s)\<rparr>"
    using w3' by (elim exE conjE) (drule copy_rows_Inr | simp only: sum.inject)+
  show ?thesis unfolding e3 e2 e1 by simp
qed

lemma copyWorldTables_keys:
  assumes "copyWorldTables s from to w = Inr w'" "world_keys w"
  shows "world_keys w'"
proof -
  obtain w1 w2 where w1: "copy_billing s from to w = Inr w1" and w2: "copy_company s from to w1 = Inr w2"
    and w3: "copy_messages s from to w2 = Inr w'" using assms by (auto simp: copyWorldTables_def)
  have k1: "world_keys w1" using assms(2) w1 [unfolded copy_billing_def bindR_Inr_iff]
    by (elim exE conjE) (simp add: world_keys_def, drule sym, simp add: copy_rows_keyed)
  have k2: "world_keys w2" using k1 w2 [unfolded copy_company_def bindR_Inr_iff]
    by (elim exE conjE) (simp add: world_keys_def, drule sym, simp add: copy_rows_keyed)
  show ?thesis using k2 w3 [unfolded copy_messages_def bindR_Inr_iff]
    by (elim exE conjE) (simp add: world_keys_def, drule sym, simp add: copy_rows_keyed)
qed

lemma filter_moved_rows:
  assumes "\<And>r. world_of (moved r) = to"
  shows "filter (\<lambda>r. world_of r \<noteq> to) (moved_rows world_of moved from t) = []"
    "x \<noteq> to \<Longrightarrow> filter (\<lambda>r. world_of r = x) (moved_rows world_of moved from t) = []"
    "filter (\<lambda>r. world_of r = to) (moved_rows world_of moved from t) = moved_rows world_of moved from t"
  using assms by (auto simp: moved_rows_def filter_empty_conv filter_id_conv)

lemma copyWorldTables_outside:
  assumes "copyWorldTables s from to w = Inr w'"
  shows "outside to w' = outside to w"
  unfolding copyWorldTables_record [OF assms] by (simp add: outside_def filter_moved_rows)

text \<open>A query on the copy finds the rows of the source world; a query on another world is not affected.\<close>

definition cells_in :: "('r \<Rightarrow> cells) \<Rightarrow> string \<Rightarrow> 'r list \<Rightarrow> cell list list" where
  "cells_in cells x t = map snd (filter (\<lambda>c. fst c = x) (map cells t))"

lemma copied_cells:
  assumes "\<And>r. fst (cells r) = world_of r" and "\<And>r. cells (moved r) = (to, snd (cells r))"
  shows "cells_in cells x (t @ moved_rows world_of moved from s)
           = (if x = to then cells_in cells to t @ cells_in cells from s else cells_in cells x t)"
  by (induction s) (auto simp: cells_in_def moved_rows_def assms)

lemma copied_table:
  assumes "map_of (all_rows w) table = Some (map cells t)" "map_of (all_rows s) table = Some (map cells u)"
    and "map_of (all_rows w') table = Some (map cells (t @ moved_rows world_of moved from u))"
    and "\<And>r. fst (cells r) = world_of r" and "\<And>r. cells (moved r) = (to, snd (cells r))"
  shows "rows_of w' x table
           = (if x = to then map_option (\<lambda>rows. the (rows_of w to table) @ rows) (rows_of s from table) else rows_of w x table)"
  using assms(1-3) copied_cells [of cells world_of moved to x t "from" u, OF assms(4,5)] by (auto simp: rows_of_def cells_in_def)

lemma copied_rows:
  assumes "copyWorldTables s from to w = Inr w'" and "table \<in> set (map fst world_columns)"
  shows "rows_of w' x table
           = (if x = to then map_option (\<lambda>rows. the (rows_of w to table) @ rows) (rows_of s from table) else rows_of w x table)"
  using assms(2) unfolding world_columns_def list.map prod.sel set_simps copyWorldTables_record [OF assms(1)]
  by (elim insertE emptyE; simp only:)
    (rule copied_table, simp add: all_rows_def, simp add: all_rows_def,
      simp add: all_rows_def del: map_append, simp add: cells_defs, simp add: cells_defs)+

lemma copied_rows_other: "copyWorldTables s from to w = Inr w' \<Longrightarrow> x \<noteq> to \<Longrightarrow> table \<in> set (map fst world_columns)
     \<Longrightarrow> rows_of w' x table = rows_of w x table"
  by (simp add: copied_rows)

section \<open>A fork leaves everything else alone\<close>

lemma copied_outside:
  "ins_all key (map moved rows) t = Inr t' \<Longrightarrow> (\<And>r. run_of (moved r) = to) \<Longrightarrow>
     filter (\<lambda>r. run_of r \<noteq> to) t' = filter (\<lambda>r. run_of r \<noteq> to) t"
  by (drule ins_all_ok) (simp add: filter_map comp_def)

lemma chaos_CopyRun_outside:
  assumes "chaos_CopyRun source from to t = Inr t'"
  shows "policies_outside to t' = policies_outside to t"
proof -
  obtain t1 t2 t3 t4 where
      "ins_all rp_run (map (\<lambda>r. r\<lparr>rp_run := to\<rparr>) (filter (\<lambda>r. rp_run r = from) (run_chaos source))) (run_chaos t) = Inr t1"
      "ins_all (\<lambda>s. (cs_run s, cs_rule s)) (map (\<lambda>r. r\<lparr>cs_run := to\<rparr>) (filter (\<lambda>r. cs_run r = from) (chaos_rule_state source)))
         (chaos_rule_state t) = Inr t2"
      "ins_all (\<lambda>s. (sn_run s, sn_rule s, sn_arguments_digest s)) (map (\<lambda>r. r\<lparr>sn_run := to\<rparr>)
         (filter (\<lambda>r. sn_run r = from) (chaos_snapshots source))) (chaos_snapshots t) = Inr t3"
      "ins_all (\<lambda>s. (hd_run s, hd_call s)) (map (\<lambda>r. r\<lparr>hd_run := to\<rparr>)
         (filter (\<lambda>r. hd_run r = from) (chaos_hidden_outcomes source))) (chaos_hidden_outcomes t) = Inr t4"
      "t' = t\<lparr>run_chaos := t1, chaos_rule_state := t2, chaos_snapshots := t3, chaos_hidden_outcomes := t4\<rparr>"
    using assms unfolding chaos_CopyRun_def bindR_Inr_iff by blast
  note c = this
  show ?thesis
    using copied_outside [OF c(1), of rp_run to] copied_outside [OF c(2), of cs_run to]
      copied_outside [OF c(3), of sn_run to] copied_outside [OF c(4), of hd_run to] c(5)
    by (simp add: policies_outside_def)
qed

lemma child_chaos_apart:
  assumes "child_chaos R m opts rebuilt parentID childID d = Inr d'"
  shows "apart childID world d d' \<and> db_runs d' = db_runs d \<and> db_world d' = db_world d"
proof -
  consider encoded digest t where "insert_policy childID encoded digest (run_chaos (db_policy d)) = Inr t"
      "d' = map_policy (\<lambda>p. p\<lparr>run_chaos := t\<rparr>) d"
    | p where "chaos_CopyRun (db_policy rebuilt) parentID childID (db_policy d) = Inr p" "d' = map_policy (\<lambda>_. p) d"
    using assms by (auto simp: child_chaos_def split: if_splits)
  then show ?thesis
  proof cases
    case 1
    then show ?thesis
      by (auto simp: apart_def policies_outside_def insert_policy_def ins_Inr map_policy_def)
  next
    case 2
    then have "policies_outside childID p = policies_outside childID (db_policy d)"
      by (simp add: chaos_CopyRun_outside)
    then show ?thesis using 2 by (simp add: apart_def)
  qed
qed

lemma child_auth_apart:
  assumes "child_auth R m opts rebuilt parentID childID d = Inr d'"
  shows "apart childID world d d' \<and> db_runs d' = db_runs d \<and> db_world d' = db_world d"
  using assms
  by (auto simp: child_auth_def auth_CopyRun_def insert_policy_def apart_def policies_outside_def ins_Inr map_policy_def Let_def
      split: if_splits option.splits)

lemma overridden_other:
  "filter (\<lambda>r. tr_run r \<noteq> x) (upd (\<lambda>r. tr_run r = x \<and> tr_call r = c) (\<lambda>r. r\<lparr>tr_status := a, tr_body := b\<rparr>) t)
     = filter (\<lambda>r. tr_run r \<noteq> x) t"
  by (rule upd_filter_other) auto

lemma write_child_ok:
  assumes "write_child P child d = Inr d'"
  shows "r_id child \<notin> set (map r_id (run_rows d)) \<and> r_world child \<notin> set (map w_id (worlds (db_world d)))
     \<and> run_rows d' = run_rows d @ [child] \<and> ledger d' = ledger d \<and> apart (r_id child) (r_world child) d d'"
proof -
  obtain ws w rs t t1 where ws: "ins w_id ((pl_world P)\<lparr>w_id := r_world child\<rparr>) (worlds (db_world d)) = Inr ws"
    and w: "copyWorldTables (db_world (pl_rebuilt P)) (r_world (pl_run P)) (r_world child) ((db_world d)\<lparr>worlds := ws\<rparr>) = Inr w"
    and rs: "ins r_id child (run_rows d) = Inr rs"
    and t: "copyToolResults (results (pl_rebuilt P)) (r_id (pl_parent P)) (r_id child) (results d) = Inr t"
    and t1: "(case pl_observation P of None \<Rightarrow> Inr t | Some (b, _) \<Rightarrow> overrideToolResult (r_id child) b t) = Inr t1"
    and d': "d' = d\<lparr>db_world := w, db_runs := (db_runs d)\<lparr>runs := rs, tool_results := t1\<rparr>\<rparr>"
    using assms by (auto simp: write_child_def)
  have "filter (\<lambda>r. tr_run r \<noteq> r_id child) t1 = filter (\<lambda>r. tr_run r \<noteq> r_id child) t"
    using t1 by (auto simp: overrideToolResult_def Let_def overridden_other split: option.splits if_splits)
  also have "\<dots> = filter (\<lambda>r. tr_run r \<noteq> r_id child) (results d)"
    using t by (auto simp: copyToolResults_def filter_map comp_def dest!: ins_all_ok)
  finally have "filter (\<lambda>r. tr_run r \<noteq> r_id child) t1 = filter (\<lambda>r. tr_run r \<noteq> r_id child) (results d)" .
  moreover have "worlds w = ws" unfolding copyWorldTables_record [OF w] by simp
  moreover have "outside (r_world child) w\<lparr>worlds := []\<rparr> = outside (r_world child) (db_world d)\<lparr>worlds := []\<rparr>"
    unfolding copyWorldTables_outside [OF w] by (simp add: outside_def)
  ultimately show ?thesis using ws rs d' by (auto simp: apart_def ins_Inr)
qed

lemma append_fork_ok:
  assumes "append_fork L m P childID d = Inr d'"
  shows "apart childID world d d' \<and> ledger_grows d d' \<and> db_world d' = db_world d \<and> run_rows d' = run_rows d \<and> results d' = results d"
proof (cases "pl_observation P")
  case None
  then show ?thesis using assms by (auto simp: append_fork_def AppendEventTx_apart AppendEventTx_grows AppendEventTx_frame)
next
  case (Some b)
  then obtain d1 u u' where d1: "AppendEventTx L childID ''execution.forked''
        (forked_payload (r_id (pl_parent P)) (pl_selected P) (mf_digest m)) d = Inr (u, d1)"
      "AppendEventTx L childID ''observation.overridden'' (snd b) d1 = Inr (u', d')"
    using assms by (cases b) (auto simp: append_fork_def)
  show ?thesis
    using apart_trans [OF AppendEventTx_apart AppendEventTx_apart, OF d1, of world]
      ledger_grows_trans [OF AppendEventTx_grows AppendEventTx_grows, OF d1]
      AppendEventTx_frame [OF d1(1)] AppendEventTx_frame [OF d1(2)] by simp
qed

lemma Create_Inr:
  assumes "Create L recorded R m opts selected worldBytes runBytes source (d, f) = (Inr child, (d', f'))"
  obtains P d1 d2 d3 where "plan_fork L recorded R m opts selected source = Inr P"
    "verifySourceInTransaction L recorded (pl_parent P) (pl_selected P) (pl_tip P) d = Inr ()"
    "child_row R m opts P worldBytes runBytes = Inr child" "write_child P child d = Inr d1"
    "child_chaos R m opts (pl_rebuilt P) (r_id (pl_parent P)) (r_id child) d1 = Inr d2"
    "child_auth R m opts (pl_rebuilt P) (r_id (pl_parent P)) (r_id child) d2 = Inr d3"
    "write_lineage m opts P (r_id child) f = Inr f'" "append_fork L m P (r_id child) d3 = Inr d'"
  using assms by (auto simp: Create_def fork_tx_def split: sum.splits prod.splits intro: that)

lemma plan_fork_Inr:
  assumes "plan_fork L recorded R m opts selected source = Inr P"
  shows "pl_selected P = selected \<and> cp_manifest selected = mf_digest m \<and> Run (cp_run selected) source = Inr (pl_parent P)
     \<and> (\<exists>run. Reconstruct L recorded (r_id (pl_parent P)) selected m source = Inr (pl_rebuilt P, run)
          \<and> pl_run P = run\<lparr>r_transcript := r_transcript (pl_run P)\<rparr>
          \<and> (fo_observation opts = None \<longrightarrow> pl_run P = run \<and> pl_observation P = None))
     \<and> sel w_id (r_world (pl_run P)) (worlds (db_world (pl_rebuilt P))) = Some (pl_world P)
     \<and> pl_tip P = length (Events (r_id (pl_parent P)) source)"
  using assms unfolding plan_fork_def Let_def
  by (auto split: if_splits option.splits)

lemma write_lineage_Inr:
  assumes "write_lineage m opts P childID f = Inr f'"
  shows "Lineage childID f' = Inr
       \<lparr>fl_child = childID, fl_parent = r_id (pl_parent P), fl_seq = cp_seq (pl_selected P), fl_checkpoint = cp_id (pl_selected P),
        fl_version = cp_version (pl_selected P), fl_manifest = cp_manifest (pl_selected P), fl_prefix = cp_prefix (pl_selected P),
        fl_provider = r_provider (pl_parent P), fl_model = r_model (pl_parent P),
        fl_chaos_replaced = (fo_chaos opts \<noteq> []), fl_auth_replaced = (fo_auth opts \<noteq> [])\<rparr>
     \<and> filter (\<lambda>l. fl_child l \<noteq> childID) (fork_lineage f') = fork_lineage f"
proof -
  let ?row = "\<lparr>fl_child = childID, fl_parent = r_id (pl_parent P), fl_seq = cp_seq (pl_selected P), fl_checkpoint = cp_id (pl_selected P),
        fl_version = cp_version (pl_selected P), fl_manifest = cp_manifest (pl_selected P), fl_prefix = cp_prefix (pl_selected P),
        fl_provider = r_provider (pl_parent P), fl_model = r_model (pl_parent P),
        fl_chaos_replaced = (fo_chaos opts \<noteq> []), fl_auth_replaced = (fo_auth opts \<noteq> [])\<rparr>"
  have row: "fork_lineage f' = fork_lineage f @ [?row]" "childID \<notin> set (map fl_child (fork_lineage f))"
    using assms by (auto simp: write_lineage_def Let_def ins_Inr)
  then have "sel fl_child childID (fork_lineage f) = None" by (simp add: sel_None_iff)
  then show ?thesis using row by (auto simp: Lineage_def sel_append filter_id_conv)
qed

text \<open>Every row belongs to a world that exists.\<close>

definition homed :: "world_tables \<Rightarrow> bool" where
  "homed w \<longleftrightarrow> (\<forall>(_, rows) \<in> set (all_rows w). \<forall>c \<in> set rows. fst c \<in> set (map w_id (worlds w)))"

lemma homed_new:
  assumes "homed w" and "x \<notin> set (map w_id (worlds w))" and "table \<in> set (map fst world_columns)"
  shows "rows_of w x table = Some []"
proof -
  have "map fst world_columns = map fst (all_rows w)" by (simp add: world_columns_def all_rows_def)
  then have "map_of (all_rows w) table \<noteq> None" using assms(3) by (simp add: map_of_eq_None_iff)
  then obtain rows where rows: "map_of (all_rows w) table = Some rows" by blast
  then have "(table, rows) \<in> set (all_rows w)" by (rule map_of_SomeD)
  then have "\<forall>c \<in> set rows. fst c \<noteq> x" using assms(1,2) by (fastforce simp: homed_def)
  then show ?thesis using rows by (simp add: rows_of_def filter_empty_conv)
qed

lemma rows_of_worlds [simp]: "rows_of (w\<lparr>worlds := ws\<rparr>) x table = rows_of w x table"
  by (simp add: rows_of_def all_rows_def)

lemma write_child_rows:
  assumes "write_child P child d = Inr d'" and "homed (db_world d)" and "table \<in> set (map fst world_columns)"
  shows "rows_of (db_world d') (r_world child) table = rows_of (db_world (pl_rebuilt P)) (r_world (pl_run P)) table"
proof -
  obtain ws where w: "copyWorldTables (db_world (pl_rebuilt P)) (r_world (pl_run P)) (r_world child) ((db_world d)\<lparr>worlds := ws\<rparr>)
      = Inr (db_world d')" using assms(1) by (auto simp: write_child_def)
  have "rows_of (db_world d) (r_world child) table = Some []"
    using write_child_ok [OF assms(1)] homed_new [OF assms(2) _ assms(3)] by simp
  then show ?thesis using copied_rows [OF w assms(3), of "r_world child"] 
    by (cases "rows_of (db_world (pl_rebuilt P)) (r_world (pl_run P)) table") simp_all
qed

lemma verifySource_prefix:
  assumes "verifySourceInTransaction L recorded parent selected tip d = Inr ()"
  shows "PrefixDigest L recorded (r_id parent) (cp_manifest selected)
      (filter (\<lambda>e. e_seq e \<le> cp_seq selected) (Events (r_id parent) d)) = Inr (cp_prefix selected)"
  using assms by (auto simp: verifySourceInTransaction_def Let_def split: option.splits if_splits)

lemma Create_writes:
  assumes "Create L recorded R m opts selected worldBytes runBytes source (d, f) = (Inr child, (d', f'))"
  shows "r_id child \<notin> set (map r_id (run_rows d)) \<and> r_world child \<notin> set (map w_id (worlds (db_world d)))
     \<and> run_rows d' = run_rows d @ [child] \<and> apart (r_id child) (r_world child) d d' \<and> ledger_grows d d'"
proof -
  obtain P d1 d2 d3 where P: "write_child P child d = Inr d1"
      "child_chaos R m opts (pl_rebuilt P) (r_id (pl_parent P)) (r_id child) d1 = Inr d2"
      "child_auth R m opts (pl_rebuilt P) (r_id (pl_parent P)) (r_id child) d2 = Inr d3"
      "append_fork L m P (r_id child) d3 = Inr d'"
    using assms by (rule Create_Inr)
  note c = write_child_ok [OF P(1)] child_chaos_apart [OF P(2), of "r_world child"]
    child_auth_apart [OF P(3), of "r_world child"] append_fork_ok [OF P(4), of "r_world child"]
  have "apart (r_id child) (r_world child) d d'" using c by (blast intro: apart_trans)
  moreover have "ledger_grows d d3" using c by (intro ledger_grows_same) simp
  then have "ledger_grows d d'" using c by (blast intro: ledger_grows_trans)
  ultimately show ?thesis using c by simp
qed

text \<open>
  C15. A successful fork adds one run and one world, both with identifiers nothing used before,
  appends to the ledger keeping its numbering, and changes no row of another run, of another
  run's policies or saved results, of another world or of the coordination tables. The child's
  lineage names the checkpoint it was forked from, and no other lineage changes.
\<close>

theorem fork_isolated:
  assumes "Create L recorded R m opts selected worldBytes runBytes source (d, f) = (Inr child, (d', f'))"
  shows "r_id child \<notin> set (map r_id (run_rows d)) \<and> r_world child \<notin> set (map w_id (worlds (db_world d)))
     \<and> run_rows d' = run_rows d @ [child] \<and> apart (r_id child) (r_world child) d d' \<and> ledger_grows d d'
     \<and> (\<exists>l. Lineage (r_id child) f' = Inr l \<and> fl_parent l = cp_run selected \<and> fl_seq l = cp_seq selected
          \<and> fl_checkpoint l = cp_id selected \<and> fl_prefix l = cp_prefix selected)
     \<and> filter (\<lambda>l. fl_child l \<noteq> r_id child) (fork_lineage f') = fork_lineage f"
proof -
  obtain P where P: "plan_fork L recorded R m opts selected source = Inr P"
      "write_lineage m opts P (r_id child) f = Inr f'"
    using assms by (rule Create_Inr)
  have "r_id (pl_parent P) = cp_run selected" using plan_fork_Inr [OF P(1)] Run_id by blast
  then show ?thesis
    using Create_writes [OF assms] write_lineage_Inr [OF P(2)] plan_fork_Inr [OF P(1)] by auto
qed

text \<open>
  C16. A fork starts where its checkpoint was: at the time it is written the parent's ledger still
  has the checkpoint's prefix, and the child's step, its transcript (unless an observation was
  overridden) and every table of its world are those of the rebuilt checkpoint.
\<close>

theorem fork_starts_at_checkpoint:
  assumes "Create L recorded R m opts selected worldBytes runBytes source (d, f) = (Inr child, (d', f'))"
    and "homed (db_world d)"
  shows "PrefixDigest L recorded (cp_run selected) (mf_digest m)
        (filter (\<lambda>e. e_seq e \<le> cp_seq selected) (Events (cp_run selected) d)) = Inr (cp_prefix selected)
     \<and> (\<exists>rebuilt run. Reconstruct L recorded (cp_run selected) selected m source = Inr (rebuilt, run)
        \<and> r_step child = r_step run \<and> (fo_observation opts = None \<longrightarrow> r_transcript child = r_transcript run)
        \<and> (\<forall>table \<in> set (map fst world_columns).
             rows_of (db_world d') (r_world child) table = rows_of (db_world rebuilt) (r_world run) table))"
proof -
  obtain P d1 d2 d3 where P: "plan_fork L recorded R m opts selected source = Inr P"
      "verifySourceInTransaction L recorded (pl_parent P) (pl_selected P) (pl_tip P) d = Inr ()"
      "child_row R m opts P worldBytes runBytes = Inr child" "write_child P child d = Inr d1"
      "child_chaos R m opts (pl_rebuilt P) (r_id (pl_parent P)) (r_id child) d1 = Inr d2"
      "child_auth R m opts (pl_rebuilt P) (r_id (pl_parent P)) (r_id child) d2 = Inr d3"
      "append_fork L m P (r_id child) d3 = Inr d'"
    using assms(1) by (rule Create_Inr)
  note plan = plan_fork_Inr [OF P(1)]
  have parent: "r_id (pl_parent P) = cp_run selected" using plan Run_id by blast
  obtain run where run: "Reconstruct L recorded (cp_run selected) selected m source = Inr (pl_rebuilt P, run)"
      "pl_run P = run\<lparr>r_transcript := r_transcript (pl_run P)\<rparr>"
      "fo_observation opts = None \<longrightarrow> pl_run P = run" using plan parent by auto
  have same: "r_world (pl_run P) = r_world run" "r_step (pl_run P) = r_step run" by (subst run(2), simp)+
  have child: "r_step child = r_step (pl_run P)" "r_transcript child = r_transcript (pl_run P)"
    using P(3) by (auto simp: child_row_def Let_def)
  have world: "db_world d' = db_world d1"
    using child_chaos_apart [OF P(5)] child_auth_apart [OF P(6)] append_fork_ok [OF P(7)] by simp
  show ?thesis
    using verifySource_prefix [OF P(2)] plan parent run child same write_child_rows [OF P(4) assms(2)] world by auto
qed

section \<open>A fork of the recorded run\<close>

definition fk_readers :: readers where
  "fk_readers = \<lparr>rd_chaos = \<lambda>_ _. Inl (Err ''policy''), rd_auth = \<lambda>_ _. Inl (Err ''policy''),
     rd_chaos_stored = \<lambda>_ _ _. Inl (Err ''policy''), rd_auth_stored = \<lambda>_ _ _. Inl (Err ''policy'')\<rparr>"

definition fk_options :: fork_options where
  "fk_options = \<lparr>fo_provider = [], fo_model = [], fo_fault = None, fo_chaos = [], fo_auth = [], fo_observation = None\<rparr>"

definition fk_tables :: fork_tables where
  "fk_tables = \<lparr>checkpoints = [], fork_lineage = [], fork_observations = []\<rparr>"

lemma fk_copy: "cp_world x = Inr v \<Longrightarrow> \<exists>w. copyWorldTables v x y (empty_world\<lparr>worlds := ws\<rparr>) = Inr w"
  by (auto simp: cp_world_defs copyWorldTables_def copy_defs copy_rows_def ins_all_def)

lemma fk_world: "cp_world x = Inr v \<Longrightarrow> \<exists>w. sel w_id x (worlds v) = Some w"
  by (auto simp: cp_world_defs)

lemma fk_ledger: "ledger_inv cp_db"
proof -
  have "filter (\<lambda>e. e_run e = x) cp_ledger = (if x = ''R'' then cp_ledger else [])" for x
    by (auto simp: cp_ledger_def cp_event_def)
  then have "contiguous e_run e_seq x cp_ledger" for x
    by (simp add: contiguous_def) (simp add: cp_ledger_def cp_event_def numeral_eq_Suc)
  then show ?thesis by (simp add: ledger_inv_def cp_db_def) (simp add: cp_ledger_def cp_event_def)
qed

lemma fk_create:
  "\<exists>p child s. Create sample_full (\<lambda>_. []) fk_readers ckpt_manifest fk_options p [1] [2] cp_db (cp_db, fk_tables) = (Inr child, s)
     \<and> cp_run p = ''R'' \<and> cp_seq p = 4 \<and> results (fst s) = []"
proof -
  obtain ps p d r where ps: "List sample_full (\<lambda>_. []) ''R'' ckpt_manifest cp_db = Inr ps" "p \<in> set ps" "cp_seq p = 4"
    and rec: "Reconstruct sample_full (\<lambda>_. []) ''R'' p ckpt_manifest cp_db = Inr (d, r)"
    and d: "cp_world (r_world r) = Inr (db_world d)" "db_policy d = empty_policy" "results d = []"
    using cp_reconstructs by blast
  have "checkpoint_of sample_full (\<lambda>_. []) ''R'' (mf_digest ckpt_manifest) (Events ''R'' cp_db) p"
    using List_exact [OF ps(1)] ps(2) by (simp add: list_all_iff)
  then have p: "cp_version p = FormatVersion" "cp_run p = ''R''" "cp_manifest p = mf_digest ckpt_manifest"
      "PrefixDigest sample_full (\<lambda>_. []) ''R'' (mf_digest ckpt_manifest) cp_ledger = Inr (cp_prefix p)"
    using ps(3) by (simp_all add: checkpoint_of_def Let_def cp_reads) (simp add: cp_ledger_def)
  obtain w where w: "sel w_id (r_world r) (worlds (db_world d)) = Some w"
    using fk_world [OF d(1)] by blast
  define P where "P = \<lparr>pl_parent = cp_run0, pl_selected = p, pl_tip = 4, pl_rebuilt = d, pl_run = r, pl_world = w, pl_observation = None\<rparr>"
  have R: "r_id cp_run0 = ''R''" "r_world cp_run0 = ''W1''" "r_status cp_run0 = ''completed''" "length cp_ledger = 4"
      "filter (\<lambda>e. e_seq e \<le> 4) cp_ledger = cp_ledger" "r_provider cp_run0 = ''p''" "r_model cp_run0 = ''m''"
    by (simp_all add: cp_run0_def cp_ledger_def cp_event_def)
  have plan: "plan_fork sample_full (\<lambda>_. []) fk_readers ckpt_manifest fk_options p cp_db = Inr P"
    using p rec w R by (simp add: plan_fork_def cp_reads ValidateOptions_def fk_options_def chosen_def P_def Let_def)
  have sel_run: "sel r_id ''R'' (run_rows cp_db) = Some cp_run0" by (simp add: cp_db_def cp_run0_def)
  have verify: "verifySourceInTransaction sample_full (\<lambda>_. []) cp_run0 p 4 cp_db = Inr ()"
    using p R ps(3) sel_run by (simp add: verifySourceInTransaction_def Let_def cp_reads)
  have hex: "hex_encode [1] = ''01''" "hex_encode [2] = ''02''" by code_simp+
  obtain child where child: "child_row fk_readers ckpt_manifest fk_options P [1] [2] = Inr child"
      "r_id child = ''R-02''" "r_world child = ''W-F-01''"
    by (simp add: child_row_def fk_options_def P_def Let_def hex del: One_nat_def)
  let ?ws = "[\<lparr>w_id = ''W1'', w_seed = 1, w_digest = mf_digest ckpt_manifest, w_base_at = ''2026''\<rparr>, w\<lparr>w_id := ''W-F-01''\<rparr>]"
  obtain v where v: "copyWorldTables (db_world d) (r_world r) ''W-F-01'' (empty_world\<lparr>worlds := ?ws\<rparr>) = Inr v"
    using fk_copy [OF d(1)] by blast
  have vw: "worlds v = ?ws" unfolding copyWorldTables_record [OF v] by simp
  define d1 where "d1 = cp_db\<lparr>db_world := v, db_runs := (db_runs cp_db)\<lparr>runs := [cp_run0, child], tool_results := []\<rparr>\<rparr>"
  have written: "write_child P child cp_db = Inr d1"
    using v child d(3) R by (simp add: write_child_def P_def cp_db_def ins_def copyToolResults_def ins_all_def d1_def fresh_db_def order_by_def)
  have "ledger_inv d1" using fk_ledger by (simp add: ledger_inv_def d1_def)
  moreover have "appendable sample_full ''R-02'' d1"
    using child vw by (simp add: appendable_def d1_def cp_run0_def sample_times)
  ultimately obtain d2 where d2: "AppendEventTx sample_full ''R-02'' ''execution.forked''
      (forked_payload ''R'' p (mf_digest ckpt_manifest)) d1 = Inr ((), d2)" using AppendEventTx_succeeds by blast
  have policy: "child_chaos fk_readers ckpt_manifest fk_options d ''R'' ''R-02'' d1 = Inr d1"
      "child_auth fk_readers ckpt_manifest fk_options d ''R'' ''R-02'' d1 = Inr d1"
    using d(2) by (simp_all add: child_chaos_def child_auth_def fk_options_def chaos_CopyRun_def auth_CopyRun_def empty_policy_def
        ins_all_def d1_def map_policy_def)
  obtain f where f: "write_lineage ckpt_manifest fk_options P ''R-02'' fk_tables = Inr f"
    by (simp add: write_lineage_def P_def fk_tables_def ins_def Let_def)
  have "fork_tx sample_full (\<lambda>_. []) fk_readers ckpt_manifest fk_options P [1] [2] (cp_db, fk_tables) = Inr (child, d2, f)"
    using verify child written policy f d2 R by (simp add: fork_tx_def P_def append_fork_def)
  moreover have "results d2 = []" using AppendEventTx_frame [OF d2] by (simp add: d1_def)
  ultimately show ?thesis
    using plan p ps(3) by (intro exI [of _ p] exI [of _ child] exI [of _ "(d2, f)"]) (simp add: Create_def)
qed

theorem fork_isolated_witness:
  "\<exists>p child d' f'. Create sample_full (\<lambda>_. []) fk_readers ckpt_manifest fk_options p [1] [2] cp_db (cp_db, fk_tables) = (Inr child, (d', f'))
     \<and> run_rows d' = [cp_run0, child] \<and> apart (r_id child) (r_world child) cp_db d'"
proof -
  obtain p child d' f' where c: "Create sample_full (\<lambda>_. []) fk_readers ckpt_manifest fk_options p [1] [2] cp_db (cp_db, fk_tables)
      = (Inr child, (d', f'))" using fk_create by auto
  then show ?thesis using fork_isolated [OF c] by (intro exI [of _ p] exI [of _ child] exI [of _ d'] exI [of _ f']) (simp add: cp_db_def)
qed

theorem fork_starts_at_checkpoint_witness:
  "\<exists>p child d' f' rebuilt run. Create sample_full (\<lambda>_. []) fk_readers ckpt_manifest fk_options p [1] [2] cp_db (cp_db, fk_tables)
       = (Inr child, (d', f'))
     \<and> Reconstruct sample_full (\<lambda>_. []) ''R'' p ckpt_manifest cp_db = Inr (rebuilt, run)
     \<and> rows_of (db_world d') (r_world child) ''charges'' = rows_of (db_world rebuilt) (r_world run) ''charges''"
proof -
  obtain p child d' f' where c: "Create sample_full (\<lambda>_. []) fk_readers ckpt_manifest fk_options p [1] [2] cp_db (cp_db, fk_tables)
      = (Inr child, (d', f'))" and p: "cp_run p = ''R''" using fk_create by auto
  have "homed (db_world cp_db)" by (simp add: homed_def all_rows_def cp_db_def empty_world_def)
  from fork_starts_at_checkpoint [OF c this] obtain rebuilt run where
    "Reconstruct sample_full (\<lambda>_. []) ''R'' p ckpt_manifest cp_db = Inr (rebuilt, run)"
    "rows_of (db_world d') (r_world child) ''charges'' = rows_of (db_world rebuilt) (r_world run) ''charges''"
    by (auto simp: p world_columns_def)
  with c show ?thesis by blast
qed

end
