(* ===== verification/Replay.thy ===== *)
theory Replay
  imports Fork Execution
begin

text \<open>
  Replay (\<open>internal/replay\<close>): a completed run is executed again from its seed, or from the
  checkpoint it was forked at, with its recorded model responses, and everything it left is
  compared with what was recorded. A source opened read-only may be older than the authorization
  tables: \<open>authTable\<close> says whether it has them (a source without them has no rows there).
\<close>

section \<open>Recorded responses\<close>

record replay_report =
  vr_run :: string
  vr_verified :: bool
  vr_turns :: nat
  vr_calls :: nat
  vr_events :: nat
  vr_divergence :: string

definition diverged :: "replay_report \<Rightarrow> string \<Rightarrow> replay_report" where
  "diverged report reason = report\<lparr>vr_divergence := reason\<rparr>"

definition no_message :: message where
  "no_message = \<lparr>m_role = [], m_content = JStr [], m_tool_calls = [], m_call_id = [], m_operation = [],
     m_status = 0, m_meta = [], m_interruptions = []\<rparr>"

text \<open>\<open>Next\<close> of the recorded provider, whose counter stands at \<open>turn\<close>.\<close>

definition recorded_next :: "message list \<Rightarrow> nat \<Rightarrow> message \<times> failure option" where
  "recorded_next messages turn =
     (if turn \<ge> length messages then (no_message, Some (Failed (Err ''recorded model responses exhausted'')))
      else (messages ! turn, None))"

definition recorded_env :: "message list \<Rightarrow> nat \<Rightarrow> env" where
  "recorded_env messages turn =
     \<lparr>en_provider = \<lambda>_ _ _ _ _. recorded_next messages turn, en_sleep = \<lambda>_ _ _. None, en_clock = \<lambda>_ _. 0,
      en_crash = \<lambda>_. None\<rparr>"

text \<open>
  \<open>Execute\<close> with the recorded provider: a pass that takes a model turn calls the provider once,
  so the provider's counter is the number of turns taken, which the loop counts as \<open>used\<close>.
\<close>

fun replay_loop ::
    "'x lib_scheme \<Rightarrow> runner \<Rightarrow> message list \<Rightarrow> string \<Rightarrow> nat \<Rightarrow> nat \<Rightarrow> nat \<Rightarrow> nat \<Rightarrow> db \<Rightarrow> (run_row res \<times> nat \<times> db) option" where
  "replay_loop L R messages runID maxSteps 0 n used d = None"
| "replay_loop L R messages runID maxSteps (Suc fuel) n used d =
     (case execute_pass L R (recorded_env messages used) runID maxSteps n used d of
        Stop r d' \<Rightarrow> Some (r, used, d')
      | Again used' d' \<Rightarrow> replay_loop L R messages runID maxSteps fuel (Suc n) used' d')"

definition replayable_types :: "string list" where
  "replayable_types = [''execution.paused'', ''tool.request'', ''tool.response'', ''state.mutation'', ''retry'',
     ''chaos.injected'', ''chaos.actor_mutation'', ''authorization.allowed'', ''authorization.denied'', ''provider.interrupted'']"

text \<open>A value decoded into \<open>map[string]any\<close>, and its entry under a key.\<close>

definition any_entry :: "string \<Rightarrow> json \<Rightarrow> json option res" where
  "any_entry k j = (case j of JNull \<Rightarrow> Inr None | JObj kvs \<Rightarrow> Inr (map_of kvs k)
     | _ \<Rightarrow> Inl (Err ''json: cannot unmarshal into map''))"

text \<open>One event of the loop: the request it counts and the response it adds.\<close>

definition recorded_event :: "run_row \<Rightarrow> bool \<Rightarrow> nat \<Rightarrow> nat \<Rightarrow> event_row \<Rightarrow> (nat \<times> message list) res" where
  "recorded_event run forked tip i e =
     (let t = e_type e in
      if \<not> in_place (r_id run) i e then Inl (Err ''ledger sequence or ID differs'')
      else if t = ''execution.forked'' then
        (if \<not> forked \<or> i \<noteq> 0 then Inl (Err ''unexpected fork event'') else Inr (0, []))
      else if t = ''observation.overridden'' then
        (if \<not> forked \<or> i \<noteq> 1 then Inl (Err ''unexpected observation override'') else Inr (0, []))
      else if t = ''execution.started'' then
        (if forked \<or> i \<noteq> 0 then Inl (Err ''unexpected start event'')
         else bindR (string_map (e_payload e)) (\<lambda>started.
              if start_matches run started then Inr (0, []) else Inl (Err ''execution start metadata differs from run'')))
      else if t = ''execution.completed'' then
        (if i \<noteq> tip - 1 then Inl (Err ''completion event is not last'') else Inr (0, []))
      else if t \<in> set replayable_types then Inr (0, [])
      else if t = ''model.request'' then Inr (1, [])
      else if t = ''model.response'' then
        bindR (decode_message (e_payload e)) (\<lambda>message.
        if m_role message \<noteq> ''assistant'' then Inl (Err ''model response is not a completed assistant turn'')
        else Inr (0, [message]))
      else if t = ''error'' then
        bindR (any_entry ''kind'' (e_payload e)) (\<lambda>kind.
        if kind \<noteq> Some (JStr ''injected_503'') then Inl (Err ''run contains unsupported error'') else Inr (0, []))
      else Inl (Err ''unknown event type''))"

fun recorded_events :: "run_row \<Rightarrow> bool \<Rightarrow> nat \<Rightarrow> nat \<Rightarrow> event_row list \<Rightarrow> (nat \<times> message list) res" where
  "recorded_events run forked tip i [] = Inr (0, [])"
| "recorded_events run forked tip i (e # es) =
     bindR (recorded_event run forked tip i e) (\<lambda>(q, ms).
     bindR (recorded_events run forked tip (Suc i) es) (\<lambda>(q', ms'). Inr (q + q', ms @ ms')))"

definition recordedMessages :: "run_row \<Rightarrow> event_row list \<Rightarrow> bool \<Rightarrow> message list res" where
  "recordedMessages run evs forked =
     (let startType = (if forked then ''execution.forked'' else ''execution.started'') in
      if evs = [] \<or> e_type (hd evs) \<noteq> startType \<or> e_type (last evs) \<noteq> ''execution.completed''
      then Inl (Err ''run ledger is missing start or completion'')
      else bindR (recorded_events run forked (length evs) 0 evs) (\<lambda>(requests, messages).
        if requests \<noteq> length messages \<or> (\<not> forked \<and> messages = []) then Inl (Err ''run has incomplete model history'')
        else Inr messages))"

section \<open>Comparisons\<close>

definition semantic :: "string \<Rightarrow> bool" where
  "semantic t \<longleftrightarrow> t \<in> set [''model.request'', ''model.response'', ''tool.request'', ''tool.response'', ''state.mutation'', ''error'',
     ''retry'', ''chaos.injected'', ''chaos.actor_mutation'', ''authorization.allowed'', ''authorization.denied'',
     ''observation.overridden'', ''provider.interrupted'']"

definition countSemantic :: "event_row list \<Rightarrow> nat" where
  "countSemantic evs = length (filter (\<lambda>e. semantic (e_type e)) evs)"

text \<open>A payload is JSON, so two of them are compared by their decoded values. The empty text is agreement.\<close>

definition sameJSON :: "json \<Rightarrow> json \<Rightarrow> bool" where
  "sameJSON a b \<longleftrightarrow> norm_val (unmarshal_number a) = norm_val (unmarshal_number b)"

fun compare_pairs :: "('a \<times> 'a \<Rightarrow> bool) \<Rightarrow> ('a \<Rightarrow> string) \<Rightarrow> ('a \<times> 'a) list \<Rightarrow> string" where
  "compare_pairs same name [] = []"
| "compare_pairs same name ((l, r) # ps) = (if same (l, r) then compare_pairs same name ps else name l)"

definition compareEvents :: "event_row list \<Rightarrow> event_row list \<Rightarrow> string" where
  "compareEvents left right =
     (let a = filter (\<lambda>e. semantic (e_type e)) left; b = filter (\<lambda>e. semantic (e_type e)) right in
      if length a \<noteq> length b
      then ''semantic event count differs: recorded '' @ show_nat (length a) @ '', replayed '' @ show_nat (length b)
      else compare_pairs (\<lambda>(l, r). e_type l = e_type r \<and> sameJSON (e_payload l) (e_payload r))
             (\<lambda>l. ''event '' @ show_nat (e_seq l) @ '' ('' @ e_type l @ '') differs'') (zip a b))"

definition toolResults :: "string \<Rightarrow> db \<Rightarrow> tool_result_row list" where
  "toolResults runID d = order_by (\<lambda>r. [tr_call r]) (filter (\<lambda>r. tr_run r = runID) (results d))"

definition compareResults :: "tool_result_row list \<Rightarrow> tool_result_row list \<Rightarrow> string" where
  "compareResults left right =
     (if length left \<noteq> length right
      then ''tool result count differs: recorded '' @ show_nat (length left) @ '', replayed '' @ show_nat (length right)
      else compare_pairs (\<lambda>(l, r). tr_call l = tr_call r \<and> tr_operation l = tr_operation r \<and> tr_status l = tr_status r
               \<and> sameJSON (tr_arguments l) (tr_arguments r) \<and> sameJSON (tr_body l) (tr_body r))
             (\<lambda>l. ''tool result for call '' @ tr_call l @ '' differs'') (zip left right))"

text \<open>
  \<open>stateRows\<close>: the rows of a table as text, in the order of its key. The key of a world table is
  its first column, for the members of a channel the first two.
\<close>

definition stateRows :: "world_tables \<Rightarrow> string \<Rightarrow> string \<Rightarrow> string list list" where
  "stateRows w worldID table =
     (let keys = (if table = ''message_members'' then 2 else 1) in
      order_by (take keys) (case rows_of w worldID table of None \<Rightarrow> [] | Some rows \<Rightarrow> map (map cell_text) rows))"

definition policy_rows :: "'x golib_scheme \<Rightarrow> policy_tables \<Rightarrow> string \<Rightarrow> (string \<times> string list list) list" where
  "policy_rows L p x =
     [(''run_chaos'', map (\<lambda>r. [rp_json r, rp_digest r]) (filter (\<lambda>r. rp_run r = x) (run_chaos p))),
      (''chaos_rule_state'', order_by (take 1) (map (\<lambda>r. [cs_rule r, show_nat (cs_calls r), show_int (cs_injections r)])
         (filter (\<lambda>r. cs_run r = x) (chaos_rule_state p)))),
      (''chaos_snapshots'', order_by (take 2) (map (\<lambda>r. [sn_rule r, sn_arguments_digest r, show_int (sn_status r), print_json L (sn_body r)])
         (filter (\<lambda>r. sn_run r = x) (chaos_snapshots p)))),
      (''chaos_hidden_outcomes'', order_by (take 1) (map (\<lambda>r. [hd_call r, hd_rule r, show_int (hd_status r), print_json L (hd_body r)])
         (filter (\<lambda>r. hd_run r = x) (chaos_hidden_outcomes p)))),
      (''run_auth'', map (\<lambda>r. [rp_json r, rp_digest r]) (filter (\<lambda>r. rp_run r = x) (run_auth p))),
      (''auth_state'', map (\<lambda>r. [show_nat (as_call r)]) (filter (\<lambda>r. as_run r = x) (auth_state p)))]"

definition compareChaosState :: "'x golib_scheme \<Rightarrow> db \<Rightarrow> db \<Rightarrow> string \<Rightarrow> string" where
  "compareChaosState L source target runID =
     (case find (\<lambda>(l, r). snd l \<noteq> snd r) (zip (policy_rows L (db_policy source) runID) (policy_rows L (db_policy target) runID)) of
        None \<Rightarrow> [] | Some (l, _) \<Rightarrow> fst l @ '' state differs'')"

definition verified_tables :: "string \<Rightarrow> string list" where
  "verified_tables scenario =
     (if scenario \<noteq> ''duplicate-charge'' \<and> scenario \<noteq> ''ambiguous-commit'' then map fst world_columns
      else [''customers'', ''invoices'', ''charges'', ''refunds''])"

definition compareState :: "run_row \<Rightarrow> string \<Rightarrow> db \<Rightarrow> db \<Rightarrow> string" where
  "compareState original worldID source target =
     (case find (\<lambda>table. stateRows (db_world source) (r_world original) table \<noteq> stateRows (db_world target) worldID table)
             (verified_tables (r_scenario original)) of
        None \<Rightarrow> [] | Some table \<Rightarrow> table @ '' state differs'')"

section \<open>Verifying a run\<close>

text \<open>What the checks before the execution find: an error, a divergence, or what is to be executed.\<close>

record replay_plan =
  vp_original :: run_row
  vp_world :: world_row
  vp_lineage :: "fork_lineage_row option"
  vp_messages :: "message list"

definition check_principal :: "readers \<Rightarrow> bool \<Rightarrow> run_row \<Rightarrow> manifest \<Rightarrow> db \<Rightarrow> string option" where
  "check_principal R authTable original m source =
     (case AuthPolicy (r_id original) source of
        Inr (policy, digest) \<Rightarrow>
          (case rd_auth_stored R policy digest m of
             Inl e \<Rightarrow> Some (err_text e)
           | Inr who \<Rightarrow> if who \<noteq> r_principal original then Some ''run principal differs from its authorization policy'' else None)
      | Inl _ \<Rightarrow>
          if r_principal original = UnrestrictedPrincipal \<or> (\<not> authTable \<and> r_principal original = LegacyPrincipal) then None
          else Some ''run principal has no authorization policy'')"

definition find_lineage :: "string \<Rightarrow> fork_tables \<Rightarrow> fork_lineage_row option" where
  "find_lineage runID f = (case Lineage runID f of Inl _ \<Rightarrow> None | Inr l \<Rightarrow> Some l)"

definition plan_replay ::
    "'x lib_scheme \<Rightarrow> readers \<Rightarrow> bool \<Rightarrow> string \<Rightarrow> manifest \<Rightarrow> fork_state \<Rightarrow> (string + replay_plan) res" where
  "plan_replay L R authTable runID m = (\<lambda>(source, f).
     bindR (ValidateManifest L m) (\<lambda>_.
     bindR (Run runID source) (\<lambda>original.
     if r_status original \<noteq> ''completed'' then Inl (Err ''replay requires a completed run'')
     else if r_scenario original \<notin> set scenarios then Inl (Err ''unsupported scenario'')
     else case sel w_id (r_world original) (worlds (db_world source)) of
       None \<Rightarrow> Inl ErrNoRows
     | Some w \<Rightarrow>
         if w_digest w \<noteq> mf_digest m then Inl (Err ''manifest mismatch for run'')
         else (case check_principal R authTable original m source of
             Some reason \<Rightarrow> Inr (Inl reason)
           | None \<Rightarrow>
               bindR (recordedMessages original (Events runID source) (find_lineage runID f \<noteq> None)) (\<lambda>messages.
               Inr (Inr \<lparr>vp_original = original, vp_world = w, vp_lineage = find_lineage runID f, vp_messages = messages\<rparr>))))))"

text \<open>The database the run is executed in, and the world the run has there.\<close>

definition replay_target ::
    "'x lib_scheme \<Rightarrow> (string \<Rightarrow> string) \<Rightarrow> readers \<Rightarrow> manifest \<Rightarrow> replay_plan \<Rightarrow> fork_state \<Rightarrow> (string \<times> db) res" where
  "replay_target L recorded R m V s =
     (case vp_lineage V of
        Some l \<Rightarrow> bindR (ReconstructForReplay L recorded R m (vp_original V) l s) (\<lambda>d. Inr (r_world (vp_original V), d))
      | None \<Rightarrow>
          bindR (replay_start L (vp_original V) (vp_world V) (fst s)) (\<lambda>d.
          bindR (Run (r_id (vp_original V)) d) (\<lambda>run. Inr (r_world run, d))))"

definition replay_runner :: "'x lib_scheme \<Rightarrow> manifest \<Rightarrow> runner" where
  "replay_runner L m = \<lparr>rn_dispatch = replay_dispatcher L m, rn_manifest = m, rn_fence = None\<rparr>"

text \<open>
  The execution and the turns it took, counted by the recorded provider or, with a provider
  given, by the run. A given provider keeps its answers; the waits and the crash hook are off.
\<close>

definition replay_execute ::
    "'x lib_scheme \<Rightarrow> manifest \<Rightarrow> env option \<Rightarrow> message list \<Rightarrow> string \<Rightarrow> nat \<Rightarrow> db \<Rightarrow> (run_row res \<times> nat \<times> db) option" where
  "replay_execute L m provider messages runID fuel d =
     (case provider of
        None \<Rightarrow> replay_loop L (replay_runner L m) messages runID (length messages + 1) fuel 0 0 d
      | Some E \<Rightarrow>
          map_option (\<lambda>(r, d'). (r, (case r of Inl _ \<Rightarrow> 0 | Inr run \<Rightarrow> r_step run), d'))
            (Execute L (replay_runner L m) (Some (E\<lparr>en_sleep := \<lambda>_ _ _. None, en_crash := \<lambda>_. None\<rparr>)) runID
               (int (length messages) + 1) fuel d))"

definition fork_origin_same :: "event_row list \<Rightarrow> event_row list \<Rightarrow> bool" where
  "fork_origin_same left right \<longleftrightarrow>
     left \<noteq> [] \<and> right \<noteq> [] \<and> e_type (hd left) = ''execution.forked'' \<and> e_world_at (hd left) = e_world_at (hd right)
   \<and> sameJSON (e_payload (hd left)) (e_payload (hd right))"

text \<open>The comparisons after the execution; the first difference ends them.\<close>

definition compare_replay ::
    "'x golib_scheme \<Rightarrow> replay_plan \<Rightarrow> string \<Rightarrow> db \<Rightarrow> run_row \<Rightarrow> nat \<Rightarrow> db \<Rightarrow> replay_report \<Rightarrow> replay_report" where
  "compare_replay L V worldID source replayed taken target report =
     (let original = vp_original V; runID = r_id original; left = Events runID source; right = Events runID target;
          events_differ = compareEvents left right;
          results_differ = compareResults (toolResults runID source) (toolResults runID target);
          report1 = report\<lparr>vr_events := countSemantic left, vr_calls := length (toolResults runID source)\<rparr>;
          chaos_differ = compareChaosState L source target runID;
          state_differ = compareState original worldID source target in
      if r_status replayed \<noteq> ''completed'' \<or> taken \<noteq> length (vp_messages V)
      then diverged report (''replayed run ended '' @ r_status replayed @ '' after '' @ show_nat taken @ '' of ''
             @ show_nat (length (vp_messages V)) @ '' model turns'')
      else if vp_lineage V \<noteq> None \<and> \<not> fork_origin_same left right then diverged report ''fork origin event differs from lineage''
      else if events_differ \<noteq> [] then diverged report events_differ
      else if results_differ \<noteq> [] then diverged report1 results_differ
      else if chaos_differ \<noteq> [] then diverged report1 chaos_differ
      else if \<not> sameJSON (JArr (map (message_json L) (r_transcript original))) (JArr (map (message_json L) (r_transcript replayed)))
      then diverged report1 ''final transcript differs''
      else if state_differ \<noteq> [] then diverged report1 state_differ
      else report1\<lparr>vr_verified := True\<rparr>)"

definition start_report :: "string \<Rightarrow> replay_report" where
  "start_report runID = \<lparr>vr_run = runID, vr_verified = False, vr_turns = 0, vr_calls = 0, vr_events = 0, vr_divergence = []\<rparr>"

text \<open>\<open>None\<close> is an execution that has not ended with the fuel given.\<close>

definition VerifyWith ::
    "'x lib_scheme \<Rightarrow> (string \<Rightarrow> string) \<Rightarrow> readers \<Rightarrow> bool \<Rightarrow> string \<Rightarrow> manifest \<Rightarrow> env option \<Rightarrow> nat \<Rightarrow> fork_state
       \<Rightarrow> replay_report res option" where
  "VerifyWith L recorded R authTable runID m provider fuel s =
     (case plan_replay L R authTable runID m s of
        Inl e \<Rightarrow> Some (Inl e)
      | Inr (Inl reason) \<Rightarrow> Some (Inr (diverged (start_report runID) reason))
      | Inr (Inr V) \<Rightarrow>
          let report = (start_report runID)\<lparr>vr_turns := length (vp_messages V)\<rparr> in
          (case replay_target L recorded R m V s of
             Inl e \<Rightarrow> Some (Inl e)
           | Inr (worldID, start) \<Rightarrow>
               (case replay_execute L m provider (vp_messages V) runID fuel start of
                  None \<Rightarrow> None
                | Some (Inl e, _) \<Rightarrow> Some (Inr (diverged report (''replayed execution: '' @ err_text e)))
                | Some (Inr replayed, taken, target) \<Rightarrow>
                    Some (Inr (compare_replay L V worldID (fst s) replayed taken target report)))))"

definition Verify ::
    "'x lib_scheme \<Rightarrow> (string \<Rightarrow> string) \<Rightarrow> readers \<Rightarrow> bool \<Rightarrow> string \<Rightarrow> manifest \<Rightarrow> nat \<Rightarrow> fork_state \<Rightarrow> replay_report res option" where
  "Verify L recorded R authTable runID m fuel s = VerifyWith L recorded R authTable runID m None fuel s"

section \<open>What a verdict means\<close>

definition event_meaning :: "event_row \<Rightarrow> string \<times> val" where
  "event_meaning e = (e_type e, norm_val (unmarshal_number (e_payload e)))"

definition result_meaning :: "tool_result_row \<Rightarrow> string \<times> string \<times> int \<times> val \<times> val" where
  "result_meaning r = (tr_call r, tr_operation r, tr_status r, norm_val (unmarshal_number (tr_arguments r)),
     norm_val (unmarshal_number (tr_body r)))"

text \<open>
  A replayed execution agrees with the recorded run: it completed with the recorded turns, and
  left the same semantic events, saved results, policy state, transcript and world rows.
\<close>

definition reproduces :: "'x golib_scheme \<Rightarrow> replay_plan \<Rightarrow> string \<Rightarrow> db \<Rightarrow> run_row \<Rightarrow> nat \<Rightarrow> db \<Rightarrow> bool" where
  "reproduces L V worldID source replayed taken target \<longleftrightarrow>
     (let original = vp_original V; runID = r_id original; meaning = (\<lambda>d. map event_meaning (filter (\<lambda>e. semantic (e_type e)) (Events runID d))) in
      r_status replayed = ''completed'' \<and> taken = length (vp_messages V)
    \<and> (vp_lineage V \<noteq> None \<longrightarrow> fork_origin_same (Events runID source) (Events runID target))
    \<and> meaning source = meaning target
    \<and> map result_meaning (toolResults runID source) = map result_meaning (toolResults runID target)
    \<and> policy_rows L (db_policy source) runID = policy_rows L (db_policy target) runID
    \<and> map (\<lambda>m. norm_val (unmarshal_number (message_json L m))) (r_transcript original)
      = map (\<lambda>m. norm_val (unmarshal_number (message_json L m))) (r_transcript replayed)
    \<and> (\<forall>table \<in> set (verified_tables (r_scenario original)).
         stateRows (db_world source) (r_world original) table = stateRows (db_world target) worldID table))"

lemma compare_pairs_Nil:
  assumes "\<And>l. name l \<noteq> []" and "length a = length b"
  shows "compare_pairs same name (zip a b) = [] \<longleftrightarrow> list_all2 (\<lambda>l r. same (l, r)) a b"
  using assms(2) by (induction a b rule: list_induct2) (simp_all add: assms(1))

lemma list_all2_map_eq: "list_all2 (\<lambda>l r. f l = f r) a b \<longleftrightarrow> map f a = map f b"
  by (simp add: list_all2_conv_all_nth list_eq_iff_nth_eq) auto

lemma compareEvents_Nil:
  "compareEvents left right = [] \<longleftrightarrow>
     map event_meaning (filter (\<lambda>e. semantic (e_type e)) left) = map event_meaning (filter (\<lambda>e. semantic (e_type e)) right)"
proof -
  let ?a = "filter (\<lambda>e. semantic (e_type e)) left" and ?b = "filter (\<lambda>e. semantic (e_type e)) right"
  have "compareEvents left right = [] \<longleftrightarrow> length ?a = length ?b \<and> list_all2 (\<lambda>l r. event_meaning l = event_meaning r) ?a ?b"
    by (simp add: compareEvents_def Let_def compare_pairs_Nil event_meaning_def sameJSON_def)
  then show ?thesis unfolding list_all2_map_eq by (metis length_map)
qed

lemma compareResults_Nil: "compareResults left right = [] \<longleftrightarrow> map result_meaning left = map result_meaning right"
proof -
  have "compareResults left right = [] \<longleftrightarrow> length left = length right \<and> list_all2 (\<lambda>l r. result_meaning l = result_meaning r) left right"
    by (simp add: compareResults_def compare_pairs_Nil result_meaning_def sameJSON_def)
  then show ?thesis unfolding list_all2_map_eq by (metis length_map)
qed

lemma compareState_Nil:
  "compareState original worldID source target = [] \<longleftrightarrow>
     (\<forall>table \<in> set (verified_tables (r_scenario original)).
        stateRows (db_world source) (r_world original) table = stateRows (db_world target) worldID table)"
  by (auto simp: compareState_def find_None_iff find_Some_iff split: option.splits)

lemma compareChaosState_Nil:
  "compareChaosState L source target runID = [] \<longleftrightarrow>
     policy_rows L (db_policy source) runID = policy_rows L (db_policy target) runID"
  by (auto simp: compareChaosState_def find_None_iff policy_rows_def split: option.splits)

lemma sameJSON_messages:
  "sameJSON (JArr (map (message_json L) a)) (JArr (map (message_json L) b)) \<longleftrightarrow>
     map (\<lambda>m. norm_val (unmarshal_number (message_json L m))) a = map (\<lambda>m. norm_val (unmarshal_number (message_json L m))) b"
  by (simp add: sameJSON_def comp_def)

lemmas comparisons = compareEvents_Nil compareResults_Nil compareState_Nil compareChaosState_Nil sameJSON_messages

lemma compare_replay_verified:
  assumes "\<not> vr_verified report"
  shows "vr_verified (compare_replay L V worldID source replayed taken target report) \<longleftrightarrow>
     reproduces L V worldID source replayed taken target"
  using assms by (auto simp: compare_replay_def reproduces_def Let_def comparisons diverged_def)


section \<open>A replay is an execution of the runner\<close>

text \<open>A pass of the loop looks at its environment only at its own iteration.\<close>

definition same_at :: "nat \<Rightarrow> env \<Rightarrow> env \<Rightarrow> bool" where
  "same_at n E E' \<longleftrightarrow> en_provider E n = en_provider E' n \<and> en_sleep E n = en_sleep E' n \<and> en_clock E n = en_clock E' n
     \<and> en_crash E n = en_crash E' n"

lemma attempts_same:
  "same_at n E E' \<Longrightarrow> attempts E n task history ops left attempt rec = attempts E' n task history ops left attempt rec"
proof (induction left arbitrary: attempt rec)
  case (Suc left)
  then have env: "en_provider E n = en_provider E' n" "en_sleep E n = en_sleep E' n" by (simp_all add: same_at_def)
  show ?case unfolding attempts.simps env Suc.IH [OF Suc.prems] by (rule refl)
qed (simp add: same_at_def)

lemma execute_pass_same:
  assumes "same_at n E E'"
  shows "execute_pass L R E runID maxSteps n used d = execute_pass L R E' runID maxSteps n used d"
proof -
  have env: "en_clock E n = en_clock E' n" "en_crash E n = en_crash E' n" using assms by (simp_all add: same_at_def)
  show ?thesis
    unfolding execute_pass_def dispatch_call_def end_run_def model_turn_def fail_turn_def save_turn_def callProvider_def
      attempts_same [OF assms] env by (rule refl)
qed

text \<open>The turns taken and the database before each pass of a replay.\<close>

primrec replay_trace :: "'x lib_scheme \<Rightarrow> runner \<Rightarrow> message list \<Rightarrow> string \<Rightarrow> nat \<Rightarrow> db \<Rightarrow> nat \<Rightarrow> nat \<times> db" where
  "replay_trace L R messages runID maxSteps d 0 = (0, d)"
| "replay_trace L R messages runID maxSteps d (Suc n) =
     (let (used, d1) = replay_trace L R messages runID maxSteps d n in
      case execute_pass L R (recorded_env messages used) runID maxSteps n used d1 of
        Again used' d' \<Rightarrow> (used', d') | Stop _ _ \<Rightarrow> (used, d1))"

definition replay_env :: "'x lib_scheme \<Rightarrow> runner \<Rightarrow> message list \<Rightarrow> string \<Rightarrow> nat \<Rightarrow> db \<Rightarrow> env" where
  "replay_env L R messages runID maxSteps d =
     (recorded_env messages 0)\<lparr>en_provider :=
        \<lambda>n _ _ _ _. recorded_next messages (fst (replay_trace L R messages runID maxSteps d n))\<rparr>"

lemma replay_env_same:
  "same_at n (replay_env L R messages runID maxSteps d) (recorded_env messages (fst (replay_trace L R messages runID maxSteps d n)))"
  by (simp add: same_at_def replay_env_def recorded_env_def)

lemma replay_loop_execute:
  assumes "replay_trace L R messages runID maxSteps d n = (used, d1)"
  shows "map_option (\<lambda>(r, _, d'). (r, d')) (replay_loop L R messages runID maxSteps fuel n used d1)
    = execute_loop L R (replay_env L R messages runID maxSteps d) runID maxSteps fuel n used d1"
  using assms
proof (induction fuel arbitrary: n used d1)
  case (Suc fuel)
  have pass: "execute_pass L R (replay_env L R messages runID maxSteps d) runID maxSteps n used d1
      = execute_pass L R (recorded_env messages used) runID maxSteps n used d1"
    using execute_pass_same [OF replay_env_same [of n L R messages runID maxSteps d]] Suc.prems by simp
  show ?case
  proof (cases "execute_pass L R (recorded_env messages used) runID maxSteps n used d1")
    case (Again used' d')
    then have "replay_trace L R messages runID maxSteps d (Suc n) = (used', d')" using Suc.prems by simp
    from Suc.IH [OF this] show ?thesis using Again pass by simp
  qed (simp add: pass)
qed simp

lemma replay_loop_refines:
  "map_option (\<lambda>(r, _, d'). (r, d')) (replay_loop L R messages runID maxSteps fuel 0 0 d)
     = execute_loop L R (replay_env L R messages runID maxSteps d) runID maxSteps fuel 0 0 d"
  by (rule replay_loop_execute) simp

text \<open>
  Verifying with the recorded responses executes the run's starting point by the runner: for
  every fuel the replayed execution is the one \<open>Execute\<close> makes with a provider that answers each
  turn with the next recorded response, so what is shown of \<open>Execute\<close> holds of a replay.
\<close>

theorem replay_refines_execution:
  "map_option (\<lambda>(r, _, d'). (r, d')) (replay_execute L m None messages runID fuel d)
     = Execute L (replay_runner L m) (Some (replay_env L (replay_runner L m) messages runID (length messages + 1) d)) runID
         (int (length messages) + 1) fuel d"
  by (simp add: replay_execute_def Execute_def replay_loop_refines nat_add_distrib del: replay_loop.simps execute_loop.simps)

lemma replay_start_results:
  assumes "replay_start L original w source = Inr d0"
  shows "results d0 = []"
proof -
  obtain world d1 r d2 d3 where d1: "SeedScenario L (w_seed w) (w_digest w) (r_scenario original) fresh_db = Inr (world, d1)"
      and d2: "CreateReplayRun L original (w_id world) d1 = Inr (r, d2)"
      and d3: "(case ChaosPolicy (r_id original) source of Inl _ \<Rightarrow> Inr ((), d2)
          | Inr (policy, digest) \<Rightarrow> AttachChaos L (r_id original) policy digest d2) = Inr ((), d3)"
      and d0: "(case AuthPolicy (r_id original) source of Inl _ \<Rightarrow> Inr ((), d3)
          | Inr (policy, digest) \<Rightarrow> AttachAuth L (r_id original) policy digest d3) = Inr ((), d0)"
    using assms by (auto simp: replay_start_def)
  have "results d1 = []" using SeedScenario_ok [OF d1] by (simp add: fresh_db_def)
  then have "results d2 = []"
    using d2 by (auto simp: CreateReplayRun_def Let_def dest!: AppendEventTx_frame(2))
  moreover have "results d3 = results d2" using d3 by (auto simp: AttachChaos_def split: sum.splits)
  moreover have "results d0 = results d3" using d0 by (auto simp: AttachAuth_def split: sum.splits)
  ultimately show ?thesis by simp
qed

lemma replay_loop_more_fuel:
  "replay_loop L R messages runID maxSteps fuel n used d = Some x \<Longrightarrow> fuel \<le> fuel' \<Longrightarrow>
   replay_loop L R messages runID maxSteps fuel' n used d = Some x"
proof (induction fuel arbitrary: fuel' n used d)
  case (Suc fuel)
  then obtain f' where "fuel' = Suc f'" "fuel \<le> f'" by (cases fuel') auto
  then show ?case using Suc by (auto split: pass.splits)
qed simp

lemma replay_execute_ends:
  assumes "results d = []"
  shows "\<exists>fuel x. \<forall>more \<ge> fuel. replay_execute L m provider messages runID more d = Some x"
proof -
  have seen: "results_seen runID d" using assms by (simp add: results_seen_def)
  have builtin: "dp_registry (rn_dispatch (replay_runner L m)) = builtin L" by (simp add: replay_runner_def replay_dispatcher_def)
  show ?thesis
  proof (cases provider)
    case None
    let ?E = "Some (replay_env L (replay_runner L m) messages runID (length messages + 1) d)"
    obtain fuel r d' where ends: "\<forall>more \<ge> fuel. Execute L (replay_runner L m) ?E runID (int (length messages) + 1) more d = Some (r, d')"
      using Execute_ends [OF builtin seen] by blast
    then have "execute_loop L (replay_runner L m) (replay_env L (replay_runner L m) messages runID (length messages + 1) d)
        runID (length messages + 1) fuel 0 0 d = Some (r, d')" by (simp add: Execute_def nat_add_distrib)
    then obtain x where "replay_loop L (replay_runner L m) messages runID (length messages + 1) fuel 0 0 d = Some x"
      unfolding replay_loop_refines [symmetric] by blast
    from replay_loop_more_fuel [OF this] have "\<forall>more \<ge> fuel. replay_execute L m provider messages runID more d = Some x"
      using None by (simp add: replay_execute_def)
    then show ?thesis by blast
  next
    case (Some E)
    obtain fuel r d' where "\<forall>more \<ge> fuel. Execute L (replay_runner L m) (Some (E\<lparr>en_sleep := \<lambda>_ _ _. None, en_crash := \<lambda>_. None\<rparr>))
        runID (int (length messages) + 1) more d = Some (r, d')"
      using Execute_ends [OF builtin seen] by blast
    then show ?thesis using Some by (simp add: replay_execute_def) blast
  qed
qed

text \<open>
  C12. Verifying a run that is no fork ends, whatever its ledger holds and whatever the given
  provider answers: enough passes of the loop give a report or an error, and more give the same.
\<close>

theorem verification_terminates:
  assumes "Lineage runID f = Inl e"
  shows "\<exists>fuel x. \<forall>more \<ge> fuel. VerifyWith L recorded R authTable runID m provider more (source, f) = Some x"
proof -
  let ?verify = "\<lambda>more. VerifyWith L recorded R authTable runID m provider more (source, f)"
  consider e' where "plan_replay L R authTable runID m (source, f) = Inl e'"
    | reason where "plan_replay L R authTable runID m (source, f) = Inr (Inl reason)"
    | V e' where "plan_replay L R authTable runID m (source, f) = Inr (Inr V)" "replay_target L recorded R m V (source, f) = Inl e'"
    | V worldID start where "plan_replay L R authTable runID m (source, f) = Inr (Inr V)"
        "replay_target L recorded R m V (source, f) = Inr (worldID, start)"
    by (metis old.sum.exhaust surj_pair)
  then show ?thesis
  proof cases
    case (4 V worldID start)
    have "vp_lineage V = None"
      using 4(1) assms by (auto simp: plan_replay_def find_lineage_def split: option.splits if_splits)
    then have "results start = []" using 4(2) by (auto simp: replay_target_def dest: replay_start_results)
    from replay_execute_ends [OF this] obtain fuel x where
      "\<forall>more \<ge> fuel. replay_execute L m provider (vp_messages V) runID more start = Some x" by blast
    then have "\<exists>y. \<forall>more \<ge> fuel. ?verify more = Some y"
      using 4 by (cases x) (auto simp: VerifyWith_def Let_def split: sum.split)
    then show ?thesis by blast
  qed (simp_all add: VerifyWith_def Let_def)
qed

section \<open>A verified run\<close>

theorem verification_terminates_witness:
  "\<exists>fuel x. \<forall>more \<ge> fuel. VerifyWith sample_full (\<lambda>_. []) fk_readers True ''R'' ckpt_manifest None more (cp_db, fk_tables) = Some x"
  by (rule verification_terminates [of "''R''" fk_tables ErrNoRows]) (simp add: Lineage_def fk_tables_def)

text \<open>The recorded run executed again: one turn, then completion.\<close>

lemma rp_execute:
  assumes rows: "sel r_id ''R'' (run_rows d) = Some (cp_run0\<lparr>r_world := x, r_status := ''running'', r_step := 0, r_transcript := []\<rparr>)"
    and world: "sel w_id x (worlds (db_world d)) = Some w" and led: "ledger d = [cp_event 1 ''execution.started'' p]"
    and policy: "db_policy d = empty_policy"
  shows "\<exists>d' r. replay_loop sample_full (replay_runner sample_full ckpt_manifest) [cp_answer] ''R'' 2 2 0 0 d = Some (Inr r, 1, d')
    \<and> ledger d' = cp_event 1 ''execution.started'' p # tl cp_ledger \<and> r_status r = ''completed'' \<and> r_transcript r = [cp_answer]
    \<and> db_world d' = db_world d \<and> db_policy d' = db_policy d \<and> results d' = results d"
proof -
  let ?r0 = "cp_run0\<lparr>r_world := x, r_status := ''running'', r_step := 0, r_transcript := []\<rparr>"
  let ?req = "model_request sample_full cp_run0 [] [op_getCustomer]" and ?res = "message_json sample_full cp_answer"
  let ?turn = "\<lambda>r. r\<lparr>r_step := 1, r_transcript := [cp_answer], r_status := ''running''\<rparr>"
  let ?fin = "\<lambda>r. r\<lparr>r_status := ''completed''\<rparr>"
  let ?e1 = "cp_event 1 ''execution.started'' p" and ?e2 = "cp_event 2 ''model.request'' ?req"
  let ?e3 = "cp_event 3 ''model.response'' ?res" and ?e4 = "cp_event 4 ''execution.completed'' (jmap [(''step'', jint 1)])"
  define d1 where "d1 = map_events (\<lambda>_. [?e1, ?e2]) d"
  define d2 where "d2 = map_events (\<lambda>_. [?e1, ?e2, ?e3]) d1"
  define d3 where "d3 = update_run ''R'' ?turn d2"
  define d4 where "d4 = update_run ''R'' ?fin d3"
  define d5 where "d5 = map_events (\<lambda>_. [?e1, ?e2, ?e3, ?e4]) d4"
  have req: "model_request sample_full ?r0 [] [op_getCustomer] = ?req" by (simp add: model_request_def)
  have id: "r_id ?r0 = ''R''" "r_id cp_run0 = ''R''" by (simp_all add: cp_run0_def)
  have a1: "AppendEventTx sample_full ''R'' ''model.request'' ?req d = Inr ((), d1)"
    using cp_append [OF rows, of w "[?e1]"] world led by (simp add: d1_def cp_event_def numeral_eq_Suc)
  have a2: "AppendEventTx sample_full ''R'' ''model.response'' ?res d1 = Inr ((), d2)"
    using cp_append [of d1 ?r0 w "[?e1, ?e2]"] rows world by (simp add: d1_def d2_def cp_event_def numeral_eq_Suc)
  have row3: "sel r_id ''R'' (run_rows d3) = Some (?turn ?r0)" using rows id by (simp add: d1_def d2_def d3_def sel_upd_key)
  have row4: "sel r_id ''R'' (run_rows d4) = Some (?fin (?turn ?r0))" using row3 id by (simp add: d4_def sel_upd_key)
  have a3: "AppendEventTx sample_full ''R'' ''execution.completed'' (jmap [(''step'', jint 1)]) d4 = Inr ((), d5)"
    using cp_append [OF row4, of w "[?e1, ?e2, ?e3]"] world
    by (simp add: d1_def d2_def d3_def d4_def d5_def cp_event_def numeral_eq_Suc)
  have quiet: "m_interruptions cp_answer = []" "m_role cp_answer = ''assistant''" "m_tool_calls cp_answer = []"
    by (simp_all add: cp_answer_def)
  have last: "LastEvent ''R'' d = Inr ?e1" using led by (simp add: LastEvent_def cp_event_def)
  have ops: "Exposed sample_full ''R'' (mf_operations ckpt_manifest) d = Inr [op_getCustomer]"
    using policy by (simp add: Exposed_def load_def empty_policy_def ckpt_manifest_def)
  let ?R = "replay_runner sample_full ckpt_manifest"
  have p0: "execute_pass sample_full ?R (recorded_env [cp_answer] 0) ''R'' 2 0 0 d = Again 1 d3"
    using rows id a1 a2 quiet last ops req
    by (simp add: execute_pass_def Run_def read_transcript_def pending_def made_calls_def finished_def model_turn_def
        replay_runner_def recorded_env_def Fire_def commit_def startModelCall_def AppendGuarded_def guarded_def cp_event_def
        callProvider_def providerAttempts_def numeral_eq_Suc recorded_next_def turn_error_def validateCalls_def save_turn_def
        SaveTurnGuarded_def interruptionPayloads_def d3_def)
  have p1: "execute_pass sample_full ?R (recorded_env [cp_answer] 1) ''R'' 2 1 1 d3 = Stop (Inr (?fin (?turn ?r0))) d5"
    using row3 row4 id a3 quiet
    by (simp add: execute_pass_def Run_def read_transcript_def reread_def pending_def made_calls_def finished_def end_run_def
        replay_runner_def recorded_env_def Fire_def commit_def SaveStatusGuarded_def guarded_def d4_def d5_def)
  have "replay_loop sample_full ?R [cp_answer] ''R'' 2 2 0 0 d = Some (Inr (?fin (?turn ?r0)), 1, d5)"
    using p0 p1 by (simp add: numeral_eq_Suc)
  then show ?thesis
    by (intro exI [of _ d5] exI [of _ "?fin (?turn ?r0)"]) (simp add: d1_def d2_def d3_def d4_def d5_def cp_ledger_def)
qed

text \<open>The recorded run with the world it was seeded with.\<close>

definition rp_db :: db where
  "rp_db = cp_db\<lparr>db_world := (case cp_world ''W1'' of Inr v \<Rightarrow> v | Inl _ \<Rightarrow> empty_world)\<rparr>"

definition rp_world :: world_row where
  "rp_world = \<lparr>w_id = ''W1'', w_seed = 1, w_digest = mf_digest ckpt_manifest, w_base_at = format_rfc3339 sample_full (seed_base 1)\<rparr>"

lemma rp_seeded: "cp_world ''W1'' = Inr (db_world rp_db)" "worlds (db_world rp_db) = [rp_world]"
  by (simp_all add: rp_db_def rp_world_def cp_world_defs)

lemma rp_reads: "Run ''R'' rp_db = Inr cp_run0" "Events ''R'' rp_db = cp_ledger" "results rp_db = []" "db_policy rp_db = empty_policy"
  using cp_reads by (simp_all add: rp_db_def Run_def Events_def) (simp_all add: cp_db_def fresh_db_def)

lemma rp_state:
  assumes "cp_world x = Inr v" and "cp_world y = Inr v'" and "table \<in> set (verified_tables ''duplicate-charge'')"
  shows "stateRows v x table = stateRows v' y table"
proof -
  have "rows_of v x table = rows_of v' y table"
    using assms(3) unfolding verified_tables_def
    by (simp, elim disjE) (use assms(1,2) in \<open>auto simp: cp_world_defs rows_of_def all_rows_def cells_defs\<close>)
  then show ?thesis by (simp add: stateRows_def)
qed

definition rp_plan :: replay_plan where
  "rp_plan = \<lparr>vp_original = cp_run0, vp_world = rp_world, vp_lineage = None, vp_messages = [cp_answer]\<rparr>"

lemma rp_planned: "plan_replay sample_full fk_readers True ''R'' ckpt_manifest (rp_db, fk_tables) = Inr (Inr rp_plan)"
proof -
  have started: "string_map (started_payload ''duplicate-charge'' ''p'' ''m'' ''W1'') =
      Inr [(''model'', ''m''), (''provider'', ''p''), (''scenario'', ''duplicate-charge''), (''world_id'', ''W1'')]"
    by (simp add: string_map_def started_payload_def jmap_def string_value_def)
  have decoded: "decode_message (message_json sample_full cp_answer) = Inr cp_answer"
    by (simp add: decode_message_def message_json_def cp_answer_def content_text_def opt_str_def opt_int_def string_field_def
        int_field_def array_field_def struct_field_def json_field_def decode_meta_def decode_usage_def)
  have "recordedMessages cp_run0 cp_ledger False = Inr [cp_answer]"
    using started decoded
    by (simp add: recordedMessages_def cp_ledger_def cp_event_def recorded_event_def in_place_def cp_run0_def start_matches_def
        entry_def replayable_types_def Let_def numeral_eq_Suc) (simp add: cp_answer_def)
  moreover have "r_status cp_run0 = ''completed''" "r_scenario cp_run0 = ''duplicate-charge''" "r_world cp_run0 = ''W1''"
      "r_principal cp_run0 = UnrestrictedPrincipal"
    by (simp_all add: cp_run0_def UnrestrictedPrincipal_def)
  moreover have "AuthPolicy (r_id cp_run0) rp_db = Inl ErrNoRows" by (simp add: AuthPolicy_def rp_reads empty_policy_def)
  moreover have "sel w_id ''W1'' [rp_world] = Some rp_world" "w_digest rp_world = mf_digest ckpt_manifest" by (simp_all add: rp_world_def)
  ultimately show ?thesis
    by (simp add: plan_replay_def cp_valid rp_reads rp_seeded scenarios_def check_principal_def find_lineage_def Lineage_def
        fk_tables_def rp_plan_def)
qed

lemma rp_verified:
  "\<exists>worldID start replayed target. replay_target sample_full (\<lambda>_. []) fk_readers ckpt_manifest rp_plan (rp_db, fk_tables) = Inr (worldID, start)
     \<and> replay_execute sample_full ckpt_manifest None (vp_messages rp_plan) ''R'' 2 start = Some (Inr replayed, 1, target)
     \<and> reproduces sample_full rp_plan worldID rp_db replayed 1 target"
proof -
  obtain d0 world p w where start: "replay_start sample_full cp_run0
        \<lparr>w_id = ''W1'', w_seed = 1, w_digest = mf_digest ckpt_manifest, w_base_at = ''2026''\<rparr> cp_db = Inr d0"
      and rows: "sel r_id ''R'' (run_rows d0) = Some (cp_run0\<lparr>r_world := world, r_status := ''running'', r_step := 0, r_transcript := []\<rparr>)"
        "sel w_id world (worlds (db_world d0)) = Some w" "ledger d0 = [cp_event 1 ''execution.started'' p]" "db_policy d0 = empty_policy"
        and seeded: "cp_world world = Inr (db_world d0)" "results d0 = []"
    using cp_start by blast
  have "replay_start sample_full cp_run0 rp_world rp_db = Inr d0"
    using start by (simp add: replay_start_def ChaosPolicy_def AuthPolicy_def rp_reads rp_world_def) (simp add: cp_db_def fresh_db_def)
  then have target: "replay_target sample_full (\<lambda>_. []) fk_readers ckpt_manifest rp_plan (rp_db, fk_tables) = Inr (world, d0)"
    using rows(1) by (simp add: replay_target_def rp_plan_def Run_def cp_run0_def)
  obtain d r where d: "replay_loop sample_full (replay_runner sample_full ckpt_manifest) [cp_answer] ''R'' 2 2 0 0 d0 = Some (Inr r, 1, d)"
      "ledger d = cp_event 1 ''execution.started'' p # tl cp_ledger" "r_status r = ''completed''" "r_transcript r = [cp_answer]"
      "db_world d = db_world d0" "db_policy d = db_policy d0" "results d = results d0"
    using rp_execute [OF rows] by blast
  have run: "r_id cp_run0 = ''R''" "r_world cp_run0 = ''W1''" "r_scenario cp_run0 = ''duplicate-charge''" "r_transcript cp_run0 = [cp_answer]"
    by (simp_all add: cp_run0_def)
  have evs: "Events ''R'' d = cp_event 1 ''execution.started'' p # tl cp_ledger"
    using d(2) by (simp add: Events_def cp_ledger_def cp_event_def)
  have meaning: "filter (\<lambda>e. semantic (e_type e)) (Events ''R'' d) = filter (\<lambda>e. semantic (e_type e)) cp_ledger"
    by (simp add: evs cp_ledger_def cp_event_def semantic_def)
  have "reproduces sample_full rp_plan world rp_db r 1 d"
    using d seeded rows(4) run rp_state [OF rp_seeded(1) seeded(1)]
    by (simp add: reproduces_def rp_plan_def Let_def rp_reads meaning toolResults_def)
  moreover have "replay_execute sample_full ckpt_manifest None (vp_messages rp_plan) ''R'' 2 d0 = Some (Inr r, 1, d)"
    using d(1) by (simp add: replay_execute_def rp_plan_def numeral_eq_Suc del: replay_loop.simps)
  ultimately show ?thesis using target by blast
qed


end
