(* ===== verification/Yaml.thy ===== *)
theory Yaml
  imports Prelude
begin

text \<open>
  YAML documents as the readers of policies, assertions and interventions see them. The parser
  is a library, so what it gives for a text is a parameter: the node tree of the first document,
  the value the strict decoder builds from it, and what follows the document. The checks on the
  tree are the program's own.
\<close>

section \<open>Nodes\<close>

text \<open>A \<open>yaml.Node\<close>; every node but an alias carries the short form of its tag, and an alias the name of its anchor.\<close>

datatype ynode =
    YScalar string string
  | YSeq string "ynode list"
  | YMap string "(ynode \<times> ynode) list"
  | YAlias string ynode

fun node_tag :: "ynode \<Rightarrow> string" where
  "node_tag (YScalar t _) = t"
| "node_tag (YSeq t _) = t"
| "node_tag (YMap t _) = t"
| "node_tag (YAlias _ _) = []"

text \<open>\<open>Node.Value\<close> of a node used as a key.\<close>

fun node_value :: "ynode \<Rightarrow> string" where
  "node_value (YScalar _ v) = v"
| "node_value (YAlias anchor _) = anchor"
| "node_value _ = []"

fun is_map :: "ynode \<Rightarrow> bool" where
  "is_map (YMap _ _) = True"
| "is_map _ = False"

fun map_entries :: "ynode \<Rightarrow> (ynode \<times> ynode) list" where
  "map_entries (YMap _ kvs) = kvs"
| "map_entries _ = []"

section \<open>Reading a document\<close>

datatype rest = EndOfInput | AnotherDocument | Unreadable

record 'r yaml =
  ya_node :: "string \<Rightarrow> ynode option res"
  ya_decode :: "string \<Rightarrow> 'r res"
  ya_rest :: "string \<Rightarrow> rest"

text \<open>
  The opening every reader shares: one mapping, accepted by the checks on its tree, decoded
  strictly, and nothing after it.
\<close>

definition read_mapping :: "'r yaml \<Rightarrow> (ynode \<Rightarrow> unit res) \<Rightarrow> string \<Rightarrow> 'r res" where
  "read_mapping Y check raw =
     bindR (ya_node Y raw) (\<lambda>n. case n of
       None \<Rightarrow> Inl (Err ''document must be a mapping'')
     | Some doc \<Rightarrow>
         if \<not> is_map doc then Inl (Err ''document must be a mapping'')
         else bindR (check doc) (\<lambda>_. bindR (ya_decode Y raw) (\<lambda>input.
           case ya_rest Y raw of
             EndOfInput \<Rightarrow> Inr input
           | AnotherDocument \<Rightarrow> Inl (Err ''multiple YAML documents'')
           | Unreadable \<Rightarrow> Inl (Err ''YAML''))))"

definition version_tag :: "ynode \<Rightarrow> unit res" where
  "version_tag doc =
     (if list_ex (\<lambda>(k, v). node_value k = ''version'' \<and> node_tag v \<noteq> ''!!int'') (map_entries doc)
      then Inl (Err ''version must be an integer'') else Inr ())"

lemma read_mapping_Inr:
  assumes "read_mapping Y check raw = Inr input"
  shows "ya_decode Y raw = Inr input \<and> (\<exists>doc. ya_node Y raw = Inr (Some doc) \<and> is_map doc \<and> check doc = Inr ())"
  using assms by (cases "ya_rest Y raw") (auto simp: read_mapping_def split: option.splits if_splits)

section \<open>Null values\<close>

text \<open>No scalar below a node has one of the refused tags and values.\<close>

fun scalars_ok :: "(string \<Rightarrow> string \<Rightarrow> bool) \<Rightarrow> ynode \<Rightarrow> bool" where
  "scalars_ok bad (YScalar t v) = (\<not> bad t v)"
| "scalars_ok bad (YSeq _ xs) = list_all (scalars_ok bad) xs"
| "scalars_ok bad (YMap _ kvs) = list_all (\<lambda>kv. scalars_ok bad (snd kv)) kvs"
| "scalars_ok bad (YAlias _ _) = True"

definition null_scalar :: "string \<Rightarrow> string \<Rightarrow> bool" where
  "null_scalar t v \<longleftrightarrow> t = ''!!null''"

definition rejectNulls :: "ynode \<Rightarrow> unit res" where
  "rejectNulls n = (if scalars_ok null_scalar n then Inr () else Inl (Err ''field must not be empty or null''))"

section \<open>Names\<close>

definition alpha_char :: "char \<Rightarrow> bool" where
  "alpha_char c \<longleftrightarrow> (let n = (of_char c :: nat) in 65 \<le> n \<and> n \<le> 90 \<or> 97 \<le> n \<and> n \<le> 122)"

text \<open>\<open>^[A-Za-z][A-Za-z0-9\<dots>]*$\<close> with the given further characters.\<close>

definition name_ok :: "string \<Rightarrow> string \<Rightarrow> bool" where
  "name_ok extra s =
     (case s of [] \<Rightarrow> False | c # cs \<Rightarrow> alpha_char c \<and> list_all (\<lambda>c. alpha_char c \<or> digit_char c \<or> c \<in> set extra) cs)"

end
