(* ===== verification/Policies.thy ===== *)
theory Policies
  imports Chaos Yaml
begin

text \<open>
  Reading policies: the checks that turn a decoded authorization or chaos policy document into
  its canonical form (\<open>internal/authz/policy.go\<close>, \<open>internal/chaos/policy.go\<close>), the text and digest
  of the canonical form, and the validation of a stored text. A policy that is accepted is well
  formed, and the canonical form is a fixed point: read again it gives the same policy.
\<close>

section \<open>Authorization policies\<close>

record raw_grant =
  rg_permission :: string
  rg_starts :: "int option"
  rg_ends :: "int option"

record raw_revocation =
  rw_permission :: string
  rw_after :: "int option"

record raw_policy =
  rp_version :: int
  rp_principal :: string
  rp_principal_roles :: "string list"
  rp_roles :: "(string \<times> string list) list"
  rp_allow :: "string list"
  rp_customers :: "string list option"
  rp_channels :: "string list option"
  rp_projects :: "string list option"
  rp_refund_max :: "int option"
  rp_grants :: "raw_grant list"
  rp_revocations :: "raw_revocation list"

definition policy_name :: "string \<Rightarrow> bool" where
  "policy_name = name_ok ''_.-''"

fun repeats :: "'a list \<Rightarrow> bool" where
  "repeats (a # b # xs) \<longleftrightarrow> a = b \<or> repeats (b # xs)"
| "repeats _ \<longleftrightarrow> False"

definition uniqueSorted :: "string \<Rightarrow> string list \<Rightarrow> string list res" where
  "uniqueSorted kind xs = (let out = sort xs in if repeats out then Inl (Err (''duplicate '' @ kind)) else Inr out)"

definition available :: "manifest \<Rightarrow> string \<Rightarrow> bool" where
  "available m permission = list_ex (\<lambda>op. Permission op = Some permission) (mf_operations m)"

definition checkPermission :: "manifest \<Rightarrow> string \<Rightarrow> unit res" where
  "checkPermission m permission =
     (if \<not> known permission then Inl (Err ''unknown permission'')
      else if \<not> available m permission then Inl (Err ''permission has no operation in this world'')
      else Inr ())"

definition allowList :: "manifest \<Rightarrow> string list \<Rightarrow> string list res" where
  "allowList m xs = bindR (mapR (checkPermission m) xs) (\<lambda>_. uniqueSorted ''allow'' xs)"

definition role_entry :: "manifest \<Rightarrow> string \<times> string list \<Rightarrow> (string \<times> string list) res" where
  "role_entry m = (\<lambda>(roleName, allow).
     if \<not> policy_name roleName then Inl (Err ''invalid role name'')
     else bindR (allowList m allow) (\<lambda>a. Inr (roleName, a)))"

definition principal_roles :: "(string \<times> string list) list \<Rightarrow> string list \<Rightarrow> string list res" where
  "principal_roles roles names =
     (if \<not> list_all (\<lambda>r. r \<in> set (map fst roles)) names then Inl (Err ''principal role is not defined'')
      else uniqueSorted ''principal role'' names)"

fun scope_ids :: "string list option \<Rightarrow> string list option res" where
  "scope_ids None = Inr None"
| "scope_ids (Some ids) =
     (if list_ex (\<lambda>i. i = [] \<or> TrimSpace i \<noteq> i) ids then Inl (Err ''invalid scope entry'')
      else bindR (uniqueSorted ''scope'' ids) (\<lambda>u. Inr (Some u)))"

fun refund_limit :: "int option \<Rightarrow> unit res" where
  "refund_limit None = Inr ()"
| "refund_limit (Some n) = (if n < 0 then Inl (Err ''refund_max_cents must be nonnegative'') else Inr ())"

definition grant_entry :: "manifest \<Rightarrow> raw_grant \<Rightarrow> temporary_grant res" where
  "grant_entry m g =
     bindR (checkPermission m (rg_permission g)) (\<lambda>_.
     case (rg_starts g, rg_ends g) of
       (Some s, Some e) \<Rightarrow>
         if s < 1 \<or> e < s then Inl (Err ''temporary grant requires 1 <= starts_at_call <= ends_at_call'')
         else Inr \<lparr>tg_permission = rg_permission g, tg_starts = s, tg_ends = e\<rparr>
     | _ \<Rightarrow> Inl (Err ''temporary grant requires 1 <= starts_at_call <= ends_at_call''))"

fun overlap :: "temporary_grant list \<Rightarrow> bool" where
  "overlap (a # b # gs) \<longleftrightarrow> tg_permission a = tg_permission b \<and> tg_starts b \<le> tg_ends a \<or> overlap (b # gs)"
| "overlap _ \<longleftrightarrow> False"

definition grants_of :: "manifest \<Rightarrow> raw_grant list \<Rightarrow> temporary_grant list res" where
  "grants_of m gs =
     bindR (mapR (grant_entry m) gs) (\<lambda>grants.
     let out = sort_key (\<lambda>g. (tg_permission g, tg_starts g)) grants in
     if overlap out then Inl (Err ''temporary grants overlap'') else Inr out)"

fun revocations_from :: "manifest \<Rightarrow> string list \<Rightarrow> raw_revocation list \<Rightarrow> revocation list res" where
  "revocations_from m revoked [] = Inr []"
| "revocations_from m revoked (r # rs) =
     bindR (checkPermission m (rw_permission r)) (\<lambda>_.
     case rw_after r of
       None \<Rightarrow> Inl (Err ''revocation requires nonnegative after_call'')
     | Some a \<Rightarrow>
         if a < 0 then Inl (Err ''revocation requires nonnegative after_call'')
         else if rw_permission r \<in> set revoked then Inl (Err ''duplicate revocation'')
         else bindR (revocations_from m (rw_permission r # revoked) rs) (\<lambda>rest.
           Inr (\<lparr>rv_permission = rw_permission r, rv_after = a\<rparr> # rest)))"

text \<open>The checks of \<open>Parse\<close> on the decoded document; the roles of a policy are kept by name.\<close>

definition auth_policy :: "manifest \<Rightarrow> raw_policy \<Rightarrow> policy res" where
  "auth_policy m input =
     (if rp_version input \<noteq> 1 then Inl (Err ''unsupported authorization policy version'')
      else if \<not> policy_name (rp_principal input) then Inl (Err ''invalid principal ID'')
      else
        bindR (mapR (role_entry m) (rp_roles input)) (\<lambda>roles.
        bindR (principal_roles roles (rp_principal_roles input)) (\<lambda>own.
        bindR (allowList m (rp_allow input)) (\<lambda>allow.
        bindR (scope_ids (rp_customers input)) (\<lambda>customers.
        bindR (scope_ids (rp_channels input)) (\<lambda>channels.
        bindR (scope_ids (rp_projects input)) (\<lambda>projects.
        bindR (refund_limit (rp_refund_max input)) (\<lambda>_.
        bindR (grants_of m (rp_grants input)) (\<lambda>grants.
        bindR (revocations_from m [] (rp_revocations input)) (\<lambda>revs.
        Inr \<lparr>po_version = 1, po_principal = rp_principal input, po_principal_roles = own,
             po_roles = sort_key fst roles, po_allow = allow, po_customers = customers, po_channels = channels,
             po_projects = projects, po_refund_max = rp_refund_max input, po_grants = grants,
             po_revocations = sort_key rv_permission revs\<rparr>))))))))))"

definition auth_Parse :: "'x golib_scheme \<Rightarrow> raw_policy yaml \<Rightarrow> string \<Rightarrow> manifest \<Rightarrow> policy res" where
  "auth_Parse L Y raw m =
     bindR (ValidateManifest L m) (\<lambda>_.
     bindR (read_mapping Y (\<lambda>doc. bindR (rejectNulls doc) (\<lambda>_. version_tag doc)) raw) (auth_policy m))"

text \<open>The canonical text: the fields in the order of the structs, empty ones omitted.\<close>

definition optional :: "bool \<Rightarrow> string \<Rightarrow> json \<Rightarrow> (string \<times> json) list" where
  "optional present key j = (if present then [(key, j)] else [])"

definition texts :: "string list \<Rightarrow> json" where
  "texts xs = JArr (map JStr xs)"

definition role_json :: "string list \<Rightarrow> json" where
  "role_json allow = JObj (optional (allow \<noteq> []) ''allow'' (texts allow))"

definition scope_field :: "string \<Rightarrow> string list option \<Rightarrow> (string \<times> json) list" where
  "scope_field key ids = (case ids of None \<Rightarrow> [] | Some xs \<Rightarrow> [(key, texts xs)])"

definition policy_json :: "policy \<Rightarrow> json" where
  "policy_json p = JObj (
     [(''version'', jint (po_version p)),
      (''principal'', JObj ((''id'', JStr (po_principal p))
         # optional (po_principal_roles p \<noteq> []) ''roles'' (texts (po_principal_roles p))))]
     @ optional (po_roles p \<noteq> []) ''roles'' (jmap (map (\<lambda>(n, a). (n, role_json a)) (po_roles p)))
     @ [(''permissions'', role_json (po_allow p)),
        (''resources'', JObj (scope_field ''customer_ids'' (po_customers p) @ scope_field ''channel_ids'' (po_channels p)
           @ scope_field ''project_ids'' (po_projects p))),
        (''constraints'', JObj (case po_refund_max p of None \<Rightarrow> [] | Some n \<Rightarrow> [(''refund_max_cents'', jint n)]))]
     @ optional (po_grants p \<noteq> []) ''temporary_grants'' (JArr (map (\<lambda>g. JObj [(''permission'', JStr (tg_permission g)),
           (''starts_at_call'', jint (tg_starts g)), (''ends_at_call'', jint (tg_ends g))]) (po_grants p)))
     @ optional (po_revocations p \<noteq> []) ''revocations'' (JArr (map (\<lambda>r. JObj [(''permission'', JStr (rv_permission r)),
           (''after_call'', jint (rv_after r))]) (po_revocations p))))"

definition auth_CanonicalJSON :: "'x golib_scheme \<Rightarrow> policy \<Rightarrow> string" where
  "auth_CanonicalJSON L p = print_json L (policy_json p)"

definition auth_Digest :: "'x golib_scheme \<Rightarrow> policy \<Rightarrow> string" where
  "auth_Digest L p = hex_digest L (auth_CanonicalJSON L p)"

definition auth_ValidateStored ::
    "'x golib_scheme \<Rightarrow> raw_policy yaml \<Rightarrow> string \<Rightarrow> string \<Rightarrow> manifest \<Rightarrow> policy res" where
  "auth_ValidateStored L Y encoded digest m =
     bindR (auth_Parse L Y encoded m) (\<lambda>p.
     if auth_CanonicalJSON L p \<noteq> encoded \<or> auth_Digest L p \<noteq> digest
     then Inl (Err ''stored authorization policy is not canonical or digest differs'') else Inr p)"

section \<open>Canonical lists\<close>

abbreviation canonical :: "'a :: linorder list \<Rightarrow> bool" where
  "canonical xs \<equiv> sorted xs \<and> distinct xs"

lemma repeats_sorted: "sorted xs \<Longrightarrow> repeats xs \<longleftrightarrow> \<not> distinct (xs :: 'a :: linorder list)"
proof (induction xs rule: repeats.induct)
  case (1 a b xs)
  then have "a = b" if "a \<in> set xs" using that by (intro order.antisym) auto
  with 1 show ?case by auto
qed auto

lemma uniqueSorted_Inr: "uniqueSorted k xs = Inr ys \<longleftrightarrow> distinct xs \<and> ys = sort xs"
  using repeats_sorted [of "sort xs"] by (auto simp: uniqueSorted_def Let_def)

lemma uniqueSorted_canonical: "canonical xs \<Longrightarrow> uniqueSorted k xs = Inr xs"
  by (simp add: uniqueSorted_Inr sorted_sort_id)

lemma mapR_iff: "mapR f xs = Inr ys \<longleftrightarrow> list_all2 (\<lambda>x y. f x = Inr y) xs ys"
  by (induction xs arbitrary: ys) (auto simp: list_all2_Cons1)

lemma mapR_unit: "mapR f xs = Inr us \<Longrightarrow> x \<in> set xs \<Longrightarrow> f x = Inr ()"
  by (induction xs arbitrary: us) auto

lemma mapR_units: "(\<forall>x \<in> set xs. f x = Inr ()) \<Longrightarrow> mapR f xs = Inr (map (\<lambda>_. ()) xs)"
  by (induction xs) auto

lemma mapR_same: "(\<forall>x \<in> set xs. f (g x) = Inr x) \<Longrightarrow> mapR f (map g xs) = Inr xs"
  by (induction xs) auto

lemma available_known: "available m p \<Longrightarrow> known p"
  by (auto simp: available_def known_def Permission_def list_ex_iff dest!: map_of_SomeD intro: rev_image_eqI)

lemma checkPermission_Inr: "checkPermission m p = Inr () \<longleftrightarrow> available m p"
  using available_known [of m p] by (auto simp: checkPermission_def)

lemma allowList_Inr: "allowList m xs = Inr ys \<longleftrightarrow> (\<forall>p \<in> set xs. available m p) \<and> distinct xs \<and> ys = sort xs"
proof -
  have "(\<exists>us. mapR (checkPermission m) xs = Inr us) \<longleftrightarrow> (\<forall>p \<in> set xs. available m p)"
    using mapR_unit [of "checkPermission m" xs] mapR_units [of xs "checkPermission m"] by (auto simp: checkPermission_Inr)
  then show ?thesis by (auto simp: allowList_def uniqueSorted_Inr)
qed

section \<open>Grants and revocations\<close>

text \<open>Two grants of one permission, the first over before the second starts.\<close>

definition before :: "temporary_grant \<Rightarrow> temporary_grant \<Rightarrow> bool" where
  "before a b \<longleftrightarrow> tg_permission a = tg_permission b \<longrightarrow> tg_ends a < tg_starts b"

abbreviation grant_key :: "temporary_grant \<Rightarrow> string \<times> int" where
  "grant_key \<equiv> \<lambda>g. (tg_permission g, tg_starts g)"

lemma overlap_sorted:
  assumes "sorted (map grant_key gs)" and "\<forall>g \<in> set gs. tg_starts g \<le> tg_ends g"
  shows "overlap gs \<longleftrightarrow> \<not> sorted_wrt before gs"
  using assms
proof (induction gs rule: overlap.induct)
  case (1 a b gs)
  have "before a c" if ab: "before a b" and b: "sorted_wrt before (b # gs)" and c: "c \<in> set gs" for c
  proof (unfold before_def, intro impI)
    assume eq: "tg_permission a = tg_permission c"
    have "grant_key a \<le> grant_key b" "grant_key b \<le> grant_key c" using 1(2) c by auto
    then have p: "tg_permission b = tg_permission a" using eq by (auto simp: less_eq_prod_def)
    then have "tg_ends a < tg_starts b" "tg_ends b < tg_starts c" using ab b c eq by (auto simp: before_def)
    moreover have "tg_starts b \<le> tg_ends b" using 1(3) by simp
    ultimately show "tg_ends a < tg_starts c" by simp
  qed
  then show ?case using 1 by (auto simp: before_def)
qed auto

lemma grant_entry_Inr:
  "grant_entry m r = Inr g \<longleftrightarrow> available m (tg_permission g) \<and> 1 \<le> tg_starts g \<and> tg_starts g \<le> tg_ends g
     \<and> rg_permission r = tg_permission g \<and> rg_starts r = Some (tg_starts g) \<and> rg_ends r = Some (tg_ends g)"
  by (cases "checkPermission m (rg_permission r)"; cases "rg_starts r"; cases "rg_ends r"; cases g)
     (auto simp: grant_entry_def checkPermission_Inr [symmetric])

definition grants_ok :: "manifest \<Rightarrow> temporary_grant list \<Rightarrow> bool" where
  "grants_ok m gs \<longleftrightarrow> sorted (map grant_key gs) \<and> sorted_wrt before gs
     \<and> (\<forall>g \<in> set gs. available m (tg_permission g) \<and> 1 \<le> tg_starts g \<and> tg_starts g \<le> tg_ends g)"

lemma grants_of_ok:
  assumes "grants_of m rs = Inr gs"
  shows "grants_ok m gs"
proof -
  obtain us where us: "mapR (grant_entry m) rs = Inr us" and gs: "gs = sort_key grant_key us" and no: "\<not> overlap gs"
    using assms by (auto simp: grants_of_def Let_def split: if_splits)
  have each: "\<forall>g \<in> set gs. available m (tg_permission g) \<and> 1 \<le> tg_starts g \<and> tg_starts g \<le> tg_ends g"
    using mapR_known [OF us] gs by (auto simp: grant_entry_Inr)
  have "sorted (map grant_key gs)" using gs by simp
  with overlap_sorted [of gs] no each show ?thesis by (auto simp: grants_ok_def)
qed

definition raw_of_grant :: "temporary_grant \<Rightarrow> raw_grant" where
  "raw_of_grant g = \<lparr>rg_permission = tg_permission g, rg_starts = Some (tg_starts g), rg_ends = Some (tg_ends g)\<rparr>"

lemma grants_of_again:
  assumes "grants_ok m gs"
  shows "grants_of m (map raw_of_grant gs) = Inr gs"
proof -
  have "mapR (grant_entry m) (map raw_of_grant gs) = Inr gs"
    by (rule mapR_same) (use assms in \<open>auto simp: grant_entry_Inr grants_ok_def raw_of_grant_def\<close>)
  moreover have "sort_key grant_key gs = gs" by (rule sort_key_id_if_sorted) (use assms in \<open>simp add: grants_ok_def\<close>)
  moreover have "\<not> overlap gs" using assms overlap_sorted [of gs] by (auto simp: grants_ok_def)
  ultimately show ?thesis by (simp add: grants_of_def)
qed

lemma revocations_from_ok:
  "revocations_from m revoked rs = Inr vs \<Longrightarrow>
     distinct (map rv_permission vs) \<and> set (map rv_permission vs) \<inter> set revoked = {}
     \<and> (\<forall>v \<in> set vs. available m (rv_permission v) \<and> 0 \<le> rv_after v)"
proof (induction rs arbitrary: revoked vs)
  case (Cons r rs)
  then obtain a rest where "rw_after r = Some a" "0 \<le> a" "rw_permission r \<notin> set revoked" "available m (rw_permission r)"
      and rest: "revocations_from m (rw_permission r # revoked) rs = Inr rest"
      and vs: "vs = \<lparr>rv_permission = rw_permission r, rv_after = a\<rparr> # rest"
    by (auto simp: checkPermission_Inr split: option.splits if_splits)
  then show ?case using Cons.IH [OF rest] by auto
qed simp

definition raw_of_revocation :: "revocation \<Rightarrow> raw_revocation" where
  "raw_of_revocation r = \<lparr>rw_permission = rv_permission r, rw_after = Some (rv_after r)\<rparr>"

lemma raw_of_revocation_simps [simp]:
  "rw_permission (raw_of_revocation r) = rv_permission r" "rw_after (raw_of_revocation r) = Some (rv_after r)"
  by (simp_all add: raw_of_revocation_def)

lemma revocations_from_again:
  "distinct (map rv_permission vs) \<Longrightarrow> set (map rv_permission vs) \<inter> set revoked = {} \<Longrightarrow>
     \<forall>v \<in> set vs. available m (rv_permission v) \<and> 0 \<le> rv_after v \<Longrightarrow>
     revocations_from m revoked (map raw_of_revocation vs) = Inr vs"
proof (induction vs arbitrary: revoked)
  case (Cons v vs)
  then have "revocations_from m (rv_permission v # revoked) (map raw_of_revocation vs) = Inr vs" by auto
  then show ?case using Cons.prems by (simp add: checkPermission_Inr)
qed simp

section \<open>Well-formed policies\<close>

definition allow_ok :: "manifest \<Rightarrow> string list \<Rightarrow> bool" where
  "allow_ok m xs \<longleftrightarrow> canonical xs \<and> (\<forall>p \<in> set xs. available m p)"

definition scope_ok :: "string list option \<Rightarrow> bool" where
  "scope_ok ids \<longleftrightarrow> (\<forall>xs. ids = Some xs \<longrightarrow> canonical xs \<and> (\<forall>i \<in> set xs. i \<noteq> [] \<and> TrimSpace i = i))"

definition policy_ok :: "manifest \<Rightarrow> policy \<Rightarrow> bool" where
  "policy_ok m p \<longleftrightarrow>
     po_version p = 1 \<and> policy_name (po_principal p)
   \<and> sorted (map fst (po_roles p)) \<and> (\<forall>(n, a) \<in> set (po_roles p). policy_name n \<and> allow_ok m a)
   \<and> canonical (po_principal_roles p) \<and> set (po_principal_roles p) \<subseteq> set (map fst (po_roles p))
   \<and> allow_ok m (po_allow p)
   \<and> scope_ok (po_customers p) \<and> scope_ok (po_channels p) \<and> scope_ok (po_projects p)
   \<and> refund_limit (po_refund_max p) = Inr ()
   \<and> grants_ok m (po_grants p)
   \<and> canonical (map rv_permission (po_revocations p))
   \<and> (\<forall>v \<in> set (po_revocations p). available m (rv_permission v) \<and> 0 \<le> rv_after v)"

text \<open>What the decoder reads from the canonical text of a policy.\<close>

definition raw_of_policy :: "policy \<Rightarrow> raw_policy" where
  "raw_of_policy p =
     \<lparr>rp_version = po_version p, rp_principal = po_principal p, rp_principal_roles = po_principal_roles p,
      rp_roles = po_roles p, rp_allow = po_allow p, rp_customers = po_customers p, rp_channels = po_channels p,
      rp_projects = po_projects p, rp_refund_max = po_refund_max p, rp_grants = map raw_of_grant (po_grants p),
      rp_revocations = map raw_of_revocation (po_revocations p)\<rparr>"

lemma scope_ids_ok: "scope_ids ids = Inr out \<Longrightarrow> scope_ok out"
  by (cases ids) (auto simp: scope_ok_def uniqueSorted_Inr list_ex_iff split: if_splits)

lemma scope_ids_again: "scope_ok ids \<Longrightarrow> scope_ids ids = Inr ids"
  by (cases ids) (auto simp: scope_ok_def uniqueSorted_canonical list_ex_iff)

lemma allowList_ok: "allowList m xs = Inr ys \<Longrightarrow> allow_ok m ys"
  by (auto simp: allowList_Inr allow_ok_def)

lemma allowList_again: "allow_ok m xs \<Longrightarrow> allowList m xs = Inr xs"
  by (auto simp: allowList_Inr allow_ok_def sorted_sort_id)

lemma roles_ok: "mapR (role_entry m) rs = Inr roles \<Longrightarrow> (n, a) \<in> set roles \<Longrightarrow> policy_name n \<and> allow_ok m a"
  by (drule (1) mapR_known) (auto simp: role_entry_def allowList_ok split: if_splits)

lemma roles_again: "\<forall>(n, a) \<in> set rs. policy_name n \<and> allow_ok m a \<Longrightarrow> mapR (role_entry m) rs = Inr rs"
  by (induction rs) (auto simp: role_entry_def allowList_again)

lemma principal_roles_ok:
  "principal_roles roles names = Inr own \<Longrightarrow> canonical own \<and> set own \<subseteq> set (map fst roles)"
  by (auto simp: principal_roles_def uniqueSorted_Inr list_all_iff split: if_splits)

lemma principal_roles_again:
  "canonical own \<Longrightarrow> set own \<subseteq> set (map fst roles) \<Longrightarrow> principal_roles roles own = Inr own"
  by (auto simp: principal_roles_def uniqueSorted_canonical list_all_iff)

lemma sort_key_distinct: "distinct (map f xs) \<Longrightarrow> canonical (map f (sort_key f xs))"
  using mset_eq_imp_distinct_iff [of "map f (sort_key f xs)" "map f xs"] by simp

lemma auth_policy_Inr:
  assumes "auth_policy m input = Inr p"
  obtains roles vs where "policy_name (po_principal p)" and "po_version p = 1"
    and "mapR (role_entry m) (rp_roles input) = Inr roles" and "po_roles p = sort_key fst roles"
    and "principal_roles roles (rp_principal_roles input) = Inr (po_principal_roles p)"
    and "allowList m (rp_allow input) = Inr (po_allow p)"
    and "scope_ids (rp_customers input) = Inr (po_customers p)" and "scope_ids (rp_channels input) = Inr (po_channels p)"
    and "scope_ids (rp_projects input) = Inr (po_projects p)" and "refund_limit (po_refund_max p) = Inr ()"
    and "grants_of m (rp_grants input) = Inr (po_grants p)"
    and "revocations_from m [] (rp_revocations input) = Inr vs" and "po_revocations p = sort_key rv_permission vs"
  using assms by (auto simp: auth_policy_def split: if_splits)

lemma auth_policy_ok:
  assumes "auth_policy m input = Inr p"
  shows "policy_ok m p"
  using assms
proof (rule auth_policy_Inr)
  fix roles vs
  assume a: "policy_name (po_principal p)" "po_version p = 1" "refund_limit (po_refund_max p) = Inr ()"
    "po_roles p = sort_key fst roles" "po_revocations p = sort_key rv_permission vs"
    and roles: "mapR (role_entry m) (rp_roles input) = Inr roles"
    and own: "principal_roles roles (rp_principal_roles input) = Inr (po_principal_roles p)"
    and parts: "allowList m (rp_allow input) = Inr (po_allow p)"
      "scope_ids (rp_customers input) = Inr (po_customers p)" "scope_ids (rp_channels input) = Inr (po_channels p)"
      "scope_ids (rp_projects input) = Inr (po_projects p)" "grants_of m (rp_grants input) = Inr (po_grants p)"
    and vs: "revocations_from m [] (rp_revocations input) = Inr vs"
  have "canonical (map rv_permission (po_revocations p))"
    unfolding a(5) by (rule sort_key_distinct) (use revocations_from_ok [OF vs] in blast)
  then show ?thesis
    using a roles_ok [OF roles] principal_roles_ok [OF own] allowList_ok [OF parts(1)] scope_ids_ok [OF parts(2)]
      scope_ids_ok [OF parts(3)] scope_ids_ok [OF parts(4)] grants_of_ok [OF parts(5)] revocations_from_ok [OF vs]
    unfolding policy_ok_def by (intro conjI) auto
qed

lemma auth_policy_again:
  assumes "policy_ok m p"
  shows "auth_policy m (raw_of_policy p) = Inr p"
proof -
  have "revocations_from m [] (map raw_of_revocation (po_revocations p)) = Inr (po_revocations p)"
    by (rule revocations_from_again) (use assms in \<open>auto simp: policy_ok_def\<close>)
  moreover have "sort_key fst (po_roles p) = po_roles p" "sort_key rv_permission (po_revocations p) = po_revocations p"
    using assms by (auto simp: policy_ok_def intro: sort_key_id_if_sorted)
  moreover have "mapR (role_entry m) (po_roles p) = Inr (po_roles p)" by (rule roles_again) (use assms in \<open>simp add: policy_ok_def\<close>)
  moreover have "principal_roles (po_roles p) (po_principal_roles p) = Inr (po_principal_roles p)"
    by (rule principal_roles_again) (use assms in \<open>simp_all add: policy_ok_def\<close>)
  ultimately show ?thesis
    using assms by (auto simp: auth_policy_def raw_of_policy_def policy_ok_def allowList_again scope_ids_again grants_of_again)
qed

section \<open>Chaos policies\<close>

record raw_rule =
  rr_id :: string
  rr_type :: string
  rr_operations :: "string list"
  rr_status :: "int option"
  rr_times :: "int option"
  rr_after :: "int option"
  rr_duration :: "int option"
  rr_body :: "string option"
  rr_actor :: "actor option"

record raw_chaos =
  rc_version :: int
  rc_rules :: "raw_rule list"

definition ruleID :: "string \<Rightarrow> bool" where
  "ruleID = name_ok ''_-''"

fun known_operations :: "manifest \<Rightarrow> string list \<Rightarrow> string list \<Rightarrow> bool" where
  "known_operations m seen [] = True"
| "known_operations m seen (i # is) = (Operation m i \<noteq> None \<and> i \<notin> set seen \<and> known_operations m (i # seen) is)"

definition below :: "int \<Rightarrow> int option \<Rightarrow> bool" where
  "below n v = (case v of None \<Rightarrow> False | Some i \<Rightarrow> i < n)"

definition or_zero :: "int option \<Rightarrow> int" where
  "or_zero v = (case v of None \<Rightarrow> 0 | Some i \<Rightarrow> i)"

text \<open>The fields a type of rule requires, filled into the rule.\<close>

definition rule_type :: "raw_rule \<Rightarrow> rule \<Rightarrow> rule res" where
  "rule_type e r =
     (if rr_type e = ''http_error'' then
        (case rr_status e of
           None \<Rightarrow> Inl (Err ''requires HTTP status 400-599 and positive times'')
         | Some s \<Rightarrow> if s < 400 \<or> s > 599 \<or> rr_times e = None
                     then Inl (Err ''requires HTTP status 400-599 and positive times'') else Inr (r\<lparr>cr_status := s\<rparr>))
      else if rr_type e = ''latency'' then
        (case rr_duration e of None \<Rightarrow> Inl (Err ''requires duration_ms'') | Some n \<Rightarrow> Inr (r\<lparr>cr_duration := n\<rparr>))
      else if rr_type e \<in> set [''timeout'', ''malformed_response'', ''concurrent_mutation'', ''partial_service_outage'',
                              ''timeout_after_commit''] then
        (if rr_times e = None then Inl (Err ''requires times'') else Inr r)
      else if rr_type e \<in> set [''rate_limit'', ''permission_revocation''] then
        (if rr_after e = None then Inl (Err ''requires after_calls'') else Inr r)
      else if rr_type e = ''stale_read'' then
        (if rr_after e = None \<or> below 1 (rr_after e) then Inl (Err ''requires after_calls of at least one'') else Inr r)
      else Inl (Err ''unsupported type''))"

text \<open>The behavior of an operation known to be compiled.\<close>

definition behavior_of :: "manifest \<Rightarrow> string \<Rightarrow> string" where
  "behavior_of m i = (case Operation m i of None \<Rightarrow> [] | Some op \<Rightarrow> op_behavior op)"

definition rule_targets :: "manifest \<Rightarrow> raw_rule \<Rightarrow> unit res" where
  "rule_targets m e =
     (if rr_type e = ''timeout_after_commit'' \<and> \<not> list_all (\<lambda>i. mutatingBehavior (behavior_of m i)) (rr_operations e)
       \<or> rr_type e = ''stale_read'' \<and> \<not> list_all (\<lambda>i. readingBehavior (behavior_of m i)) (rr_operations e)
      then Inl (Err ''cannot target behavior'')
      else if rr_type e = ''partial_service_outage'' \<and> length (rr_operations e) < 2 then Inl (Err ''requires multiple operations'')
      else Inr ())"

definition rule_body :: "raw_rule \<Rightarrow> rule \<Rightarrow> rule res" where
  "rule_body e r =
     (if rr_type e = ''malformed_response'' then
        (case rr_body e of
           None \<Rightarrow> Inl (Err ''requires body'')
         | Some b \<Rightarrow> if b = [] then Inl (Err ''requires body'') else Inr (r\<lparr>cr_body := b\<rparr>))
      else if rr_body e \<noteq> None then Inl (Err ''does not accept body'') else Inr r)"

definition rule_actor :: "manifest \<Rightarrow> raw_rule \<Rightarrow> rule \<Rightarrow> rule res" where
  "rule_actor m e r =
     (if rr_type e = ''concurrent_mutation'' then
        (case rr_actor e of
           None \<Rightarrow> Inl (Err ''requires actor'')
         | Some a \<Rightarrow> (case Operation m (at_operation a) of
             None \<Rightarrow> Inl (Err ''actor must use a compiled mutating operation'')
           | Some op \<Rightarrow>
               if \<not> mutatingBehavior (op_behavior op) then Inl (Err ''actor must use a compiled mutating operation'')
               else bindR (validateArguments op (at_arguments a)) (\<lambda>_. Inr (r\<lparr>cr_actor := Some a\<rparr>))))
      else if rr_actor e \<noteq> None then Inl (Err ''does not accept actor'') else Inr r)"

definition chaos_rule :: "manifest \<Rightarrow> raw_rule \<Rightarrow> rule res" where
  "chaos_rule m e =
     (if rr_operations e = [] then Inl (Err ''requires operations'')
      else if \<not> known_operations m [] (rr_operations e) then Inl (Err ''unknown or duplicate operation'')
      else if below 1 (rr_times e) then Inl (Err ''times must be positive'')
      else if below 0 (rr_after e) then Inl (Err ''after_calls must be nonnegative'')
      else if below 1 (rr_duration e) then Inl (Err ''duration_ms must be positive'')
      else
        bindR (rule_type e (zero_rule\<lparr>cr_id := rr_id e, cr_type := rr_type e, cr_operations := rr_operations e,
                 cr_times := or_zero (rr_times e), cr_after := or_zero (rr_after e)\<rparr>)) (\<lambda>r.
        if rr_type e \<noteq> ''http_error'' \<and> rr_status e \<noteq> None then Inl (Err ''does not accept status'')
        else if rr_type e \<noteq> ''latency'' \<and> rr_duration e \<noteq> None then Inl (Err ''does not accept duration_ms'')
        else bindR (rule_targets m e) (\<lambda>_. bindR (rule_body e r) (rule_actor m e))))"

fun chaos_rules :: "manifest \<Rightarrow> string list \<Rightarrow> raw_rule list \<Rightarrow> rule list res" where
  "chaos_rules m ids [] = Inr []"
| "chaos_rules m ids (e # es) =
     (if \<not> ruleID (rr_id e) \<or> rr_id e \<in> set ids then Inl (Err ''invalid or duplicate chaos rule ID'')
      else bindR (chaos_rule m e) (\<lambda>r. bindR (chaos_rules m (rr_id e # ids) es) (\<lambda>rs. Inr (r # rs))))"

definition chaos_policy_of :: "manifest \<Rightarrow> raw_chaos \<Rightarrow> chaos_policy res" where
  "chaos_policy_of m input =
     (if rc_version input \<noteq> 1 then Inl (Err ''unsupported chaos policy version'')
      else if rc_rules input = [] then Inl (Err ''chaos policy requires at least one rule'')
      else bindR (chaos_rules m [] (rc_rules input)) (\<lambda>rs. Inr \<lparr>cp_version = 1, cp_rules = rs\<rparr>))"

definition chaos_Parse :: "'x golib_scheme \<Rightarrow> raw_chaos yaml \<Rightarrow> string \<Rightarrow> manifest \<Rightarrow> chaos_policy res" where
  "chaos_Parse L Y raw m = bindR (ValidateManifest L m) (\<lambda>_. bindR (read_mapping Y version_tag raw) (chaos_policy_of m))"

definition rule_json :: "'x golib_scheme \<Rightarrow> rule \<Rightarrow> json" where
  "rule_json L r = JObj (
     [(''id'', JStr (cr_id r)), (''type'', JStr (cr_type r)), (''operations'', texts (cr_operations r))]
     @ optional (cr_status r \<noteq> 0) ''status'' (jint (cr_status r)) @ optional (cr_times r \<noteq> 0) ''times'' (jint (cr_times r))
     @ optional (cr_after r \<noteq> 0) ''after_calls'' (jint (cr_after r))
     @ optional (cr_duration r \<noteq> 0) ''duration_ms'' (jint (cr_duration r)) @ optional (cr_body r \<noteq> []) ''body'' (JStr (cr_body r))
     @ (case cr_actor r of None \<Rightarrow> []
        | Some a \<Rightarrow> [(''actor'', JObj [(''operation'', JStr (at_operation a)), (''arguments'', marshal_args L (at_arguments a))])]))"

definition chaos_json :: "'x golib_scheme \<Rightarrow> chaos_policy \<Rightarrow> json" where
  "chaos_json L p = JObj [(''version'', jint (cp_version p)), (''rules'', JArr (map (rule_json L) (cp_rules p)))]"

definition chaos_CanonicalJSON :: "'x golib_scheme \<Rightarrow> chaos_policy \<Rightarrow> string" where
  "chaos_CanonicalJSON L p = print_json L (chaos_json L p)"

definition chaos_Digest :: "'x golib_scheme \<Rightarrow> chaos_policy \<Rightarrow> string" where
  "chaos_Digest L p = hex_digest L (chaos_CanonicalJSON L p)"

text \<open>The counter a stored rule omits when it is zero, put back so that the rule reads as it was written.\<close>

definition restore_after :: "val \<Rightarrow> val res" where
  "restore_after v =
     (case v of
        VObj kvs \<Rightarrow>
          if map_of kvs ''type'' \<in> {Some (VStr ''rate_limit''), Some (VStr ''permission_revocation'')} \<and> map_of kvs ''after_calls'' = None
          then Inr (VObj (kvs @ [(''after_calls'', VFloat 0)])) else Inr v
      | _ \<Rightarrow> Inl (Err ''invalid stored chaos rule''))"

definition restored :: "val \<Rightarrow> val res" where
  "restored doc =
     (case doc of
        VObj kvs \<Rightarrow> (case map_of kvs ''rules'' of
            Some (VArr rules) \<Rightarrow> bindR (mapR restore_after rules) (\<lambda>rs.
              Inr (VObj (map (\<lambda>(k, v). if k = ''rules'' then (k, VArr rs) else (k, v)) kvs)))
          | _ \<Rightarrow> Inr doc)
      | VNil \<Rightarrow> Inr doc
      | _ \<Rightarrow> Inl (Err ''json''))"

definition chaos_ValidateStored ::
    "'x lib_scheme \<Rightarrow> raw_chaos yaml \<Rightarrow> string \<Rightarrow> string \<Rightarrow> manifest \<Rightarrow> chaos_policy res" where
  "chaos_ValidateStored L Y encoded digest m =
     (case decode_chaos L encoded of
        None \<Rightarrow> Inl (Err ''json'')
      | Some policy \<Rightarrow>
          if chaos_CanonicalJSON L policy \<noteq> encoded \<or> chaos_Digest L policy \<noteq> digest
          then Inl (Err ''stored chaos policy is not canonical or digest differs'')
          else (case parse_json L encoded of
              None \<Rightarrow> Inl (Err ''json'')
            | Some j \<Rightarrow> bindR (restored (unmarshal L j)) (\<lambda>document.
                case chaos_Parse L Y (print_json L (marshal L document)) m of
                  Inl _ \<Rightarrow> Inl (Err ''stored chaos policy fails validation'')
                | Inr validated \<Rightarrow>
                    if chaos_Digest L validated \<noteq> digest then Inl (Err ''stored chaos policy fails validation'')
                    else Inr policy)))"

section \<open>Accepted rules\<close>

definition rule_types :: "string list" where
  "rule_types = [''http_error'', ''latency'', ''timeout'', ''malformed_response'', ''concurrent_mutation'', ''partial_service_outage'',
     ''timeout_after_commit'', ''rate_limit'', ''permission_revocation'', ''stale_read'']"

definition rule_ok :: "manifest \<Rightarrow> rule \<Rightarrow> bool" where
  "rule_ok m r \<longleftrightarrow>
     ruleID (cr_id r) \<and> cr_type r \<in> set rule_types \<and> 0 \<le> cr_times r \<and> 0 \<le> cr_after r
   \<and> cr_operations r \<noteq> [] \<and> distinct (cr_operations r) \<and> (\<forall>i \<in> set (cr_operations r). Operation m i \<noteq> None)
   \<and> (cr_type r = ''http_error'' \<longrightarrow> 400 \<le> cr_status r \<and> cr_status r \<le> 599)
   \<and> (cr_type r = ''timeout_after_commit'' \<longrightarrow> (\<forall>i \<in> set (cr_operations r). mutatingBehavior (behavior_of m i)))
   \<and> (cr_type r = ''stale_read'' \<longrightarrow> 1 \<le> cr_after r \<and> (\<forall>i \<in> set (cr_operations r). readingBehavior (behavior_of m i)))
   \<and> (cr_actor r \<noteq> None \<longleftrightarrow> cr_type r = ''concurrent_mutation'')
   \<and> (\<forall>a. cr_actor r = Some a \<longrightarrow> (\<exists>op. Operation m (at_operation a) = Some op \<and> mutatingBehavior (op_behavior op)
        \<and> validateArguments op (at_arguments a) = Inr ()))"

definition nonzero :: "int \<Rightarrow> int option" where
  "nonzero i = (if i = 0 then None else Some i)"

text \<open>What the decoder reads from the canonical text of a rule once the omitted counter is restored.\<close>

definition raw_of_rule :: "rule \<Rightarrow> raw_rule" where
  "raw_of_rule r =
     \<lparr>rr_id = cr_id r, rr_type = cr_type r, rr_operations = cr_operations r, rr_status = nonzero (cr_status r),
      rr_times = nonzero (cr_times r),
      rr_after = (if cr_type r \<in> set [''rate_limit'', ''permission_revocation''] then Some (cr_after r) else nonzero (cr_after r)),
      rr_duration = nonzero (cr_duration r), rr_body = (if cr_body r = [] then None else Some (cr_body r)), rr_actor = cr_actor r\<rparr>"

definition raw_of_chaos :: "chaos_policy \<Rightarrow> raw_chaos" where
  "raw_of_chaos p = \<lparr>rc_version = cp_version p, rc_rules = map raw_of_rule (cp_rules p)\<rparr>"

lemma known_operations_iff:
  "known_operations m seen is \<longleftrightarrow> distinct is \<and> set is \<inter> set seen = {} \<and> (\<forall>i \<in> set is. Operation m i \<noteq> None)"
  by (induction "is" arbitrary: seen) auto

lemma rule_type_Inr:
  assumes "rule_type e r0 = Inr r"
  shows "rr_type e \<in> set rule_types \<and> r = r0\<lparr>cr_status := (if rr_type e = ''http_error'' then or_zero (rr_status e) else cr_status r0),
      cr_duration := (if rr_type e = ''latency'' then or_zero (rr_duration e) else cr_duration r0)\<rparr>
    \<and> (rr_type e = ''http_error'' \<longrightarrow> (\<exists>s. rr_status e = Some s \<and> 400 \<le> s \<and> s \<le> 599))
    \<and> (rr_type e \<in> set [''rate_limit'', ''permission_revocation''] \<longrightarrow> rr_after e \<noteq> None)
    \<and> (rr_type e = ''stale_read'' \<longrightarrow> (\<exists>n. rr_after e = Some n \<and> 1 \<le> n))"
  using assms
  by (auto simp: rule_type_def rule_types_def or_zero_def below_def split: if_splits option.splits)

lemma rule_body_Inr:
  assumes "rule_body e r0 = Inr r"
  shows "r = r0\<lparr>cr_body := (case rr_body e of None \<Rightarrow> cr_body r0 | Some b \<Rightarrow> b)\<rparr> \<and> rr_body e \<noteq> Some []"
  using assms by (auto simp: rule_body_def split: if_splits option.splits)

lemma rule_actor_Inr:
  assumes "rule_actor m e r0 = Inr r" and "cr_actor r0 = None"
  shows "r = r0\<lparr>cr_actor := rr_actor e\<rparr> \<and> (rr_actor e \<noteq> None \<longleftrightarrow> rr_type e = ''concurrent_mutation'')
    \<and> (\<forall>a. rr_actor e = Some a \<longrightarrow> (\<exists>op. Operation m (at_operation a) = Some op \<and> mutatingBehavior (op_behavior op)
        \<and> validateArguments op (at_arguments a) = Inr ()))"
  using assms by (auto simp: rule_actor_def split: if_splits option.splits)

lemma chaos_rule_parts:
  assumes "chaos_rule m e = Inr r"
  obtains r1 r2 where "known_operations m [] (rr_operations e)" "rr_operations e \<noteq> []"
    and "\<not> below 1 (rr_times e)" "\<not> below 0 (rr_after e)" "\<not> below 1 (rr_duration e)"
    and "rule_type e (zero_rule\<lparr>cr_id := rr_id e, cr_type := rr_type e, cr_operations := rr_operations e,
           cr_times := or_zero (rr_times e), cr_after := or_zero (rr_after e)\<rparr>) = Inr r1"
    and "rr_type e \<noteq> ''http_error'' \<longrightarrow> rr_status e = None" "rr_type e \<noteq> ''latency'' \<longrightarrow> rr_duration e = None"
    and "rule_targets m e = Inr ()" "rule_body e r1 = Inr r2" "rule_actor m e r2 = Inr r"
  using assms by (auto simp: chaos_rule_def split: if_splits)

lemma chaos_rule_fields:
  assumes "chaos_rule m e = Inr r"
  shows "r = \<lparr>cr_id = rr_id e, cr_type = rr_type e, cr_operations = rr_operations e, cr_status = or_zero (rr_status e),
      cr_times = or_zero (rr_times e), cr_after = or_zero (rr_after e), cr_duration = or_zero (rr_duration e),
      cr_body = (case rr_body e of None \<Rightarrow> [] | Some b \<Rightarrow> b), cr_actor = rr_actor e\<rparr>"
  using assms
proof (rule chaos_rule_parts)
  fix r1 r2
  assume t: "rule_type e (zero_rule\<lparr>cr_id := rr_id e, cr_type := rr_type e, cr_operations := rr_operations e,
           cr_times := or_zero (rr_times e), cr_after := or_zero (rr_after e)\<rparr>) = Inr r1"
    and n: "rr_type e \<noteq> ''http_error'' \<longrightarrow> rr_status e = None" "rr_type e \<noteq> ''latency'' \<longrightarrow> rr_duration e = None"
    and b: "rule_body e r1 = Inr r2" and a: "rule_actor m e r2 = Inr r"
  have r1: "r1 = zero_rule\<lparr>cr_id := rr_id e, cr_type := rr_type e, cr_operations := rr_operations e, cr_status := or_zero (rr_status e),
      cr_times := or_zero (rr_times e), cr_after := or_zero (rr_after e), cr_duration := or_zero (rr_duration e)\<rparr>"
    using rule_type_Inr [OF t] n by (auto simp: zero_rule_def or_zero_def)
  have r2: "r2 = r1\<lparr>cr_body := (case rr_body e of None \<Rightarrow> [] | Some b \<Rightarrow> b)\<rparr>"
    using rule_body_Inr [OF b] r1 by (simp add: zero_rule_def split: option.split)
  have "r = r2\<lparr>cr_actor := rr_actor e\<rparr>" using rule_actor_Inr [OF a] r1 r2 by (simp add: zero_rule_def)
  then show ?thesis using r1 r2 by (simp add: zero_rule_def)
qed

lemma chaos_rule_ok:
  assumes "chaos_rule m e = Inr r" and "ruleID (rr_id e)"
  shows "rule_ok m r"
  using assms(1)
proof (rule chaos_rule_parts)
  fix r1 r2
  assume ops: "known_operations m [] (rr_operations e)" "rr_operations e \<noteq> []"
    and low: "\<not> below 1 (rr_times e)" "\<not> below 0 (rr_after e)"
    and t: "rule_type e (zero_rule\<lparr>cr_id := rr_id e, cr_type := rr_type e, cr_operations := rr_operations e,
           cr_times := or_zero (rr_times e), cr_after := or_zero (rr_after e)\<rparr>) = Inr r1"
    and targets: "rule_targets m e = Inr ()" and b: "rule_body e r1 = Inr r2" and a: "rule_actor m e r2 = Inr r"
  have "cr_actor r2 = None" using rule_type_Inr [OF t] rule_body_Inr [OF b] by (simp add: zero_rule_def)
  note actor = rule_actor_Inr [OF a this]
  have "0 \<le> or_zero (rr_times e)" "0 \<le> or_zero (rr_after e)"
    using low by (auto simp: below_def or_zero_def split: option.splits)
  moreover have "rr_type e = ''timeout_after_commit'' \<longrightarrow> (\<forall>i \<in> set (rr_operations e). mutatingBehavior (behavior_of m i))"
    "rr_type e = ''stale_read'' \<longrightarrow> (\<forall>i \<in> set (rr_operations e). readingBehavior (behavior_of m i))"
    using targets by (auto simp: rule_targets_def list_all_iff split: if_splits)
  moreover have "rr_type e = ''stale_read'' \<longrightarrow> 1 \<le> or_zero (rr_after e)"
    "rr_type e = ''http_error'' \<longrightarrow> 400 \<le> or_zero (rr_status e) \<and> or_zero (rr_status e) \<le> 599"
    using rule_type_Inr [OF t] by (auto simp: or_zero_def)
  ultimately show ?thesis
    unfolding rule_ok_def chaos_rule_fields [OF assms(1)]
    using rule_type_Inr [OF t] actor ops assms(2) by (simp add: known_operations_iff)
qed

text \<open>Reading a rule back changes at most a zero counter that means the same as none.\<close>

lemma raw_of_rule_cases:
  assumes "chaos_rule m e = Inr r"
  shows "raw_of_rule r = e \<or> rr_after e = Some 0 \<and> raw_of_rule r = e\<lparr>rr_after := None\<rparr>
     \<and> rr_type e \<notin> set [''rate_limit'', ''permission_revocation'', ''stale_read'']"
  using assms
proof (rule chaos_rule_parts)
  fix r1 r2
  assume low: "\<not> below 1 (rr_times e)" "\<not> below 1 (rr_duration e)"
    and t: "rule_type e (zero_rule\<lparr>cr_id := rr_id e, cr_type := rr_type e, cr_operations := rr_operations e,
           cr_times := or_zero (rr_times e), cr_after := or_zero (rr_after e)\<rparr>) = Inr r1"
    and n: "rr_type e \<noteq> ''http_error'' \<longrightarrow> rr_status e = None" and b: "rule_body e r1 = Inr r2"
  have kept: "nonzero (or_zero (rr_times e)) = rr_times e" "nonzero (or_zero (rr_duration e)) = rr_duration e"
    "nonzero (or_zero (rr_status e)) = rr_status e"
    "(if (case rr_body e of None \<Rightarrow> [] | Some b \<Rightarrow> b) = [] then None else Some (case rr_body e of None \<Rightarrow> [] | Some b \<Rightarrow> b)) = rr_body e"
    using low n rule_type_Inr [OF t] rule_body_Inr [OF b]
    by (auto simp: below_def or_zero_def nonzero_def split: option.splits)
  have after: "rr_type e \<in> set [''rate_limit'', ''permission_revocation''] \<Longrightarrow> Some (or_zero (rr_after e)) = rr_after e"
    "rr_type e = ''stale_read'' \<Longrightarrow> rr_after e \<noteq> Some 0"
    "rr_after e \<noteq> Some 0 \<Longrightarrow> nonzero (or_zero (rr_after e)) = rr_after e" "rr_after e = Some 0 \<Longrightarrow> nonzero (or_zero (rr_after e)) = None"
    using rule_type_Inr [OF t] by (auto simp: or_zero_def nonzero_def split: option.splits)
  have raw: "raw_of_rule r = e\<lparr>rr_after := (if rr_type e \<in> set [''rate_limit'', ''permission_revocation'']
      then Some (or_zero (rr_after e)) else nonzero (or_zero (rr_after e)))\<rparr>"
    unfolding chaos_rule_fields [OF assms] raw_of_rule_def rule.select_convs kept by (rule raw_rule.equality) simp_all
  show ?thesis
  proof (cases "rr_type e \<in> set [''rate_limit'', ''permission_revocation''] \<or> rr_after e \<noteq> Some 0")
    case True
    then have "raw_of_rule r = e\<lparr>rr_after := rr_after e\<rparr>" unfolding raw using after by (simp only: if_split) auto
    then show ?thesis by simp
  next
    case False
    then have "raw_of_rule r = e\<lparr>rr_after := None\<rparr>" unfolding raw using after by (simp only: if_split) auto
    then show ?thesis using False after(2) by auto
  qed
qed

lemma chaos_rule_without_after:
  assumes "rr_after e = Some 0" and "rr_type e \<notin> set [''rate_limit'', ''permission_revocation'', ''stale_read'']"
  shows "chaos_rule m (e\<lparr>rr_after := None\<rparr>) = chaos_rule m e"
proof -
  let ?e = "e\<lparr>rr_after := None\<rparr>"
  have "rule_type ?e = rule_type e"
    using assms by (intro ext) (simp add: rule_type_def cong: option.case_cong if_cong)
  moreover have "rule_targets m ?e = rule_targets m e" by (simp add: rule_targets_def)
  moreover have "rule_body ?e = rule_body e" by (intro ext) (simp add: rule_body_def cong: option.case_cong if_cong)
  moreover have "rule_actor m ?e = rule_actor m e" by (intro ext) (simp add: rule_actor_def cong: option.case_cong if_cong)
  ultimately show ?thesis using assms(1) unfolding chaos_rule_def by (simp add: below_def or_zero_def cong: if_cong)
qed

lemma chaos_rule_again:
  assumes "chaos_rule m e = Inr r"
  shows "chaos_rule m (raw_of_rule r) = Inr r"
  using raw_of_rule_cases [OF assms] chaos_rule_without_after [of e m] assms by auto

lemma chaos_rules_ok:
  assumes "chaos_rules m ids es = Inr rs"
  shows "distinct (map cr_id rs) \<and> set (map cr_id rs) \<inter> set ids = {} \<and> (\<forall>r \<in> set rs. rule_ok m r)
     \<and> length rs = length es \<and> chaos_rules m ids (map raw_of_rule rs) = Inr rs"
  using assms
proof (induction es arbitrary: ids rs)
  case (Cons e es)
  then obtain r rest where e: "ruleID (rr_id e)" "rr_id e \<notin> set ids" "chaos_rule m e = Inr r"
      and rest: "chaos_rules m (rr_id e # ids) es = Inr rest" and rs: "rs = r # rest"
    by (auto split: if_splits)
  have "cr_id r = rr_id e" "rr_id (raw_of_rule r) = cr_id r" using chaos_rule_fields [OF e(3)] by (simp_all add: raw_of_rule_def)
  then show ?case
    using Cons.IH [OF rest] chaos_rule_ok [OF e(3,1)] chaos_rule_again [OF e(3)] e rs by auto
qed simp

lemma chaos_policy_ok:
  assumes "chaos_policy_of m input = Inr p"
  shows "cp_version p = 1 \<and> cp_rules p \<noteq> [] \<and> distinct (map cr_id (cp_rules p)) \<and> (\<forall>r \<in> set (cp_rules p). rule_ok m r)
     \<and> chaos_policy_of m (raw_of_chaos p) = Inr p"
proof -
  obtain rs where rs: "chaos_rules m [] (rc_rules input) = Inr rs" "p = \<lparr>cp_version = 1, cp_rules = rs\<rparr>" "rc_rules input \<noteq> []"
    using assms by (auto simp: chaos_policy_of_def split: if_splits)
  then show ?thesis using chaos_rules_ok [OF rs(1)] by (auto simp: chaos_policy_of_def raw_of_chaos_def)
qed

section \<open>Properties\<close>

definition active_at :: "int \<Rightarrow> temporary_grant \<Rightarrow> bool" where
  "active_at call g \<longleftrightarrow> tg_starts g \<le> call \<and> call \<le> tg_ends g"

lemma before_disjoint:
  assumes "sorted_wrt before gs" and "g \<in> set gs" and "h \<in> set gs" and "tg_permission g = tg_permission h"
    and "active_at call g" and "active_at call h"
  shows "g = h"
proof (rule ccontr)
  assume "g \<noteq> h"
  obtain i j where ij: "i < length gs" "gs ! i = g" "j < length gs" "gs ! j = h" using assms(2,3) by (auto simp: in_set_conv_nth)
  then have "i < j \<or> j < i" using \<open>g \<noteq> h\<close> by (metis nat_neq_iff)
  then have "before g h \<or> before h g" using ij sorted_wrt_nth_less [OF assms(1)] by blast
  then show False using assms(4-6) by (auto simp: before_def active_at_def)
qed


text \<open>A text the YAML reader reads as a mapping without nulls, with an integer version, decoding to a given value.\<close>

definition reads :: "'r yaml \<Rightarrow> string \<Rightarrow> 'r \<Rightarrow> bool" where
  "reads Y text input \<longleftrightarrow> (\<exists>doc. ya_node Y text = Inr (Some doc) \<and> is_map doc \<and> rejectNulls doc = Inr ()
     \<and> version_tag doc = Inr () \<and> ya_decode Y text = Inr input \<and> ya_rest Y text = EndOfInput)"

lemma reads_mapping:
  assumes "reads Y text input"
  shows "read_mapping Y version_tag text = Inr input"
    and "read_mapping Y (\<lambda>doc. bindR (rejectNulls doc) (\<lambda>_. version_tag doc)) text = Inr input"
  using assms by (auto simp: reads_def read_mapping_def)


text \<open>
  An accepted chaos policy can be executed. Every rule has a name of its own, a known type and
  operations of the world; a lost response is only injected after operations that write and a
  stale one only into operations that read; a concurrent actor uses a compiled writing operation
  with valid arguments; and the rules read back from the stored form are the same rules, the
  omitted counters included.
\<close>

theorem accepted_chaos_policies:
  assumes "chaos_Parse L Y raw m = Inr p"
  shows "cp_version p = 1 \<and> cp_rules p \<noteq> [] \<and> distinct (map cr_id (cp_rules p)) \<and> (\<forall>r \<in> set (cp_rules p). rule_ok m r)
    \<and> chaos_policy_of m (raw_of_chaos p) = Inr p"
proof -
  obtain input where "chaos_policy_of m input = Inr p" using assms by (auto simp: chaos_Parse_def)
  then show ?thesis by (rule chaos_policy_ok)
qed

text \<open>A stored chaos policy validates when the readers read it as the JSON it is.\<close>

lemma stored_chaos_policies:
  assumes "chaos_Parse L Y raw m = Inr p"
    and "decode_chaos L (chaos_CanonicalJSON L p) = Some q" "chaos_CanonicalJSON L q = chaos_CanonicalJSON L p"
    and "parse_json L (chaos_CanonicalJSON L p) = Some j" "restored (unmarshal L j) = Inr doc"
    and "reads Y (print_json L (marshal L doc)) (raw_of_chaos p)"
  shows "chaos_ValidateStored L Y (chaos_CanonicalJSON L p) (chaos_Digest L p) m = Inr q"
proof -
  obtain input where valid: "ValidateManifest L m = Inr ()" and "chaos_policy_of m input = Inr p"
    using assms(1) by (auto simp: chaos_Parse_def)
  then have "chaos_policy_of m (raw_of_chaos p) = Inr p" using chaos_policy_ok by blast
  then have "chaos_Parse L Y (print_json L (marshal L doc)) m = Inr p"
    using valid reads_mapping [OF assms(6)] by (simp add: chaos_Parse_def)
  then show ?thesis using assms(2-5) by (simp add: chaos_ValidateStored_def chaos_Digest_def)
qed

section \<open>Witnesses\<close>

definition refund_op :: operation where
  "refund_op = \<lparr>op_id = ''createRefund'', op_service = [], op_method = ''POST'', op_path = ''/refunds'', op_behavior = ''billing.createRefund'',
     op_required = [''charge_id'', ''amount_cents'', ''reason''],
     op_properties = [(''charge_id'', ''string''), (''amount_cents'', ''integer''), (''reason'', ''string'')]\<rparr>"

definition refund_manifest :: manifest where
  "refund_manifest = \<lparr>mf_digest = [], mf_operations = [refund_op]\<rparr>"

lemma refund_manifest_valid: "ValidateManifest sample_lib refund_manifest = Inr ()"
proof -
  have "to_upper ''post'' = ''POST''" by code_simp
  then have "validateContract refund_op = Inr ()"
    by (simp add: validateContract_def refund_op_def routes_def get_route_def post_route_def)
  then show ?thesis
    by (simp add: ValidateManifest_def refund_manifest_def text_le_def refund_op_def digestOperations_def hex_digest_def
        hex_encode_def sample_lib_def)
qed

definition refund_raw :: raw_policy where
  "refund_raw = \<lparr>rp_version = 1, rp_principal = ''agent'', rp_principal_roles = [], rp_roles = [], rp_allow = [''refunds.create''],
     rp_customers = Some [''C-104''], rp_channels = None, rp_projects = None, rp_refund_max = Some 2000,
     rp_grants = [\<lparr>rg_permission = ''refunds.create'', rg_starts = Some 1, rg_ends = Some 3\<rparr>], rp_revocations = []\<rparr>"

definition always :: "'r \<Rightarrow> 'r yaml" where
  "always r = \<lparr>ya_node = (\<lambda>_. Inr (Some (YMap ''!!map'' [(YScalar ''!!str'' ''version'', YScalar ''!!int'' ''1'')]))),
     ya_decode = (\<lambda>_. Inr r), ya_rest = (\<lambda>_. EndOfInput)\<rparr>"

lemma always_reads: "reads (always r) text r"
  by (simp add: reads_def always_def rejectNulls_def null_scalar_def version_tag_def)

definition refund_policy :: policy where
  "refund_policy = \<lparr>po_version = 1, po_principal = ''agent'', po_principal_roles = [], po_roles = [], po_allow = [''refunds.create''],
     po_customers = Some [''C-104''], po_channels = None, po_projects = None, po_refund_max = Some 2000,
     po_grants = [\<lparr>tg_permission = ''refunds.create'', tg_starts = 1, tg_ends = 3\<rparr>], po_revocations = []\<rparr>"

lemma trimmed_id: "TrimSpace ''C-104'' = ''C-104''"
  by code_simp

lemma refund_parsed: "auth_Parse sample_lib (always refund_raw) [] refund_manifest = Inr refund_policy"
proof -
  have "auth_policy refund_manifest refund_raw = Inr refund_policy"
    by (simp add: auth_policy_def refund_raw_def refund_policy_def policy_name_def name_ok_def alpha_char_def digit_char_def Let_def
        principal_roles_def uniqueSorted_def allowList_def checkPermission_def known_def permissions_def available_def Permission_def
        refund_manifest_def refund_op_def trimmed_id grants_of_def grant_entry_def)
  then show ?thesis by (simp add: auth_Parse_def refund_manifest_valid reads_mapping [OF always_reads])
qed



definition limit_raw :: raw_chaos where
  "limit_raw = \<lparr>rc_version = 1, rc_rules = [\<lparr>rr_id = ''limit'', rr_type = ''rate_limit'', rr_operations = [''createRefund''],
     rr_status = None, rr_times = None, rr_after = Some 0, rr_duration = None, rr_body = None, rr_actor = None\<rparr>]\<rparr>"

theorem accepted_chaos_policies_witness:
  "\<exists>p. chaos_Parse sample_lib (always limit_raw) [] refund_manifest = Inr p \<and> chaos_policy_of refund_manifest (raw_of_chaos p) = Inr p
     \<and> (\<forall>r \<in> set (cp_rules p). rule_ok refund_manifest r)"
proof -
  obtain p where "chaos_policy_of refund_manifest limit_raw = Inr p"
    by (simp add: chaos_policy_of_def limit_raw_def ruleID_def name_ok_def alpha_char_def digit_char_def Let_def chaos_rule_def below_def
        rule_type_def rule_targets_def rule_body_def rule_actor_def Operation_def refund_manifest_def refund_op_def)
  then have p: "chaos_Parse sample_lib (always limit_raw) [] refund_manifest = Inr p"
    by (simp add: chaos_Parse_def refund_manifest_valid reads_mapping [OF always_reads])
  from accepted_chaos_policies [OF p] p show ?thesis by blast
qed

end
