(* ===== verification/Counterfactual.thy ===== *)
theory Counterfactual
  imports Policies Eval Replay Isolation "HOL-Library.AList"
begin

text \<open>
  Counterfactual experiments (\<open>internal/counterfactual\<close>): an intervention file is read and checked
  against the manifest; a completed, failing run is searched for the events an intervention can
  be applied to; each application is forked from the checkpoint before it, executed and judged,
  and the candidates are ranked by how often they changed the outcome. The lemmas show that every
  fork changes one variable at an event of the run, that the counts and the ranking are what the
  evidence says, and that the analysis leaves every existing run and world alone.
\<close>

section \<open>Interventions\<close>

definition KindChaosPolicy :: string where "KindChaosPolicy = ''chaos_policy''"
definition KindAuthPolicy :: string where "KindAuthPolicy = ''auth_policy''"
definition KindFault :: string where "KindFault = ''fault''"
definition KindModel :: string where "KindModel = ''model''"
definition KindToolResponse :: string where "KindToolResponse = ''tool_response''"

lemmas kind_defs = KindChaosPolicy_def KindAuthPolicy_def KindFault_def KindModel_def KindToolResponse_def

record intervention =
  iv_id :: string
  iv_kind :: string
  iv_calls :: "string list option"
  iv_policy :: string
  iv_operation :: "string option"
  iv_provider :: string
  iv_model :: string
  iv_call :: string
  iv_status :: int
  iv_body :: json
  iv_raw :: string

record intervention_set =
  st_interventions :: "intervention list"
  st_manifest :: manifest

record raw_intervention =
  ri_id :: string
  ri_kind :: string
  ri_calls :: "string list option"
  ri_policy :: "ynode option"
  ri_operation :: "string option"
  ri_provider :: string
  ri_model :: string
  ri_call :: string
  ri_status :: "int option"
  ri_body :: "ynode option"

record raw_interventions =
  rs_version :: int
  rs_interventions :: "raw_intervention list"

text \<open>
  What the reader of interventions uses of the YAML library besides decoding: writing a node out
  again and reading the value of a boolean scalar; and the readers of the two kinds of policy.
\<close>

record yaml_tools =
  yt_marshal :: "ynode \<Rightarrow> string res"
  yt_bool :: "string \<Rightarrow> bool res"
  yt_chaos :: "raw_chaos yaml"
  yt_auth :: "raw_policy yaml"

definition intervention_fields :: "(string \<times> string list) list" where
  "intervention_fields =
     [(KindChaosPolicy, [''calls'', ''policy'']), (KindAuthPolicy, [''calls'', ''policy'']), (KindFault, [''calls'', ''operation'']),
      (KindModel, [''calls'', ''provider'', ''model'']), (KindToolResponse, [''call'', ''status'', ''body''])]"

section \<open>Reading a document\<close>

text \<open>A file must hold no empty value, but inside the body of an intervention.\<close>

fun no_empty :: "string \<Rightarrow> ynode \<Rightarrow> bool" where
  "no_empty path (YScalar t v) = (\<not> (t = ''!!null'' \<or> t = ''!!str'' \<and> v = []))"
| "no_empty path (YSeq _ xs) = list_all (no_empty (path @ ''[]'')) xs"
| "no_empty path (YMap _ kvs) =
     list_all (\<lambda>kv. path = ''interventions file.interventions[]'' \<and> node_value (fst kv) = ''body''
        \<or> no_empty (path @ ''.'' @ node_value (fst kv)) (snd kv)) kvs"
| "no_empty path (YAlias _ _) = True"

fun seq_items :: "ynode \<Rightarrow> ynode list" where
  "seq_items (YSeq _ xs) = xs"
| "seq_items _ = []"

definition status_tags :: "ynode \<Rightarrow> bool" where
  "status_tags value =
     list_all (\<lambda>item. list_all (\<lambda>(k, v). node_value k = ''status'' \<longrightarrow> node_tag v = ''!!int'') (map_entries item)) (seq_items value)"

text \<open>The entries in order: the first that has a wrong tag decides the error.\<close>

definition check_document :: "ynode \<Rightarrow> unit res" where
  "check_document doc =
     bindR (foldR (\<lambda>(k, v) _.
         if node_value k = ''version'' \<and> node_tag v \<noteq> ''!!int'' then Inl (Err ''interventions version must be an integer'')
         else if node_value k = ''interventions'' \<and> \<not> status_tags v then Inl (Err ''intervention status must be an integer'')
         else Inr ()) (map_entries doc) ()) (\<lambda>_.
     if no_empty ''interventions file'' doc then Inr () else Inl (Err ''must not contain empty or null values''))"

fun bodyValue :: "'x golib_scheme \<Rightarrow> yaml_tools \<Rightarrow> ynode \<Rightarrow> json res"
  and bodyItems :: "'x golib_scheme \<Rightarrow> yaml_tools \<Rightarrow> ynode list \<Rightarrow> json list res"
  and bodyEntries :: "'x golib_scheme \<Rightarrow> yaml_tools \<Rightarrow> (ynode \<times> ynode) list \<Rightarrow> (string \<times> json) list res" where
  "bodyValue L T (YAlias _ n) = bodyValue L T n"
| "bodyValue L T (YMap _ kvs) = bindR (bodyEntries L T kvs) (\<lambda>es. Inr (jmap (AList.clearjunk (rev es))))"
| "bodyValue L T (YSeq _ xs) = bindR (bodyItems L T xs) (\<lambda>js. Inr (JArr js))"
| "bodyValue L T (YScalar t v) =
     (if t = ''!!null'' then Inr JNull
      else if t = ''!!bool'' then bindR (yt_bool T v) (\<lambda>b. Inr (JBool b))
      else if t = ''!!int'' \<or> t = ''!!float'' then
        (if parse_json L v \<noteq> None then Inr (JNum v) else Inl (Err ''body number is not a JSON number''))
      else if t = ''!!str'' \<or> t = ''!!timestamp'' then Inr (JStr v)
      else Inl (Err ''unsupported body value''))"
| "bodyItems L T [] = Inr []"
| "bodyItems L T (x # xs) = bindR (bodyValue L T x) (\<lambda>j. bindR (bodyItems L T xs) (\<lambda>js. Inr (j # js)))"
| "bodyEntries L T [] = Inr []"
| "bodyEntries L T ((k, v) # kvs) =
     (case k of
        YScalar t key \<Rightarrow>
          if t \<noteq> ''!!str'' then Inl (Err ''body keys must be strings'')
          else bindR (bodyValue L T v) (\<lambda>j. bindR (bodyEntries L T kvs) (\<lambda>es. Inr ((key, j) # es)))
      | _ \<Rightarrow> Inl (Err ''body keys must be strings''))"

section \<open>Checking an intervention\<close>

definition given :: "raw_intervention \<Rightarrow> (string \<times> bool) list" where
  "given r =
     [(''calls'', ri_calls r \<noteq> None), (''policy'', ri_policy r \<noteq> None), (''operation'', ri_operation r \<noteq> None),
      (''provider'', ri_provider r \<noteq> []), (''model'', ri_model r \<noteq> []), (''call'', ri_call r \<noteq> []),
      (''status'', ri_status r \<noteq> None), (''body'', ri_body r \<noteq> None)]"

definition blank_intervention :: "raw_intervention \<Rightarrow> intervention" where
  "blank_intervention r =
     \<lparr>iv_id = ri_id r, iv_kind = ri_kind r, iv_calls = ri_calls r, iv_policy = [], iv_operation = None, iv_provider = [], iv_model = [],
      iv_call = [], iv_status = 0, iv_body = JNull, iv_raw = []\<rparr>"

definition policy_intervention ::
    "'x golib_scheme \<Rightarrow> yaml_tools \<Rightarrow> manifest \<Rightarrow> raw_intervention \<Rightarrow> intervention \<Rightarrow> intervention res" where
  "policy_intervention L T m r out =
     (case ri_policy r of
        None \<Rightarrow> Inl (Err ''kind requires policy'')
      | Some n \<Rightarrow>
          if \<not> is_map n then Inl (Err ''policy must be a mapping'')
          else bindR (yt_marshal T n) (\<lambda>raw.
            bindR (if ri_kind r = KindChaosPolicy then bindR (chaos_Parse L (yt_chaos T) raw m) (\<lambda>p. Inr (chaos_CanonicalJSON L p))
                   else bindR (auth_Parse L (yt_auth T) raw m) (\<lambda>p. Inr (auth_CanonicalJSON L p))) (\<lambda>text.
            Inr (out\<lparr>iv_policy := text, iv_raw := raw\<rparr>))))"

definition response_intervention ::
    "'x golib_scheme \<Rightarrow> yaml_tools \<Rightarrow> raw_intervention \<Rightarrow> intervention \<Rightarrow> intervention res" where
  "response_intervention L T r out =
     (if ri_call r = [] then Inl (Err ''kind tool_response requires call'')
      else case ri_status r of
        None \<Rightarrow> Inl (Err ''kind tool_response requires status'')
      | Some s \<Rightarrow>
          if s \<noteq> 0 \<and> (s < 100 \<or> s > 599) then Inl (Err ''status must be 0 or 100 to 599'')
          else case ri_body r of
            None \<Rightarrow> Inl (Err ''kind tool_response requires body'')
          | Some n \<Rightarrow> bindR (bodyValue L T n) (\<lambda>j. Inr (out\<lparr>iv_call := ri_call r, iv_status := s, iv_body := j\<rparr>)))"

definition normalize_intervention ::
    "'x golib_scheme \<Rightarrow> yaml_tools \<Rightarrow> manifest \<Rightarrow> raw_intervention \<Rightarrow> intervention res" where
  "normalize_intervention L T m r =
     (case map_of intervention_fields (ri_kind r) of
        None \<Rightarrow> Inl (Err ''unsupported kind'')
      | Some allowed \<Rightarrow>
          if list_ex (\<lambda>(field, present). present \<and> field \<notin> set allowed) (given r) then Inl (Err ''kind does not accept field'')
          else if ri_calls r = Some [] then Inl (Err ''calls must not be empty'')
          else if ri_calls r \<noteq> None \<and> \<not> distinct (the (ri_calls r)) then Inl (Err ''duplicate call'')
          else
            let out = blank_intervention r in
            if ri_kind r = KindChaosPolicy \<or> ri_kind r = KindAuthPolicy then policy_intervention L T m r out
            else if ri_kind r = KindFault then
              (if ri_operation r \<noteq> None \<and> Operation m (the (ri_operation r)) = None then Inl (Err ''unknown fault operation'')
               else Inr (out\<lparr>iv_operation := ri_operation r\<rparr>))
            else if ri_kind r = KindModel then
              (if ri_model r = [] then Inl (Err ''kind model requires model'')
               else Inr (out\<lparr>iv_provider := ri_provider r, iv_model := ri_model r\<rparr>))
            else response_intervention L T r out)"

fun normalize_all ::
    "'x golib_scheme \<Rightarrow> yaml_tools \<Rightarrow> manifest \<Rightarrow> string list \<Rightarrow> raw_intervention list \<Rightarrow> intervention list res" where
  "normalize_all L T m seen [] = Inr []"
| "normalize_all L T m seen (r # rs) =
     (if \<not> name_ok ''_-'' (ri_id r) \<or> ri_id r \<in> set seen then Inl (Err ''invalid or duplicate intervention id'')
      else bindR (normalize_intervention L T m r) (\<lambda>i. bindR (normalize_all L T m (ri_id r # seen) rs) (\<lambda>is. Inr (i # is))))"

definition cf_Parse ::
    "'x golib_scheme \<Rightarrow> yaml_tools \<Rightarrow> raw_interventions yaml \<Rightarrow> string \<Rightarrow> manifest \<Rightarrow> intervention_set res" where
  "cf_Parse L T Y raw m =
     bindR (ValidateManifest L m) (\<lambda>_. bindR (read_mapping Y check_document raw) (\<lambda>input.
     if rs_version input \<noteq> 1 then Inl (Err ''unsupported interventions version'')
     else if rs_interventions input = [] then Inl (Err ''interventions file requires at least one intervention'')
     else bindR (normalize_all L T m [] (rs_interventions input)) (\<lambda>is. Inr \<lparr>st_interventions = is, st_manifest = m\<rparr>)))"

text \<open>The digest of a set: its manifest and the canonical interventions, zero fields omitted.\<close>

definition intervention_json :: "'x golib_scheme \<Rightarrow> intervention \<Rightarrow> json" where
  "intervention_json L i = JObj (
     [(''id'', JStr (iv_id i)), (''kind'', JStr (iv_kind i))]
     @ (case iv_calls i of None \<Rightarrow> [] | Some cs \<Rightarrow> optional (cs \<noteq> []) ''calls'' (texts cs))
     @ optional (iv_policy i \<noteq> []) ''policy'' (case parse_json L (iv_policy i) of None \<Rightarrow> JNull | Some j \<Rightarrow> j)
     @ (case iv_operation i of None \<Rightarrow> [] | Some p \<Rightarrow> [(''operation'', JStr p)])
     @ optional (iv_provider i \<noteq> []) ''provider'' (JStr (iv_provider i)) @ optional (iv_model i \<noteq> []) ''model'' (JStr (iv_model i))
     @ optional (iv_call i \<noteq> []) ''call'' (JStr (iv_call i)) @ optional (iv_status i \<noteq> 0) ''status'' (jint (iv_status i))
     @ optional (iv_kind i = KindToolResponse) ''body'' (iv_body i))"

definition set_Digest :: "'x golib_scheme \<Rightarrow> intervention_set \<Rightarrow> string" where
  "set_Digest L s = hex_digest L (print_json L (JObj
     [(''manifest'', JStr (mf_digest (st_manifest s))), (''interventions'', JArr (map (intervention_json L) (st_interventions s)))]))"

section \<open>Judges\<close>

record judge =
  jg_name :: string
  jg_digest :: string
  jg_check :: "fork_state \<Rightarrow> run_row \<Rightarrow> (bool \<times> string list) res"

definition AssertionJudge ::
    "'x golib_scheme \<Rightarrow> manifest \<Rightarrow> customs \<Rightarrow> assertion list \<Rightarrow> string \<Rightarrow> judge" where
  "AssertionJudge L m customs assertions digest =
     \<lparr>jg_name = ''assertions'', jg_digest = digest,
      jg_check = (\<lambda>(d, f) run. bindR (Check L m customs (run_lineage (r_id run) f) assertions (r_id run) d) (\<lambda>(passed, rs).
        Inr (passed, map rs_id (filter (\<lambda>r. \<not> rs_passed r) rs))))\<rparr>"

definition ScenarioJudge :: judge where
  "ScenarioJudge =
     \<lparr>jg_name = ''scenario_evaluation'', jg_digest = [],
      jg_check = (\<lambda>(d, f) run. bindR (Evaluate (db_world d) (r_world run) (r_scenario run)) (\<lambda>report.
        Inr (er_passed report, map fst (filter (\<lambda>c. \<not> snd c) (er_checks report)))))\<rparr>"

section \<open>The plan of an analysis\<close>

record outcome_row =
  oc_run :: string
  oc_status :: string
  oc_passed :: "bool option"
  oc_failed :: "string list"
  oc_error :: string

record cf_candidate =
  ca_seq :: nat
  ca_type :: string
  ca_label :: string
  ca_call :: string
  ca_operation :: string
  ca_intervention :: string
  ca_kind :: string
  ca_checkpoint :: nat
  ca_forks :: nat
  ca_changed :: nat
  ca_errored :: nat
  ca_incomplete :: nat
  ca_summary :: string
  ca_evidence :: "outcome_row list"

record cf_report =
  cf_run :: string
  cf_judge :: string
  cf_digest :: string
  cf_failed :: "string list"
  cf_interventions :: string
  cf_trials :: nat
  cf_candidates :: "cf_candidate list"

text \<open>
  The options of an analysis. A provider is a value of any type with equality, which stands for
  \<open>reflect.DeepEqual\<close>; how it answers is given when a fork is executed.
\<close>

record 'p cf_options =
  cf_trial_count :: int
  cf_steps :: int
  cf_provider :: "(string \<Rightarrow> string \<Rightarrow> string \<Rightarrow> 'p res) option"

record call =
  cl_id :: string
  cl_operation :: string
  cl_request :: nat
  cl_response :: nat
  cl_decision :: nat

record 'p plan =
  pn_candidate :: cf_candidate
  pn_checkpoint :: checkpoint
  pn_options :: fork_options
  pn_provider :: 'p

record 'p analysis =
  ay_header :: cf_report
  ay_plans :: "'p plan list"
  ay_manifest :: manifest
  ay_judge :: judge
  ay_options :: "'p cf_options"

text \<open>
  The calls of a ledger and the call the next model response decides after. A response without a
  call would index an empty slice; checkpoints are only listed of ledgers that have none.
\<close>

definition discover_event :: "event_row \<Rightarrow> call list \<times> nat option \<Rightarrow> (call list \<times> nat option) res" where
  "discover_event e = (\<lambda>(calls, decision).
     if e_type e = ''tool.request'' then
       bindR (call_and_operation (e_payload e)) (\<lambda>(callID, operation).
       Inr (calls @ [\<lparr>cl_id = callID, cl_operation = operation, cl_request = e_seq e, cl_response = 0, cl_decision = 0\<rparr>], None))
     else if e_type e = ''tool.response'' then
       (if calls = [] then Inl (Err ''index out of range'')
        else Inr (calls[length calls - 1 := (last calls)\<lparr>cl_response := e_seq e\<rparr>], Some (length calls - 1)))
     else if e_type e = ''model.response'' then
       (case decision of
          None \<Rightarrow> Inr (calls, None)
        | Some i \<Rightarrow> Inr (calls[i := (calls ! i)\<lparr>cl_decision := e_seq e\<rparr>], None))
     else Inr (calls, decision))"

definition discoverCalls :: "event_row list \<Rightarrow> call list res" where
  "discoverCalls evs = bindR (foldR discover_event evs ([], None)) (\<lambda>(calls, _). Inr calls)"

definition same_options :: fork_options where
  "same_options = \<lparr>fo_provider = [], fo_model = [], fo_fault = None, fo_chaos = [], fo_auth = [], fo_observation = None\<rparr>"

definition plan_options :: "run_row \<Rightarrow> intervention \<Rightarrow> fork_options res" where
  "plan_options parent i =
     (if iv_kind i = KindChaosPolicy then Inr (same_options\<lparr>fo_chaos := iv_raw i\<rparr>)
      else if iv_kind i = KindAuthPolicy then Inr (same_options\<lparr>fo_auth := iv_raw i\<rparr>)
      else if iv_kind i = KindFault then
        let operation = (case iv_operation i of None \<Rightarrow> [] | Some p \<Rightarrow> p) in
        if operation = r_fault_operation parent then Inl (Err ''intervention does not change the run's legacy fault'')
        else Inr (same_options\<lparr>fo_fault := Some operation\<rparr>)
      else if iv_kind i = KindModel then Inr (same_options\<lparr>fo_provider := iv_provider i, fo_model := iv_model i\<rparr>)
      else if iv_kind i = KindToolResponse
      then Inr (same_options\<lparr>fo_observation := Some \<lparr>ob_call = iv_call i, ob_status = iv_status i, ob_body = iv_body i\<rparr>\<rparr>)
      else Inr same_options)"

definition unchangedProvider ::
    "(string \<Rightarrow> string \<Rightarrow> string \<Rightarrow> 'p res) \<Rightarrow> run_row \<Rightarrow> string \<Rightarrow> string \<Rightarrow> 'p \<Rightarrow> bool" where
  "unchangedProvider source parent providerName model selected \<longleftrightarrow>
     providerName = r_provider parent \<and> model = r_model parent
   \<or> (case source (r_provider parent) (r_model parent) (r_scenario parent) of Inl _ \<Rightarrow> False | Inr original \<Rightarrow> original = selected)"

definition blank_candidate :: "call \<Rightarrow> intervention \<Rightarrow> cf_candidate" where
  "blank_candidate c i =
     \<lparr>ca_seq = 0, ca_type = [], ca_label = [], ca_call = cl_id c, ca_operation = cl_operation c, ca_intervention = iv_id i,
      ca_kind = iv_kind i, ca_checkpoint = 0, ca_forks = 0, ca_changed = 0, ca_errored = 0, ca_incomplete = 0, ca_summary = [],
      ca_evidence = []\<rparr>"

text \<open>The candidate of an intervention at a call; \<open>None\<close> is a call the loop passes over.\<close>

definition candidate_at :: "intervention \<Rightarrow> bool \<Rightarrow> call \<Rightarrow> cf_candidate option res" where
  "candidate_at i named c =
     (let k = blank_candidate c i in
      if iv_kind i = KindModel then
        if cl_decision c = 0 then (if named then Inl (Err ''no model decision follows call'') else Inr None)
        else Inr (Some (k\<lparr>ca_seq := cl_decision c, ca_type := ''model.response'', ca_checkpoint := cl_response c,
                          ca_label := ''model decision after '' @ cl_operation c\<rparr>))
      else if iv_kind i = KindToolResponse then
        Inr (Some (k\<lparr>ca_seq := cl_response c, ca_type := ''tool.response'', ca_checkpoint := cl_response c,
                     ca_label := cl_operation c @ '' observation''\<rparr>))
      else
        Inr (Some (k\<lparr>ca_seq := cl_request c, ca_type := ''tool.request'', ca_checkpoint := cl_request c - 1,
                     ca_label := cl_operation c @ '' dispatch''\<rparr>)))"

definition plan_target ::
    "intervention \<Rightarrow> bool \<Rightarrow> fork_options \<Rightarrow> 'p \<Rightarrow> checkpoint list \<Rightarrow> call \<Rightarrow> 'p plan list \<Rightarrow> 'p plan list res" where
  "plan_target i named opts provider points c plans =
     bindR (candidate_at i named c) (\<lambda>k. case k of
       None \<Rightarrow> Inr plans
     | Some candidate \<Rightarrow> bindR (Select points (ca_checkpoint candidate)) (\<lambda>selected.
         Inr (plans @ [\<lparr>pn_candidate = candidate, pn_checkpoint = selected, pn_options = opts, pn_provider = provider\<rparr>])))"

definition named_calls :: "intervention \<Rightarrow> string list option" where
  "named_calls i = (if iv_kind i = KindToolResponse then Some [iv_call i] else iv_calls i)"

definition find_call :: "call list \<Rightarrow> string \<Rightarrow> call res" where
  "find_call calls i =
     (case find (\<lambda>c. cl_id c = i) (rev calls) of None \<Rightarrow> Inl (Err ''run has no such call'') | Some c \<Rightarrow> Inr c)"

definition plan_intervention ::
    "readers \<Rightarrow> run_row \<Rightarrow> manifest \<Rightarrow> bool \<Rightarrow> call list \<Rightarrow> checkpoint list \<Rightarrow> (string \<Rightarrow> string \<Rightarrow> string \<Rightarrow> 'p res) \<Rightarrow>
       intervention \<Rightarrow> 'p plan list \<Rightarrow> 'p plan list res" where
  "plan_intervention R parent m chaos calls points source i plans =
     bindR (case named_calls i of None \<Rightarrow> Inr calls | Some ids \<Rightarrow> mapR (find_call calls) ids) (\<lambda>targets.
     if iv_kind i = KindFault \<and> chaos then Inl (Err ''a legacy fault cannot be combined with the run's chaos policy'')
     else if iv_kind i = KindChaosPolicy \<and> r_fault_operation parent \<noteq> []
     then Inl (Err ''a chaos policy would also clear the run's legacy fault'')
     else bindR (plan_options parent i) (\<lambda>opts.
       bindR (ValidateOptions R parent m opts) (\<lambda>_.
       let providerName = chosen (fo_provider opts) (r_provider parent); model = chosen (fo_model opts) (r_model parent) in
       bindR (source providerName model (r_scenario parent)) (\<lambda>provider.
       if iv_kind i = KindModel \<and> unchangedProvider source parent providerName model provider
       then Inl (Err ''intervention does not change the run's provider behavior'')
       else foldR (plan_target i (named_calls i \<noteq> None) opts provider points) targets plans))))"

definition planForks ::
    "readers \<Rightarrow> run_row \<Rightarrow> manifest \<Rightarrow> intervention list \<Rightarrow> call list \<Rightarrow> checkpoint list \<Rightarrow>
       (string \<Rightarrow> string \<Rightarrow> string \<Rightarrow> 'p res) \<Rightarrow> db \<Rightarrow> 'p plan list res" where
  "planForks R parent m is calls points source d =
     bindR (case ChaosPolicy (r_id parent) d of
              Inr _ \<Rightarrow> Inr True | Inl e \<Rightarrow> if e = ErrNoRows then Inr False else Inl e) (\<lambda>chaos.
     bindR (foldR (plan_intervention R parent m chaos calls points source) is []) (\<lambda>plans.
     if plans = [] then Inl (Err ''interventions produced no candidate events'') else Inr plans))"

definition Prepare ::
    "'x lib_scheme \<Rightarrow> (string \<Rightarrow> string) \<Rightarrow> readers \<Rightarrow> string \<Rightarrow> manifest \<Rightarrow> intervention_set \<Rightarrow> judge option \<Rightarrow> 'p cf_options \<Rightarrow>
       fork_state \<Rightarrow> 'p analysis res" where
  "Prepare L recorded R runID m s judge options = (\<lambda>(d, f).
     if st_interventions s = [] \<or> mf_digest (st_manifest s) \<noteq> mf_digest m
     then Inl (Err ''intervention set was not parsed for this manifest'')
     else case judge of None \<Rightarrow> Inl (Err ''judge is required'') | Some j \<Rightarrow>
     (case cf_provider options of
        None \<Rightarrow> Inl (Err ''counterfactual analysis requires 1 to 100 trials, positive steps, and a provider source'')
      | Some source \<Rightarrow>
     if cf_trial_count options < 1 \<or> cf_trial_count options > 100 \<or> cf_steps options < 1
     then Inl (Err ''counterfactual analysis requires 1 to 100 trials, positive steps, and a provider source'')
     else bindR (Run runID d) (\<lambda>parent.
       if r_status parent \<noteq> ''completed'' then Inl (Err ''counterfactual analysis requires a completed run'')
       else case Lineage runID f of
         Inr _ \<Rightarrow> Inl (Err ''counterfactual analysis requires a root run'')
       | Inl e \<Rightarrow>
           if e \<noteq> ErrNoRows then Inl e
           else bindR (List L recorded runID m d) (\<lambda>points.
             bindR (jg_check j (d, f) parent) (\<lambda>(passed, failed).
             if passed then Inl (Err ''counterfactual analysis explains failures'')
             else bindR (discoverCalls (Events runID d)) (\<lambda>calls.
               bindR (planForks R parent m (st_interventions s) calls points source d) (\<lambda>plans.
               Inr \<lparr>ay_header = \<lparr>cf_run = runID, cf_judge = jg_name j, cf_digest = jg_digest j, cf_failed = failed,
                                cf_interventions = set_Digest L s, cf_trials = nat (cf_trial_count options), cf_candidates = []\<rparr>,
                    ay_plans = plans, ay_manifest = m, ay_judge = j, ay_options = options\<rparr>)))))))"

section \<open>Running the forks\<close>

text \<open>
  What one fork meets: the bytes drawn for its identifiers, how its provider answers, and whether
  the context was cancelled by the time its execution returned.
\<close>

record 'p fork_run =
  fr_world :: "nat list"
  fr_run :: "nat list"
  fr_env :: "'p \<Rightarrow> env"
  fr_cancelled :: bool

text \<open>\<open>None\<close> is an execution that has not ended with the fuel given.\<close>

definition runFork ::
    "'x lib_scheme \<Rightarrow> (string \<Rightarrow> string) \<Rightarrow> readers \<Rightarrow> manifest \<Rightarrow> 'p plan \<Rightarrow> judge \<Rightarrow> int \<Rightarrow> nat \<Rightarrow> 'p fork_run \<Rightarrow>
       fork_state \<Rightarrow> (outcome_row res \<times> fork_state) option" where
  "runFork L recorded R m p judge steps fuel F s =
     (case Create L recorded R m (pn_options p) (pn_checkpoint p) (fr_world F) (fr_run F) (fst s) s of
        (Inl e, s1) \<Rightarrow> Some (Inl e, s1)
      | (Inr created, (d1, f1)) \<Rightarrow>
          (case Execute L (replay_runner L m) (Some (fr_env F (pn_provider p))) (r_id created) steps fuel d1 of
             None \<Rightarrow> None
           | Some (r, d2) \<Rightarrow>
               if fr_cancelled F then Some (Inl (Err ''context canceled''), (d2, f1))
               else let outcome = \<lparr>oc_run = r_id created, oc_status = [], oc_passed = None, oc_failed = [], oc_error = []\<rparr> in
               (case r of
                  Inl e \<Rightarrow> Some (Inr (outcome\<lparr>oc_status := ''failed'', oc_error := err_text e\<rparr>), (d2, f1))
                | Inr child \<Rightarrow>
                    if r_status child \<noteq> ''completed'' then Some (Inr (outcome\<lparr>oc_status := r_status child\<rparr>), (d2, f1))
                    else Some (bindR (jg_check judge (d2, f1) child) (\<lambda>(passed, failed).
                      Inr (outcome\<lparr>oc_status := r_status child, oc_passed := Some passed, oc_failed := failed\<rparr>)), (d2, f1)))))"

definition count_outcome :: "outcome_row \<Rightarrow> cf_candidate \<Rightarrow> cf_candidate" where
  "count_outcome o1 c =
     (let c1 = c\<lparr>ca_forks := Suc (ca_forks c)\<rparr>;
          c2 = (if oc_error o1 \<noteq> [] then c1\<lparr>ca_errored := Suc (ca_errored c1)\<rparr>
                else case oc_passed o1 of
                  None \<Rightarrow> c1\<lparr>ca_incomplete := Suc (ca_incomplete c1)\<rparr>
                | Some passed \<Rightarrow> if passed then c1\<lparr>ca_changed := Suc (ca_changed c1)\<rparr> else c1) in
      c2\<lparr>ca_evidence := ca_evidence c2 @ [o1]\<rparr>)"

definition summarize :: "cf_candidate \<Rightarrow> string" where
  "summarize c =
     (let head = ''#'' @ show_nat (ca_seq c) @ '' '' @ ca_label c @ '' ['' @ ca_intervention c @ '']'';
          text1 = (if ca_changed c > 0
                  then head @ '': corrected the final outcome in '' @ show_nat (ca_changed c) @ ''/'' @ show_nat (ca_forks c) @ '' forks''
                  else head @ '': no material effect (0/'' @ show_nat (ca_forks c) @ '' forks corrected the outcome)'') in
      if ca_errored c > 0 \<or> ca_incomplete c > 0
      then text1 @ ''; '' @ show_nat (ca_errored c) @ '' errored, '' @ show_nat (ca_incomplete c) @ '' did not complete''
      else text1)"

text \<open>The trials of a plan; \<open>n\<close> numbers the forks of the whole analysis.\<close>

fun run_trials ::
    "(nat \<Rightarrow> fork_state \<Rightarrow> (outcome_row res \<times> fork_state) option) \<Rightarrow> nat \<Rightarrow> nat \<Rightarrow> cf_candidate \<Rightarrow> fork_state \<Rightarrow>
       (cf_candidate res \<times> fork_state) option" where
  "run_trials fork1 0 n c s = Some (Inr c, s)"
| "run_trials fork1 (Suc k) n c s =
     (case fork1 n s of
        None \<Rightarrow> None
      | Some (Inl e, s1) \<Rightarrow> Some (Inl e, s1)
      | Some (Inr o1, s1) \<Rightarrow> run_trials fork1 k (Suc n) (count_outcome o1 c) s1)"

fun run_plans ::
    "(nat \<Rightarrow> 'p plan \<Rightarrow> fork_state \<Rightarrow> (outcome_row res \<times> fork_state) option) \<Rightarrow> nat \<Rightarrow> nat \<Rightarrow> 'p plan list \<Rightarrow> fork_state \<Rightarrow>
       (cf_candidate list res \<times> fork_state) option" where
  "run_plans fork1 trials n [] s = Some (Inr [], s)"
| "run_plans fork1 trials n (p # ps) s =
     (case run_trials (\<lambda>i. fork1 i p) trials n (pn_candidate p) s of
        None \<Rightarrow> None
      | Some (Inl e, s1) \<Rightarrow> Some (Inl e, s1)
      | Some (Inr c, s1) \<Rightarrow>
          (case run_plans fork1 trials (n + trials) ps s1 of
             None \<Rightarrow> None
           | Some (Inl e, s2) \<Rightarrow> Some (Inl e, s2)
           | Some (Inr cs, s2) \<Rightarrow> Some (Inr (c\<lparr>ca_summary := summarize c\<rparr> # cs), s2)))"

text \<open>The order of the report, and \<open>sort.SliceStable\<close> by it.\<close>

definition ranks_before :: "cf_candidate \<Rightarrow> cf_candidate \<Rightarrow> bool" where
  "ranks_before x y =
     (if ca_changed x * ca_forks y \<noteq> ca_changed y * ca_forks x then ca_changed x * ca_forks y > ca_changed y * ca_forks x
      else if ca_changed x \<noteq> ca_changed y then ca_changed x > ca_changed y
      else if ca_seq x \<noteq> ca_seq y then ca_seq x < ca_seq y
      else ca_intervention x < ca_intervention y)"

fun place :: "('a \<Rightarrow> 'a \<Rightarrow> bool) \<Rightarrow> 'a \<Rightarrow> 'a list \<Rightarrow> 'a list" where
  "place lt x [] = [x]"
| "place lt x (y # ys) = (if lt y x then y # place lt x ys else x # y # ys)"

definition stable_sort :: "('a \<Rightarrow> 'a \<Rightarrow> bool) \<Rightarrow> 'a list \<Rightarrow> 'a list" where
  "stable_sort lt xs = foldr (place lt) xs []"

definition cf_Run ::
    "'x lib_scheme \<Rightarrow> (string \<Rightarrow> string) \<Rightarrow> readers \<Rightarrow> nat \<Rightarrow> (nat \<Rightarrow> 'p fork_run) \<Rightarrow> 'p analysis \<Rightarrow> fork_state \<Rightarrow>
       (cf_report res \<times> fork_state) option" where
  "cf_Run L recorded R fuel F a s =
     (case run_plans (\<lambda>i p. runFork L recorded R (ay_manifest a) p (ay_judge a) (cf_steps (ay_options a)) fuel (F i))
             (nat (cf_trial_count (ay_options a))) 0 (ay_plans a) s of
        None \<Rightarrow> None
      | Some (Inl e, s1) \<Rightarrow> Some (Inl e, s1)
      | Some (Inr cs, s1) \<Rightarrow> Some (Inr ((ay_header a)\<lparr>cf_candidates := stable_sort ranks_before cs\<rparr>), s1))"

definition Analyze ::
    "'x lib_scheme \<Rightarrow> (string \<Rightarrow> string) \<Rightarrow> readers \<Rightarrow> nat \<Rightarrow> (nat \<Rightarrow> 'p fork_run) \<Rightarrow> string \<Rightarrow> manifest \<Rightarrow> intervention_set \<Rightarrow>
       judge option \<Rightarrow> 'p cf_options \<Rightarrow> fork_state \<Rightarrow> (cf_report res \<times> fork_state) option" where
  "Analyze L recorded R fuel F runID m set1 judge options s =
     (case Prepare L recorded R runID m set1 judge options s of
        Inl e \<Rightarrow> Some (Inl e, s) | Inr a \<Rightarrow> cf_Run L recorded R fuel F a s)"

section \<open>Counts and ranking\<close>

text \<open>What a candidate is, apart from what its forks showed.\<close>

definition ident :: "cf_candidate \<Rightarrow> nat \<times> string \<times> string \<times> string \<times> string \<times> string \<times> nat" where
  "ident c = (ca_seq c, ca_type c, ca_call c, ca_operation c, ca_intervention c, ca_kind c, ca_checkpoint c)"

definition corrected :: "outcome_row \<Rightarrow> bool" where
  "corrected r \<longleftrightarrow> oc_error r = [] \<and> oc_passed r = Some True"

definition unfinished :: "outcome_row \<Rightarrow> bool" where
  "unfinished r \<longleftrightarrow> oc_error r = [] \<and> oc_passed r = None"

definition tallied :: "cf_candidate \<Rightarrow> bool" where
  "tallied c \<longleftrightarrow> ca_forks c = length (ca_evidence c) \<and> ca_changed c = length (filter corrected (ca_evidence c))
     \<and> ca_errored c = length (filter (\<lambda>r. oc_error r \<noteq> []) (ca_evidence c))
     \<and> ca_incomplete c = length (filter unfinished (ca_evidence c))"

definition uncounted :: "cf_candidate \<Rightarrow> bool" where
  "uncounted c \<longleftrightarrow> tallied c \<and> ca_evidence c = []"

lemma count_outcome_tallied: "tallied c \<Longrightarrow> tallied (count_outcome r c)"
  by (auto simp: tallied_def count_outcome_def Let_def corrected_def unfinished_def split: option.split)

lemma count_outcome_ident [simp]: "ident (count_outcome r c) = ident c"
  by (simp add: ident_def count_outcome_def Let_def split: option.split)

lemma count_outcome_evidence [simp]: "ca_evidence (count_outcome r c) = ca_evidence c @ [r]"
  by (simp add: count_outcome_def Let_def split: option.split)

lemma run_trials_counts:
  assumes "run_trials fork1 k n c s = Some (Inr c', s')" and "tallied c"
  shows "tallied c' \<and> ident c' = ident c \<and> length (ca_evidence c') = length (ca_evidence c) + k"
  using assms
proof (induction k arbitrary: n c s)
  case (Suc k)
  then obtain r s1 where "run_trials fork1 k (Suc n) (count_outcome r c) s1 = Some (Inr c', s')"
    by (auto split: option.splits sum.splits prod.splits)
  from Suc.IH [OF this] count_outcome_tallied [OF Suc.prems(2)] show ?case by simp
qed simp

lemma run_plans_counts:
  assumes "run_plans fork1 trials n ps s = Some (Inr cs, s')" and "\<forall>p \<in> set ps. uncounted (pn_candidate p)"
  shows "map ident cs = map (\<lambda>p. ident (pn_candidate p)) ps
    \<and> (\<forall>c \<in> set cs. tallied c \<and> ca_forks c = trials \<and> ca_summary c = summarize c)"
  using assms
proof (induction ps arbitrary: n s cs s')
  case (Cons p ps)
  then obtain c s1 cs1 s2 where c: "run_trials (\<lambda>i. fork1 i p) trials n (pn_candidate p) s = Some (Inr c, s1)"
      and rest: "run_plans fork1 trials (n + trials) ps s1 = Some (Inr cs1, s2)" and cs: "cs = c\<lparr>ca_summary := summarize c\<rparr> # cs1"
    by (auto split: option.splits sum.splits prod.splits)
  have "tallied c" "ident c = ident (pn_candidate p)" "length (ca_evidence c) = trials"
    using run_trials_counts [OF c] Cons.prems(2) by (simp_all add: uncounted_def)
  moreover have "tallied (c\<lparr>ca_summary := t\<rparr>) = tallied c" "ident (c\<lparr>ca_summary := t\<rparr>) = ident c"
      "summarize (c\<lparr>ca_summary := t\<rparr>) = summarize c" for t by (simp_all add: tallied_def ident_def summarize_def cong: if_cong)
  ultimately show ?case using Cons.IH [OF rest] Cons.prems(2) cs by (simp add: tallied_def [of c])
qed simp

definition rank :: "cf_candidate \<Rightarrow> int \<times> nat \<times> string" where
  "rank c = (- int (ca_changed c), ca_seq c, ca_intervention c)"

lemma ranks_before_rank:
  assumes "ca_forks x = t" and "ca_forks y = t" and "0 < t"
  shows "ranks_before x y \<longleftrightarrow> rank x < rank y"
  using assms by (auto simp: ranks_before_def rank_def less_prod_def)

lemma set_place [simp]: "set (place lt x ys) = insert x (set ys)"
  by (induction ys) auto

lemma place_insort: "(\<forall>y \<in> set ys. lt y x \<longleftrightarrow> k y < k x) \<Longrightarrow> place lt x ys = insort_key k x ys"
  by (induction ys) (auto simp: not_less)

lemma stable_sort_key:
  assumes "\<forall>x \<in> set xs. \<forall>y \<in> set xs. lt x y \<longleftrightarrow> k x < k y"
  shows "stable_sort lt xs = sort_key k xs"
  using assms
proof (induction xs)
  case (Cons x xs)
  then have "stable_sort lt xs = sort_key k xs" by simp
  then show ?case
    using Cons.prems place_insort [of "sort_key k xs" lt x k] by (simp add: stable_sort_def)
qed (simp add: stable_sort_def)

text \<open>
  The report of an analysis says what its forks showed. It holds one candidate for each planned
  application, each forked once per trial; of these forks a candidate counts as changed exactly
  those that completed and passed, as errored those whose execution failed, as incomplete those
  that ended otherwise without a verdict; and candidates are ranked by how often the outcome
  changed, then by the order of the events they change.
\<close>

theorem report_counts_evidence:
  assumes "cf_Run L recorded R fuel F a s = Some (Inr report, s')" and "\<forall>p \<in> set (ay_plans a). uncounted (pn_candidate p)"
    and "0 < cf_trial_count (ay_options a)"
  shows "mset (map ident (cf_candidates report)) = mset (map (\<lambda>p. ident (pn_candidate p)) (ay_plans a))
    \<and> (\<forall>c \<in> set (cf_candidates report). tallied c \<and> int (ca_forks c) = cf_trial_count (ay_options a))
    \<and> sorted (map rank (cf_candidates report))"
proof -
  let ?t = "nat (cf_trial_count (ay_options a))"
  obtain cs s1 where cs: "run_plans (\<lambda>i p. runFork L recorded R (ay_manifest a) p (ay_judge a) (cf_steps (ay_options a)) fuel (F i))
        ?t 0 (ay_plans a) s = Some (Inr cs, s1)" and report: "cf_candidates report = stable_sort ranks_before cs"
    using assms(1) by (auto simp: cf_Run_def split: option.splits sum.splits prod.splits)
  note counts = run_plans_counts [OF cs assms(2)]
  have "stable_sort ranks_before cs = sort_key rank cs"
    by (rule stable_sort_key) (use counts assms(3) ranks_before_rank [of _ ?t] in auto)
  then have sorted: "cf_candidates report = sort_key rank cs" using report by simp
  have "mset (map ident (sort_key rank cs)) = mset (map ident cs)" by simp
  then show ?thesis using counts assms(3) unfolding sorted by simp
qed

section \<open>What is planned\<close>

text \<open>A call of a ledger: its request, and its response and the decision after it when there are any.\<close>

definition event_at :: "event_row list \<Rightarrow> nat \<Rightarrow> string \<Rightarrow> bool" where
  "event_at evs n t \<longleftrightarrow> (\<exists>e \<in> set evs. e_seq e = n \<and> e_type e = t)"

definition call_of :: "event_row list \<Rightarrow> call \<Rightarrow> bool" where
  "call_of evs c \<longleftrightarrow> event_at evs (cl_request c) ''tool.request''
     \<and> (cl_response c = 0 \<or> event_at evs (cl_response c) ''tool.response'')
     \<and> (cl_decision c = 0 \<or> event_at evs (cl_decision c) ''model.response'')"

lemma event_at_append: "event_at evs n t \<Longrightarrow> event_at (evs @ es) n t"
  by (auto simp: event_at_def)

lemma call_of_append: "call_of evs c \<Longrightarrow> call_of (evs @ es) c"
  by (auto simp: call_of_def event_at_append)

lemma discover_event_ok:
  assumes "discover_event e (calls, i) = Inr (calls', i')"
    and calls: "\<forall>c \<in> set calls. call_of evs c" and i: "\<forall>j. i = Some j \<longrightarrow> j < length calls"
  shows "(\<forall>c \<in> set calls'. call_of (evs @ [e]) c) \<and> (\<forall>j. i' = Some j \<longrightarrow> j < length calls')"
proof -
  have here: "event_at (evs @ [e]) (e_seq e) (e_type e)" by (auto simp: event_at_def)
  have old: "\<forall>c \<in> set calls. call_of (evs @ [e]) c" using calls call_of_append by blast
  consider (request) "e_type e = ''tool.request''" | (response) "e_type e = ''tool.response''" | (model) "e_type e = ''model.response''"
    | (other) "e_type e \<noteq> ''tool.request''" "e_type e \<noteq> ''tool.response''" "e_type e \<noteq> ''model.response''" by blast
  then show ?thesis
  proof cases
    case request
    then obtain p where "calls' = calls @ [\<lparr>cl_id = fst p, cl_operation = snd p, cl_request = e_seq e, cl_response = 0, cl_decision = 0\<rparr>]"
        "i' = None"
      using assms(1) by (auto simp: discover_event_def)
    then show ?thesis using old here request by (auto simp: call_of_def)
  next
    case response
    then have c: "calls \<noteq> []" and c': "calls' = calls[length calls - 1 := (last calls)\<lparr>cl_response := e_seq e\<rparr>]" "i' = Some (length calls - 1)"
      using assms(1) by (auto simp: discover_event_def split: if_splits)
    have l: "last calls \<in> set calls" using c by simp
    have "call_of (evs @ [e]) ((last calls)\<lparr>cl_response := e_seq e\<rparr>)"
      using old l here response by (auto simp: call_of_def)
    then show ?thesis using c c' old by (auto dest!: set_update_subset_insert [THEN subsetD])
  next
    case model
    show ?thesis
    proof (cases i)
      case None
      then show ?thesis using model assms(1) old by (auto simp: discover_event_def)
    next
      case (Some j)
      then have j: "j < length calls" using i by simp
      have c': "calls' = calls[j := (calls ! j)\<lparr>cl_decision := e_seq e\<rparr>]" "i' = None"
        using Some model assms(1) by (auto simp: discover_event_def)
      have "call_of (evs @ [e]) ((calls ! j)\<lparr>cl_decision := e_seq e\<rparr>)"
        using old j here model by (auto simp: call_of_def)
      then show ?thesis using c' old by (auto dest!: set_update_subset_insert [THEN subsetD])
    qed
  next
    case other
    then show ?thesis using assms(1) old i by (auto simp: discover_event_def)
  qed
qed

lemma discover_events_ok:
  assumes "foldR discover_event es (calls, i) = Inr (calls', i')"
    and "\<forall>c \<in> set calls. call_of evs c" and "\<forall>j. i = Some j \<longrightarrow> j < length calls"
  shows "\<forall>c \<in> set calls'. call_of (evs @ es) c"
  using assms
proof (induction es arbitrary: evs calls i)
  case (Cons e es)
  then obtain calls1 i1 where e: "discover_event e (calls, i) = Inr (calls1, i1)" and es: "foldR discover_event es (calls1, i1) = Inr (calls', i')"
    by auto
  from Cons.IH [OF es, of "evs @ [e]"] discover_event_ok [OF e Cons.prems(2,3)] show ?case by simp
qed simp

lemma discoverCalls_ok: "discoverCalls evs = Inr calls \<Longrightarrow> c \<in> set calls \<Longrightarrow> call_of evs c"
  using discover_events_ok [of evs "[]" None calls _ "[]"] by (auto simp: discoverCalls_def)

text \<open>At most one of the variables a fork can change.\<close>

definition one_variable :: "fork_options \<Rightarrow> bool" where
  "one_variable opts \<longleftrightarrow>
     length (filter id [fo_chaos opts \<noteq> [], fo_auth opts \<noteq> [], fo_fault opts \<noteq> None, fo_provider opts \<noteq> [] \<or> fo_model opts \<noteq> [],
       fo_observation opts \<noteq> None]) \<le> 1"

lemma plan_options_one: "plan_options parent i = Inr opts \<Longrightarrow> one_variable opts"
  by (auto simp: plan_options_def same_options_def one_variable_def Let_def split: if_splits)

text \<open>A plan of a run: one variable, changed at an event of the run, from a checkpoint of it.\<close>

definition plan_ok :: "event_row list \<Rightarrow> checkpoint list \<Rightarrow> 'p plan \<Rightarrow> bool" where
  "plan_ok evs points p \<longleftrightarrow>
     uncounted (pn_candidate p) \<and> one_variable (pn_options p)
   \<and> event_at evs (ca_seq (pn_candidate p)) (ca_type (pn_candidate p))
   \<and> pn_checkpoint p \<in> set points \<and> cp_seq (pn_checkpoint p) = ca_checkpoint (pn_candidate p)"

lemma Select_Inr: "Select points n = Inr p \<Longrightarrow> p \<in> set points \<and> cp_seq p = n"
  by (auto simp: Select_def find_Some_iff split: option.splits)

lemma plan_target_ok:
  assumes "plan_target i named opts provider points c plans = Inr plans'"
    and "call_of evs c" and "one_variable opts" and "\<forall>p \<in> set plans. plan_ok evs points p"
    and "\<forall>p \<in> set points. 0 < cp_seq p"
  shows "\<forall>p \<in> set plans'. plan_ok evs points p"
proof -
  obtain k where k: "candidate_at i named c = Inr k" using assms(1) by (auto simp: plan_target_def)
  show ?thesis
  proof (cases k)
    case None
    then show ?thesis using assms(1,4) k by (simp add: plan_target_def)
  next
    case (Some x)
    then obtain q where q: "Select points (ca_checkpoint x) = Inr q"
        and plans': "plans' = plans @ [\<lparr>pn_candidate = x, pn_checkpoint = q, pn_options = opts, pn_provider = provider\<rparr>]"
      using assms(1) k by (auto simp: plan_target_def)
    note q = Select_Inr [OF q]
    then have "0 < ca_checkpoint x" using assms(5) by auto
    moreover have "uncounted x" using k Some by (auto simp: candidate_at_def blank_candidate_def uncounted_def tallied_def Let_def split: if_splits)
    ultimately have "uncounted x" "event_at evs (ca_seq x) (ca_type x)"
      using k Some assms(2) by (auto simp: candidate_at_def call_of_def Let_def split: if_splits)
    then show ?thesis using plans' q assms(3,4) by (auto simp: plan_ok_def)
  qed
qed

lemma find_call_Inr: "find_call calls i = Inr c \<Longrightarrow> c \<in> set calls"
  by (auto simp: find_call_def find_Some_iff split: option.splits) (metis nth_mem set_rev length_rev)

lemma plan_intervention_ok:
  assumes "plan_intervention R parent m chaos calls points source i plans = Inr plans'"
    and calls: "\<forall>c \<in> set calls. call_of evs c" and "\<forall>p \<in> set plans. plan_ok evs points p" and points: "\<forall>p \<in> set points. 0 < cp_seq p"
  shows "\<forall>p \<in> set plans'. plan_ok evs points p"
proof -
  obtain targets opts provider where t: "(case named_calls i of None \<Rightarrow> Inr calls | Some ids \<Rightarrow> mapR (find_call calls) ids) = Inr targets"
      and opts: "plan_options parent i = Inr opts"
      and f: "foldR (plan_target i (named_calls i \<noteq> None) opts provider points) targets plans = Inr plans'"
    using assms(1) by (auto simp: plan_intervention_def Let_def split: if_splits)
  have "set targets \<subseteq> set calls" using t by (auto split: option.splits dest: mapR_known find_call_Inr)
  then have "\<forall>c \<in> set targets. call_of evs c" using calls by blast
  note step = plan_target_ok [OF _ bspec [OF this] plan_options_one [OF opts] _ points]
  show ?thesis using f assms(3)
    by (rule foldR_invariant [where I = "\<lambda>ps. \<forall>p \<in> set ps. plan_ok evs points p"]) (rule step)
qed


section \<open>Isolation\<close>

definition policies_of :: "string \<Rightarrow> policy_tables \<Rightarrow> policy_tables" where
  "policies_of x p =
     \<lparr>run_chaos = filter (\<lambda>r. rp_run r = x) (run_chaos p), chaos_rule_state = filter (\<lambda>r. cs_run r = x) (chaos_rule_state p),
      chaos_snapshots = filter (\<lambda>r. sn_run r = x) (chaos_snapshots p),
      chaos_hidden_outcomes = filter (\<lambda>r. hd_run r = x) (chaos_hidden_outcomes p),
      run_auth = filter (\<lambda>r. rp_run r = x) (run_auth p), auth_state = filter (\<lambda>r. as_run r = x) (auth_state p)\<rparr>"

text \<open>All that is stored of a run, and of a world, is the same.\<close>

definition same_run :: "string \<Rightarrow> db \<Rightarrow> db \<Rightarrow> bool" where
  "same_run x d d' \<longleftrightarrow> Run x d' = Run x d \<and> Events x d' = Events x d
     \<and> filter (\<lambda>r. tr_run r = x) (results d') = filter (\<lambda>r. tr_run r = x) (results d)
     \<and> policies_of x (db_policy d') = policies_of x (db_policy d)"

definition same_world :: "string \<Rightarrow> db \<Rightarrow> db \<Rightarrow> bool" where
  "same_world y d d' \<longleftrightarrow> sel w_id y (worlds (db_world d')) = sel w_id y (worlds (db_world d))
     \<and> (\<forall>table. rows_of (db_world d') y table = rows_of (db_world d) y table)"

definition kept :: "string list \<Rightarrow> string list \<Rightarrow> db \<Rightarrow> db \<Rightarrow> bool" where
  "kept rs ws d d' \<longleftrightarrow> (\<forall>x \<in> set rs. same_run x d d') \<and> (\<forall>y \<in> set ws. same_world y d d')"

lemma kept_refl: "kept rs ws d d"
  by (simp add: kept_def same_run_def same_world_def)

lemma kept_trans: "kept rs ws d d' \<Longrightarrow> kept rs ws d' d'' \<Longrightarrow> kept rs ws d d''"
  by (simp add: kept_def same_run_def same_world_def)

lemma policies_of_outside:
  assumes "policies_outside run p' = policies_outside run p" and "x \<noteq> run"
  shows "policies_of x p' = policies_of x p"
proof -
  have "policies_of x q = policies_of x (policies_outside run q)" for q
    using assms(2) by (auto simp: policies_of_def policies_outside_def intro!: filter_cong)
  then show ?thesis using assms(1) by metis
qed

lemma cells_outside:
  "y \<noteq> x \<Longrightarrow> (\<And>r. fst (c r) = k r) \<Longrightarrow>
     filter (\<lambda>r. fst r = y) (map c (filter (\<lambda>r. k r \<noteq> x) t)) = filter (\<lambda>r. fst r = y) (map c t)"
  by (induction t) auto

lemma rows_of_outside:
  assumes "(outside x w')\<lparr>worlds := []\<rparr> = (outside x w)\<lparr>worlds := []\<rparr>" and "y \<noteq> x"
  shows "rows_of w' y table = rows_of w y table"
proof -
  have "rows_of w y table = rows_of ((outside x w)\<lparr>worlds := []\<rparr>) y table" for w
    using assms(2) by (simp add: rows_of_def all_rows_def outside_def cells_outside cells_defs del: filter_map)
  then show ?thesis using assms(1) by metis
qed

lemma apart_kept:
  assumes a: "apart run world d (d'\<lparr>db_coord := db_coord d\<rparr>)" and "run \<notin> set rs" and "world \<notin> set ws"
  shows "kept rs ws d d'"
proof -
  let ?d = "d'\<lparr>db_coord := db_coord d\<rparr>"
  have "same_run x d d'" if "x \<noteq> run" for x
  proof -
    have "filter (\<lambda>r. tr_run r = x) (results d') = filter (\<lambda>r. tr_run r = x) (results d)"
      by (rule outside_filter [of tr_run run]) (use a that in \<open>auto simp: apart_def\<close>)
    moreover have "policies_of x (db_policy d') = policies_of x (db_policy d)"
      by (rule policies_of_outside [of run]) (use a that in \<open>auto simp: apart_def\<close>)
    moreover have "Run x ?d = Run x d'" "Events x ?d = Events x d'" by (simp_all add: Run_def Events_def)
    ultimately show ?thesis using apart_run [OF a that] by (simp add: same_run_def)
  qed
  moreover have "same_world y d d'" if "y \<noteq> world" for y
  proof -
    have "sel w_id y (worlds (db_world d')) = sel w_id y (worlds (db_world d))"
      by (rule outside_sel [of w_id world]) (use a that in \<open>auto simp: apart_def\<close>)
    moreover have "rows_of (db_world d') y table = rows_of (db_world d) y table" for table
      by (rule rows_of_outside [OF _ that]) (use a in \<open>simp add: apart_def\<close>)
    ultimately show ?thesis by (simp add: same_world_def)
  qed
  ultimately show ?thesis using assms(2,3) unfolding kept_def by metis
qed

lemma touches_kept: "touches run world d d' \<Longrightarrow> run \<notin> set rs \<Longrightarrow> world \<notin> set ws \<Longrightarrow> kept rs ws d d'"
  by (rule apart_kept) (simp_all add: touches_def)

lemma runFork_kept:
  assumes "runFork L recorded R m p j steps fuel F (d, f) = Some (r, (d', f'))"
    and rs: "set rs \<subseteq> set (map r_id (run_rows d))" and ws: "set ws \<subseteq> set (map w_id (worlds (db_world d)))"
  shows "kept rs ws d d'"
proof -
  obtain c s1 where Pair: "Create L recorded R m (pn_options p) (pn_checkpoint p) (fr_world F) (fr_run F) d (d, f) = (c, s1)"
    by (rule prod.exhaust)
  obtain d1 f1 where s1: "s1 = (d1, f1)" by (rule prod.exhaust)
  show ?thesis
  proof (cases c)
    case (Inl e)
    then have "s1 = (d, f)" using Pair by (auto simp: Create_def split: sum.splits)
    then show ?thesis using assms(1) Pair Inl by (simp add: runFork_def kept_refl)
  next
    case (Inr child)
    note w = Create_writes [OF Pair [unfolded Inr s1]]
    have apart: "apart (r_id child) (r_world child) d d1" and new: "r_id child \<notin> set rs" "r_world child \<notin> set ws"
      using w rs ws by blast+
    have "sel r_id (r_id child) (run_rows d) = None" using w by (simp add: sel_None_iff)
    then have run: "Run (r_id child) d1 = Inr child" using w by (simp add: Run_def sel_append)
    from apart have k1: "kept rs ws d d1"
    proof -
      have "apart (r_id child) (r_world child) d (d1\<lparr>db_coord := db_coord d\<rparr>)" using apart by (simp add: apart_def)
      then show ?thesis using apart_kept [OF _ new] by simp
    qed
    obtain r2 d2 where x: "Execute L (replay_runner L m) (Some (fr_env F (pn_provider p))) (r_id child) steps fuel d1 = Some (r2, d2)"
        and d': "d' = d2"
      using assms(1) Pair Inr s1 by (auto simp: runFork_def Let_def split: option.splits prod.splits if_splits sum.splits)
    have "dp_registry (rn_dispatch (replay_runner L m)) = builtin L" by (simp add: replay_runner_def replay_dispatcher_def)
    from Execute_touches [OF this run x] have "touches (r_id child) (r_world child) d1 d2" .
    then show ?thesis using kept_trans [OF k1 touches_kept [OF _ new]] d' by blast
  qed
qed

lemma kept_ids:
  assumes "kept rs ws d d'" and "set rs \<subseteq> set (map r_id (run_rows d))" and "set ws \<subseteq> set (map w_id (worlds (db_world d)))"
  shows "set rs \<subseteq> set (map r_id (run_rows d')) \<and> set ws \<subseteq> set (map w_id (worlds (db_world d')))"
proof -
  have "x \<in> set (map r_id (run_rows d'))" if x: "x \<in> set rs" for x
  proof -
    obtain row where "sel r_id x (run_rows d) = Some row" using assms(2) x sel_None_iff [of r_id x "run_rows d"] by auto
    then have "Run x d' = Inr row" using assms(1) x by (simp add: kept_def same_run_def Run_def)
    then show ?thesis using sel_None_iff [of r_id x "run_rows d'"] by (auto simp: Run_def split: option.splits)
  qed
  moreover have "y \<in> set (map w_id (worlds (db_world d')))" if y: "y \<in> set ws" for y
  proof -
    obtain row where "sel w_id y (worlds (db_world d)) = Some row"
      using assms(3) y sel_None_iff [of w_id y "worlds (db_world d)"] by auto
    then have "sel w_id y (worlds (db_world d')) = Some row" using assms(1) y by (simp add: kept_def same_world_def)
    then show ?thesis using sel_None_iff [of w_id y "worlds (db_world d')"] by auto
  qed
  ultimately show ?thesis by blast
qed

text \<open>A step that keeps the given runs and worlds of every database that has them.\<close>

definition keeps :: "string list \<Rightarrow> string list \<Rightarrow> (fork_state \<Rightarrow> ('a \<times> fork_state) option) \<Rightarrow> bool" where
  "keeps rs ws step \<longleftrightarrow> (\<forall>d f r d' f'. step (d, f) = Some (r, (d', f')) \<and> set rs \<subseteq> set (map r_id (run_rows d))
     \<and> set ws \<subseteq> set (map w_id (worlds (db_world d))) \<longrightarrow> kept rs ws d d')"

lemma run_trials_keeps:
  assumes "\<And>n. keeps rs ws (fork1 n)"
  shows "keeps rs ws (run_trials fork1 k n c)"
proof (induction k arbitrary: n c)
  case 0
  then show ?case by (simp add: keeps_def kept_refl)
next
  case (Suc k)
  show ?case unfolding keeps_def
  proof (intro allI impI, elim conjE)
    fix d f r d' f'
    assume x: "run_trials fork1 (Suc k) n c (d, f) = Some (r, (d', f'))"
      and ids: "set rs \<subseteq> set (map r_id (run_rows d))" "set ws \<subseteq> set (map w_id (worlds (db_world d)))"
    obtain o1 d1 f1 where one: "fork1 n (d, f) = Some (o1, (d1, f1))" using x by (auto split: option.splits)
    have k1: "kept rs ws d d1" using assms one ids unfolding keeps_def by blast
    show "kept rs ws d d'"
    proof (cases o1)
      case (Inl e)
      then show ?thesis using x one k1 by simp
    next
      case (Inr o2)
      then have "run_trials fork1 k (Suc n) (count_outcome o2 c) (d1, f1) = Some (r, (d', f'))" using x one by simp
      then have "kept rs ws d1 d'" using Suc kept_ids [OF k1 ids] unfolding keeps_def by blast
      then show ?thesis by (rule kept_trans [OF k1])
    qed
  qed
qed

lemma run_plans_keeps:
  assumes "\<And>n p. keeps rs ws (fork1 n p)"
  shows "keeps rs ws (run_plans fork1 trials n ps)"
proof (induction ps arbitrary: n)
  case Nil
  then show ?case by (simp add: keeps_def kept_refl)
next
  case (Cons p ps)
  have trials: "keeps rs ws (run_trials (\<lambda>i. fork1 i p) trials n (pn_candidate p))" by (rule run_trials_keeps) (rule assms)
  show ?case unfolding keeps_def
  proof (intro allI impI, elim conjE)
    fix d f r d' f'
    assume x: "run_plans fork1 trials n (p # ps) (d, f) = Some (r, (d', f'))"
      and ids: "set rs \<subseteq> set (map r_id (run_rows d))" "set ws \<subseteq> set (map w_id (worlds (db_world d)))"
    obtain c d1 f1 where one: "run_trials (\<lambda>i. fork1 i p) trials n (pn_candidate p) (d, f) = Some (c, (d1, f1))"
      using x by (auto split: option.splits)
    have k1: "kept rs ws d d1" using trials one ids unfolding keeps_def by blast
    show "kept rs ws d d'"
    proof (cases c)
      case (Inl e)
      then show ?thesis using x one k1 by simp
    next
      case (Inr c2)
      then obtain r2 where "run_plans fork1 trials (n + trials) ps (d1, f1) = Some (r2, (d', f'))"
        using x one by (auto split: option.splits sum.splits)
      then have "kept rs ws d1 d'" using Cons kept_ids [OF k1 ids] unfolding keeps_def by blast
      then show ?thesis by (rule kept_trans [OF k1])
    qed
  qed
qed

text \<open>
  C18. An analysis never touches what it explains. Whatever the interventions, the answers of the
  providers and the verdicts, and whether the analysis completes or stops with an error, every run
  and every world that existed before has the same record, events, saved results, policy state and
  table rows afterwards: all the forks write is runs and worlds of their own.
\<close>

theorem analysis_isolated:
  assumes "cf_Run L recorded R fuel F a (d, f) = Some (report, (d', f'))"
  shows "kept (map r_id (run_rows d)) (map w_id (worlds (db_world d))) d d'"
proof -
  let ?fork = "\<lambda>i p. runFork L recorded R (ay_manifest a) p (ay_judge a) (cf_steps (ay_options a)) fuel (F i)"
  obtain r where "run_plans ?fork (nat (cf_trial_count (ay_options a))) 0 (ay_plans a) (d, f) = Some (r, (d', f'))"
    using assms by (auto simp: cf_Run_def split: option.splits prod.splits sum.splits)
  moreover have "keeps rs ws (?fork i p)" for rs ws i p
    unfolding keeps_def using runFork_kept by blast
  from run_plans_keeps [of _ _ ?fork, OF this] have "keeps (map r_id (run_rows d)) (map w_id (worlds (db_world d)))
      (run_plans ?fork (nat (cf_trial_count (ay_options a))) 0 (ay_plans a))" .
  ultimately show ?thesis unfolding keeps_def by blast
qed

section \<open>Witnesses\<close>

text \<open>A completed run with one tool call, and an analysis that would have failed the call.\<close>

definition cf_call :: json where
  "cf_call = jmap [(''call_id'', JStr ''c1''), (''operation_id'', JStr ''getCustomer'')]"

definition cf_ledger :: "event_row list" where
  "cf_ledger =
     [cp_event 1 ''execution.started'' (started_payload ''duplicate-charge'' ''p'' ''m'' ''W1''),
      cp_event 2 ''model.request'' JNull, cp_event 3 ''model.response'' (message_json sample_full cp_answer),
      cp_event 4 ''tool.request'' cf_call, cp_event 5 ''tool.response'' cf_call,
      cp_event 6 ''execution.completed'' (jmap [(''step'', jint 1)])]"

definition cf_db :: db where
  "cf_db = cp_db\<lparr>db_runs := \<lparr>runs = [cp_run0], events = cf_ledger, tool_results = []\<rparr>\<rparr>"

definition cf_fault :: intervention where
  "cf_fault = \<lparr>iv_id = ''break'', iv_kind = ''fault'', iv_calls = None, iv_policy = [], iv_operation = Some ''getCustomer'', iv_provider = [],
     iv_model = [], iv_call = [], iv_status = 0, iv_body = JNull, iv_raw = []\<rparr>"

definition verdict_of :: "bool \<Rightarrow> judge" where
  "verdict_of ok = \<lparr>jg_name = ''fixed'', jg_digest = [], jg_check = (\<lambda>_ _. Inr (ok, if ok then [] else [''goal'']))\<rparr>"

definition cf_opts :: "unit cf_options" where
  "cf_opts = \<lparr>cf_trial_count = 1, cf_steps = 3, cf_provider = Some (\<lambda>_ _ _. Inr ())\<rparr>"

lemma cf_reads: "Run ''R'' cf_db = Inr cp_run0" "Events ''R'' cf_db = cf_ledger"
    "sel w_id ''W1'' (worlds (db_world cf_db)) = Some \<lparr>w_id = ''W1'', w_seed = 1, w_digest = mf_digest ckpt_manifest, w_base_at = ''2026''\<rparr>"
  by (simp_all add: Run_def cf_db_def cp_db_def cp_run0_def Events_def cf_ledger_def cp_event_def)

lemma cf_call_read: "call_and_operation cf_call = Inr (''c1'', ''getCustomer'')"
  by (simp add: call_and_operation_def cf_call_def jmap_def string_field_def struct_field_def json_field_def)

lemma cf_points: "\<exists>ps. List sample_full (\<lambda>_. []) ''R'' ckpt_manifest cf_db = Inr ps \<and> map cp_seq ps = [3, 5, 6]"
proof -
  have "string_map (started_payload ''duplicate-charge'' ''p'' ''m'' ''W1'') =
      Inr [(''model'', ''m''), (''provider'', ''p''), (''scenario'', ''duplicate-charge''), (''world_id'', ''W1'')]"
    by (simp add: string_map_def started_payload_def jmap_def string_value_def)
  then have "\<exists>ps. list_points sample_full (\<lambda>_. []) (mf_digest ckpt_manifest) cp_run0 cf_ledger = Inr ps"
    by (simp add: list_points_def cf_ledger_def cp_event_def scan_event_def in_place_def start_scan_def Let_def cf_call_read
        start_matches_def entry_def cp_run0_def message_json_def cp_answer_def string_field_def struct_field_def json_field_def
        numeral_eq_Suc)
  moreover have "r_status cp_run0 = ''completed''" "r_world cp_run0 = ''W1''" "cf_ledger \<noteq> []"
    by (simp_all add: cp_run0_def cf_ledger_def)
  ultimately obtain ps where ps: "List sample_full (\<lambda>_. []) ''R'' ckpt_manifest cf_db = Inr ps"
    by (auto simp: List_def cp_valid cf_reads)
  then show ?thesis
    using List_exact [OF ps] by (simp add: cf_reads) (simp add: cf_ledger_def cp_event_def boundary_types_def)
qed


text \<open>An analysis of one plan on the recorded run, and the fork it makes.\<close>

definition cf_plan :: "checkpoint \<Rightarrow> unit plan" where
  "cf_plan p = \<lparr>pn_candidate = (blank_candidate \<lparr>cl_id = ''c1'', cl_operation = ''getCustomer'', cl_request = 4, cl_response = 5,
       cl_decision = 0\<rparr> cf_fault), pn_checkpoint = p, pn_options = fk_options, pn_provider = ()\<rparr>"

definition cf_analysis :: "checkpoint \<Rightarrow> unit analysis" where
  "cf_analysis p = \<lparr>ay_header = \<lparr>cf_run = ''R'', cf_judge = ''fixed'', cf_digest = [], cf_failed = [], cf_interventions = [], cf_trials = 1,
       cf_candidates = []\<rparr>, ay_plans = [cf_plan p], ay_manifest = ckpt_manifest, ay_judge = verdict_of True, ay_options = cf_opts\<rparr>"

definition cf_forks :: "nat \<Rightarrow> unit fork_run" where
  "cf_forks i = \<lparr>fr_world = [1], fr_run = [2], fr_env = (\<lambda>_. sample_env), fr_cancelled = False\<rparr>"

lemma cf_runs:
  "\<exists>p fuel report d' f'. cf_Run sample_full (\<lambda>_. []) fk_readers fuel cf_forks (cf_analysis p) (cp_db, fk_tables) = Some (Inr report, (d', f'))"
proof -
  obtain p child d1 f1 where c: "Create sample_full (\<lambda>_. []) fk_readers ckpt_manifest fk_options p [1] [2] cp_db (cp_db, fk_tables)
      = (Inr child, (d1, f1))" and none: "results d1 = []" using fk_create by auto
  have "dp_registry (rn_dispatch (replay_runner sample_full ckpt_manifest)) = builtin sample_full"
    by (simp add: replay_runner_def replay_dispatcher_def)
  moreover have "results_seen (r_id child) d1" by (simp add: results_seen_def none)
  ultimately obtain fuel r d2 where x: "Execute sample_full (replay_runner sample_full ckpt_manifest) (Some sample_env) (r_id child) 3 fuel d1
      = Some (r, d2)" using Execute_ends by blast
  have "\<exists>o1. runFork sample_full (\<lambda>_. []) fk_readers ckpt_manifest (cf_plan p) (verdict_of True) 3 fuel (cf_forks 0) (cp_db, fk_tables)
      = Some (Inr o1, (d2, f1))"
    using c x by (cases r) (simp_all add: runFork_def cf_plan_def cf_forks_def verdict_of_def Let_def)
  then have "\<exists>report. cf_Run sample_full (\<lambda>_. []) fk_readers fuel cf_forks (cf_analysis p) (cp_db, fk_tables) = Some (Inr report, (d2, f1))"
    by (auto simp: cf_Run_def cf_analysis_def cf_opts_def split: option.split prod.split sum.split)
  then show ?thesis by blast
qed

theorem report_counts_evidence_witness:
  "\<exists>p fuel report s'. cf_Run sample_full (\<lambda>_. []) fk_readers fuel cf_forks (cf_analysis p) (cp_db, fk_tables) = Some (Inr report, s')
     \<and> (\<forall>c \<in> set (cf_candidates report). tallied c \<and> ca_forks c = 1)"
proof -
  obtain p fuel report d' f' where r: "cf_Run sample_full (\<lambda>_. []) fk_readers fuel cf_forks (cf_analysis p) (cp_db, fk_tables)
      = Some (Inr report, (d', f'))" using cf_runs by blast
  have "\<forall>p1 \<in> set (ay_plans (cf_analysis p)). uncounted (pn_candidate p1)"
    by (simp add: cf_analysis_def cf_plan_def blank_candidate_def uncounted_def tallied_def)
  moreover have "cf_trial_count (ay_options (cf_analysis p)) = 1" by (simp add: cf_analysis_def cf_opts_def)
  ultimately have "\<forall>c \<in> set (cf_candidates report). tallied c \<and> ca_forks c = 1"
    using report_counts_evidence [OF r] by simp
  with r show ?thesis by blast
qed

theorem analysis_isolated_witness:
  "\<exists>p fuel report d' f'. cf_Run sample_full (\<lambda>_. []) fk_readers fuel cf_forks (cf_analysis p) (cp_db, fk_tables) = Some (report, (d', f'))
     \<and> Run ''R'' d' = Inr cp_run0 \<and> Events ''R'' d' = cp_ledger"
proof -
  obtain p fuel report d' f' where r: "cf_Run sample_full (\<lambda>_. []) fk_readers fuel cf_forks (cf_analysis p) (cp_db, fk_tables)
      = Some (Inr report, (d', f'))" using cf_runs by blast
  have "''R'' \<in> set (map r_id (run_rows cp_db))" by (simp add: cp_db_def cp_run0_def)
  then have "same_run ''R'' cp_db d'" using analysis_isolated [OF r] unfolding kept_def by blast
  then have "Run ''R'' d' = Inr cp_run0" "Events ''R'' d' = cp_ledger" by (simp_all add: same_run_def cp_reads)
  with r show ?thesis by blast
qed

end
