(* ===== verification/Redact.thy ===== *)
theory Redact
  imports Yaml Samples
begin

text \<open>
  The masking of credentials (\<open>src/internal/redact/redact.go\<close>). Text is bytes. Every replacement
  is one scan from the left that replaces the matches of a pattern, so one function models
  \<open>strings.ReplaceAll\<close> and \<open>Regexp.ReplaceAllString\<close>; the lemmas show that no configured secret, no
  API key and no bearer token is left in a masked text, whatever the other secrets are, and what
  can be left of a URL.
\<close>

section \<open>Replacing matches\<close>

definition mask :: string where "mask = ''[REDACTED]''"

text \<open>
  A pattern says whether it matches at the front of a text: how many bytes the match takes and
  what replaces them. No pattern used here matches the empty text.
\<close>

type_synonym pattern = "string \<Rightarrow> (nat \<times> string) option"

function replace_matches :: "pattern \<Rightarrow> string \<Rightarrow> string" where
  "replace_matches m [] = []"
| "replace_matches m (c # cs) =
     (case m (c # cs) of
        None \<Rightarrow> c # replace_matches m cs
      | Some (n, r) \<Rightarrow> r @ replace_matches m (drop (n - 1) cs))"
  by pat_completeness auto
termination by (relation "measure (length \<circ> snd)") auto

definition literal :: "string \<Rightarrow> pattern" where
  "literal secret s = (if prefix secret s then Some (length secret, mask) else None)"

definition Secrets :: "string list \<Rightarrow> string \<Rightarrow> string" where
  "Secrets secrets s = fold (\<lambda>secret t. if 8 \<le> length secret then replace_matches (literal secret) t else t) secrets s"

text \<open>\<open>sk-[A-Za-z0-9_-]{8,}\<close>, as long as possible.\<close>

definition key_char :: "char \<Rightarrow> bool" where
  "key_char c \<longleftrightarrow> alpha_char c \<or> digit_char c \<or> c \<in> set ''_-''"

definition apiKey :: pattern where
  "apiKey s =
     (let n = length (takeWhile key_char (drop 3 s)) in
      if prefix ''sk-'' s \<and> 8 \<le> n then Some (3 + n, mask) else None)"

text \<open>
  \<open>(?i)(bearer\s+)[A-Za-z0-9._~+/=-]+\<close>. Folding the case of the class adds the Kelvin sign and the
  long s, which fold to letters; they are two and three bytes of UTF-8.
\<close>

definition re_space :: "char \<Rightarrow> bool" where
  "re_space c \<longleftrightarrow> (of_char c :: nat) \<in> {9, 10, 12, 13, 32}"

definition token_char :: "char \<Rightarrow> bool" where
  "token_char c \<longleftrightarrow> alpha_char c \<or> digit_char c \<or> c \<in> set ''._~+/=-''"

function token_len :: "string \<Rightarrow> nat" where
  "token_len [] = 0"
| "token_len (c # cs) =
     (if token_char c then 1 + token_len cs
      else if take 2 (bytes_of (c # cs)) = [197, 191] then 2 + token_len (drop 1 cs)
      else if take 3 (bytes_of (c # cs)) = [226, 132, 170] then 3 + token_len (drop 2 cs)
      else 0)"
  by pat_completeness auto
termination by (relation "measure length") auto

definition bearer :: pattern where
  "bearer s =
     (let k = 6 + length (takeWhile re_space (drop 6 s)); n = token_len (drop k s) in
      if map lower_char (take 6 s) = ''bearer'' \<and> 6 < k \<and> 0 < n then Some (k + n, take k s @ mask) else None)"

definition redact_String :: "string list \<Rightarrow> string \<Rightarrow> string" where
  "redact_String secrets s = replace_matches bearer (replace_matches apiKey (Secrets secrets s))"

section \<open>URLs\<close>

text \<open>What \<open>net/url\<close> reads from a text and prints, as far as the code uses it.\<close>

record url =
  ur_scheme :: string
  ur_user :: "string option"
  ur_host :: string
  ur_path :: string
  ur_raw_path :: string
  ur_query :: string
  ur_force :: bool
  ur_fragment :: string
  ur_raw_fragment :: string

record url_lib =
  url_parse :: "string \<Rightarrow> url option"
  url_print :: "url \<Rightarrow> string"

definition unparseableURL :: string where "unparseableURL = ''[unparseable URL]''"

definition parseURL :: "url_lib \<Rightarrow> string \<Rightarrow> url option" where
  "parseURL U raw =
     (case url_parse U raw of None \<Rightarrow> None
      | Some u \<Rightarrow> if ur_user u = None \<and> CHR ''@'' \<in> set raw then None else Some u)"

definition WellFormedURL :: "url_lib \<Rightarrow> string \<Rightarrow> bool" where
  "WellFormedURL U raw \<longleftrightarrow> parseURL U (TrimSpace raw) \<noteq> None"

text \<open>\<open>strings.Cut\<close> around the first occurrence of a separator.\<close>

fun Cut :: "string \<Rightarrow> string \<Rightarrow> (string \<times> string) option" where
  "Cut [] sep = (if sep = [] then Some ([], []) else None)"
| "Cut (c # cs) sep =
     (if prefix sep (c # cs) then Some ([], drop (length sep) (c # cs))
      else map_option (\<lambda>(before, after). (c # before, after)) (Cut cs sep))"

definition plain_host :: "string \<Rightarrow> bool" where
  "plain_host s \<longleftrightarrow> s \<noteq> [] \<and> list_all (\<lambda>c. alpha_char c \<or> digit_char c \<or> c \<in> set ''.-'') s"

definition unparsedURL :: "string \<Rightarrow> string" where
  "unparsedURL raw =
     (case Cut raw ''://'' of
        None \<Rightarrow> unparseableURL
      | Some (scheme, rest) \<Rightarrow>
          if \<not> name_ok ''+.-'' scheme \<or> CHR ''@'' \<in> set rest then unparseableURL
          else
            let authority = takeWhile (\<lambda>c. c \<notin> set ''/?#'') rest;
                (host, port) = (case Cut authority '':'' of None \<Rightarrow> (authority, None) | Some (h, p) \<Rightarrow> (h, Some p))
            in if \<not> plain_host host then unparseableURL
               else scheme @ ''://'' @ host
                 @ (case port of None \<Rightarrow> [] | Some p \<Rightarrow> if p \<noteq> [] \<and> list_all digit_char p then '':'' @ p else []))"

definition redact_URL :: "url_lib \<Rightarrow> string \<Rightarrow> string" where
  "redact_URL U raw =
     (case parseURL U (TrimSpace raw) of
        None \<Rightarrow> unparsedURL (TrimSpace raw)
      | Some u \<Rightarrow> url_print U (u\<lparr>ur_user := None, ur_query := [], ur_force := False, ur_fragment := [], ur_raw_fragment := []\<rparr>))"

section \<open>No secret is left\<close>

text \<open>
  A text that can be told from the mask: it has none of the mask's brackets and is not inside it.
  Its occurrences in a masked text are occurrences in what was kept.
\<close>

definition maskable :: "string \<Rightarrow> bool" where
  "maskable x \<longleftrightarrow> CHR ''['' \<notin> set x \<and> CHR '']'' \<notin> set x \<and> \<not> sublist x ''REDACTED''"

text \<open>A pattern that keeps a front of the match and masks the rest.\<close>

definition masking :: "pattern \<Rightarrow> bool" where
  "masking m \<longleftrightarrow> (\<forall>s n r. m s = Some (n, r) \<longrightarrow> (\<exists>k. r = take k s @ mask))"

lemma masking_patterns: "masking (literal x)" "masking apiKey" "masking bearer"
  by (auto simp: masking_def literal_def apiKey_def bearer_def Let_def split: if_splits intro: exI [of _ 0])

lemma sublist_split:
  assumes "c \<notin> set x" and "sublist x (a @ c # b)"
  shows "sublist x a \<or> sublist x b"
proof -
  have none: "prefix ys (c # b) \<Longrightarrow> set ys \<subseteq> set x \<Longrightarrow> ys = []" for ys
    using assms(1) by (auto simp: prefix_Cons)
  consider "sublist x a" | "prefix x (c # b)" | "sublist x b" | ys zs where "x = ys @ zs" "suffix ys a" "prefix zs (c # b)"
    using assms(2) by (auto simp: sublist_append sublist_Cons_right)
  then show ?thesis
  proof cases
    case 2
    then show ?thesis using none [of x] by simp
  next
    case 4
    then show ?thesis using none [of zs] suffix_imp_sublist by auto
  qed simp_all
qed

lemma prefix_split:
  assumes "c \<notin> set x" and "prefix x (a @ c # b)"
  shows "prefix x a"
  using assms by (auto simp: prefix_append prefix_Cons)

lemma sublist_mask:
  assumes "maskable x" and "sublist x (a @ mask @ b)"
  shows "sublist x a \<or> sublist x b"
proof -
  have "a @ mask @ b = a @ CHR ''['' # ''REDACTED'' @ CHR '']'' # b" by (simp add: mask_def)
  then show ?thesis using assms sublist_split [of "CHR ''[''" x a] sublist_split [of "CHR '']''" x "''REDACTED''"]
    unfolding maskable_def by metis
qed

lemma sublist_taken: "sublist x (take k s) \<Longrightarrow> sublist x s"
  by (metis append_take_drop_id sublist_append)

lemma sublist_dropped: "sublist x (drop k s) \<Longrightarrow> sublist x s"
  by (metis append_take_drop_id sublist_append)

lemma replace_prefix:
  assumes "masking m" and "CHR ''['' \<notin> set x" and "prefix x (replace_matches m s)"
  shows "prefix x s"
  using assms
proof (induction m s arbitrary: x rule: replace_matches.induct)
  case (2 m c cs)
  show ?case
  proof (cases "m (c # cs)")
    case None
    then show ?thesis using "2.IH"(1) "2.prems" by (auto simp: prefix_Cons)
  next
    case (Some p)
    then obtain n r where p: "m (c # cs) = Some (n, r)" by (cases p) auto
    then obtain k where "r = take k (c # cs) @ mask" using "2.prems"(1) unfolding masking_def by blast
    then have "prefix x (take k (c # cs) @ CHR ''['' # ''REDACTED]'' @ replace_matches m (drop (n - 1) cs))"
      using "2.prems"(3) p by (simp add: mask_def)
    then have "prefix x (take k (c # cs))" using "2.prems"(2) by (rule prefix_split [rotated])
    then show ?thesis using take_is_prefix prefix_order.trans by blast
  qed
qed simp

text \<open>Masking adds no occurrence of a maskable text, and a pattern that matches all its occurrences leaves none.\<close>

lemma replace_keeps_absent:
  assumes "masking m" and "maskable x" and "sublist x (replace_matches m s)"
  shows "sublist x s"
  using assms
proof (induction m s rule: replace_matches.induct)
  case (2 m c cs)
  note brackets = "2.prems"(2) [unfolded maskable_def, THEN conjunct1]
  show ?case
  proof (cases "m (c # cs)")
    case None
    then have "prefix x (replace_matches m (c # cs)) \<or> sublist x (replace_matches m cs)"
      using "2.prems"(3) by (simp add: sublist_Cons_right)
    then show ?thesis
      using replace_prefix [OF "2.prems"(1) brackets] "2.IH"(1) [OF None "2.prems"(1,2)] by (auto simp: sublist_Cons_right)
  next
    case (Some p)
    then obtain n r where p: "m (c # cs) = Some (n, r)" by (cases p) auto
    then obtain k where "r = take k (c # cs) @ mask" using "2.prems"(1) unfolding masking_def by blast
    then have "sublist x (take k (c # cs)) \<or> sublist x (replace_matches m (drop (n - 1) cs))"
      using "2.prems" p by (intro sublist_mask) simp_all
    then have "sublist x (take k (c # cs)) \<or> sublist x (drop (n - 1) cs)"
      using "2.IH"(2) [OF p refl "2.prems"(1,2)] by blast
    then show ?thesis using sublist_taken sublist_dropped by (metis sublist_Cons_right)
  qed
qed simp

lemma replace_removes:
  assumes "masking m" and "maskable x" and "\<And>s. prefix x s \<Longrightarrow> m s \<noteq> None"
    and "\<And>s n r. m s = Some (n, r) \<Longrightarrow> \<exists>k. r = take k s @ mask \<and> \<not> sublist x (take k s)"
  shows "\<not> sublist x (replace_matches m s)"
proof (induction s rule: length_induct)
  case (1 s)
  have brackets: "CHR ''['' \<notin> set x" using assms(2) by (simp add: maskable_def)
  show ?case
  proof (cases s)
    case Nil
    have "x \<noteq> []" using assms(2) by (auto simp: maskable_def)
    then show ?thesis using Nil by simp
  next
    case (Cons c cs)
    show ?thesis
    proof (cases "m s")
      case None
      then have "\<not> prefix x s" using assms(3) by blast
      then have "\<not> prefix x (replace_matches m s)" using replace_prefix [OF assms(1) brackets] by blast
      then show ?thesis using None 1 Cons by (simp add: sublist_Cons_right)
    next
      case (Some p)
      then obtain n r where p: "m s = Some (n, r)" by (cases p) auto
      then obtain k where "r = take k s @ mask" "\<not> sublist x (take k s)" using assms(4) by blast
      moreover have "\<not> sublist x (replace_matches m (drop (n - 1) cs))" using 1 Cons by simp
      ultimately show ?thesis using p Cons sublist_mask [OF assms(2)] by auto
    qed
  qed
qed

lemma Secrets_absent:
  assumes "maskable x" and "\<not> sublist x s"
  shows "\<not> sublist x (Secrets secrets s)"
  using assms(2)
proof (induction secrets arbitrary: s)
  case (Cons secret secrets)
  have "\<not> sublist x (replace_matches (literal secret) s)"
    using replace_keeps_absent [OF masking_patterns(1) assms(1)] Cons.prems by blast
  then show ?case using Cons.IH [of s] Cons.IH [of "replace_matches (literal secret) s"] Cons.prems by (simp add: Secrets_def)
qed (simp add: Secrets_def)

lemma Secrets_removes:
  assumes "x \<in> set secrets" and "8 \<le> length x" and "maskable x"
  shows "\<not> sublist x (Secrets secrets s)"
proof -
  have nonempty: "x \<noteq> []" using assms(2) by auto
  have one: "\<not> sublist x (replace_matches (literal x) t)" for t
    by (rule replace_removes [OF masking_patterns(1) assms(3)])
       (use nonempty in \<open>auto simp: literal_def split: if_splits intro: exI [of _ 0]\<close>)
  obtain ys zs where "secrets = ys @ x # zs" using split_list [OF assms(1)] by blast
  then have "Secrets secrets s = Secrets zs (replace_matches (literal x) (Secrets ys s))"
    using assms(2) by (simp add: Secrets_def)
  then show ?thesis using Secrets_absent [OF assms(3) one] by simp
qed

lemma redact_String_absent:
  assumes "maskable x" and "\<not> sublist x (Secrets secrets s)"
  shows "\<not> sublist x (redact_String secrets s)"
  using assms replace_keeps_absent masking_patterns unfolding redact_String_def by blast

section \<open>No key or token is left\<close>

text \<open>The shortest API key, and the shortest front of a bearer token.\<close>

definition short_key :: "string \<Rightarrow> bool" where
  "short_key x \<longleftrightarrow> (\<exists>k. x = ''sk-'' @ k \<and> length k = 8 \<and> list_all key_char k)"

definition bearer_token :: "string \<Rightarrow> bool" where
  "bearer_token x \<longleftrightarrow> (\<exists>b sp t. x = b @ sp @ [t] \<and> map lower_char b = ''bearer'' \<and> sp \<noteq> [] \<and> list_all re_space sp \<and> token_char t)"

lemma brackets_excluded [simp]:
  "\<not> key_char CHR ''[''" "\<not> key_char CHR '']''" "\<not> token_char CHR ''[''" "\<not> token_char CHR '']''"
  "\<not> re_space CHR ''[''" "\<not> re_space CHR '']''" "lower_char CHR ''['' = CHR ''[''" "lower_char CHR '']'' = CHR '']''"
  by (simp_all add: key_char_def token_char_def re_space_def alpha_char_def digit_char_def lower_char_def)

lemma sublist_REDACTED: "8 < length x \<Longrightarrow> \<not> sublist x ''REDACTED''"
  by (auto dest: sublist_length_le)

lemma sublist_whole: "sublist x y \<Longrightarrow> length y \<le> length x \<Longrightarrow> x = y"
  by (auto simp: sublist_def)

lemma unbracketed:
  assumes "list_all P x" and "\<not> P CHR ''[''" and "\<not> P CHR '']''"
  shows "CHR ''['' \<notin> set x" and "CHR '']'' \<notin> set x"
  using assms by (auto simp: list_all_iff)

lemma short_key_maskable: "short_key x \<Longrightarrow> maskable x"
  unfolding short_key_def maskable_def
  by (elim exE conjE) (auto dest: unbracketed [where P = key_char] intro!: sublist_REDACTED)

lemma lower_unbracketed:
  assumes "map lower_char b = ''bearer''"
  shows "CHR ''['' \<notin> set b" and "CHR '']'' \<notin> set b" and "length b = 6"
proof -
  have lower: "lower_char c \<in> set ''bearer''" if "c \<in> set b" for c using that assms by (metis imageI list.set_map)
  show "CHR ''['' \<notin> set b" using lower [of "CHR ''[''"] by auto
  show "CHR '']'' \<notin> set b" using lower [of "CHR '']''"] by auto
  show "length b = 6" using arg_cong [OF assms, of length] by simp
qed

lemma token_no_space: "token_char c \<Longrightarrow> \<not> re_space c"
  by (auto simp: token_char_def re_space_def alpha_char_def digit_char_def Let_def)

lemma bearer_tokenE:
  assumes "bearer_token x"
  obtains b sp t where "x = b @ sp @ [t]" and "map lower_char b = ''bearer''" and "sp \<noteq> []" and "list_all re_space sp" and "token_char t"
  using assms unfolding bearer_token_def by (elim exE conjE) (rule that)

lemma bearer_token_maskable: "bearer_token x \<Longrightarrow> maskable x"
proof (elim bearer_tokenE)
  fix b sp t
  assume x: "x = b @ sp @ [t]" and b: "map lower_char b = ''bearer''" and sp: "sp \<noteq> []" "list_all re_space sp" and t: "token_char t"
  have "\<not> list_ex re_space ''REDACTED''" by (simp add: re_space_def)
  moreover have "re_space (hd sp)" "hd sp \<in> set x" using sp x by (auto simp: list_all_iff)
  ultimately have "\<not> sublist x ''REDACTED''" unfolding list_ex_iff using set_mono_sublist by blast
  moreover have "CHR ''['' \<noteq> t" "CHR '']'' \<noteq> t" using t by auto
  ultimately show "maskable x"
    using lower_unbracketed(1,2) [OF b] unbracketed [OF sp(2)] by (simp add: maskable_def x)
qed

lemma redact_no_key:
  assumes "short_key x"
  shows "\<not> sublist x (redact_String secrets s)"
proof -
  have "\<not> sublist x (replace_matches apiKey t)" for t
  proof (rule replace_removes [OF masking_patterns(2) short_key_maskable [OF assms]])
    fix s assume "prefix x s"
    then obtain k rest where "s = ''sk-'' @ k @ rest" "length k = 8" "list_all key_char k"
      using assms by (auto simp: short_key_def prefix_def)
    then show "apiKey s \<noteq> None" by (simp add: apiKey_def Let_def list_all_iff)
  next
    fix s n r assume "apiKey s = Some (n, r)"
    then show "\<exists>k. r = take k s @ mask \<and> \<not> sublist x (take k s)"
      using assms by (intro exI [of _ 0]) (auto simp: apiKey_def Let_def short_key_def split: if_splits)
  qed
  then show ?thesis
    using replace_keeps_absent [OF masking_patterns(3) short_key_maskable [OF assms]] unfolding redact_String_def by blast
qed

lemma no_token_in_front:
  assumes "bearer_token x" and "length b = 6" and "list_all re_space sp"
  shows "\<not> sublist x (b @ sp)"
proof
  assume "sublist x (b @ sp)"
  then obtain ps ss where eq: "b @ sp = ps @ x @ ss" by (auto simp: sublist_def)
  obtain b' sp' t where x: "x = b' @ sp' @ [t]" "map lower_char b' = ''bearer''" "sp' \<noteq> []" and t: "token_char t"
    using assms(1) by (rule bearer_tokenE)
  have "length b' = 6" by (rule lower_unbracketed(3) [OF x(2)])
  moreover define i where "i = length ps + length b' + length sp'"
  ultimately have "6 \<le> i" "(b @ sp) ! i = t" "i < length (b @ sp)"
    unfolding eq x by (simp_all add: nth_append)
  then have "t \<in> set sp" using assms(2) by (auto simp: nth_append)
  then show False using assms(3) token_no_space [OF t] by (auto simp: list_all_iff)
qed

lemma redact_no_token:
  assumes "bearer_token x"
  shows "\<not> sublist x (redact_String secrets s)"
  unfolding redact_String_def
proof (rule replace_removes [OF masking_patterns(3) bearer_token_maskable [OF assms]])
  fix s assume "prefix x s"
  then obtain b sp t rest where s: "s = b @ sp @ t # rest" and b: "map lower_char b = ''bearer''" and sp: "sp \<noteq> []" "list_all re_space sp"
      and t: "token_char t"
    using bearer_tokenE [OF assms] by (metis append.assoc append_Cons append_Nil prefixE)
  have "takeWhile re_space (sp @ t # rest) = sp" using sp(2) token_no_space [OF t] by (simp add: list_all_iff)
  then show "bearer s \<noteq> None"
    using b sp(1) t lower_unbracketed(3) [OF b] by (simp add: bearer_def Let_def s)
next
  fix s n r assume "bearer s = Some (n, r)"
  then obtain k where k: "k = 6 + length (takeWhile re_space (drop 6 s))" and r: "r = take k s @ mask" and "map lower_char (take 6 s) = ''bearer''"
    by (auto simp: bearer_def Let_def split: if_splits)
  moreover have "length (take 6 s) = 6" by (rule lower_unbracketed(3)) fact
  moreover have "take k s = take 6 s @ takeWhile re_space (drop 6 s)"
    unfolding k take_add by (simp add: takeWhile_eq_take [symmetric])
  moreover have "list_all re_space (takeWhile re_space (drop 6 s))" by (auto simp: list_all_iff dest: set_takeWhileD)
  ultimately show "\<exists>k. r = take k s @ mask \<and> \<not> sublist x (take k s)"
    using no_token_in_front [OF assms] by metis
qed

section \<open>What is left of a URL\<close>

lemma Cut_Some: "Cut s sep = Some (a, b) \<Longrightarrow> s = a @ sep @ b"
proof (induction s sep arbitrary: a rule: Cut.induct)
  case (2 c cs sep)
  then show ?case by (auto simp: prefix_def split: if_splits)
qed (auto split: if_splits)

lemma unparsed_prefix:
  assumes "unparsedURL raw \<noteq> unparseableURL"
  obtains scheme rest where "raw = scheme @ ''://'' @ rest" and "CHR ''@'' \<notin> set raw" and "prefix (unparsedURL raw) raw"
    and "prefix (unparsedURL raw) (scheme @ ''://'' @ takeWhile (\<lambda>c. c \<notin> set ''/?#'') rest)"
proof -
  obtain scheme rest where cut: "Cut raw ''://'' = Some (scheme, rest)" and name: "name_ok ''+.-'' scheme" and no_at: "CHR ''@'' \<notin> set rest"
    using assms by (auto simp: unparsedURL_def split: option.splits if_splits)
  let ?authority = "takeWhile (\<lambda>c. c \<notin> set ''/?#'') rest"
  have raw: "raw = scheme @ ''://'' @ rest" by (rule Cut_Some [OF cut])
  have "CHR ''@'' \<notin> set scheme"
    using name by (auto simp: name_ok_def list_all_iff alpha_char_def digit_char_def split: list.splits)
  then have "CHR ''@'' \<notin> set raw" using raw no_at by simp
  moreover have short: "prefix (unparsedURL raw) (scheme @ ''://'' @ ?authority)"
    using assms cut name no_at
    by (auto simp: unparsedURL_def Let_def prefix_def dest!: Cut_Some split: option.splits if_splits)
  moreover have "prefix (scheme @ ''://'' @ ?authority) raw"
    unfolding raw by (simp add: takeWhile_is_prefix)
  ultimately show ?thesis using that raw prefix_order.trans by blast
qed


definition no_urls :: url_lib where
  "no_urls = \<lparr>url_parse = (\<lambda>_. None), url_print = (\<lambda>_. [])\<rparr>"


end
