(* ===== verification/Cassette.thy ===== *)
theory Cassette
  imports Redact Runner
begin

text \<open>
  Recording and replaying the HTTP exchanges of a provider (\<open>src/internal/agent/cassette.go\<close>). A
  cassette is a file of JSON lines: a header and one line per exchange. The recording transport
  appends an exchange before it hands a response on and refuses everything after a write that
  failed; the replaying transport answers the recorded requests in order. What the operating
  system does with a write, what the network answers, and the JSON codec are parameters.
\<close>

section \<open>Data\<close>

definition CassetteVersion :: int where "CassetteVersion = 1"

record cassette_header =
  hd_version :: int
  hd_provider :: string
  hd_model :: string
  hd_max_output :: int

record exchange =
  ex_seq :: int
  ex_method :: string
  ex_url :: string
  ex_sha :: string
  ex_request :: json
  ex_status :: int
  ex_retry_after :: string
  ex_content_type :: string
  ex_location :: string
  ex_response :: string
  ex_error :: string

text \<open>
  A request as a transport sees it, with the text of the error if its body cannot be read, and a
  response: its body is what can be read of it, followed by the error that stops the read.
\<close>

record http_request =
  rq_method :: string
  rq_url :: url
  rq_body :: "string + string"

record http_response =
  hr_status :: int
  hr_content_type :: string
  hr_retry_after :: string
  hr_location :: string
  hr_body :: string
  hr_error :: "string option"

text \<open>
  The JSON codec of a file: the line an encoder without HTML escaping writes, and the values a
  decoder reads from a text, with whether it then finds the end of the input.
\<close>

record line_codec =
  enc_line :: "json \<Rightarrow> string"
  dec_values :: "string \<Rightarrow> json list \<times> bool"

definition header_json :: "cassette_header \<Rightarrow> json" where
  "header_json h = JObj ([(''twinwright_cassette'', jint (hd_version h)), (''provider'', JStr (hd_provider h)),
     (''model'', JStr (hd_model h))] @ opt_int ''max_output_tokens'' (hd_max_output h))"

definition exchange_json :: "exchange \<Rightarrow> json" where
  "exchange_json e = JObj ([(''seq'', jint (ex_seq e)), (''method'', JStr (ex_method e)), (''url'', JStr (ex_url e)),
       (''request_sha256'', JStr (ex_sha e)), (''request'', ex_request e), (''status'', jint (ex_status e))]
     @ opt_str ''retry_after'' (ex_retry_after e) @ opt_str ''content_type'' (ex_content_type e)
     @ opt_str ''location'' (ex_location e) @ [(''response'', JStr (ex_response e))] @ opt_str ''error'' (ex_error e))"

definition decode_header :: "json \<Rightarrow> cassette_header res" where
  "decode_header j =
     bindR (int_field ''twinwright_cassette'' j) (\<lambda>v. bindR (string_field ''provider'' j) (\<lambda>p.
     bindR (string_field ''model'' j) (\<lambda>m. bindR (int_field ''max_output_tokens'' j) (\<lambda>n.
     Inr \<lparr>hd_version = v, hd_provider = p, hd_model = m, hd_max_output = n\<rparr>))))"

definition decode_exchange :: "json \<Rightarrow> exchange res" where
  "decode_exchange j =
     bindR (int_field ''seq'' j) (\<lambda>seq. bindR (string_field ''method'' j) (\<lambda>method.
     bindR (string_field ''url'' j) (\<lambda>url. bindR (string_field ''request_sha256'' j) (\<lambda>sha.
     bindR (struct_field ''request'' j) (\<lambda>request. bindR (int_field ''status'' j) (\<lambda>status.
     bindR (string_field ''retry_after'' j) (\<lambda>retry. bindR (string_field ''content_type'' j) (\<lambda>ctype.
     bindR (string_field ''location'' j) (\<lambda>location. bindR (string_field ''response'' j) (\<lambda>response.
     bindR (string_field ''error'' j) (\<lambda>error.
     Inr \<lparr>ex_seq = seq, ex_method = method, ex_url = url, ex_sha = sha, ex_request = request, ex_status = status,
          ex_retry_after = retry, ex_content_type = ctype, ex_location = location, ex_response = response,
          ex_error = error\<rparr>)))))))))))"

section \<open>Recording\<close>

record recording =
  rc_secrets :: "string list"
  rc_file :: string
  rc_seq :: nat
  rc_failed :: "err option"
  rc_closed :: bool

definition errCassetteClosed :: err where "errCassetteClosed = Err ''cassette recording is closed''"

text \<open>
  What the operating system makes of a write: \<open>None\<close> when all of it is written, otherwise how many
  bytes are in the file when the write fails.
\<close>

type_synonym disk = "string \<Rightarrow> nat option"

definition NewRecordingTransportWith ::
    "line_codec \<Rightarrow> err option \<Rightarrow> disk \<Rightarrow> cassette_header \<Rightarrow> string list \<Rightarrow> recording res" where
  "NewRecordingTransportWith E opening write header secrets =
     (case opening of
        Some e \<Rightarrow> Inl e
      | None \<Rightarrow>
          let line = enc_line E (header_json (header\<lparr>hd_version := CassetteVersion\<rparr>)) in
          if write line \<noteq> None then Inl (Err ''write cassette'')
          else Inr \<lparr>rc_secrets = secrets, rc_file = line, rc_seq = 0, rc_failed = None, rc_closed = False\<rparr>)"

definition NewRecordingTransport ::
    "line_codec \<Rightarrow> err option \<Rightarrow> disk \<Rightarrow> string \<Rightarrow> string \<Rightarrow> string list \<Rightarrow> recording res" where
  "NewRecordingTransport E opening write provider model secrets =
     NewRecordingTransportWith E opening write \<lparr>hd_version = 0, hd_provider = provider, hd_model = model, hd_max_output = 0\<rparr> secrets"

definition usable :: "recording \<Rightarrow> unit res" where
  "usable t = (case rc_failed t of Some e \<Rightarrow> Inl e | None \<Rightarrow> if rc_closed t then Inl errCassetteClosed else Inr ())"

definition record_exchange :: "line_codec \<Rightarrow> disk \<Rightarrow> exchange \<Rightarrow> recording \<Rightarrow> unit res \<times> recording" where
  "record_exchange E write ex t =
     (case usable t of
        Inl e \<Rightarrow> (Inl e, t)
      | Inr _ \<Rightarrow>
          let line = enc_line E (exchange_json (ex\<lparr>ex_seq := int (rc_seq t) + 1\<rparr>)) in
          case write line of
            None \<Rightarrow> (Inr (), t\<lparr>rc_file := rc_file t @ line, rc_seq := rc_seq t + 1\<rparr>)
          | Some n \<Rightarrow>
              let e = Err ''write cassette'' in
              (Inl e, t\<lparr>rc_file := rc_file t @ take n line, rc_failed := Some e\<rparr>))"

definition Close :: "recording \<Rightarrow> recording" where
  "Close t = t\<lparr>rc_closed := True\<rparr>"

definition requestJSON :: "'x golib_scheme \<Rightarrow> string list \<Rightarrow> string \<Rightarrow> json" where
  "requestJSON L secrets body =
     (let masked = Secrets secrets body in case parse_json L masked of Some j \<Rightarrow> j | None \<Rightarrow> JStr masked)"

text \<open>\<open>[A-Za-z][A-Za-z0-9+.-]*://[^\s"'<>]+\<close>, replaced by what may be kept of the URL.\<close>

definition scheme_char :: "char \<Rightarrow> bool" where
  "scheme_char c \<longleftrightarrow> alpha_char c \<or> digit_char c \<or> c \<in> set ''+.-''"

definition urlInText :: "url_lib \<Rightarrow> pattern" where
  "urlInText U s =
     (let k = length (takeWhile scheme_char s);
          n = length (takeWhile (\<lambda>c. \<not> re_space c \<and> c \<notin> set [char_of (34 :: nat), char_of (39 :: nat), CHR ''<'', CHR ''>'']) (drop (k + 3) s))
      in if s \<noteq> [] \<and> alpha_char (hd s) \<and> prefix ''://'' (drop k s) \<and> 0 < n
         then Some (k + 3 + n, redact_URL U (take (k + 3 + n) s)) else None)"

definition errorText :: "url_lib \<Rightarrow> string list \<Rightarrow> string \<Rightarrow> string" where
  "errorText U secrets e = redact_String secrets (replace_matches (urlInText U) e)"

definition sha256Sum :: "'x golib_scheme \<Rightarrow> string \<Rightarrow> string" where
  "sha256Sum L b = hex_digest L b"

definition MaxResponseBytes :: nat where "MaxResponseBytes = 4 * 2 ^ 20"

text \<open>What is read of a body, one byte past the limit at most, and the error that cut it short.\<close>

definition limited :: "http_response \<Rightarrow> string \<times> string option" where
  "limited res =
     (if length (hr_body res) < MaxResponseBytes + 1 then (hr_body res, hr_error res)
      else (take (MaxResponseBytes + 1) (hr_body res), None))"

text \<open>The exchange before its number is known: what was sent, and what the base transport answered.\<close>

definition sent :: "'x golib_scheme \<Rightarrow> url_lib \<Rightarrow> string list \<Rightarrow> http_request \<Rightarrow> string \<Rightarrow> exchange" where
  "sent L U secrets req body =
     \<lparr>ex_seq = 0, ex_method = rq_method req, ex_url = Secrets secrets (redact_URL U (url_print U (rq_url req))),
      ex_sha = sha256Sum L body, ex_request = requestJSON L secrets body, ex_status = 0, ex_retry_after = [],
      ex_content_type = [], ex_location = [], ex_response = [], ex_error = []\<rparr>"

fun answered :: "url_lib \<Rightarrow> string list \<Rightarrow> string + http_response \<Rightarrow> exchange \<Rightarrow> exchange" where
  "answered U secrets (Inl e) ex = ex\<lparr>ex_error := errorText U secrets e\<rparr>"
| "answered U secrets (Inr res) ex =
     (let (data, readErr) = limited res in
      ex\<lparr>ex_status := hr_status res, ex_content_type := hr_content_type res, ex_retry_after := hr_retry_after res,
        ex_location := (if 300 \<le> hr_status res \<and> hr_status res < 400 \<and> hr_location res \<noteq> []
                        then Secrets secrets (redact_URL U (hr_location res)) else []),
        ex_response := Secrets secrets data,
        ex_error := (case readErr of None \<Rightarrow> [] | Some e \<Rightarrow> errorText U secrets e)\<rparr>)"

definition record_RoundTrip ::
    "'x golib_scheme \<Rightarrow> url_lib \<Rightarrow> line_codec \<Rightarrow> disk \<Rightarrow> (http_request \<Rightarrow> string + http_response) \<Rightarrow> http_request \<Rightarrow> recording \<Rightarrow>
       http_response res \<times> recording" where
  "record_RoundTrip L U E write base req t =
     (case usable t of
        Inl e \<Rightarrow> (Inl e, t)
      | Inr _ \<Rightarrow>
          case rq_body req of
            Inl e \<Rightarrow> (Inl (Err e), t)
          | Inr body \<Rightarrow>
              let ans = base req;
                  (wrote, t') = record_exchange E write (answered U (rc_secrets t) ans (sent L U (rc_secrets t) req body)) t
              in case ans of
                   Inl e \<Rightarrow> (case wrote of Inl _ \<Rightarrow> (Inl (Err (e @ ''; recording it also failed'')), t') | Inr _ \<Rightarrow> (Inl (Err e), t'))
                 | Inr res \<Rightarrow>
                     (case wrote of Inl e \<Rightarrow> (Inl e, t')
                      | Inr _ \<Rightarrow> let (data, readErr) = limited res in (Inr (res\<lparr>hr_body := data, hr_error := readErr\<rparr>), t')))"

section \<open>Loading\<close>

record cassette =
  ca_header :: cassette_header
  ca_exchanges :: "exchange list"

definition exchange_ok :: "nat \<Rightarrow> exchange \<Rightarrow> unit res" where
  "exchange_ok n ex =
     (if ex_seq ex \<noteq> int n then Inl (Err ''seq'')
      else if ex_method ex = [] \<or> ex_url ex = [] then Inl (Err ''no method or url'')
      else if ex_status ex = 0 \<and> ex_error ex = [] then Inl (Err ''status 0 without an error'')
      else if ex_status ex \<noteq> 0 \<and> (ex_status ex < 100 \<or> 599 < ex_status ex) then Inl (Err ''status is not an HTTP status'')
      else Inr ())"

fun load_exchanges :: "nat \<Rightarrow> json list \<Rightarrow> bool \<Rightarrow> exchange list res" where
  "load_exchanges n [] eof = (if eof then Inr [] else Inl (Err ''exchange''))"
| "load_exchanges n (j # js) eof =
     bindR (decode_exchange j) (\<lambda>ex. bindR (exchange_ok n ex) (\<lambda>_.
     bindR (load_exchanges (n + 1) js eof) (\<lambda>rest. Inr (ex # rest))))"

definition LoadCassette :: "line_codec \<Rightarrow> string res \<Rightarrow> cassette res" where
  "LoadCassette E opened =
     bindR opened (\<lambda>text.
     case dec_values E text of
       ([], eof) \<Rightarrow> Inl (Err (if eof then ''no header line'' else ''header''))
     | (j # js, eof) \<Rightarrow> bindR (decode_header j) (\<lambda>header.
         if hd_version header \<noteq> CassetteVersion then Inl (Err ''unsupported cassette version'')
         else if hd_provider header = [] \<or> hd_model header = [] then Inl (Err ''the header names no provider or model'')
         else bindR (load_exchanges 1 js eof) (\<lambda>exs. Inr \<lparr>ca_header = header, ca_exchanges = exs\<rparr>)))"

definition CheckRun :: "cassette \<Rightarrow> string \<Rightarrow> string \<Rightarrow> unit res" where
  "CheckRun c provider model =
     (if hd_provider (ca_header c) = provider \<and> hd_model (ca_header c) = model then Inr ()
      else Inl (Err ''cassette was recorded for another provider or model''))"

section \<open>Replaying\<close>

record cassette_transport =
  ct_exchanges :: "exchange list"
  ct_paths :: "string list"
  ct_next :: nat

definition exchange_path :: "url_lib \<Rightarrow> exchange \<Rightarrow> string" where
  "exchange_path U ex = (case url_parse U (ex_url ex) of Some u \<Rightarrow> ur_path u | None \<Rightarrow> ex_url ex)"

definition Transport :: "url_lib \<Rightarrow> cassette \<Rightarrow> cassette_transport" where
  "Transport U c = \<lparr>ct_exchanges = ca_exchanges c, ct_paths = map (exchange_path U) (ca_exchanges c), ct_next = 0\<rparr>"

text \<open>\<open>Divergence\<close> wraps \<open>ErrCassetteDivergence\<close>; \<open>Recorded\<close> is the error of a recorded failure.\<close>

datatype replay_error = Unsent string | Divergence string | Recorded string

definition served :: "exchange \<Rightarrow> replay_error + http_response" where
  "served ex =
     (if ex_status ex = 0 then Inl (Recorded (ex_error ex))
      else Inr \<lparr>hr_status = ex_status ex, hr_content_type = ex_content_type ex, hr_retry_after = ex_retry_after ex,
                hr_location = ex_location ex, hr_body = ex_response ex,
                hr_error = (if ex_error ex = [] then None else Some (ex_error ex))\<rparr>)"

definition replay_RoundTrip ::
    "'x golib_scheme \<Rightarrow> string option \<Rightarrow> http_request \<Rightarrow> cassette_transport \<Rightarrow> (replay_error + http_response) \<times> cassette_transport" where
  "replay_RoundTrip L cancelled req t =
     (case rq_body req of
        Inl e \<Rightarrow> (Inl (Unsent e), t)
      | Inr body \<Rightarrow>
          (case cancelled of
             Some e \<Rightarrow> (Inl (Unsent e), t)
           | None \<Rightarrow>
               if length (ct_exchanges t) \<le> ct_next t then (Inl (Divergence ''no recorded exchange left''), t)
               else
                 let ex = ct_exchanges t ! ct_next t in
                 if rq_method req \<noteq> ex_method ex then (Inl (Divergence ''method differs''), t)
                 else if ur_path (rq_url req) \<noteq> ct_paths t ! ct_next t then (Inl (Divergence ''url path differs''), t)
                 else if sha256Sum L body \<noteq> ex_sha ex then (Inl (Divergence ''request_sha256 differs''), t)
                 else (served ex, t\<lparr>ct_next := ct_next t + 1\<rparr>)))"

section \<open>The codec of a line\<close>

lemma digit_minus_plus: "\<not> digit_char CHR ''-''" "\<not> digit_char CHR ''+''"
  by (simp_all add: digit_char_def)

lemma parse_int64_show:
  assumes "int64_min \<le> i" and "i \<le> int64_max"
  shows "parse_int64 (show_int i) = (i, True)"
proof -
  have digits: "list_all digit_char (show_nat n)" for n by (auto simp: list_all_iff dest: show_nat_digits)
  have "hd (show_nat n) \<in> set (show_nat n)" for n by simp
  then have "digit_char (hd (show_nat n))" for n by (rule show_nat_digits)
  then have sign: "hd (show_nat n) \<noteq> CHR ''-'' \<and> hd (show_nat n) \<noteq> CHR ''+''" for n
    by (metis digit_minus_plus)
  show ?thesis
    using assms sign digits by (auto simp: parse_int64_def show_int_def Let_def digits_val_show_nat)
qed

definition in_int64 :: "int \<Rightarrow> bool" where
  "in_int64 i \<longleftrightarrow> int64_min \<le> i \<and> i \<le> int64_max"

lemma json_field_obj: "json_field k (JObj kvs) = map_of kvs k"
  by (simp add: json_field_def)

lemma map_of_opt_str: "map_of (opt_str k s @ rest) k' = (if s \<noteq> [] \<and> k' = k then Some (JStr s) else map_of rest k')"
  by (simp add: opt_str_def)

lemma map_of_opt_int: "map_of (opt_int k i @ rest) k' = (if i \<noteq> 0 \<and> k' = k then Some (jint i) else map_of rest k')"
  by (simp add: opt_int_def)

lemmas map_of_opts = map_of_opt_str map_of_opt_int map_of_opt_str [where rest = "[]", simplified] map_of_opt_int [where rest = "[]", simplified]

lemma string_field_obj:
  "string_field k (JObj kvs) = (case map_of kvs k of None \<Rightarrow> Inr [] | Some JNull \<Rightarrow> Inr [] | Some (JStr s) \<Rightarrow> Inr s
     | _ \<Rightarrow> Inl (Err ''json: cannot unmarshal into string''))"
  by (simp add: string_field_def struct_field_def json_field_obj split: option.splits json.splits)

lemma int_field_obj:
  "map_of kvs k = Some (jint i) \<Longrightarrow> in_int64 i \<Longrightarrow> int_field k (JObj kvs) = Inr i"
  "map_of kvs k = None \<Longrightarrow> int_field k (JObj kvs) = Inr 0"
  by (simp_all add: int_field_def struct_field_def json_field_obj jint_def in_int64_def parse_int64_show)

lemma decode_exchange_json:
  assumes "in_int64 (ex_seq e)" and "in_int64 (ex_status e)"
  shows "decode_exchange (exchange_json e) = Inr e"
proof -
  note seq = int_field_obj(1) [OF _ assms(1)] and status = int_field_obj(1) [OF _ assms(2)]
  show ?thesis
    by (simp add: decode_exchange_def exchange_json_def seq status string_field_obj map_of_opts struct_field_def json_field_obj
          del: map_of_append)
qed

lemma decode_header_json:
  assumes "in_int64 (hd_version h)" and "in_int64 (hd_max_output h)"
  shows "decode_header (header_json h) = Inr h"
proof -
  note version = int_field_obj(1) [OF _ assms(1)] and ceiling = int_field_obj(1) [OF _ assms(2)]
  have "int_field ''max_output_tokens'' (header_json h) = Inr (hd_max_output h)"
    unfolding header_json_def
    by (cases "hd_max_output h = 0") (auto intro!: ceiling int_field_obj(2) simp: map_of_opts simp del: map_of_append)
  then show ?thesis
    by (simp add: decode_header_def header_json_def version string_field_obj map_of_opts del: map_of_append)
qed

section \<open>What a recording holds\<close>

text \<open>A sequence of round trips: for each, the disk, the request and the answer of the base transport.\<close>

type_synonym trip = "disk \<times> http_request \<times> (string + http_response)"

fun record_all :: "'x golib_scheme \<Rightarrow> url_lib \<Rightarrow> line_codec \<Rightarrow> trip list \<Rightarrow> recording \<Rightarrow> http_response res list \<times> recording" where
  "record_all L U E [] t = ([], t)"
| "record_all L U E ((write, req, ans) # trips) t =
     (let (r, t1) = record_RoundTrip L U E write (\<lambda>_. ans) req t; (rs, t2) = record_all L U E trips t1 in (r # rs, t2))"

text \<open>The exchanges that reach the file, numbered, with their requests and answers: all with a readable body up to the first failed write.\<close>

fun taped ::
    "'x golib_scheme \<Rightarrow> url_lib \<Rightarrow> line_codec \<Rightarrow> string list \<Rightarrow> nat \<Rightarrow> trip list \<Rightarrow> (exchange \<times> http_request \<times> (string + http_response)) list" where
  "taped L U E secrets n [] = []"
| "taped L U E secrets n ((write, req, ans) # trips) =
     (case rq_body req of
        Inl _ \<Rightarrow> taped L U E secrets n trips
      | Inr body \<Rightarrow>
          let ex = (answered U secrets ans (sent L U secrets req body))\<lparr>ex_seq := int n + 1\<rparr> in
          if write (enc_line E (exchange_json ex)) = None then (ex, req, ans) # taped L U E secrets (n + 1) trips else [])"

definition handed_on :: "http_response res list \<Rightarrow> http_response list" where
  "handed_on rs = concat (map (\<lambda>r. case r of Inr res \<Rightarrow> [res] | Inl _ \<Rightarrow> []) rs)"

definition limited_response :: "http_response \<Rightarrow> http_response" where
  "limited_response res = res\<lparr>hr_body := fst (limited res), hr_error := snd (limited res)\<rparr>"

definition tape_text :: "line_codec \<Rightarrow> (exchange \<times> 'a) list \<Rightarrow> string" where
  "tape_text E tape = concat (map (\<lambda>p. enc_line E (exchange_json (fst p))) tape)"

definition responses :: "(exchange \<times> http_request \<times> (string + http_response)) list \<Rightarrow> http_response list" where
  "responses tape = concat (map (\<lambda>p. case snd (snd p) of Inr res \<Rightarrow> [limited_response res] | Inl _ \<Rightarrow> []) tape)"

lemma handed_on_simps [simp]:
  "handed_on [] = []" "handed_on (Inl e # rs) = handed_on rs" "handed_on (Inr res # rs) = res # handed_on rs"
  by (simp_all add: handed_on_def)

lemma tape_simps [simp]:
  "tape_text E [] = []" "tape_text E (p # tape) = enc_line E (exchange_json (fst p)) @ tape_text E tape"
  "responses [] = []" "responses ((ex, req, Inl e) # tape) = responses tape"
  "responses ((ex, req, Inr res) # tape) = limited_response res # responses tape"
  by (simp_all add: tape_text_def responses_def)

text \<open>After a failed write, or once closed, a recording hands nothing on and writes nothing.\<close>

lemma record_unusable:
  assumes "usable t = Inl e"
  shows "record_all L U E trips t = (rs, t') \<Longrightarrow> t' = t \<and> handed_on rs = []"
  by (induction trips arbitrary: rs) (auto simp: record_RoundTrip_def assms Let_def split: prod.splits)

lemma record_all_taped:
  assumes "usable t = Inr ()" and "record_all L U E trips t = (rs, t')"
  shows "\<exists>partial. rc_file t' = rc_file t @ tape_text E (taped L U E (rc_secrets t) (rc_seq t) trips) @ partial
    \<and> (rc_failed t' = None \<longrightarrow> partial = []) \<and> handed_on rs = responses (taped L U E (rc_secrets t) (rc_seq t) trips)"
  using assms
proof (induction trips arbitrary: t rs)
  case (Cons trip trips)
  obtain disk req ans where trip: "trip = (disk, req, ans)" by (cases trip) auto
  obtain r t1 where first: "record_RoundTrip L U E disk (\<lambda>_. ans) req t = (r, t1)" by (rule prod.exhaust)
  obtain rs1 where rest: "record_all L U E trips t1 = (rs1, t')" and rs: "rs = r # rs1"
    using Cons.prems(2) first by (auto simp: trip split: prod.splits)
  show ?case
  proof (cases "rq_body req")
    case (Inl e)
    then have "t1 = t" "r = Inl (Err e)" using first Cons.prems(1) by (simp_all add: record_RoundTrip_def)
    then show ?thesis using Cons.IH [OF Cons.prems(1)] rest Inl by (simp add: rs trip)
  next
    case (Inr body)
    define ex where "ex = answered U (rc_secrets t) ans (sent L U (rc_secrets t) req body)"
    define line where "line = enc_line E (exchange_json (ex\<lparr>ex_seq := int (rc_seq t) + 1\<rparr>))"
    show ?thesis
    proof (cases "disk line")
      case None
      have t1: "t1 = t\<lparr>rc_file := rc_file t @ line, rc_seq := rc_seq t + 1\<rparr>"
          and r: "handed_on (r # rs1) = responses [(ex, req, ans)] @ handed_on rs1"
        using first Cons.prems(1) None Inr
        by (auto simp: record_RoundTrip_def record_exchange_def ex_def [symmetric] line_def [symmetric] Let_def limited_response_def
              split: sum.splits prod.splits)
      have "usable t1 = Inr ()" using Cons.prems(1) by (simp add: t1 usable_def split: option.splits if_splits)
      moreover have "taped L U E (rc_secrets t) (rc_seq t) (trip # trips)
          = (ex\<lparr>ex_seq := int (rc_seq t) + 1\<rparr>, req, ans) # taped L U E (rc_secrets t1) (rc_seq t1) trips"
        using None Inr unfolding line_def ex_def trip t1 by simp
      ultimately show ?thesis using Cons.IH [of t1 rs1] rest r t1 by (cases ans) (auto simp: rs line_def)
    next
      case (Some n)
      have t1: "t1 = t\<lparr>rc_file := rc_file t @ take n line, rc_failed := Some (Err ''write cassette'')\<rparr>" and r: "\<exists>e. r = Inl e"
        using first Cons.prems(1) Some Inr
        by (auto simp: record_RoundTrip_def record_exchange_def ex_def [symmetric] line_def [symmetric] Let_def split: sum.splits)
      have "usable t1 = Inl (Err ''write cassette'')" by (simp add: t1 usable_def)
      from record_unusable [OF this rest] show ?thesis
        using Some Inr r by (auto simp: trip rs t1 Let_def ex_def [symmetric] line_def [symmetric])
    qed
  qed
qed simp

text \<open>No text of an exchange that is masked holds the secret.\<close>

definition clean :: "'x golib_scheme \<Rightarrow> string \<Rightarrow> exchange \<Rightarrow> bool" where
  "clean L secret ex \<longleftrightarrow>
     list_all (\<lambda>s. \<not> sublist secret s) [ex_url ex, ex_location ex, ex_response ex, ex_error ex]
     \<and> (\<exists>masked. \<not> sublist secret masked \<and> ex_request ex = (case parse_json L masked of Some j \<Rightarrow> j | None \<Rightarrow> JStr masked))"

lemma taped_elem:
  "p \<in> set (taped L U E secrets n trips) \<Longrightarrow>
     \<exists>body seq. rq_body (fst (snd p)) = Inr body \<and> seq \<le> int n + int (length trips)
       \<and> 0 < seq \<and> fst p = (answered U secrets (snd (snd p)) (sent L U secrets (fst (snd p)) body))\<lparr>ex_seq := seq\<rparr>"
proof (induction trips arbitrary: n)
  case (Cons trip trips)
  obtain disk req ans where trip: "trip = (disk, req, ans)" by (cases trip) auto
  show ?case
  proof (cases "rq_body req")
    case (Inl e)
    then have "p \<in> set (taped L U E secrets n trips)" using Cons.prems by (simp add: trip)
    from Cons.IH [OF this] show ?thesis by (elim exE conjE) (intro exI conjI, assumption, simp_all)
  next
    case (Inr body)
    define ex where "ex = (answered U secrets ans (sent L U secrets req body))\<lparr>ex_seq := int n + 1\<rparr>"
    consider "p = (ex, req, ans)" | "p \<in> set (taped L U E secrets (n + 1) trips)"
      using Cons.prems Inr by (auto simp: trip ex_def [symmetric] Let_def split: if_splits)
    then show ?thesis
    proof cases
      case 1
      then show ?thesis using Inr by (intro exI [of _ body] exI [of _ "int n + 1"]) (simp add: ex_def)
    next
      case 2
      from Cons.IH [OF this] show ?thesis by (elim exE conjE) (intro exI conjI, assumption, simp_all)
    qed
  qed
qed simp

lemma answered_sent [simp]:
  "ex_url (answered U secrets ans ex) = ex_url ex" "ex_request (answered U secrets ans ex) = ex_request ex"
  "ex_method (answered U secrets ans ex) = ex_method ex" "ex_sha (answered U secrets ans ex) = ex_sha ex"
  by (cases ans; simp add: case_prod_beta)+

lemma answered_masked:
  assumes "P []" and "\<And>s. P (Secrets secrets s)" and "\<And>e. P (errorText U secrets e)"
    and "ex_location ex = []" and "ex_response ex = []" and "ex_error ex = []"
  shows "P (ex_location (answered U secrets ans ex))" and "P (ex_response (answered U secrets ans ex))"
    and "P (ex_error (answered U secrets ans ex))"
  using assms by (cases ans; auto simp: case_prod_beta split: option.splits)+

lemma taped_clean:
  assumes "secret \<in> set secrets" and "8 \<le> length secret" and "maskable secret" and "p \<in> set (taped L U E secrets n trips)"
  shows "clean L secret (fst p)"
proof -
  note gone = Secrets_removes [OF assms(1,2,3)]
  have none: "\<not> sublist secret []" using assms(2) by auto
  obtain body seq where ex: "fst p = (answered U secrets (snd (snd p)) (sent L U secrets (fst (snd p)) body))\<lparr>ex_seq := seq\<rparr>"
    using taped_elem [OF assms(4)] by blast
  have error: "\<not> sublist secret (errorText U secrets e)" for e
    unfolding errorText_def by (rule redact_String_absent [OF assms(3) gone])
  have "ex_url (fst p) = Secrets secrets (redact_URL U (url_print U (rq_url (fst (snd p)))))"
       "ex_request (fst p) = requestJSON L secrets body"
    unfolding ex by (simp_all add: sent_def)
  moreover have "\<not> sublist secret (ex_location (fst p))" "\<not> sublist secret (ex_response (fst p))" "\<not> sublist secret (ex_error (fst p))"
    using answered_masked [where P = "\<lambda>s. \<not> sublist secret s" and secrets = secrets and U = U and ans = "snd (snd p)"
        and ex = "sent L U secrets (fst (snd p)) body"] gone none error unfolding ex by (simp_all add: sent_def)
  moreover have "\<exists>masked. \<not> sublist secret masked \<and> requestJSON L secrets body = (case parse_json L masked of Some j \<Rightarrow> j | None \<Rightarrow> JStr masked)"
    by (rule exI [of _ "Secrets secrets body"]) (simp only: gone requestJSON_def Let_def not_False_eq_True simp_thms)
  ultimately show ?thesis using gone by (simp add: clean_def)
qed


section \<open>A cassette replays\<close>

fun replay_all :: "'x golib_scheme \<Rightarrow> http_request list \<Rightarrow> cassette_transport \<Rightarrow> (replay_error + http_response) list \<times> cassette_transport" where
  "replay_all L [] t = ([], t)"
| "replay_all L (req # reqs) t =
     (let (r, t1) = replay_RoundTrip L None req t; (rs, t2) = replay_all L reqs t1 in (r # rs, t2))"

text \<open>What a replay answers where the base transport gave an answer.\<close>

fun replayed :: "url_lib \<Rightarrow> string list \<Rightarrow> string + http_response \<Rightarrow> replay_error + http_response" where
  "replayed U secrets (Inl e) = Inl (Recorded (errorText U secrets e))"
| "replayed U secrets (Inr res) =
     Inr \<lparr>hr_status = hr_status res, hr_content_type = hr_content_type res, hr_retry_after = hr_retry_after res,
          hr_location = (if 300 \<le> hr_status res \<and> hr_status res < 400 \<and> hr_location res \<noteq> []
                         then Secrets secrets (redact_URL U (hr_location res)) else []),
          hr_body = Secrets secrets (fst (limited res)), hr_error = map_option (errorText U secrets) (snd (limited res))\<rparr>"

text \<open>
  The answers a file can hold: an HTTP status, or an error with a text. A request it can hold has a
  method and a URL whose path is still the path of what is left of the URL.
\<close>

fun recordable :: "url_lib \<Rightarrow> string list \<Rightarrow> string + http_response \<Rightarrow> bool" where
  "recordable U secrets (Inl e) \<longleftrightarrow> errorText U secrets e \<noteq> []"
| "recordable U secrets (Inr res) \<longleftrightarrow> 100 \<le> hr_status res \<and> hr_status res \<le> 599
     \<and> (\<forall>e. snd (limited res) = Some e \<longrightarrow> errorText U secrets e \<noteq> [])"

definition addressed :: "url_lib \<Rightarrow> exchange \<Rightarrow> http_request \<Rightarrow> bool" where
  "addressed U ex req \<longleftrightarrow> rq_method req \<noteq> [] \<and> ex_url ex \<noteq> [] \<and> exchange_path U ex = ur_path (rq_url req)"

definition replayable :: "url_lib \<Rightarrow> string list \<Rightarrow> exchange \<times> http_request \<times> (string + http_response) \<Rightarrow> bool" where
  "replayable U secrets p \<longleftrightarrow> recordable U secrets (snd (snd p)) \<and> addressed U (fst p) (fst (snd p))"

lemma served_answered:
  assumes "recordable U secrets ans" and "ex_status ex = 0"
  shows "served ((answered U secrets ans ex)\<lparr>ex_seq := n\<rparr>) = replayed U secrets ans"
  using assms by (cases ans) (auto simp: served_def case_prod_beta split: option.splits)

lemma exchange_ok_answered:
  assumes "recordable U secrets ans" and "ex_status ex = 0" and "ex_method ex \<noteq> []" and "ex_url ex \<noteq> []"
  shows "exchange_ok n ((answered U secrets ans ex)\<lparr>ex_seq := int n\<rparr>) = Inr ()"
    and "in_int64 (ex_status (answered U secrets ans ex))"
  using assms by (cases ans; auto simp: exchange_ok_def case_prod_beta in_int64_def int64_min_def int64_max_def split: option.splits)+

lemma load_taped:
  assumes "\<forall>p \<in> set (taped L U E secrets n trips). replayable U secrets p" and "in_int64 (int n + int (length trips))"
  shows "load_exchanges (n + 1) (map (\<lambda>p. exchange_json (fst p)) (taped L U E secrets n trips)) True
    = Inr (map fst (taped L U E secrets n trips))"
  using assms
proof (induction trips arbitrary: n)
  case (Cons trip trips)
  obtain disk req ans where trip: "trip = (disk, req, ans)" by (cases trip) auto
  show ?case
  proof (cases "rq_body req")
    case (Inl e)
    have "in_int64 (int n + int (length trips))" using Cons.prems(2) by (simp add: in_int64_def int64_min_def)
    then show ?thesis using Cons Inl by (simp add: trip)
  next
    case (Inr body)
    define ex where "ex = (answered U secrets ans (sent L U secrets req body))\<lparr>ex_seq := int (n + 1)\<rparr>"
    show ?thesis
    proof (cases "disk (enc_line E (exchange_json ex))")
      case None
      then have tape: "taped L U E secrets n (trip # trips) = (ex, req, ans) # taped L U E secrets (n + 1) trips"
        using Inr by (simp add: trip ex_def add.commute)
      then have fits: "recordable U secrets ans" "addressed U ex req" using Cons.prems(1) by (simp_all add: replayable_def)
      have "ex_status (sent L U secrets req body) = 0" "ex_method (sent L U secrets req body) \<noteq> []"
          "ex_url (sent L U secrets req body) \<noteq> []"
        using fits(2) by (simp_all add: addressed_def sent_def ex_def)
      note ok = exchange_ok_answered [OF fits(1) this]
      have "exchange_ok (n + 1) ex = Inr ()" unfolding ex_def by (rule ok(1))
      moreover have "in_int64 (ex_status ex)" unfolding ex_def using ok(2) by simp
      moreover have "in_int64 (ex_seq ex)" using Cons.prems(2) by (simp add: ex_def in_int64_def int64_min_def)
      moreover have "load_exchanges (n + 1 + 1) (map (\<lambda>p. exchange_json (fst p)) (taped L U E secrets (n + 1) trips)) True
          = Inr (map fst (taped L U E secrets (n + 1) trips))"
        using Cons.prems by (intro Cons.IH) (simp_all add: tape ac_simps)
      ultimately show ?thesis unfolding tape by (simp add: decode_exchange_json)
    next
      case (Some k)
      then show ?thesis using Inr by (simp add: trip ex_def add.commute)
    qed
  qed
qed simp

lemma replay_taped:
  assumes "\<forall>p \<in> set tape. replayable U secrets p
      \<and> (\<exists>body n. rq_body (fst (snd p)) = Inr body \<and> fst p = (answered U secrets (snd (snd p)) (sent L U secrets (fst (snd p)) body))\<lparr>ex_seq := n\<rparr>)"
    and "ct_exchanges t = map fst (past @ tape)" and "ct_paths t = map (exchange_path U) (ct_exchanges t)" and "ct_next t = length past"
  shows "replay_all L (map (\<lambda>p. fst (snd p)) tape) t
    = (map (\<lambda>p. replayed U secrets (snd (snd p))) tape, t\<lparr>ct_next := length past + length tape\<rparr>)"
  using assms
proof (induction tape arbitrary: t past)
  case (Cons p tape)
  obtain ex req ans where p: "p = (ex, req, ans)" by (cases p) auto
  obtain body n where body: "rq_body req = Inr body" and ex: "ex = (answered U secrets ans (sent L U secrets req body))\<lparr>ex_seq := n\<rparr>"
    using Cons.prems(1) by (auto simp: p)
  have fits: "recordable U secrets ans" "addressed U ex req" using Cons.prems(1) by (simp_all add: p replayable_def)
  have cursor: "ct_exchanges t ! ct_next t = ex" "ct_next t < length (ct_exchanges t)" "ct_paths t ! ct_next t = exchange_path U ex"
    using Cons.prems(2-4) by (simp_all add: p nth_append)
  have "served ex = replayed U secrets ans" unfolding ex by (rule served_answered [OF fits(1)]) (simp add: sent_def)
  moreover have "ex_method ex = rq_method req" "ex_sha ex = sha256Sum L body" by (simp_all add: ex sent_def)
  ultimately have "replay_RoundTrip L None req t = (replayed U secrets ans, t\<lparr>ct_next := ct_next t + 1\<rparr>)"
    using fits(2) cursor body by (simp add: replay_RoundTrip_def addressed_def Let_def)
  moreover have "replay_all L (map (\<lambda>p. fst (snd p)) tape) (t\<lparr>ct_next := ct_next t + 1\<rparr>)
      = (map (\<lambda>p. replayed U secrets (snd (snd p))) tape, (t\<lparr>ct_next := ct_next t + 1\<rparr>)\<lparr>ct_next := length (past @ [p]) + length tape\<rparr>)"
    using Cons.prems by (intro Cons.IH) simp_all
  ultimately show ?case by (simp add: p)
qed simp

text \<open>A replay answers only the request that was recorded next; otherwise its cursor stays.\<close>

lemma replay_RoundTrip_exact:
  assumes "replay_RoundTrip L cancelled req t = (r, t')"
  shows "t' = t \<and> (\<exists>e. r = Inl (Unsent e) \<or> r = Inl (Divergence e))
    \<or> ct_next t < length (ct_exchanges t) \<and> t' = t\<lparr>ct_next := ct_next t + 1\<rparr> \<and> r = served (ct_exchanges t ! ct_next t)
       \<and> rq_method req = ex_method (ct_exchanges t ! ct_next t) \<and> ur_path (rq_url req) = ct_paths t ! ct_next t
       \<and> (\<exists>body. rq_body req = Inr body \<and> sha256Sum L body = ex_sha (ct_exchanges t ! ct_next t))"
  using assms by (auto simp: replay_RoundTrip_def Let_def split: sum.splits option.splits if_splits)

text \<open>
  C32. A recorded session replays. When every write succeeded and the file is read back as the JSON
  values that were written, it loads, belongs to the recorded provider and model, and replaying
  the recorded requests in order gives for each what its base transport answered: the recorded
  failure, or the same status, headers and masked body. A request past the end diverges, and a
  replay answers none but the request recorded next, without moving on otherwise.
\<close>

theorem cassette_replays:
  fixes L :: "'x golib_scheme"
  assumes "NewRecordingTransportWith E None disk header secrets = Inr t" and "record_all L U E trips t = (rs, t')"
    and "rc_failed t' = None" and "hd_provider header \<noteq> []" and "hd_model header \<noteq> []" and "in_int64 (hd_max_output header)"
    and "in_int64 (int (length trips))" and "\<forall>p \<in> set (taped L U E secrets 0 trips). replayable U secrets p"
    and "dec_values E (enc_line E (header_json (header\<lparr>hd_version := CassetteVersion\<rparr>)) @ tape_text E (taped L U E secrets 0 trips))
       = (header_json (header\<lparr>hd_version := CassetteVersion\<rparr>) #
           map (\<lambda>p. exchange_json (fst p)) (taped L U E secrets 0 trips), True)"
  shows "\<exists>c. LoadCassette E (Inr (rc_file t')) = Inr c \<and> CheckRun c (hd_provider header) (hd_model header) = Inr ()
    \<and> (\<exists>stop. replay_all L (map (\<lambda>p. fst (snd p)) (taped L U E secrets 0 trips)) (Transport U c)
          = (map (\<lambda>p. replayed U secrets (snd (snd p))) (taped L U E secrets 0 trips), stop)
        \<and> (\<forall>req body. rq_body req = Inr body \<longrightarrow> (\<exists>e. replay_RoundTrip L None req stop = (Inl (Divergence e), stop))))
    \<and> (\<forall>cancelled req r tr tr'. replay_RoundTrip L cancelled req tr = (r, tr') \<longrightarrow>
         tr' = tr \<and> (\<exists>e. r = Inl (Unsent e) \<or> r = Inl (Divergence e))
         \<or> tr' = tr\<lparr>ct_next := ct_next tr + 1\<rparr> \<and> r = served (ct_exchanges tr ! ct_next tr)
            \<and> rq_method req = ex_method (ct_exchanges tr ! ct_next tr) \<and> ur_path (rq_url req) = ct_paths tr ! ct_next tr
            \<and> (\<exists>body. rq_body req = Inr body \<and> sha256Sum L body = ex_sha (ct_exchanges tr ! ct_next tr)))"
proof -
  let ?tape = "taped L U E secrets 0 trips" and ?header = "header\<lparr>hd_version := CassetteVersion\<rparr>"
  define c where "c = \<lparr>ca_header = ?header, ca_exchanges = map fst ?tape\<rparr>"
  have t: "usable t = Inr ()" "rc_secrets t = secrets" "rc_seq t = 0" "rc_file t = enc_line E (header_json ?header)"
    using assms(1) by (auto simp: NewRecordingTransportWith_def usable_def Let_def split: if_splits)
  then have written: "rc_file t' = enc_line E (header_json ?header) @ tape_text E ?tape"
    using record_all_taped [OF t(1) assms(2)] assms(3) by auto
  have "decode_header (header_json ?header) = Inr ?header"
    using assms(6) by (intro decode_header_json) (simp_all add: CassetteVersion_def in_int64_def int64_min_def int64_max_def)
  moreover have "load_exchanges 1 (map (\<lambda>p. exchange_json (fst p)) ?tape) True = Inr (map fst ?tape)"
    using load_taped [OF assms(8)] assms(7) by simp
  ultimately have "LoadCassette E (Inr (rc_file t')) = Inr c"
    using assms(4,5,9) by (simp add: LoadCassette_def c_def written)
  moreover have "CheckRun c (hd_provider header) (hd_model header) = Inr ()" by (simp add: CheckRun_def c_def)
  moreover have "\<forall>p \<in> set ?tape. replayable U secrets p \<and> (\<exists>body n. rq_body (fst (snd p)) = Inr body
      \<and> fst p = (answered U secrets (snd (snd p)) (sent L U secrets (fst (snd p)) body))\<lparr>ex_seq := n\<rparr>)"
    using assms(8) taped_elem by blast
  then have "replay_all L (map (\<lambda>p. fst (snd p)) ?tape) (Transport U c)
      = (map (\<lambda>p. replayed U secrets (snd (snd p))) ?tape, (Transport U c)\<lparr>ct_next := length ?tape\<rparr>)"
    using replay_taped [of ?tape U secrets L "Transport U c" "[]"] by (simp add: Transport_def c_def)
  moreover have "\<forall>req body. rq_body req = Inr body \<longrightarrow>
      (\<exists>e. replay_RoundTrip L None req ((Transport U c)\<lparr>ct_next := length ?tape\<rparr>) = (Inl (Divergence e), (Transport U c)\<lparr>ct_next := length ?tape\<rparr>))"
    by (simp add: replay_RoundTrip_def Transport_def c_def)
  ultimately show ?thesis using replay_RoundTrip_exact [where L = L] by blast
qed

section \<open>Witnesses\<close>

text \<open>One exchange with a model service whose answer repeats the key.\<close>

definition ca_url :: url where
  "ca_url = \<lparr>ur_scheme = ''https'', ur_user = None, ur_host = ''h'', ur_path = ''/v1'', ur_raw_path = [], ur_query = [], ur_force = False,
     ur_fragment = [], ur_raw_fragment = []\<rparr>"

definition ca_urls :: url_lib where
  "ca_urls = \<lparr>url_parse = (\<lambda>_. Some (ca_url\<lparr>ur_user := Some ''u''\<rparr>)), url_print = (\<lambda>_. ''h/v1'')\<rparr>"

definition ca_req :: http_request where
  "ca_req = \<lparr>rq_method = ''POST'', rq_url = ca_url, rq_body = Inr ''hi''\<rparr>"

definition ca_res :: http_response where
  "ca_res = \<lparr>hr_status = 200, hr_content_type = [], hr_retry_after = [], hr_location = [], hr_body = ''the key secret-1'', hr_error = None\<rparr>"

definition ca_codec :: "json list \<Rightarrow> line_codec" where
  "ca_codec js = \<lparr>enc_line = (\<lambda>_. ''x''), dec_values = (\<lambda>_. (js, True))\<rparr>"

definition ca_trips :: "trip list" where
  "ca_trips = [(\<lambda>_. None, ca_req, Inr ca_res)]"

definition ca_head :: cassette_header where
  "ca_head = \<lparr>hd_version = 1, hd_provider = ''openai'', hd_model = ''m'', hd_max_output = 0\<rparr>"

definition ca_recording :: recording where
  "ca_recording = \<lparr>rc_secrets = [''secret-1''], rc_file = ''x'', rc_seq = 0, rc_failed = None, rc_closed = False\<rparr>"

definition ca_ex :: exchange where
  "ca_ex = \<lparr>ex_seq = 1, ex_method = ''POST'', ex_url = ''h/v1'', ex_sha = hex_digest sample_lib ''hi'', ex_request = JStr ''hi'', ex_status = 200,
     ex_retry_after = [], ex_content_type = [], ex_location = [], ex_response = ''the key [REDACTED]'', ex_error = []\<rparr>"

lemma ca_masks:
  "Secrets [''secret-1''] ''h/v1'' = ''h/v1''" "Secrets [''secret-1''] ''hi'' = ''hi''"
  "Secrets [''secret-1''] ''the key secret-1'' = ''the key [REDACTED]''"
  by code_simp+

lemma ca_limited: "limited ca_res = (''the key secret-1'', None)"
  by (simp add: limited_def ca_res_def MaxResponseBytes_def)

lemma ca_url_kept: "redact_URL ca_urls s = ''h/v1''"
  by (simp add: redact_URL_def parseURL_def ca_urls_def)

lemma ca_tape: "taped sample_lib ca_urls (ca_codec js) [''secret-1''] 0 ca_trips = [(ca_ex, ca_req, Inr ca_res)]"
proof -
  have "ca_ex = (answered ca_urls [''secret-1''] (Inr ca_res) (sent sample_lib ca_urls [''secret-1''] ca_req ''hi''))\<lparr>ex_seq := 1\<rparr>"
    by (simp add: ca_limited ca_masks ca_url_kept sent_def requestJSON_def sha256Sum_def ca_ex_def)
       (simp add: ca_req_def ca_res_def sample_lib_def)
  then show ?thesis by (simp add: ca_trips_def ca_req_def)
qed

lemma ca_new: "NewRecordingTransportWith (ca_codec js) None (\<lambda>_. None) ca_head [''secret-1''] = Inr ca_recording"
  by (simp add: NewRecordingTransportWith_def ca_codec_def ca_recording_def)

lemma ca_file: "\<exists>rs t'. record_all sample_lib ca_urls (ca_codec js) ca_trips ca_recording = (rs, t') \<and> rc_failed t' = None"
  by (simp add: ca_trips_def record_RoundTrip_def record_exchange_def usable_def ca_recording_def ca_req_def ca_codec_def Let_def
      case_prod_beta)


theorem cassette_replays_witness:
  "\<exists>js (t' :: recording) c. LoadCassette (ca_codec js) (Inr (rc_file t')) = Inr c
     \<and> fst (replay_all sample_lib [ca_req] (Transport ca_urls c)) = [Inr (ca_res\<lparr>hr_body := ''the key [REDACTED]''\<rparr>)]"
proof -
  define js where "js = [header_json (ca_head\<lparr>hd_version := CassetteVersion\<rparr>), exchange_json ca_ex]"
  obtain rs t' where run: "record_all sample_lib ca_urls (ca_codec js) ca_trips ca_recording = (rs, t')" "rc_failed t' = None"
    using ca_file by blast
  have fits: "\<forall>p \<in> set (taped sample_lib ca_urls (ca_codec js) [''secret-1''] 0 ca_trips). replayable ca_urls [''secret-1''] p"
    unfolding ca_tape
    by (simp add: replayable_def addressed_def exchange_path_def ca_limited) (simp add: ca_req_def ca_res_def ca_ex_def ca_urls_def ca_url_def)
  have head: "hd_provider ca_head \<noteq> []" "hd_model ca_head \<noteq> []" "in_int64 (hd_max_output ca_head)" "in_int64 (int (length ca_trips))"
    by (simp_all add: ca_head_def in_int64_def int64_min_def int64_max_def ca_trips_def)
  have "dec_values (ca_codec js) contents = (header_json (ca_head\<lparr>hd_version := CassetteVersion\<rparr>) #
      map (\<lambda>p. exchange_json (fst p)) (taped sample_lib ca_urls (ca_codec js) [''secret-1''] 0 ca_trips), True)" for contents
    unfolding ca_tape by (simp add: ca_codec_def js_def)
  from cassette_replays [OF ca_new run head fits this] obtain c stop where
      "LoadCassette (ca_codec js) (Inr (rc_file t')) = Inr c"
      "replay_all sample_lib [ca_req] (Transport ca_urls c) = ([replayed ca_urls [''secret-1''] (Inr ca_res)], stop)"
    unfolding ca_tape list.map fst_conv snd_conv by (elim exE conjE) (rule that)
  moreover have "replayed ca_urls [''secret-1''] (Inr ca_res) = Inr (ca_res\<lparr>hr_body := ''the key [REDACTED]''\<rparr>)"
    by (simp add: ca_limited ca_masks) (simp add: ca_res_def)
  ultimately show ?thesis by (intro exI [of _ js] exI [of _ t'] exI [of _ c] conjI) (simp_all only: fst_conv)
qed

end
