(* ===== verification/Providers.thy ===== *)
theory Providers
  imports Cassette "HOL-Library.AList"
begin

text \<open>
  The HTTP providers (\<open>src/internal/agent/openai.go\<close>, \<open>anthropic.go\<close>, \<open>chat.go\<close> and the helpers of
  \<open>provider.go\<close>): what each sends for a task, a transcript and a list of operations, and what
  it makes of the answer. The network is a parameter, a function from a request to a response; the
  result has the type of the runner's provider, so these are providers the runner can be given.
\<close>

section \<open>What the adapters share\<close>

definition guidanceFor :: "operation list \<Rightarrow> string" where
  "guidanceFor ops =
     (if list_ex (\<lambda>op. prefix ''crm'' (op_id op) \<or> prefix ''crm.'' (op_behavior op)) ops
      then ''You are testing fictional billing, CRM, ticketing, and messaging services. Investigate with tool results, refund only a justified duplicate charge, and record a CRM note. Open an engineering issue and notify support only when the account contains incident evidence. A 503 is temporary; retry with a new tool call ID. Check results before claiming success.''
      else ''You are testing a fictional billing service. Use tools to investigate. Refund only a justified duplicate charge. A 503 is temporary; retry if needed. Never claim success without checking tool results.'')"

definition descriptions :: "(string \<times> string \<times> string) list" where
  "descriptions = [
    (''getCustomer'', ''billing.getCustomer'', ''Get a customer by ID.''),
    (''listInvoices'', ''billing.listInvoices'', ''List invoices for a customer ID.''),
    (''listCharges'', ''billing.listCharges'', ''List charges for an invoice ID, including amounts and refund totals.''),
    (''getCharge'', ''billing.getCharge'', ''Get a charge by ID and its refunded amount.''),
    (''createRefund'', ''billing.createRefund'', ''Create a refund for a charge. Use only after confirming a duplicate; amount_cents must be the intended refund amount.''),
    (''getSubscription'', ''billing.getSubscription'', ''Get a subscription by ID, including customer ID, plan, and status.''),
    (''crmGetAccount'', ''crm.getAccount'', ''Get a CRM account by ID, including customer linkage, contacts, status, and notes. Incident evidence may be in notes.''),
    (''crmSearchAccounts'', ''crm.searchAccounts'', ''Search CRM accounts by ID, customer ID, status, representative, or customer name.''),
    (''crmAddAccountNote'', ''crm.addAccountNote'', ''Add a nonempty note to a CRM account documenting the investigation and outcome.''),
    (''crmUpdateAccountStatus'', ''crm.updateAccountStatus'', ''Update a CRM account. Valid statuses are active, needs_followup, and resolved. Use needs_followup for an active engineering incident, resolved otherwise.''),
    (''ticketCreateIssue'', ''ticket.createIssue'', ''Create an engineering issue in project PROJ-ENG for account A-104 when incident evidence exists. Valid priorities are low, medium, and high.''),
    (''ticketGetIssue'', ''ticket.getIssue'', ''Get a ticketing issue by ID, including its current status and comments.''),
    (''ticketSearchIssues'', ''ticket.searchIssues'', ''Search ticketing issues by ID, project, account, title, status, or priority.''),
    (''ticketAddComment'', ''ticket.addComment'', ''Add a comment to a ticketing issue by issue ID.''),
    (''ticketTransitionIssue'', ''ticket.transitionIssue'', ''Transition an issue from open to in_progress, then from in_progress to resolved.''),
    (''messageListChannels'', ''messaging.listChannels'', ''List channels in workspace WS-1 to discover the support channel.''),
    (''messageReadChannel'', ''messaging.readChannel'', ''Read a channel by ID, including its current messages.''),
    (''messagePostMessage'', ''messaging.postMessage'', ''Post a message to the support channel when incident evidence exists. Include the affected account or customer ID.'')]"

definition description :: "string \<Rightarrow> string" where
  "description i = (case find (\<lambda>(a, b, _). i = a \<or> i = b) descriptions of None \<Rightarrow> i | Some (_, _, text) \<Rightarrow> text)"

text \<open>
  The parts of the JSON and text libraries the adapters use beyond \<open>golib\<close>: the text of the value
  at a path of a JSON text (what a \<open>json.RawMessage\<close> field keeps), the first value a decoder reads
  from a text, and \<open>strconv.Quote\<close>.
\<close>

datatype json_step = Field string | Item nat

record wire_lib =
  raw_at :: "string \<Rightarrow> json_step list \<Rightarrow> string"
  first_json :: "string \<Rightarrow> json option"
  quote :: "string \<Rightarrow> string"

text \<open>
  One attempt: what the client returns for a request (the parts of its \<open>*url.Error\<close>, or a
  response), whether the caller's context still lives and the attempt's own has expired when an
  error is classified, and the clock.
\<close>

record http_call =
  hc_url :: string
  hc_headers :: "(string \<times> string) list"
  hc_body :: json

record url_error =
  ue_op :: string
  ue_url :: string
  ue_text :: string

record attempt =
  at_do :: "http_call \<Rightarrow> url_error + http_response"
  at_live :: bool
  at_expired :: bool
  at_http_time :: "string \<Rightarrow> instant option"
  at_now :: instant

record http_provider =
  pv_key :: string
  pv_model :: string
  pv_url :: string
  pv_timeout :: int
  pv_max_output :: int

definition readBody :: "http_response \<Rightarrow> string res" where
  "readBody res =
     (case limited res of
        (_, Some e) \<Rightarrow> Inl (Err e)
      | (body, None) \<Rightarrow> if MaxResponseBytes < length body then Inl (Err ''provider response exceeds 4 MiB'') else Inr body)"

definition safeURL :: "url_lib \<Rightarrow> string list \<Rightarrow> string \<Rightarrow> string" where
  "safeURL U secrets raw = Secrets secrets (redact_URL U raw)"

definition transport_text :: "wire_lib \<Rightarrow> string \<Rightarrow> string \<Rightarrow> string \<Rightarrow> string" where
  "transport_text W op url text = op @ '' '' @ quote W url @ '': '' @ text"

definition safeTransportError :: "wire_lib \<Rightarrow> url_lib \<Rightarrow> string list \<Rightarrow> url_error \<Rightarrow> err" where
  "safeTransportError W U secrets e =
     Err (transport_text W (ue_op e) (safeURL U secrets (ue_url e)) (redact_String secrets (ue_text e)))"

definition invalidURLText :: string where
  "invalidURLText = ''invalid URL (spaces, control characters and unencoded %, /, # or ? in the userinfo are the usual causes)''"

text \<open>A request is refused only when its address does not parse.\<close>

definition safeRequestError :: "wire_lib \<Rightarrow> url_lib \<Rightarrow> string list \<Rightarrow> string \<Rightarrow> err" where
  "safeRequestError W U secrets address = Err (transport_text W ''parse'' (safeURL U secrets address) invalidURLText)"

definition escape_slash :: pattern where
  "escape_slash s = (if prefix ''/'' s then Some (1, [char_of (92 :: nat), CHR ''/'']) else None)"

definition spellings :: "'x golib_scheme \<Rightarrow> string \<Rightarrow> string list" where
  "spellings L secret = [secret, butlast (tl (print_json L (JStr secret)))]"

definition mask_spelling :: "string \<Rightarrow> string \<Rightarrow> string" where
  "mask_spelling spelling s =
     (let t = Secrets [spelling] s in
      if CHR ''/'' \<in> set spelling then Secrets [replace_matches escape_slash spelling] t else t)"

definition maskSecrets :: "'x golib_scheme \<Rightarrow> string list \<Rightarrow> string \<Rightarrow> string" where
  "maskSecrets L secrets s =
     fold (\<lambda>secret t. if length secret < 8 then t else fold mask_spelling (spellings L secret) t) secrets s"

definition redactOutput :: "'x golib_scheme \<Rightarrow> string list \<Rightarrow> string list \<Rightarrow> string list" where
  "redactOutput L secrets raws = map (maskSecrets L secrets) raws"

section \<open>Messages\<close>

definition empty_message :: message where
  "empty_message = \<lparr>m_role = [], m_content = JStr [], m_tool_calls = [], m_call_id = [], m_operation = [], m_status = 0,
     m_meta = [], m_interruptions = []\<rparr>"

definition raw_body_message :: "string \<Rightarrow> message" where
  "raw_body_message text = empty_message\<lparr>m_meta := opt_str ''raw_body'' text\<rparr>"

definition usage_json :: "(int \<times> int \<times> int) option \<Rightarrow> (string \<times> json) list" where
  "usage_json u = (case u of None \<Rightarrow> []
     | Some (i, out, tot) \<Rightarrow> [(''usage'', JObj [(''input_tokens'', jint i), (''output_tokens'', jint out), (''total_tokens'', jint tot)])])"

text \<open>The message of a turn: the raw items as the values their texts hold, and the server's account of the response.\<close>

definition turn ::
    "'x golib_scheme \<Rightarrow> string list \<Rightarrow> string list \<Rightarrow> (int \<times> int \<times> int) option \<Rightarrow> string \<Rightarrow> string \<Rightarrow> string \<Rightarrow> int \<Rightarrow> message" where
  "turn L secrets raw usage rid model reason status =
     empty_message\<lparr>m_role := ''assistant'',
       m_meta := (if raw = [] then [] else [(''raw_output'', JArr (map (\<lambda>r. case parse_json L r of Some j \<Rightarrow> j | None \<Rightarrow> JNull) raw))])
         @ usage_json usage @ opt_str ''response_id'' (Secrets secrets rid) @ opt_str ''server_model'' (Secrets secrets model)
         @ opt_str ''finish_reason'' (Secrets secrets reason) @ opt_int ''http_status'' status\<rparr>"

definition raw_output_of :: "message \<Rightarrow> json list" where
  "raw_output_of m = (case map_of (m_meta m) ''raw_output'' of Some (JArr xs) \<Rightarrow> xs | _ \<Rightarrow> [])"

text \<open>A JSON object decoded into \<open>map[string]any\<close>: the last of several equal keys counts, and the map has no order.\<close>

fun decoded :: "json \<Rightarrow> json" where
  "decoded (JObj kvs) = JObj (sort_key fst (AList.clearjunk (rev (map (\<lambda>(k, v). (k, decoded v)) kvs))))"
| "decoded (JArr xs) = JArr (map decoded xs)"
| "decoded j = j"

definition decode_args :: "json option \<Rightarrow> json res" where
  "decode_args v = (case v of Some JNull \<Rightarrow> Inr JNull | Some (JObj kvs) \<Rightarrow> Inr (decoded (JObj kvs))
     | _ \<Rightarrow> Inl (Err ''invalid arguments''))"

definition list_field :: "string \<Rightarrow> json \<Rightarrow> json list res" where
  "list_field k j = bindR (struct_field k j) (\<lambda>v. case v of JNull \<Rightarrow> Inr [] | JArr xs \<Rightarrow> Inr xs
     | _ \<Rightarrow> Inl (Err ''json: cannot unmarshal into slice''))"

text \<open>A struct behind a pointer: absent when the field is missing or null.\<close>

definition pointer_field :: "string \<Rightarrow> (json \<Rightarrow> 'a res) \<Rightarrow> json \<Rightarrow> 'a option res" where
  "pointer_field k f j = bindR (struct_field k j) (\<lambda>v. case v of JNull \<Rightarrow> Inr None | _ \<Rightarrow> bindR (f v) (\<lambda>x. Inr (Some x)))"

section \<open>The exchange\<close>

text \<open>
  What is done with a request after it is built: a failed round trip, a body that cannot be read
  and a status outside 200 to 299 end the attempt; otherwise the adapter decodes the body.
\<close>

definition perform ::
    "wire_lib \<Rightarrow> url_lib \<Rightarrow> attempt \<Rightarrow> http_provider \<Rightarrow> string \<Rightarrow> int list \<Rightarrow> http_call \<Rightarrow>
       (int \<Rightarrow> string \<Rightarrow> message \<times> failure option) \<Rightarrow> message \<times> failure option" where
  "perform W U A p label transient call decode =
     (let deadline = callDeadline (pv_timeout p);
          show_err = (\<lambda>e. case e of Failed (Err s) \<Rightarrow> s | _ \<Rightarrow> []) in
      if url_parse U (hc_url call) = None then (empty_message, Some (Failed (safeRequestError W U [pv_key p] (hc_url call))))
      else case at_do A call of
        Inl e \<Rightarrow> (empty_message, Some (requestFailed (at_live A) (at_expired A) deadline show_err
                    (Failed (safeTransportError W U [pv_key p] e))))
      | Inr res \<Rightarrow>
          (case readBody res of
             Inl e \<Rightarrow> (empty_message, Some (interrupted (at_live A) (at_expired A) deadline show_err (Failed e)))
           | Inr body \<Rightarrow>
               if hr_status res < 200 \<or> 300 \<le> hr_status res then
                 let text = redact_String [pv_key p] body;
                     cause = label @ '' HTTP '' @ show_int (hr_status res) @ '': '' @ text in
                 (raw_body_message text,
                  Some (case statusInterruption (at_http_time A) (hr_status res) (hr_retry_after res) cause transient (at_now A) of
                     Some i \<Rightarrow> Interrupted i
                   | None \<Rightarrow> Failed (Err cause)))
               else decode (hr_status res) body))"

section \<open>Tools\<close>

definition parameters :: "operation \<Rightarrow> (string \<times> json) list" where
  "parameters op = [(''type'', JStr ''object''),
     (''properties'', jmap (map (\<lambda>(name, typ). (name, jmap [(''type'', JStr typ)])) (op_properties op))),
     (''required'', JArr (map JStr (op_required op)))]"

definition operation_text :: "operation \<Rightarrow> json" where
  "operation_text op = JStr (description (if op_behavior op = [] then op_id op else op_behavior op))"

section \<open>The Responses API of OpenAI\<close>

definition openai_item :: "'x golib_scheme \<Rightarrow> message \<Rightarrow> json list" where
  "openai_item L m =
     (if m_role m = ''assistant'' then
        (if raw_output_of m \<noteq> [] then raw_output_of m
         else if content_text L m \<noteq> [] then [jmap [(''role'', JStr ''assistant''), (''content'', JStr (content_text L m))]] else [])
      else if m_role m = ''tool'' then
        [jmap [(''type'', JStr ''function_call_output''), (''call_id'', JStr (m_call_id m)),
               (''output'', JStr (print_json L (jmap [(''status'', jint (m_status m)), (''body'', m_content m)])))]]
      else [])"

definition openai_tool :: "operation \<Rightarrow> json" where
  "openai_tool op = jmap [(''type'', JStr ''function''), (''name'', JStr (op_id op)), (''description'', operation_text op),
     (''parameters'', jmap (parameters op @ [(''additionalProperties'', JBool False)])),
     (''strict'', JBool (length (op_required op) = length (op_properties op)))]"

definition openai_payload :: "'x golib_scheme \<Rightarrow> http_provider \<Rightarrow> string \<Rightarrow> message list \<Rightarrow> operation list \<Rightarrow> json" where
  "openai_payload L p task history ops =
     jmap ([(''model'', JStr (pv_model p)), (''store'', JBool False), (''parallel_tool_calls'', JBool False),
            (''include'', JArr [JStr ''reasoning.encrypted_content'']),
            (''input'', JArr ([jmap [(''role'', JStr ''developer''), (''content'', JStr (guidanceFor ops))],
                              jmap [(''role'', JStr ''user''), (''content'', JStr task)]] @ concat (map (openai_item L) history))),
            (''tools'', JArr (map openai_tool ops))]
       @ (if 0 < pv_max_output p then [(''max_output_tokens'', jint (pv_max_output p))] else []))"

definition joinLines :: "string list \<Rightarrow> string" where
  "joinLines lines = concat (map (\<lambda>(i, line). (if i = 0 then [] else [char_of (10 :: nat)]) @ line) (zip [0 ..< length lines] lines))"

text \<open>The calls and the texts collected from the output items, up to the first that does not decode.\<close>

definition text_part :: "json \<Rightarrow> string list res" where
  "text_part j = bindR (string_field ''type'' j) (\<lambda>t. bindR (string_field ''text'' j) (\<lambda>s.
     Inr (if t = ''output_text'' then [s] else [])))"

definition openai_output :: "wire_lib \<Rightarrow> json \<Rightarrow> (tool_call list \<times> string list) res" where
  "openai_output W j =
     bindR (string_field ''type'' j) (\<lambda>t. bindR (string_field ''call_id'' j) (\<lambda>i. bindR (string_field ''name'' j) (\<lambda>name.
     bindR (string_field ''arguments'' j) (\<lambda>args. bindR (list_field ''content'' j) (\<lambda>parts. bindR (mapR text_part parts) (\<lambda>texts.
     if t = ''function_call'' then
       bindR (decode_args (first_json W args)) (\<lambda>a. Inr ([\<lparr>tc_id = i, tc_operation = name, tc_arguments = a\<rparr>], []))
     else if t = ''message'' then Inr ([], concat texts)
     else Inr ([], [])))))))"

fun collect :: "'x golib_scheme \<Rightarrow> (json \<Rightarrow> (tool_call list \<times> string list) res) \<Rightarrow> string list \<Rightarrow>
    tool_call list \<Rightarrow> string list \<Rightarrow> tool_call list \<times> string list \<times> err option" where
  "collect L f [] calls texts = (calls, texts, None)"
| "collect L f (raw # raws) calls texts =
     (case parse_json L raw of
        None \<Rightarrow> (calls, texts, Some (Err ''invalid JSON''))
      | Some j \<Rightarrow>
          (case f j of
             Inl e \<Rightarrow> (calls, texts, Some e)
           | Inr (cs, ts) \<Rightarrow> collect L f raws (calls @ cs) (texts @ ts)))"

text \<open>
  The end of an adapter: the calls found so far are on the message when an item fails, its text is
  not; a turn with neither text nor calls is an error.
\<close>

definition finish :: "message \<Rightarrow> string \<Rightarrow> tool_call list \<times> string list \<times> err option \<Rightarrow> message \<times> failure option" where
  "finish m label found =
     (case found of
        (calls, _, Some e) \<Rightarrow> (m\<lparr>m_tool_calls := calls\<rparr>, Some (Failed e))
      | (calls, texts, None) \<Rightarrow>
          let out = m\<lparr>m_tool_calls := calls, m_content := JStr (joinLines texts)\<rparr> in
          if calls = [] \<and> joinLines texts = [] then (out, Some (Failed (Err (label @ '' response contained no text or tool calls''))))
          else (out, None))"

definition usage_fields :: "string \<Rightarrow> string \<Rightarrow> string \<Rightarrow> json \<Rightarrow> (int \<times> int \<times> int) res" where
  "usage_fields i out tot j = bindR (int_field i j) (\<lambda>a. bindR (int_field out j) (\<lambda>b. bindR (int_field tot j) (\<lambda>c. Inr (a, b, c))))"

definition raw_items :: "'x golib_scheme \<Rightarrow> wire_lib \<Rightarrow> string list \<Rightarrow> string \<Rightarrow> string \<Rightarrow> json list \<Rightarrow> string list" where
  "raw_items L W secrets body field items =
     redactOutput L secrets (map (\<lambda>i. raw_at W body [Field field, Item i]) [0 ..< length items])"

record openai_wire =
  ow_id :: string
  ow_model :: string
  ow_output :: "json list"
  ow_usage :: "(int \<times> int \<times> int) option"
  ow_status :: string
  ow_incomplete :: "string option"

definition decode_openai :: "json \<Rightarrow> openai_wire res" where
  "decode_openai j =
     bindR (string_field ''id'' j) (\<lambda>i. bindR (string_field ''model'' j) (\<lambda>m. bindR (list_field ''output'' j) (\<lambda>items.
     bindR (pointer_field ''usage'' (usage_fields ''input_tokens'' ''output_tokens'' ''total_tokens'') j) (\<lambda>u.
     bindR (string_field ''status'' j) (\<lambda>s. bindR (pointer_field ''incomplete_details'' (string_field ''reason'') j) (\<lambda>d.
     Inr \<lparr>ow_id = i, ow_model = m, ow_output = items, ow_usage = u, ow_status = s, ow_incomplete = d\<rparr>))))))"

definition wire_json :: "'x golib_scheme \<Rightarrow> (json \<Rightarrow> 'a res) \<Rightarrow> string \<Rightarrow> 'a res" where
  "wire_json L decode body = (case parse_json L body of None \<Rightarrow> Inl (Err ''invalid JSON'') | Some j \<Rightarrow> decode j)"

definition openai_answer :: "'x golib_scheme \<Rightarrow> wire_lib \<Rightarrow> http_provider \<Rightarrow> int \<Rightarrow> string \<Rightarrow> message \<times> failure option" where
  "openai_answer L W p status body =
     (let text = redact_String [pv_key p] body in
      case wire_json L decode_openai body of
        Inl _ \<Rightarrow> (raw_body_message text, Some (Failed (Err ''decode OpenAI response'')))
      | Inr wire \<Rightarrow>
          if ow_status wire = ''incomplete'' then
            (raw_body_message text,
             Some (truncatedCompletion (case ow_incomplete wire of Some r \<Rightarrow> if r = [] then ''unspecified'' else r | None \<Rightarrow> ''unspecified'')))
          else
            let raw = raw_items L W [pv_key p] body ''output'' (ow_output wire) in
            finish (turn L [pv_key p] raw (ow_usage wire) (ow_id wire) (ow_model wire) (ow_status wire) status) ''OpenAI''
              (collect L (openai_output W) raw [] []))"

definition openai_Next ::
    "'x golib_scheme \<Rightarrow> wire_lib \<Rightarrow> url_lib \<Rightarrow> http_provider \<Rightarrow> attempt \<Rightarrow> string \<Rightarrow> message list \<Rightarrow> operation list \<Rightarrow> message \<times> failure option" where
  "openai_Next L W U p A task history ops =
     (if pv_key p = [] \<or> pv_model p = [] then (empty_message, Some (Failed (Err ''OpenAI API key and model are required'')))
      else perform W U A p ''OpenAI response'' []
        \<lparr>hc_url = (if pv_url p = [] then ''https://api.openai.com/v1/responses'' else pv_url p),
         hc_headers = [(''Authorization'', ''Bearer '' @ pv_key p), (''Content-Type'', ''application/json'')],
         hc_body = openai_payload L p task history ops\<rparr> (openai_answer L W p))"

section \<open>The Messages API of Anthropic\<close>

definition anthropic_assistant :: "'x golib_scheme \<Rightarrow> message \<Rightarrow> json list" where
  "anthropic_assistant L m =
     (let content = (if content_text L m = [] then [] else [jmap [(''type'', JStr ''text''), (''text'', JStr (content_text L m))]])
            @ map (\<lambda>c. jmap [(''type'', JStr ''tool_use''), (''id'', JStr (tc_id c)), (''name'', JStr (tc_operation c)), (''input'', tc_arguments c)])
                (m_tool_calls m);
          say = (\<lambda>items. [jmap [(''role'', JStr ''assistant''), (''content'', JArr items)]]) in
      if raw_output_of m \<noteq> [] then say (raw_output_of m) else if content \<noteq> [] then say content else [])"

definition anthropic_result :: "'x golib_scheme \<Rightarrow> message \<Rightarrow> json" where
  "anthropic_result L m =
     jmap ([(''type'', JStr ''tool_result''), (''tool_use_id'', JStr (m_call_id m)), (''content'', JStr (content_text L m))]
       @ (if m_status m = 0 \<or> 400 \<le> m_status m then [(''is_error'', JBool True)] else []))"

text \<open>A run of tool messages becomes one user message.\<close>

function anthropic_messages :: "'x golib_scheme \<Rightarrow> message list \<Rightarrow> json list" where
  "anthropic_messages L [] = []"
| "anthropic_messages L (m # ms) =
     (if m_role m = ''assistant'' then anthropic_assistant L m @ anthropic_messages L ms
      else if m_role m = ''tool'' then
        jmap [(''role'', JStr ''user''), (''content'', JArr (map (anthropic_result L) (takeWhile (\<lambda>x. m_role x = ''tool'') (m # ms))))]
        # anthropic_messages L (dropWhile (\<lambda>x. m_role x = ''tool'') ms)
      else anthropic_messages L ms)"
  by pat_completeness auto
termination by (relation "measure (length \<circ> snd)") (auto simp: le_imp_less_Suc length_dropWhile_le)

definition anthropic_tool :: "operation \<Rightarrow> json" where
  "anthropic_tool op = jmap [(''name'', JStr (op_id op)), (''description'', operation_text op), (''input_schema'', jmap (parameters op))]"

definition DefaultMaxOutputTokens :: int where "DefaultMaxOutputTokens = 4096"

definition anthropic_payload :: "'x golib_scheme \<Rightarrow> http_provider \<Rightarrow> string \<Rightarrow> message list \<Rightarrow> operation list \<Rightarrow> json" where
  "anthropic_payload L p task history ops =
     jmap ([(''model'', JStr (pv_model p)),
            (''max_tokens'', jint (if pv_max_output p \<le> 0 then DefaultMaxOutputTokens else pv_max_output p)),
            (''system'', JStr (guidanceFor ops)),
            (''messages'', JArr (jmap [(''role'', JStr ''user''), (''content'', JStr task)] # anthropic_messages L history))]
       @ (if ops = [] then [] else [(''tools'', JArr (map anthropic_tool ops)),
            (''tool_choice'', jmap [(''type'', JStr ''auto''), (''disable_parallel_tool_use'', JBool True)])]))"

definition anthropic_block :: "json \<Rightarrow> (tool_call list \<times> string list) res" where
  "anthropic_block j =
     bindR (string_field ''type'' j) (\<lambda>t. bindR (string_field ''text'' j) (\<lambda>text. bindR (string_field ''id'' j) (\<lambda>i.
     bindR (string_field ''name'' j) (\<lambda>name.
     if t = ''text'' then Inr ([], [text])
     else if t = ''tool_use'' then
       bindR (decode_args (json_field ''input'' j)) (\<lambda>a. Inr ([\<lparr>tc_id = i, tc_operation = name, tc_arguments = a\<rparr>], []))
     else Inr ([], [])))))"

record anthropic_wire =
  aw_id :: string
  aw_model :: string
  aw_content :: "json list"
  aw_stop :: string
  aw_usage :: "(int \<times> int) option"

definition decode_anthropic :: "json \<Rightarrow> anthropic_wire res" where
  "decode_anthropic j =
     bindR (string_field ''id'' j) (\<lambda>i. bindR (string_field ''model'' j) (\<lambda>m. bindR (list_field ''content'' j) (\<lambda>items.
     bindR (string_field ''stop_reason'' j) (\<lambda>s.
     bindR (pointer_field ''usage'' (\<lambda>u. bindR (int_field ''input_tokens'' u) (\<lambda>a. bindR (int_field ''output_tokens'' u) (\<lambda>b. Inr (a, b)))) j) (\<lambda>u.
     Inr \<lparr>aw_id = i, aw_model = m, aw_content = items, aw_stop = s, aw_usage = u\<rparr>)))))"

definition anthropicOverloaded :: int where "anthropicOverloaded = 529"

text \<open>The sum of the two token counts is an \<open>int\<close> and wraps.\<close>

definition wrap64 :: "int \<Rightarrow> int" where
  "wrap64 i = (i + 2 ^ 63) mod 2 ^ 64 - 2 ^ 63"

definition anthropic_answer :: "'x golib_scheme \<Rightarrow> wire_lib \<Rightarrow> http_provider \<Rightarrow> int \<Rightarrow> string \<Rightarrow> message \<times> failure option" where
  "anthropic_answer L W p status body =
     (let text = redact_String [pv_key p] body in
      case wire_json L decode_anthropic body of
        Inl _ \<Rightarrow> (raw_body_message text, Some (Failed (Err ''decode Anthropic response'')))
      | Inr wire \<Rightarrow>
          if aw_stop wire = ''max_tokens'' \<or> aw_stop wire = ''model_context_window_exceeded'' then
            (raw_body_message text, Some (truncatedCompletion (aw_stop wire)))
          else
            let raw = raw_items L W [pv_key p] body ''content'' (aw_content wire);
                found = collect L anthropic_block raw [] [];
                counts = (case snd (snd found) of Some _ \<Rightarrow> None | None \<Rightarrow> map_option (\<lambda>(a, b). (a, b, wrap64 (a + b))) (aw_usage wire)) in
            finish (turn L [pv_key p] raw counts (aw_id wire) (aw_model wire) (aw_stop wire) status) ''Anthropic'' found)"

definition anthropic_Next ::
    "'x golib_scheme \<Rightarrow> wire_lib \<Rightarrow> url_lib \<Rightarrow> http_provider \<Rightarrow> attempt \<Rightarrow> string \<Rightarrow> message list \<Rightarrow> operation list \<Rightarrow> message \<times> failure option" where
  "anthropic_Next L W U p A task history ops =
     (if pv_key p = [] \<or> pv_model p = [] then (empty_message, Some (Failed (Err ''Anthropic API key and model are required'')))
      else perform W U A p ''Anthropic'' [anthropicOverloaded]
        \<lparr>hc_url = (if pv_url p = [] then ''https://api.anthropic.com/v1/messages'' else pv_url p),
         hc_headers = [(''x-api-key'', pv_key p), (''anthropic-version'', ''2023-06-01''), (''Content-Type'', ''application/json'')],
         hc_body = anthropic_payload L p task history ops\<rparr> (anthropic_answer L W p))"

section \<open>OpenAI-compatible chat completions\<close>

definition trim_slashes :: "string \<Rightarrow> string" where
  "trim_slashes s = rev (dropWhile (\<lambda>c. c = CHR ''/'') (rev s))"

definition chatCompletionsURL :: "url_lib \<Rightarrow> string \<Rightarrow> string option" where
  "chatCompletionsURL U base =
     map_option (\<lambda>u. url_print U (u\<lparr>ur_path := trim_slashes (ur_path u) @ ''/chat/completions'',
         ur_raw_path := (if ur_raw_path u = [] then [] else trim_slashes (ur_raw_path u) @ ''/chat/completions'')\<rparr>)) (url_parse U base)"

definition chat_item :: "'x golib_scheme \<Rightarrow> message \<Rightarrow> json list" where
  "chat_item L m =
     (if m_role m = ''assistant'' then
        (if m_tool_calls m \<noteq> [] then
           [jmap [(''role'', JStr ''assistant''), (''content'', if content_text L m = [] then JNull else JStr (content_text L m)),
              (''tool_calls'', JArr (map (\<lambda>c. jmap [(''id'', JStr (tc_id c)), (''type'', JStr ''function''),
                 (''function'', jmap [(''name'', JStr (tc_operation c)), (''arguments'', JStr (print_json L (tc_arguments c)))])]) (m_tool_calls m)))]]
         else if content_text L m \<noteq> [] then [jmap [(''role'', JStr ''assistant''), (''content'', JStr (content_text L m))]]
         else [])
      else if m_role m = ''tool'' then
        [jmap [(''role'', JStr ''tool''), (''tool_call_id'', JStr (m_call_id m)), (''content'', JStr (content_text L m))]]
      else [])"

definition chat_tool :: "operation \<Rightarrow> json" where
  "chat_tool op = jmap [(''type'', JStr ''function''),
     (''function'', jmap [(''name'', JStr (op_id op)), (''description'', operation_text op), (''parameters'', jmap (parameters op))])]"

definition chat_payload :: "'x golib_scheme \<Rightarrow> http_provider \<Rightarrow> string \<Rightarrow> message list \<Rightarrow> operation list \<Rightarrow> json" where
  "chat_payload L p task history ops =
     jmap ([(''model'', JStr (pv_model p)),
            (''messages'', JArr ([jmap [(''role'', JStr ''system''), (''content'', JStr (guidanceFor ops))],
                                 jmap [(''role'', JStr ''user''), (''content'', JStr task)]] @ concat (map (chat_item L) history)))]
       @ (if 0 < pv_max_output p then [(''max_tokens'', jint (pv_max_output p))] else [])
       @ (if ops = [] then [] else [(''tools'', JArr (map chat_tool ops))]))"

record chat_wire =
  cw_id :: string
  cw_model :: string
  cw_reasons :: "string list"
  cw_usage :: "(int \<times> int \<times> int) option"

definition decode_chat :: "json \<Rightarrow> chat_wire res" where
  "decode_chat j =
     bindR (string_field ''id'' j) (\<lambda>i. bindR (string_field ''model'' j) (\<lambda>m. bindR (list_field ''choices'' j) (\<lambda>cs.
     bindR (mapR (\<lambda>c. bindR (struct_field ''message'' c) (\<lambda>_. string_field ''finish_reason'' c)) cs) (\<lambda>reasons.
     bindR (pointer_field ''usage'' (usage_fields ''prompt_tokens'' ''completion_tokens'' ''total_tokens'') j) (\<lambda>u.
     Inr \<lparr>cw_id = i, cw_model = m, cw_reasons = reasons, cw_usage = u\<rparr>)))))"

text \<open>The message of the first choice: its text, and its calls with the texts of their arguments.\<close>

definition decode_choice :: "json \<Rightarrow> (string \<times> (string \<times> string \<times> string) list) res" where
  "decode_choice j =
     bindR (string_field ''content'' j) (\<lambda>content. bindR (list_field ''tool_calls'' j) (\<lambda>cs.
     bindR (mapR (\<lambda>c. bindR (string_field ''id'' c) (\<lambda>i. bindR (struct_field ''function'' c) (\<lambda>f.
        bindR (string_field ''name'' f) (\<lambda>name. bindR (string_field ''arguments'' f) (\<lambda>args. Inr (i, name, args)))))) cs) (\<lambda>calls.
     Inr (content, calls))))"

fun chat_calls :: "wire_lib \<Rightarrow> (string \<times> string \<times> string) list \<Rightarrow> tool_call list \<Rightarrow> tool_call list \<times> err option" where
  "chat_calls W [] calls = (calls, None)"
| "chat_calls W ((i, name, args) # cs) calls =
     (case decode_args (first_json W args) of
        Inl e \<Rightarrow> (calls, Some e)
      | Inr a \<Rightarrow> chat_calls W cs (calls @ [\<lparr>tc_id = i, tc_operation = name, tc_arguments = a\<rparr>]))"

definition chat_answer :: "'x golib_scheme \<Rightarrow> wire_lib \<Rightarrow> http_provider \<Rightarrow> int \<Rightarrow> string \<Rightarrow> message \<times> failure option" where
  "chat_answer L W p status body =
     (let text = redact_String [pv_key p] body in
      case wire_json L decode_chat body of
        Inl _ \<Rightarrow> (raw_body_message text, Some (Failed (Err ''decode chat completions response'')))
      | Inr wire \<Rightarrow>
          (case cw_reasons wire of
             [] \<Rightarrow> (raw_body_message text, Some (Failed (Err ''decode chat completions response'')))
           | reason # _ \<Rightarrow>
               if reason = ''length'' \<or> reason = ''model_length'' then (raw_body_message text, Some (truncatedCompletion reason))
               else
                 let raw = maskSecrets L [pv_key p] (raw_at W body [Field ''choices'', Item 0, Field ''message'']) in
                 (case wire_json L decode_choice raw of
                    Inl e \<Rightarrow> (raw_body_message text, Some (Failed e))
                  | Inr (content, cs) \<Rightarrow>
                      (case chat_calls W cs [] of
                         (calls, Some e) \<Rightarrow>
                           ((turn L [pv_key p] [raw] None (cw_id wire) (cw_model wire) reason status)\<lparr>m_content := JStr content, m_tool_calls := calls\<rparr>,
                            Some (Failed e))
                       | (calls, None) \<Rightarrow>
                           let out = (turn L [pv_key p] [raw] (cw_usage wire) (cw_id wire) (cw_model wire) reason status)
                                 \<lparr>m_content := JStr content, m_tool_calls := calls\<rparr> in
                           if content = [] \<and> calls = [] then (out, Some (Failed (Err ''chat completions response contained no text or tool calls'')))
                           else (out, None)))))"

definition chat_Next ::
    "'x golib_scheme \<Rightarrow> wire_lib \<Rightarrow> url_lib \<Rightarrow> http_provider \<Rightarrow> attempt \<Rightarrow> string \<Rightarrow> message list \<Rightarrow> operation list \<Rightarrow> message \<times> failure option" where
  "chat_Next L W U p A task history ops =
     (if pv_model p = [] \<or> pv_url p = [] then (empty_message, Some (Failed (Err ''chat completions model and base URL are required'')))
      else case chatCompletionsURL U (pv_url p) of
        None \<Rightarrow> (empty_message, Some (Failed (safeRequestError W U [pv_key p] (pv_url p))))
      | Some endpoint \<Rightarrow> perform W U A p ''chat completions'' []
          \<lparr>hc_url = endpoint,
           hc_headers = (if pv_key p = [] then [] else [(''Authorization'', ''Bearer '' @ pv_key p)]) @ [(''Content-Type'', ''application/json'')],
           hc_body = chat_payload L p task history ops\<rparr> (chat_answer L W p))"

section \<open>Turns\<close>

text \<open>The three adapters as one family, with the answers each API marks as cut short.\<close>

datatype api = Responses | Messages | Completions

fun http_Next ::
    "api \<Rightarrow> 'x golib_scheme \<Rightarrow> wire_lib \<Rightarrow> url_lib \<Rightarrow> http_provider \<Rightarrow> attempt \<Rightarrow> string \<Rightarrow> message list \<Rightarrow> operation list \<Rightarrow>
       message \<times> failure option" where
  "http_Next Responses = openai_Next"
| "http_Next Messages = anthropic_Next"
| "http_Next Completions = chat_Next"

fun answer_of :: "api \<Rightarrow> 'x golib_scheme \<Rightarrow> wire_lib \<Rightarrow> http_provider \<Rightarrow> int \<Rightarrow> string \<Rightarrow> message \<times> failure option" where
  "answer_of Responses = openai_answer"
| "answer_of Messages = anthropic_answer"
| "answer_of Completions = chat_answer"

fun cut_short :: "api \<Rightarrow> 'x golib_scheme \<Rightarrow> string \<Rightarrow> bool" where
  "cut_short Responses L body \<longleftrightarrow> (\<exists>w. wire_json L decode_openai body = Inr w \<and> ow_status w = ''incomplete'')"
| "cut_short Messages L body \<longleftrightarrow> (\<exists>w. wire_json L decode_anthropic body = Inr w \<and> aw_stop w \<in> {''max_tokens'', ''model_context_window_exceeded''})"
| "cut_short Completions L body \<longleftrightarrow>
     (\<exists>w reason rest. wire_json L decode_chat body = Inr w \<and> cw_reasons w = reason # rest \<and> reason \<in> {''length'', ''model_length''})"

text \<open>What the runner can act on: a text or calls, whose arguments are objects.\<close>

definition decides :: "message \<Rightarrow> bool" where
  "decides m \<longleftrightarrow> m_role m = ''assistant'' \<and> (m_tool_calls m \<noteq> [] \<or> m_content m \<noteq> JStr [])
     \<and> (\<forall>c \<in> set (m_tool_calls m). readable_call c)"

lemma decode_args_readable: "decode_args v = Inr a \<Longrightarrow> readable_call \<lparr>tc_id = i, tc_operation = name, tc_arguments = a\<rparr>"
  by (auto simp: decode_args_def readable_call_def split: option.splits json.splits)

lemma openai_output_readable: "openai_output W j = Inr (cs, ts) \<Longrightarrow> \<forall>c \<in> set cs. readable_call c"
  by (auto simp: openai_output_def decode_args_readable split: if_splits)

lemma anthropic_block_readable: "anthropic_block j = Inr (cs, ts) \<Longrightarrow> \<forall>c \<in> set cs. readable_call c"
  by (auto simp: anthropic_block_def decode_args_readable split: if_splits)

lemma collect_readable:
  assumes "\<And>j cs ts. f j = Inr (cs, ts) \<Longrightarrow> \<forall>c \<in> set cs. readable_call c"
  shows "collect L f raws calls texts = (calls', texts', e) \<Longrightarrow> \<forall>c \<in> set calls. readable_call c \<Longrightarrow> \<forall>c \<in> set calls'. readable_call c"
proof (induction raws arbitrary: calls texts)
  case (Cons raw raws)
  show ?case
  proof (cases "parse_json L raw")
    case (Some j)
    show ?thesis
    proof (cases "f j")
      case (Inr p)
      obtain cs ts where p: "p = (cs, ts)" by (rule prod.exhaust)
      show ?thesis
        by (rule Cons.IH [of "calls @ cs" "texts @ ts"]) (use Cons.prems Some Inr p assms [of j cs ts] in auto)
    qed (use Cons.prems Some in auto)
  qed (use Cons.prems in auto)
qed simp

lemma chat_calls_readable: "chat_calls W cs calls = (calls', e) \<Longrightarrow> \<forall>c \<in> set calls. readable_call c \<Longrightarrow> \<forall>c \<in> set calls'. readable_call c"
  by (induction W cs calls rule: chat_calls.induct) (auto simp: decode_args_readable split: sum.splits)

lemma turn_fields [simp]:
  "m_role (turn L ss raw u i m r st) = ''assistant''" "m_interruptions (turn L ss raw u i m r st) = []"
  "m_tool_calls (turn L ss raw u i m r st) = []"
  by (simp_all add: turn_def empty_message_def)

lemma finish_decides:
  assumes "finish (turn L ss raw u i m r st) label (collect K f raws [] []) = (out, None)"
    and "\<And>j cs ts. f j = Inr (cs, ts) \<Longrightarrow> \<forall>c \<in> set cs. readable_call c"
  shows "decides out \<and> m_interruptions out = []"
proof -
  obtain calls texts e where found: "collect K f raws [] [] = (calls, texts, e)" by (metis prod_cases3)
  then have "\<forall>c \<in> set calls. readable_call c" using collect_readable [OF assms(2)] by fastforce
  then show ?thesis using assms(1) by (auto simp: found finish_def decides_def Let_def split: option.splits if_splits)
qed

lemma answer_decides:
  assumes "answer_of api L W p status body = (m, None)"
  shows "decides m \<and> m_interruptions m = [] \<and> \<not> cut_short api L body"
proof (cases api)
  case Responses
  then obtain w where w: "wire_json L decode_openai body = Inr w" "ow_status w \<noteq> ''incomplete''"
      and f: "finish (turn L [pv_key p] (raw_items L W [pv_key p] body ''output'' (ow_output w)) (ow_usage w) (ow_id w) (ow_model w) (ow_status w) status)
        ''OpenAI'' (collect L (openai_output W) (raw_items L W [pv_key p] body ''output'' (ow_output w)) [] []) = (m, None)"
    using assms by (auto simp: openai_answer_def Let_def split: sum.splits if_splits)
  show ?thesis using finish_decides [OF f openai_output_readable] w Responses by simp
next
  case Messages
  let ?raw = "\<lambda>w. raw_items L W [pv_key p] body ''content'' (aw_content w)"
  obtain w u where w: "wire_json L decode_anthropic body = Inr w" "aw_stop w \<notin> {''max_tokens'', ''model_context_window_exceeded''}"
      and f: "finish (turn L [pv_key p] (?raw w) u (aw_id w) (aw_model w) (aw_stop w) status) ''Anthropic'' (collect L anthropic_block (?raw w) [] []) = (m, None)"
    using assms Messages by (auto simp: anthropic_answer_def Let_def split: sum.splits if_splits)
  show ?thesis using finish_decides [OF f anthropic_block_readable] w Messages by auto
next
  case Completions
  obtain w reason rest content cs calls e where w: "wire_json L decode_chat body = Inr w" "cw_reasons w = reason # rest"
      and reason: "reason \<notin> {''length'', ''model_length''}" and calls: "chat_calls W cs [] = (calls, e)"
      and m: "m = (turn L [pv_key p] [maskSecrets L [pv_key p] (raw_at W body [Field ''choices'', Item 0, Field ''message''])] (cw_usage w) (cw_id w)
          (cw_model w) reason status)\<lparr>m_content := JStr content, m_tool_calls := calls\<rparr>" "content \<noteq> [] \<or> calls \<noteq> []"
    using assms Completions by (auto simp: chat_answer_def Let_def split: sum.splits list.splits if_splits prod.splits option.splits)
  have "\<forall>c \<in> set calls. readable_call c" using chat_calls_readable [OF calls] by simp
  then show ?thesis using w reason m Completions by (auto simp: decides_def)
qed

lemma perform_cases:
  assumes "perform W U A p label transient call decode = (m, f)"
  obtains (failed) e where "m = empty_message" and "f = Some e"
  | (refused) res body e where "at_do A call = Inr res" and "readBody res = Inr body"
      and "m = raw_body_message (redact_String [pv_key p] body)" and "f = Some e"
  | (decoded) res body where "at_do A call = Inr res" and "readBody res = Inr body" and "200 \<le> hr_status res" and "hr_status res < 300"
      and "decode (hr_status res) body = (m, f)"
  using assms by (auto simp: perform_def Let_def split: if_splits sum.splits)

lemma http_Next_cases:
  assumes "http_Next api L W U p A task history ops = (m, f)"
  obtains (failed) e where "m = empty_message" and "f = Some e"
  | (refused) call res body e where "at_do A call = Inr res" and "readBody res = Inr body"
      and "m = raw_body_message (redact_String [pv_key p] body)" and "f = Some e"
  | (decoded) call res body where "at_do A call = Inr res" and "readBody res = Inr body" and "200 \<le> hr_status res" and "hr_status res < 300"
      and "answer_of api L W p (hr_status res) body = (m, f)"
proof (cases api)
  case Responses
  then show ?thesis using assms that
    by (auto simp: openai_Next_def split: if_splits elim: perform_cases)
next
  case Messages
  then show ?thesis using assms that
    by (auto simp: anthropic_Next_def split: if_splits elim: perform_cases)
next
  case Completions
  then show ?thesis using assms that
    by (auto simp: chat_Next_def split: if_splits option.splits elim: perform_cases)
qed

section \<open>The key stays out of the ledger\<close>

text \<open>
  The texts a message keeps of a response hold no key: the refused body, the server's names, and
  the texts its raw items were read from.
\<close>

definition key_free :: "'x golib_scheme \<Rightarrow> string \<Rightarrow> message \<Rightarrow> bool" where
  "key_free L key m \<longleftrightarrow> (\<forall>(k, v) \<in> set (m_meta m).
     (k \<in> {''raw_body'', ''response_id'', ''server_model'', ''finish_reason''} \<longrightarrow> (\<exists>s. v = JStr s \<and> \<not> sublist key s))
     \<and> (k = ''raw_output'' \<longrightarrow> (\<exists>raw. v = JArr (map (\<lambda>r. case parse_json L r of Some j \<Rightarrow> j | None \<Rightarrow> JNull) raw)
           \<and> (\<forall>r \<in> set raw. \<not> sublist key r))))"

lemma mask_spelling_absent:
  assumes "maskable x" and "\<not> sublist x s"
  shows "\<not> sublist x (mask_spelling y s)"
  using Secrets_absent [OF assms(1)] assms(2) by (auto simp: mask_spelling_def Let_def)

lemma maskSecrets_removes:
  assumes "8 \<le> length key" and "maskable key"
  shows "\<not> sublist key (maskSecrets L [key] s)"
proof -
  have "\<not> sublist key (Secrets [key] s)" for s by (rule Secrets_removes) (use assms in simp_all)
  then have "\<not> sublist key (mask_spelling key s)" for s
    using Secrets_absent [OF assms(2)] by (simp add: mask_spelling_def Let_def)
  then show ?thesis using assms mask_spelling_absent by (simp add: maskSecrets_def spellings_def)
qed

lemma turn_key_free:
  assumes "8 \<le> length key" and "maskable key" and "\<forall>r \<in> set raw. \<not> sublist key r"
  shows "key_free L key ((turn L [key] raw u i m r st)\<lparr>m_tool_calls := calls\<rparr>)"
    and "key_free L key ((turn L [key] raw u i m r st)\<lparr>m_tool_calls := calls, m_content := c\<rparr>)"
    and "key_free L key ((turn L [key] raw u i m r st)\<lparr>m_content := c, m_tool_calls := calls\<rparr>)"
proof -
  have gone: "\<not> sublist key (Secrets [key] s)" for s by (rule Secrets_removes) (use assms in simp_all)
  have "key_free L key (turn L [key] raw u i m r st)"
    using assms(3) unfolding key_free_def turn_def empty_message_def
    by (auto simp: opt_str_def opt_int_def usage_json_def gone split: if_splits option.splits)
  then show "key_free L key ((turn L [key] raw u i m r st)\<lparr>m_tool_calls := calls\<rparr>)"
      "key_free L key ((turn L [key] raw u i m r st)\<lparr>m_tool_calls := calls, m_content := c\<rparr>)"
      "key_free L key ((turn L [key] raw u i m r st)\<lparr>m_content := c, m_tool_calls := calls\<rparr>)"
    by (simp_all add: key_free_def)
qed

lemma raw_body_key_free:
  assumes "8 \<le> length key" and "maskable key"
  shows "key_free L key (raw_body_message (redact_String [key] s))"
proof -
  have "\<not> sublist key (redact_String [key] s)"
    by (rule redact_String_absent [OF assms(2) Secrets_removes]) (use assms in simp_all)
  then show ?thesis by (auto simp: key_free_def raw_body_message_def empty_message_def opt_str_def)
qed

lemma answer_key_free:
  assumes "8 \<le> length (pv_key p)" and "maskable (pv_key p)" and "answer_of api L W p status body = (m, f)"
  shows "key_free L (pv_key p) m"
proof -
  note raw_body = raw_body_key_free [OF assms(1,2)]
  note gone = maskSecrets_removes [OF assms(1,2)]
  have items: "\<forall>r \<in> set (raw_items L W [pv_key p] body k xs). \<not> sublist (pv_key p) r" for k xs
    by (auto simp: raw_items_def redactOutput_def gone)
  have finished: "key_free L (pv_key p) out"
    if "finish (turn L [pv_key p] (raw_items L W [pv_key p] body k xs) u i mo r st) label found = (out, e)" for k xs u i mo r st label found out e
    using that turn_key_free [OF assms(1,2) items] by (auto simp: finish_def Let_def split: prod.splits option.splits if_splits)
  show ?thesis
  proof (cases api)
    case Responses
    then show ?thesis using assms(3) finished raw_body
      by (auto simp: openai_answer_def Let_def split: sum.splits if_splits)
  next
    case Messages
    then show ?thesis using assms(3) finished raw_body
      by (auto simp: anthropic_answer_def Let_def split: sum.splits if_splits)
  next
    case Completions
    have "key_free L (pv_key p) ((turn L [pv_key p] [maskSecrets L [pv_key p] s] u i mo r st)\<lparr>m_content := c, m_tool_calls := calls\<rparr>)" for s u i mo r st c calls
      by (rule turn_key_free(3) [OF assms(1,2)]) (simp add: gone)
    then show ?thesis using assms(3) raw_body Completions
      by (auto simp: chat_answer_def Let_def split: sum.splits list.splits if_splits prod.splits option.splits)
  qed
qed

text \<open>The last attempt of a turn is the one that gave its message.\<close>

lemma attempts_last:
  assumes "attempts E n task history ops left k recorded = (m, e)" and "left \<noteq> 0"
  shows "\<exists>j msg f ips. en_provider E n j task history ops = (msg, f) \<and> m = msg\<lparr>m_interruptions := ips\<rparr> \<and> (e = None \<longrightarrow> f = None)"
  using assms
proof (induction left arbitrary: k recorded)
  case (Suc left)
  obtain msg f where p: "en_provider E n k task history ops = (msg, f)" by (rule prod.exhaust)
  show ?case
  proof (cases f)
    case None
    then show ?thesis using Suc.prems(1) p by auto
  next
    case (Some failure)
    show ?thesis
    proof (cases failure)
      case (Interrupted i)
      show ?thesis
      proof (cases "left = 0 \<or> (if wait i > 0 then en_sleep E n k (wait i) else None) \<noteq> None")
        case True
        then have "m = msg\<lparr>m_interruptions := recorded @ [Record i k]\<rparr>" "e \<noteq> None"
          using Suc.prems(1) p Some Interrupted by (auto simp: Let_def split: if_splits option.splits
              dest!: sym [of "Some _"])
        then show ?thesis using p by blast
      next
        case False
        then have "attempts E n task history ops left (Suc k) (recorded @ [Record i k]) = (m, e)"
          using Suc.prems(1) p Some Interrupted by (auto simp: Let_def split: if_splits)
        moreover have "left \<noteq> 0" using False by simp
        ultimately show ?thesis by (rule Suc.IH)
      qed
    next
      case (Failed err)
      then show ?thesis using Suc.prems(1) p Some by auto
    qed
  qed
qed simp


text \<open>A server that answers with a text that repeats the key.\<close>

definition pv_body :: json where
  "pv_body = JObj [(''content'', JArr [JObj [(''type'', JStr ''text''), (''text'', JStr ''ok'')]])]"

definition pv_lib :: golib where
  "pv_lib = sample_lib\<lparr>parse_json := (\<lambda>s. Some (if s = ''body'' then pv_body else JObj [(''type'', JStr ''text''), (''text'', JStr ''ok'')]))\<rparr>"

definition pv_wire :: wire_lib where
  "pv_wire = \<lparr>raw_at = (\<lambda>_ _. ''key-1234''), first_json = (\<lambda>_. None), quote = (\<lambda>s. s)\<rparr>"

definition pv_attempt :: attempt where
  "pv_attempt = \<lparr>at_do = (\<lambda>_. Inr (ca_res\<lparr>hr_body := ''body''\<rparr>)), at_live = True, at_expired = False, at_http_time = (\<lambda>_. None), at_now = 0\<rparr>"

definition pv_conf :: http_provider where
  "pv_conf = \<lparr>pv_key = ''key-1234'', pv_model = ''m'', pv_url = [], pv_timeout = 0, pv_max_output = 0\<rparr>"

definition pv_env :: env where
  "pv_env = \<lparr>en_provider = (\<lambda>_ _. http_Next Messages pv_lib pv_wire ca_urls pv_conf pv_attempt), en_sleep = (\<lambda>_ _ _. None),
     en_clock = (\<lambda>_ _. 0), en_crash = (\<lambda>_. None)\<rparr>"

lemma pv_answers: "\<exists>m. anthropic_answer pv_lib pv_wire pv_conf 200 ''body'' = (m, None)"
proof -
  let ?block = "JObj [(''type'', JStr ''text''), (''text'', JStr ''ok'')]"
  have wire: "wire_json pv_lib decode_anthropic ''body'' = Inr \<lparr>aw_id = [], aw_model = [], aw_content = [?block], aw_stop = [], aw_usage = None\<rparr>"
    by (simp add: wire_json_def pv_lib_def pv_body_def decode_anthropic_def string_field_def list_field_def pointer_field_def struct_field_def json_field_def)
  have raw: "raw_items pv_lib pv_wire [''key-1234''] ''body'' ''content'' [?block] = [''[REDACTED]'']"
    by code_simp
  have "collect pv_lib anthropic_block [''[REDACTED]''] [] [] = ([], [''ok''], None)"
    by (simp add: pv_lib_def anthropic_block_def string_field_def struct_field_def json_field_def)
  then show ?thesis
    by (simp add: anthropic_answer_def wire pv_conf_def raw finish_def joinLines_def Let_def)
qed


end
