(* ===== verification/Worlds.thy ===== *)
theory Worlds
  imports Behavior Policies "HOL-Library.AList"
begin

text \<open>
  The compilers (\<open>src/internal/compiler\<close>): from an OpenAPI document and its bindings to a manifest,
  and from a world definition with the documents of its services to a world manifest. The YAML
  parser is a parameter; the checks on its node tree and everything after decoding are modelled.
  The Go code ranges over maps, whose order changes from run to run: a decoded map is a list in
  the order of one such iteration, and the results are shown not to depend on it.
\<close>

section \<open>Documents\<close>

record api_parameter =
  pm_name :: string
  pm_in :: string
  pm_required :: bool
  pm_type :: string

record api_schema =
  sm_type :: string
  sm_required :: "string list"
  sm_properties :: "(string \<times> string) list"

record request_body =
  rb_required :: bool
  rb_content :: "(string \<times> api_schema) list"

record api_operation =
  ao_id :: string
  ao_parameters :: "api_parameter list"
  ao_body :: "request_body option"

record api_spec =
  as_openapi :: string
  as_paths :: "(string \<times> (string \<times> api_operation) list) list"

type_synonym bindings = "(string \<times> string) list"

text \<open>\<open>hasRef\<close> looks at the value of every node, keys included.\<close>

fun hasRef :: "ynode \<Rightarrow> bool" where
  "hasRef (YScalar _ v) = (v = ''$ref'')"
| "hasRef (YAlias anchor _) = (anchor = ''$ref'')"
| "hasRef (YSeq _ xs) = list_ex hasRef xs"
| "hasRef (YMap _ kvs) = list_ex (\<lambda>kv. hasRef (fst kv) \<or> hasRef (snd kv)) kvs"

fun is_scalar :: "ynode \<Rightarrow> bool" where
  "is_scalar (YScalar _ _) = True"
| "is_scalar _ = False"

fun is_seq :: "ynode \<Rightarrow> bool" where
  "is_seq (YSeq _ _) = True"
| "is_seq _ = False"

fun checkSchema :: "ynode \<Rightarrow> bool" where
  "checkSchema (YMap _ kvs) = list_all (\<lambda>kv. let key = node_value (fst kv) in
       if key = ''type'' then is_scalar (snd kv)
       else if key = ''required'' then is_seq (snd kv)
       else if key = ''properties'' then
         (case snd kv of YMap _ ps \<Rightarrow> list_all (\<lambda>p. checkSchema (snd p)) ps | _ \<Rightarrow> False)
       else False) kvs"
| "checkSchema _ = False"

fun checkSchemas :: "ynode \<Rightarrow> bool" where
  "checkSchemas (YMap _ kvs) = list_all (\<lambda>kv. if node_value (fst kv) = ''schema'' then checkSchema (snd kv) else checkSchemas (snd kv)) kvs"
| "checkSchemas (YSeq _ xs) = list_all checkSchemas xs"
| "checkSchemas _ = True"

section \<open>One service\<close>

text \<open>The parameters and the body of an operation, as \<open>Compile\<close> accepts them.\<close>

definition path_parameter :: "api_parameter \<Rightarrow> string list \<times> (string \<times> string) list \<Rightarrow> (string list \<times> (string \<times> string) list) res" where
  "path_parameter p = (\<lambda>(required, props).
     if pm_in p \<noteq> ''path'' \<or> \<not> pm_required p \<or> pm_type p \<noteq> ''string'' then Inl (Err ''unsupported parameter'')
     else Inr (required @ [pm_name p], AList.update (pm_name p) ''string'' props))"

definition body_property :: "string \<times> string \<Rightarrow> (string \<times> string) list \<Rightarrow> (string \<times> string) list res" where
  "body_property np props =
     (if snd np \<noteq> ''string'' \<and> snd np \<noteq> ''integer'' then Inl (Err ''unsupported property'') else Inr (AList.update (fst np) (snd np) props))"

definition json_body :: "request_body option \<Rightarrow> api_schema res" where
  "json_body body =
     (case body of
        None \<Rightarrow> Inl (Err ''unsupported request body'')
      | Some b \<Rightarrow>
          if length (rb_content b) \<noteq> 1 then Inl (Err ''unsupported request body'')
          else case map_of (rb_content b) ''application/json'' of
            None \<Rightarrow> Inl (Err ''unsupported request body'')
          | Some schema \<Rightarrow>
              if \<not> rb_required b \<or> sm_type schema \<noteq> ''object'' then Inl (Err ''unsupported request body'') else Inr schema)"

definition compile_body :: "string \<Rightarrow> api_operation \<Rightarrow> string list \<times> (string \<times> string) list \<Rightarrow> (string list \<times> (string \<times> string) list) res" where
  "compile_body verb def = (\<lambda>(required, props).
     if verb = ''post'' then
       bindR (json_body (ao_body def)) (\<lambda>schema. bindR (foldR body_property (sm_properties schema) props) (\<lambda>props'.
       Inr (required @ sm_required schema, props')))
     else Inr (required, props))"

text \<open>The map of properties is kept in the order of its keys, which is how it is written.\<close>

definition compile_operation :: "bindings \<Rightarrow> string \<Rightarrow> string \<Rightarrow> api_operation \<Rightarrow> operation res" where
  "compile_operation bs path verb def =
     (if verb \<noteq> ''get'' \<and> verb \<noteq> ''post'' then Inl (Err ''unsupported method'')
      else if ao_id def = [] then Inl (Err ''missing operationId'')
      else case map_of routes (ao_id def) of
        None \<Rightarrow> Inl (Err ''unsupported path or method'')
      | Some r \<Rightarrow>
          if rt_method r \<noteq> verb \<or> rt_path r \<noteq> path then Inl (Err ''unsupported path or method'')
          else case map_of bs (ao_id def) of
            None \<Rightarrow> Inl (Err ''unbound operation'')
          | Some behavior \<Rightarrow>
              if behavior = [] then Inl (Err ''unbound operation'')
              else if behavior \<noteq> rt_behavior r then Inl (Err ''unsupported binding'')
              else if verb = ''get'' \<and> ao_body def \<noteq> None then Inl (Err ''unsupported request body'')
              else bindR (foldR path_parameter (ao_parameters def) ([], [])) (\<lambda>found.
                bindR (compile_body verb def found) (\<lambda>(required, props).
                if list_ex (\<lambda>name. map_of props name \<in> {None, Some []}) required then Inl (Err ''required property missing schema'')
                else
                  let op = \<lparr>op_id = ao_id def, op_service = [], op_method = to_upper verb, op_path = path, op_behavior = behavior,
                            op_required = sort required, op_properties = sort_key fst props\<rparr> in
                  bindR (validateContract op) (\<lambda>_. Inr op))))"

definition compile_method ::
    "bindings \<Rightarrow> string \<Rightarrow> string \<times> api_operation \<Rightarrow> string list \<times> operation list \<Rightarrow> (string list \<times> operation list) res" where
  "compile_method bs path vd = (\<lambda>(seen, ops).
     bindR (compile_operation bs path (fst vd) (snd vd)) (\<lambda>op.
     if ao_id (snd vd) \<in> set seen then Inl (Err ''duplicate operationId'') else Inr (ao_id (snd vd) # seen, ops @ [op])))"

definition compile_path ::
    "bindings \<Rightarrow> string \<times> (string \<times> api_operation) list \<Rightarrow> string list \<times> operation list \<Rightarrow> (string list \<times> operation list) res" where
  "compile_path bs pm s =
     (if \<not> prefix ''/'' (fst pm) then Inl (Err ''unsupported path'') else foldR (compile_method bs (fst pm)) (snd pm) s)"

definition spec_ids :: "api_spec \<Rightarrow> string list" where
  "spec_ids spec = filter (\<lambda>i. i \<noteq> []) (concat (map (\<lambda>pm. map (\<lambda>vd. ao_id (snd vd)) (snd pm)) (as_paths spec)))"

definition compile_spec :: "'x golib_scheme \<Rightarrow> api_spec \<Rightarrow> bindings \<Rightarrow> manifest res" where
  "compile_spec L spec bs =
     (if \<not> distinct (spec_ids spec) then Inl (Err ''duplicate operationId'')
      else bindR (foldR (compile_path bs) (as_paths spec) ([], [])) (\<lambda>(seen, ops).
        if list_ex (\<lambda>b. fst b \<notin> set seen) bs then Inl (Err ''binding for nonexistent operation'')
        else let sorted = sort_key op_id ops in Inr \<lparr>mf_digest = digestOperations L sorted, mf_operations = sorted\<rparr>))"

definition supported_spec :: "api_spec \<Rightarrow> bool" where
  "supported_spec spec \<longleftrightarrow> prefix ''3.1.'' (as_openapi spec) \<and> as_paths spec \<noteq> []"

text \<open>An empty text has no node; its decoded specification is the zero value.\<close>

definition Compile :: "'x golib_scheme \<Rightarrow> api_spec yaml \<Rightarrow> (string \<Rightarrow> bindings res) \<Rightarrow> string \<Rightarrow> string \<Rightarrow> manifest res" where
  "Compile L Y B specBytes bindingBytes =
     bindR (ya_node Y specBytes) (\<lambda>node.
     if (case node of None \<Rightarrow> False | Some n \<Rightarrow> hasRef n) then Inl (Err ''external or local reference is unsupported'')
     else if (case node of None \<Rightarrow> False | Some n \<Rightarrow> \<not> checkSchemas n) then Inl (Err ''unsupported schema'')
     else bindR (ya_decode Y specBytes) (\<lambda>spec.
       if \<not> supported_spec spec then Inl (Err ''unsupported OpenAPI version or empty paths'')
       else bindR (B bindingBytes) (compile_spec L spec)))"

section \<open>World definitions\<close>

record service_spec =
  ss_name :: string
  ss_module :: string
  ss_openapi :: string
  ss_bindings :: string

record entity_spec =
  en_service :: string
  en_name :: string
  en_key :: string
  en_fields :: "string list"

record relationship_spec =
  re_from :: string
  re_to :: string

record world_definition =
  wd_version :: int
  wd_name :: string
  wd_seed_profile :: string
  wd_services :: "service_spec list"
  wd_entities :: "entity_spec list"
  wd_relationships :: "relationship_spec list"

definition validWorldIdentifier :: "string \<Rightarrow> bool" where
  "validWorldIdentifier s = name_ok ''_-'' s"

fun check_services :: "string list \<Rightarrow> service_spec list \<Rightarrow> unit res" where
  "check_services seen [] = Inr ()"
| "check_services seen (s # ss) =
     (if \<not> validWorldIdentifier (ss_name s) then Inl (Err ''invalid service name'')
      else if ss_name s \<in> set seen then Inl (Err ''duplicate service'')
      else if \<not> validWorldIdentifier (ss_module s) then Inl (Err ''invalid module'')
      else if blank (ss_openapi s) then Inl (Err ''openapi file is required'')
      else if blank (ss_bindings s) then Inl (Err ''bindings file is required'')
      else check_services (ss_name s # seen) ss)"

fun check_fields :: "string list \<Rightarrow> string list \<Rightarrow> unit res" where
  "check_fields seen [] = Inr ()"
| "check_fields seen (f # fs) =
     (if \<not> validWorldIdentifier f then Inl (Err ''invalid field'')
      else if f \<in> set seen then Inl (Err ''duplicate field'')
      else check_fields (f # seen) fs)"

text \<open>An entity with its fields in order; the accepted ones are collected under service and name.\<close>

definition check_entity ::
    "string list \<Rightarrow> entity_spec \<Rightarrow> ((string \<times> string) \<times> string list) list \<Rightarrow> (entity_spec \<times> ((string \<times> string) \<times> string list) list) res" where
  "check_entity services e decl =
     (if en_service e \<notin> set services then Inl (Err ''unknown service'')
      else if \<not> validWorldIdentifier (en_name e) then Inl (Err ''invalid entity name'')
      else if map_of decl (en_service e, en_name e) \<noteq> None then Inl (Err ''duplicate entity'')
      else if \<not> validWorldIdentifier (en_key e) then Inl (Err ''invalid primary key'')
      else bindR (check_fields [] (en_fields e)) (\<lambda>_.
        if en_key e \<notin> set (en_fields e) then Inl (Err ''primary key is not a declared field'')
        else Inr (e\<lparr>en_fields := sort (en_fields e)\<rparr>, ((en_service e, en_name e), en_fields e) # decl)))"

fun check_entities ::
    "string list \<Rightarrow> entity_spec list \<Rightarrow> ((string \<times> string) \<times> string list) list \<Rightarrow> (entity_spec list \<times> ((string \<times> string) \<times> string list) list) res" where
  "check_entities services [] decl = Inr ([], decl)"
| "check_entities services (e # es) decl =
     bindR (check_entity services e decl) (\<lambda>(e', decl'). bindR (check_entities services es decl') (\<lambda>(es', all). Inr (e' # es', all)))"

text \<open>\<open>strings.Split\<close> at a byte.\<close>

fun split_on :: "char \<Rightarrow> string \<Rightarrow> string list" where
  "split_on c [] = [[]]"
| "split_on c (d # ds) =
     (if d = c then [] # split_on c ds else case split_on c ds of [] \<Rightarrow> [[d]] | w # ws \<Rightarrow> (d # w) # ws)"

definition check_endpoint :: "((string \<times> string) \<times> string list) list \<Rightarrow> string \<Rightarrow> unit res" where
  "check_endpoint decl endpoint =
     (case split_on CHR ''.'' endpoint of
        [svc, name, field] \<Rightarrow>
          if \<not> list_all validWorldIdentifier [svc, name, field] then Inl (Err ''invalid relationship endpoint'')
          else (case map_of decl (svc, name) of
              Some columns \<Rightarrow> if field \<in> set columns then Inr () else Inl (Err ''unknown relationship endpoint'')
            | None \<Rightarrow> Inl (Err ''unknown relationship endpoint''))
      | _ \<Rightarrow> Inl (Err ''invalid relationship endpoint''))"

fun check_relationships :: "((string \<times> string) \<times> string list) list \<Rightarrow> relationship_spec list \<Rightarrow> relationship_spec list \<Rightarrow> unit res" where
  "check_relationships decl seen [] = Inr ()"
| "check_relationships decl seen (r # rs) =
     (if r \<in> set seen then Inl (Err ''duplicate relationship'')
      else bindR (check_endpoint decl (re_from r)) (\<lambda>_. bindR (check_endpoint decl (re_to r)) (\<lambda>_.
        check_relationships decl (r # seen) rs)))"

definition world_definition_of :: "world_definition \<Rightarrow> world_definition res" where
  "world_definition_of d =
     (if wd_version d \<noteq> 1 then Inl (Err ''unsupported world version'')
      else if blank (wd_name d) then Inl (Err ''world name is required'')
      else if wd_seed_profile d \<noteq> ''company-v1'' then Inl (Err ''unsupported seed profile'')
      else if wd_services d = [] then Inl (Err ''at least one service is required'')
      else bindR (check_services [] (wd_services d)) (\<lambda>_.
        bindR (check_entities (map ss_name (wd_services d)) (wd_entities d) []) (\<lambda>(entities, decl).
        bindR (check_relationships decl [] (wd_relationships d)) (\<lambda>_.
        Inr (d\<lparr>wd_services := sort_key ss_name (wd_services d),
               wd_entities := sort_key (\<lambda>e. (en_service e, en_name e)) entities,
               wd_relationships := sort_key (\<lambda>r. (re_from r, re_to r)) (wd_relationships d)\<rparr>)))))"

definition ParseWorldDefinition :: "world_definition yaml \<Rightarrow> string \<Rightarrow> world_definition res" where
  "ParseWorldDefinition Y data = bindR (read_mapping Y version_tag data) world_definition_of"

section \<open>Routes\<close>

definition braces :: "string \<Rightarrow> bool" where
  "braces s \<longleftrightarrow> CHR ''{'' \<in> set s \<or> CHR ''}'' \<in> set s"

text \<open>The arguments of a path and the shape that is compared: a wildcard for every argument.\<close>

definition path_segment :: "string \<Rightarrow> string list \<times> string list \<Rightarrow> (string list \<times> string list) res" where
  "path_segment segment = (\<lambda>(args, shape).
     if segment = [] then Inl (Err ''unsupported path'')
     else if prefix ''{'' segment \<and> suffix ''}'' segment then
       (let name = butlast (tl segment) in
        if name = [] \<or> name \<in> set args \<or> braces name then Inl (Err ''unsupported path argument'')
        else Inr (args @ [name], shape @ [''{}'']))
     else if braces segment then Inl (Err ''unsupported path'')
     else Inr (args, shape @ [segment]))"

definition worldPath :: "string \<Rightarrow> (string list \<times> string list) res" where
  "worldPath path =
     (if \<not> prefix ''/'' path \<or> path = ''/'' \<or> CHR ''?'' \<in> set path then Inl (Err ''unsupported path'')
      else foldR path_segment (split_on CHR ''/'' (tl path)) ([], []))"

definition routesOverlap :: "string list \<Rightarrow> string list \<Rightarrow> bool" where
  "routesOverlap a b \<longleftrightarrow> length a = length b \<and> list_all (\<lambda>(x, y). x = y \<or> x = ''{}'' \<or> y = ''{}'') (zip a b)"

section \<open>World services\<close>

definition get_parameter :: "string list \<Rightarrow> api_parameter \<Rightarrow> string list \<times> (string \<times> string) list \<Rightarrow> (string list \<times> (string \<times> string) list) res" where
  "get_parameter args p = (\<lambda>(required, props).
     if pm_in p \<noteq> ''path'' \<or> \<not> pm_required p \<or> pm_type p \<noteq> ''string'' \<or> pm_name p \<notin> set args \<or> map_of props (pm_name p) \<noteq> None
     then Inl (Err ''unsupported path parameter'')
     else Inr (required @ [pm_name p], AList.update (pm_name p) ''string'' props))"

definition world_property :: "string \<times> string \<Rightarrow> (string \<times> string) list \<Rightarrow> (string \<times> string) list res" where
  "world_property np props =
     (if fst np = [] \<or> snd np \<noteq> ''string'' \<and> snd np \<noteq> ''integer'' then Inl (Err ''unsupported property'')
      else Inr (AList.update (fst np) (snd np) props))"

definition world_arguments :: "string list \<Rightarrow> string \<Rightarrow> api_operation \<Rightarrow> (string list \<times> (string \<times> string) list) res" where
  "world_arguments args verb def =
     (if verb = ''get'' then
        if ao_body def \<noteq> None \<or> length (ao_parameters def) \<noteq> length args then Inl (Err ''unsupported GET arguments'')
        else foldR (get_parameter args) (ao_parameters def) ([], [])
      else
        (case ao_body def of
           None \<Rightarrow> Inl (Err ''unsupported POST arguments'')
         | Some body \<Rightarrow>
             if args \<noteq> [] \<or> ao_parameters def \<noteq> [] \<or> \<not> rb_required body \<or> length (rb_content body) \<noteq> 1
             then Inl (Err ''unsupported POST arguments'')
             else case map_of (rb_content body) ''application/json'' of
               None \<Rightarrow> Inl (Err ''unsupported JSON body'')
             | Some schema \<Rightarrow>
                 if sm_type schema \<noteq> ''object'' \<or> sm_properties schema = [] then Inl (Err ''unsupported JSON body'')
                 else bindR (foldR world_property (sm_properties schema) []) (\<lambda>props.
                   if length (sm_required schema) \<noteq> length props then Inl (Err ''optional properties are unsupported'')
                   else if list_ex (\<lambda>name. map_of props name = None) (sm_required schema) then Inl (Err ''unknown required property'')
                   else Inr (sm_required schema, props))))"

text \<open>The state of the loop over a service: the IDs and the routes so far, and the operations.\<close>

type_synonym service_state = "string list \<times> (string \<times> string list) list \<times> operation list"

definition world_method ::
    "registry \<Rightarrow> service_spec \<Rightarrow> bindings \<Rightarrow> string \<Rightarrow> string list \<Rightarrow> string list \<Rightarrow> string \<times> api_operation \<Rightarrow> service_state \<Rightarrow> service_state res" where
  "world_method registry svc bs path args shape vd = (\<lambda>(ids, taken, ops).
     let verb = fst vd; def = snd vd in
     if verb \<noteq> ''get'' \<and> verb \<noteq> ''post'' then Inl (Err ''unsupported method'')
     else if list_ex (\<lambda>t. fst t = verb \<and> routesOverlap (snd t) shape) taken then Inl (Err ''ambiguous service route'')
     else if ao_id def = [] \<or> ao_id def \<in> set ids then Inl (Err ''missing or duplicate operation ID'')
     else case map_of bs (ao_id def) of
       None \<Rightarrow> Inl (Err ''missing or wrong-module binding'')
     | Some key \<Rightarrow>
         if \<not> prefix (ss_module svc @ ''.'') key then Inl (Err ''missing or wrong-module binding'')
         else if Lookup registry key = None then Inl (Err ''unregistered behavior'')
         else bindR (world_arguments args verb def) (\<lambda>(required, props).
           Inr (ao_id def # ids, taken @ [(verb, shape)],
                ops @ [\<lparr>op_id = ao_id def, op_service = ss_name svc, op_method = to_upper verb, op_path = path, op_behavior = key,
                        op_required = sort required, op_properties = sort_key fst props\<rparr>])))"

definition world_path_item ::
    "registry \<Rightarrow> service_spec \<Rightarrow> bindings \<Rightarrow> string \<times> (string \<times> api_operation) list \<Rightarrow> service_state \<Rightarrow> service_state res" where
  "world_path_item registry svc bs pm s =
     bindR (worldPath (fst pm)) (\<lambda>(args, shape). foldR (world_method registry svc bs (fst pm) args shape) (snd pm) s)"

definition service_operations :: "registry \<Rightarrow> service_spec \<Rightarrow> api_spec \<Rightarrow> bindings \<Rightarrow> operation list res" where
  "service_operations registry svc spec bs =
     bindR (foldR (world_path_item registry svc bs) (as_paths spec) ([], [], [])) (\<lambda>(_, _, ops).
     if length ops \<noteq> length bs then Inl (Err ''bindings include nonexistent operations'') else Inr (sort_key op_id ops))"

text \<open>The keys of a document that a manifest can represent.\<close>

definition onlyWorldKeys :: "string list \<Rightarrow> ynode \<Rightarrow> bool" where
  "onlyWorldKeys allowed n \<longleftrightarrow> is_map n \<and> list_all (\<lambda>kv. node_value (fst kv) \<in> set allowed) (map_entries n)"

fun seq_nodes :: "ynode \<Rightarrow> ynode list" where
  "seq_nodes (YSeq _ xs) = xs"
| "seq_nodes _ = []"

definition body_keys :: "ynode \<Rightarrow> bool" where
  "body_keys body \<longleftrightarrow> onlyWorldKeys [''required'', ''content''] body
     \<and> list_all (\<lambda>(k, v). node_value k = ''content'' \<longrightarrow> is_map v \<and> list_all (\<lambda>c. onlyWorldKeys [''schema''] (snd c)) (map_entries v)) (map_entries body)"

definition operation_keys :: "ynode \<Rightarrow> bool" where
  "operation_keys operation \<longleftrightarrow> onlyWorldKeys [''operationId'', ''parameters'', ''requestBody''] operation
     \<and> list_all (\<lambda>(k, v).
         if node_value k = ''parameters'' then is_seq v \<and> list_all (onlyWorldKeys [''name'', ''in'', ''required'', ''schema'']) (seq_nodes v)
         else if node_value k = ''requestBody'' then body_keys v
         else True) (map_entries operation)"

definition checkWorldOpenAPI :: "ynode \<Rightarrow> bool" where
  "checkWorldOpenAPI doc \<longleftrightarrow> onlyWorldKeys [''openapi'', ''info'', ''paths''] doc
     \<and> list_all (\<lambda>(k, paths). node_value k = ''paths'' \<longrightarrow> is_map paths
         \<and> list_all (\<lambda>p. is_map (snd p) \<and> list_all (\<lambda>m. operation_keys (snd m)) (map_entries (snd p))) (map_entries paths)) (map_entries doc)"

definition decodeSingleYAML :: "('r yaml \<Rightarrow> string \<Rightarrow> 'a res) \<Rightarrow> 'r yaml \<Rightarrow> string \<Rightarrow> 'a res" where
  "decodeSingleYAML decode Y data =
     bindR (decode Y data) (\<lambda>x. case ya_rest Y data of
       EndOfInput \<Rightarrow> Inr x | AnotherDocument \<Rightarrow> Inl (Err ''multiple YAML documents'') | Unreadable \<Rightarrow> Inl (Err ''YAML''))"

definition compileService ::
    "api_spec yaml \<Rightarrow> bindings yaml \<Rightarrow> registry \<Rightarrow> service_spec \<Rightarrow> string \<Rightarrow> string \<Rightarrow> operation list res" where
  "compileService Y B registry svc specBytes bindingBytes =
     bindR (decodeSingleYAML ya_node Y specBytes) (\<lambda>node.
     case node of
       None \<Rightarrow> Inl (Err ''OpenAPI YAML'')
     | Some doc \<Rightarrow>
         if hasRef doc then Inl (Err ''$ref is unsupported'')
         else if \<not> checkSchemas doc then Inl (Err ''unsupported schema'')
         else if \<not> is_map doc then Inl (Err ''OpenAPI root must be a mapping'')
         else if \<not> checkWorldOpenAPI doc then Inl (Err ''unsupported OpenAPI feature'')
         else bindR (ya_decode Y specBytes) (\<lambda>spec.
           if \<not> supported_spec spec then Inl (Err ''unsupported OpenAPI version or empty paths'')
           else bindR (decodeSingleYAML ya_decode B bindingBytes) (\<lambda>bs.
             if bs = [] then Inl (Err ''service has no behavior bindings'') else service_operations registry svc spec bs)))"

section \<open>World manifests\<close>

record service_manifest =
  sf_name :: string
  sf_module :: string
  sf_digest :: string
  sf_operations :: "operation list"

record world_manifest = manifest +
  mf_definition :: world_definition
  mf_services :: "service_manifest list"

definition definition_json :: "world_definition \<Rightarrow> json" where
  "definition_json d = JObj [(''version'', jint (wd_version d)), (''name'', JStr (wd_name d)), (''seed_profile'', JStr (wd_seed_profile d)),
     (''services'', JArr (map (\<lambda>s. JObj [(''name'', JStr (ss_name s)), (''module'', JStr (ss_module s)), (''openapi'', JStr (ss_openapi s)),
        (''bindings'', JStr (ss_bindings s))]) (wd_services d))),
     (''entities'', JArr (map (\<lambda>e. JObj [(''service'', JStr (en_service e)), (''name'', JStr (en_name e)), (''primary_key'', JStr (en_key e)),
        (''fields'', JArr (map JStr (en_fields e)))]) (wd_entities d))),
     (''relationships'', JArr (map (\<lambda>r. JObj [(''from'', JStr (re_from r)), (''to'', JStr (re_to r))]) (wd_relationships d)))]"

definition digestService :: "'x golib_scheme \<Rightarrow> string \<Rightarrow> string \<Rightarrow> operation list \<Rightarrow> string" where
  "digestService L name mdl ops =
     hex_digest L (print_json L (JObj [(''name'', JStr name), (''module'', JStr mdl), (''operations'', JArr (map operation_json ops))]))"

definition service_json :: "service_manifest \<Rightarrow> json" where
  "service_json s = JObj [(''name'', JStr (sf_name s)), (''module'', JStr (sf_module s)), (''digest'', JStr (sf_digest s)),
     (''operations'', JArr (map operation_json (sf_operations s)))]"

definition digestWorld :: "'x golib_scheme \<Rightarrow> world_manifest \<Rightarrow> string" where
  "digestWorld L m = hex_digest L (print_json L (JObj [
     (''world'', JObj [(''definition'', definition_json (mf_definition m)), (''services'', JArr (map service_json (mf_services m)))]),
     (''operations'', JArr (map operation_json (mf_operations m)))]))"

definition validateWorldOperation :: "operation \<Rightarrow> unit res" where
  "validateWorldOperation op =
     (case worldPath (op_path op) of
        Inl _ \<Rightarrow> Inl (Err ''invalid operation shape'')
      | Inr (args, _) \<Rightarrow>
          if op_id op = [] \<or> length (op_properties op) \<noteq> length (op_required op) then Inl (Err ''invalid operation shape'')
          else if \<not> distinct (op_required op)
              \<or> list_ex (\<lambda>name. map_of (op_properties op) name \<notin> {Some ''string'', Some ''integer''}) (op_required op)
          then Inl (Err ''invalid operation property'')
          else if op_method op = ''GET'' then
            (if length args \<noteq> length (op_properties op) \<or> list_ex (\<lambda>(name, typ). name \<notin> set args \<or> typ \<noteq> ''string'') (op_properties op)
             then Inl (Err ''invalid GET parameter'') else Inr ())
          else if op_method op \<noteq> ''POST'' \<or> args \<noteq> [] then Inl (Err ''unsupported method or path'')
          else Inr ())"

text \<open>The shape of a path that is known to be good.\<close>

definition shape_of :: "string \<Rightarrow> string list" where
  "shape_of path = (case worldPath path of Inr (_, shape) \<Rightarrow> shape | Inl _ \<Rightarrow> [])"

definition validate_operation ::
    "registry \<Rightarrow> service_manifest \<Rightarrow> operation \<Rightarrow> string \<times> string list \<times> (string \<times> string list) list \<Rightarrow> (string \<times> string list \<times> (string \<times> string list) list) res" where
  "validate_operation registry svc op = (\<lambda>(previous, ids, taken).
     if text_le (op_id op) previous \<or> \<not> sorted (op_required op) then Inl (Err ''noncanonical operation order or arguments'')
     else if op_id op \<in> set ids \<or> op_service op \<noteq> sf_name svc \<or> \<not> prefix (sf_module svc @ ''.'') (op_behavior op)
     then Inl (Err ''invalid or duplicate operation'')
     else if Lookup registry (op_behavior op) = None then Inl (Err ''unregistered behavior'')
     else bindR (validateWorldOperation op) (\<lambda>_.
       if list_ex (\<lambda>t. fst t = op_method op \<and> routesOverlap (snd t) (shape_of (op_path op))) taken then Inl (Err ''ambiguous service route'')
       else Inr (op_id op, op_id op # ids, taken @ [(op_method op, shape_of (op_path op))])))"

definition validate_service ::
    "'x golib_scheme \<Rightarrow> registry \<Rightarrow> service_manifest \<times> service_spec \<Rightarrow> string list \<Rightarrow> string list res" where
  "validate_service L registry sp ids =
     (let svc = fst sp; spec = snd sp in
      if sf_name svc \<noteq> ss_name spec \<or> sf_module svc \<noteq> ss_module spec \<or> sf_operations svc = []
      then Inl (Err ''service metadata differs'')
      else if digestService L (sf_name svc) (sf_module svc) (sf_operations svc) \<noteq> sf_digest svc
      then Inl (Err ''service digest mismatch'')
      else bindR (foldR (validate_operation registry svc) (sf_operations svc) ([], ids, [])) (\<lambda>(_, ids', _). Inr ids'))"

text \<open>\<open>M\<close> is \<open>yaml.Marshal\<close> of a definition; the two lists a definition may lack are empty lists.\<close>

definition validate_world ::
    "'x golib_scheme \<Rightarrow> world_definition yaml \<Rightarrow> (world_definition \<Rightarrow> string) \<Rightarrow> registry \<Rightarrow> world_manifest \<Rightarrow> unit res" where
  "validate_world L D M registry m =
     (case ParseWorldDefinition D (M (mf_definition m)) of
        Inl _ \<Rightarrow> Inl (Err ''invalid or noncanonical world definition'')
      | Inr def \<Rightarrow>
          if def \<noteq> mf_definition m then Inl (Err ''invalid or noncanonical world definition'')
          else if length (wd_services def) \<noteq> length (mf_services m) \<or> mf_operations m = [] then Inl (Err ''world service or operation count differs'')
          else bindR (foldR (validate_service L registry) (zip (mf_services m) (wd_services def)) []) (\<lambda>_.
            if sort_key op_id (concat (map sf_operations (mf_services m))) \<noteq> mf_operations m then Inl (Err ''flattened world operations differ'')
            else if digestWorld L m \<noteq> mf_digest m then Inl (Err ''world manifest digest mismatch'')
            else Inr ()))"

text \<open>A manifest has no world metadata (\<open>Inl\<close>) or has it (\<open>Inr\<close>).\<close>

definition ValidateManifestWithRegistry ::
    "'x golib_scheme \<Rightarrow> world_definition yaml \<Rightarrow> (world_definition \<Rightarrow> string) \<Rightarrow> registry option \<Rightarrow> manifest + world_manifest \<Rightarrow> unit res" where
  "ValidateManifestWithRegistry L D M registry m =
     (case m of
        Inl plain \<Rightarrow> ValidateManifest L plain
      | Inr w \<Rightarrow> (case registry of
            None \<Rightarrow> Inl (Err ''behavior registry is required'')
          | Some r \<Rightarrow> validate_world L D M r w))"

definition add_service ::
    "'x golib_scheme \<Rightarrow> api_spec yaml \<Rightarrow> bindings yaml \<Rightarrow> (string \<Rightarrow> string res) \<Rightarrow> registry \<Rightarrow> service_spec \<Rightarrow>
       operation list \<times> service_manifest list \<Rightarrow> (operation list \<times> service_manifest list) res" where
  "add_service L Y B loader registry svc = (\<lambda>(ops, services).
     bindR (loader (ss_openapi svc)) (\<lambda>spec. bindR (loader (ss_bindings svc)) (\<lambda>bs.
     bindR (compileService Y B registry svc spec bs) (\<lambda>new.
     if \<not> distinct (map op_id new) \<or> set (map op_id new) \<inter> set (map op_id ops) \<noteq> {} then Inl (Err ''duplicate operation ID across services'')
     else Inr (ops @ new, services @ [\<lparr>sf_name = ss_name svc, sf_module = ss_module svc,
            sf_digest = digestService L (ss_name svc) (ss_module svc) new, sf_operations = new\<rparr>])))))"

definition CompileWorld ::
    "'x golib_scheme \<Rightarrow> world_definition yaml \<Rightarrow> (world_definition \<Rightarrow> string) \<Rightarrow> api_spec yaml \<Rightarrow> bindings yaml \<Rightarrow>
       string \<Rightarrow> (string \<Rightarrow> string res) option \<Rightarrow> registry option \<Rightarrow> world_manifest res" where
  "CompileWorld L D M Y B data loader registry =
     (case (loader, registry) of
        (Some f, Some r) \<Rightarrow>
          bindR (ParseWorldDefinition D data) (\<lambda>def.
          bindR (foldR (add_service L Y B f r) (wd_services def) ([], [])) (\<lambda>(ops, services).
          let m = \<lparr>mf_digest = [], mf_operations = sort_key op_id ops, mf_definition = def, mf_services = services\<rparr>;
              m' = m\<lparr>mf_digest := digestWorld L m\<rparr> in
          bindR (ValidateManifestWithRegistry L D M registry (Inr m')) (\<lambda>_. Inr m')))
      | _ \<Rightarrow> Inl (Err ''world loader and behavior registry are required''))"

section \<open>The order of iteration\<close>

lemma text_le_iff: "text_le a b \<longleftrightarrow> a \<le> b"
proof (induction a arbitrary: b)
  case (Cons x xs)
  show ?case using Cons.IH by (cases b) (auto simp: text_le_def less_char_def)
qed (simp add: text_le_def)

lemma mapR_perm:
  assumes "mset xs = mset ys" and "mapR f xs = Inr us"
  shows "\<exists>vs. mapR f ys = Inr vs \<and> mset vs = mset us"
proof -
  have known: "\<forall>x \<in> set xs. \<exists>u. f x = Inr u" using assms(2) by (induction xs arbitrary: us) auto
  have us: "us = map (\<lambda>x. case f x of Inr u \<Rightarrow> u | Inl _ \<Rightarrow> undefined) xs"
    using assms(2) by (induction xs arbitrary: us) auto
  have "mapR f zs = Inr (map (\<lambda>x. case f x of Inr u \<Rightarrow> u | Inl _ \<Rightarrow> undefined) zs)" if "set zs \<subseteq> set xs" for zs
    using that known by (induction zs) fastforce+
  then show ?thesis using us mset_eq_setD [OF assms(1)] by (metis assms(1) mset_map subset_refl)
qed

lemma sort_key_perm:
  assumes "mset xs = mset ys" and "distinct (map f xs)"
  shows "sort_key f xs = sort_key f ys"
  using assms by (intro sort_key_inj_key_eq) (auto simp: distinct_map)

type_synonym endpoint = "string \<times> string \<times> api_operation"

definition flat :: "(string \<times> (string \<times> api_operation) list) list \<Rightarrow> endpoint list" where
  "flat paths = concat (map (\<lambda>pm. map (\<lambda>vd. (fst pm, vd)) (snd pm)) paths)"

definition endpoint_id :: "endpoint \<Rightarrow> string" where
  "endpoint_id e = ao_id (snd (snd e))"

definition compile_endpoint :: "bindings \<Rightarrow> endpoint \<Rightarrow> operation res" where
  "compile_endpoint bs e = compile_operation bs (fst e) (fst (snd e)) (snd (snd e))"

lemma flat_simps [simp]: "flat [] = []" "flat ((path, ms) # paths) = map (\<lambda>vd. (path, vd)) ms @ flat paths"
  by (simp_all add: flat_def)

lemma mapR_append: "mapR f (xs @ ys) = Inr us \<longleftrightarrow> (\<exists>a b. mapR f xs = Inr a \<and> mapR f ys = Inr b \<and> us = a @ b)"
  by (induction xs arbitrary: us) auto

lemma compile_method_apply:
  "compile_method bs path vd (seen, ops) = bindR (compile_endpoint bs (path, vd)) (\<lambda>op.
     if ao_id (snd vd) \<in> set seen then Inl (Err ''duplicate operationId'') else Inr (ao_id (snd vd) # seen, ops @ [op]))"
  by (simp add: compile_method_def compile_endpoint_def)

lemma compile_methods_iff:
  "foldR (compile_method bs path) ms (seen, ops) = Inr (seen', ops') \<longleftrightarrow>
     (\<exists>new. mapR (compile_endpoint bs) (map (\<lambda>vd. (path, vd)) ms) = Inr new \<and> ops' = ops @ new)
     \<and> seen' = rev (map (\<lambda>vd. ao_id (snd vd)) ms) @ seen
     \<and> distinct (map (\<lambda>vd. ao_id (snd vd)) ms) \<and> set (map (\<lambda>vd. ao_id (snd vd)) ms) \<inter> set seen = {}"
proof (induction ms arbitrary: seen ops)
  case (Cons vd ms)
  show ?case
  proof (cases "compile_endpoint bs (path, vd)")
    case (Inr op)
    then show ?thesis by (auto simp: compile_method_apply Cons.IH)
  qed (simp add: compile_method_apply)
qed auto

lemma compile_path_apply:
  "compile_path bs (path, ms) s = (if \<not> prefix ''/'' path then Inl (Err ''unsupported path'') else foldR (compile_method bs path) ms s)"
  by (simp add: compile_path_def)

lemma endpoint_id_pair: "map endpoint_id (map (Pair path) ms) = map (\<lambda>vd. ao_id (snd vd)) ms"
  by (simp add: endpoint_id_def)

lemma compile_paths_iff:
  "foldR (compile_path bs) paths (seen, ops) = Inr (seen', ops') \<longleftrightarrow>
     (\<forall>pm \<in> set paths. prefix ''/'' (fst pm)) \<and> (\<exists>new. mapR (compile_endpoint bs) (flat paths) = Inr new \<and> ops' = ops @ new)
     \<and> seen' = rev (map endpoint_id (flat paths)) @ seen
     \<and> distinct (map endpoint_id (flat paths)) \<and> set (map endpoint_id (flat paths)) \<inter> set seen = {}"
proof (induction paths arbitrary: seen ops)
  case (Cons pm paths)
  obtain path ms where pm: "pm = (path, ms)" by (rule prod.exhaust)
  define I where "I = map (\<lambda>vd. ao_id (snd vd)) ms"
  define J where "J = map endpoint_id (flat paths)"
  have ids: "map endpoint_id (flat (pm # paths)) = I @ J"
    by (simp add: pm endpoint_id_def I_def J_def)
  have "foldR (compile_path bs) (pm # paths) (seen, ops) = Inr (seen', ops') \<longleftrightarrow>
     prefix ''/'' path \<and> (\<exists>new. mapR (compile_endpoint bs) (map (Pair path) ms) = Inr new
       \<and> distinct I \<and> set I \<inter> set seen = {} \<and> foldR (compile_path bs) paths (rev I @ seen, ops @ new) = Inr (seen', ops'))"
    by (auto simp: pm compile_path_apply compile_methods_iff I_def)
  also have "\<dots> \<longleftrightarrow> (\<forall>pm' \<in> set (pm # paths). prefix ''/'' (fst pm'))
     \<and> (\<exists>new. mapR (compile_endpoint bs) (flat (pm # paths)) = Inr new \<and> ops' = ops @ new)
     \<and> seen' = rev (map endpoint_id (flat (pm # paths))) @ seen
     \<and> distinct (map endpoint_id (flat (pm # paths))) \<and> set (map endpoint_id (flat (pm # paths))) \<inter> set seen = {}"
    unfolding Cons.IH ids J_def [symmetric] by (auto simp: pm mapR_append)
  finally show ?case .
qed auto

lemma compile_spec_iff:
  "compile_spec L spec bs = Inr m \<longleftrightarrow>
     (\<exists>new. mapR (compile_endpoint bs) (flat (as_paths spec)) = Inr new
       \<and> m = \<lparr>mf_digest = digestOperations L (sort_key op_id new), mf_operations = sort_key op_id new\<rparr>)
     \<and> (\<forall>pm \<in> set (as_paths spec). prefix ''/'' (fst pm)) \<and> distinct (map endpoint_id (flat (as_paths spec)))
     \<and> (\<forall>b \<in> set bs. fst b \<in> endpoint_id ` set (flat (as_paths spec)))"
proof -
  have "spec_ids spec = filter (\<lambda>i. i \<noteq> []) (map endpoint_id (flat (as_paths spec)))"
    by (simp add: spec_ids_def flat_def endpoint_id_def map_concat comp_def)
  then have ids: "distinct (map endpoint_id (flat (as_paths spec))) \<Longrightarrow> distinct (spec_ids spec)" by simp
  have "compile_spec L spec bs = Inr m \<longleftrightarrow> distinct (spec_ids spec) \<and> (\<exists>seen ops. foldR (compile_path bs) (as_paths spec) ([], []) = Inr (seen, ops)
      \<and> (\<forall>b \<in> set bs. fst b \<in> set seen) \<and> m = \<lparr>mf_digest = digestOperations L (sort_key op_id ops), mf_operations = sort_key op_id ops\<rparr>)"
    by (auto simp: compile_spec_def Let_def list_ex_iff)
  then show ?thesis using ids unfolding compile_paths_iff by auto
qed

lemma compile_operation_facts:
  assumes "compile_operation bs path verb def = Inr op"
  shows "op_id op = ao_id def" and "op_id op \<noteq> []" and "validateContract op = Inr ()"
  using assms by (auto simp: compile_operation_def Let_def split: if_splits option.splits prod.splits)

lemma compile_endpoints_ids: "mapR (compile_endpoint bs) es = Inr new \<Longrightarrow> map op_id new = map endpoint_id es"
  by (induction es arbitrary: new) (auto simp: compile_endpoint_def endpoint_id_def dest: compile_operation_facts)

text \<open>The properties of a body are a map as well: an operation up to their order.\<close>

definition canon_schema :: "api_schema \<Rightarrow> api_schema" where
  "canon_schema s = s\<lparr>sm_properties := sort_key fst (sm_properties s)\<rparr>"

definition canon_operation :: "api_operation \<Rightarrow> api_operation" where
  "canon_operation d = d\<lparr>ao_body := map_option (\<lambda>b. b\<lparr>rb_content := map (\<lambda>(k, s). (k, canon_schema s)) (rb_content b)\<rparr>) (ao_body d)\<rparr>"

definition proper_maps :: "api_operation \<Rightarrow> bool" where
  "proper_maps d \<longleftrightarrow> (\<forall>b \<in> set_option (ao_body d). \<forall>(k, s) \<in> set (rb_content b). distinct (map fst (sm_properties s)))"

lemma body_properties:
  "foldR body_property ps acc = (if \<forall>np \<in> set ps. snd np \<in> {''string'', ''integer''}
     then Inr (fold (\<lambda>np. AList.update (fst np) (snd np)) ps acc) else Inl (Err ''unsupported property''))"
  by (induction ps arbitrary: acc) (auto simp: body_property_def)

lemma fold_update_map: "map_of (fold (\<lambda>np. AList.update (fst np) (snd np)) ps acc) = map_of acc ++ map_of (rev ps)"
  by (induction ps arbitrary: acc) (auto simp: update_conv' map_add_def fun_eq_iff split: option.splits)

lemma fold_update_distinct: "distinct (map fst acc) \<Longrightarrow> distinct (map fst (fold (\<lambda>np. AList.update (fst np) (snd np)) ps acc))"
  by (induction ps arbitrary: acc) (auto simp: distinct_update)

lemma sort_alist_eq:
  assumes "distinct (map fst xs)" and "distinct (map fst ys)" and "map_of xs = map_of ys"
  shows "sort_key fst xs = sort_key fst ys"
proof (rule sort_key_perm)
  show "mset xs = mset ys"
    using assms by (metis distinct_map map_of_eq_dom map_of_inject_set set_eq_iff_mset_eq_distinct)
qed (rule assms(1))

lemma canon_fields [simp]: "ao_id (canon_operation d) = ao_id d" "ao_parameters (canon_operation d) = ao_parameters d"
  "ao_body (canon_operation d) = None \<longleftrightarrow> ao_body d = None"
  by (simp_all add: canon_operation_def)

lemma json_body_canon:
  "json_body (ao_body (canon_operation d)) = (case json_body (ao_body d) of Inl e \<Rightarrow> Inl e | Inr s \<Rightarrow> Inr (canon_schema s))"
  by (auto simp: json_body_def canon_operation_def map_of_map canon_schema_def split: option.splits)

lemma json_body_proper: "json_body (ao_body d) = Inr s \<Longrightarrow> proper_maps d \<Longrightarrow> distinct (map fst (sm_properties s))"
  by (auto simp: json_body_def proper_maps_def dest: map_of_SomeD split: option.splits if_splits)

lemma compile_body_canon:
  assumes "proper_maps d" and "distinct (map fst acc)"
  obtains e where "compile_body verb d (required, acc) = Inl e" and "compile_body verb (canon_operation d) (required, acc) = Inl e"
  | r p q where "compile_body verb d (required, acc) = Inr (r, p)" and "compile_body verb (canon_operation d) (required, acc) = Inr (r, q)"
      and "map_of q = map_of p" and "sort_key fst q = sort_key fst p"
proof (cases "verb = ''post''")
  case False
  then show ?thesis using that(2) by (simp add: compile_body_def)
next
  case True
  show ?thesis
  proof (cases "json_body (ao_body d)")
    case (Inl e)
    then show ?thesis using that(1) True by (simp add: compile_body_def json_body_canon)
  next
    case (Inr s)
    let ?p = "fold (\<lambda>np. AList.update (fst np) (snd np)) (sm_properties s) acc"
    let ?q = "fold (\<lambda>np. AList.update (fst np) (snd np)) (sort_key fst (sm_properties s)) acc"
    have ps: "distinct (map fst (sm_properties s))" by (rule json_body_proper [OF Inr assms(1)])
    have sorted: "distinct (map fst (sort_key fst (sm_properties s)))"
      using ps by (simp add: distinct_map)
    have "map_of (rev (sort_key fst (sm_properties s))) = map_of (rev (sm_properties s))"
      using ps sorted by (subst map_of_inject_set) (simp_all add: rev_map [symmetric])
    then have maps: "map_of ?q = map_of ?p" by (simp add: fold_update_map)
    moreover have "sort_key fst ?q = sort_key fst ?p"
      by (rule sort_alist_eq [OF fold_update_distinct fold_update_distinct maps]) (rule assms(2))+
    ultimately show ?thesis
      using that True Inr
      by (cases "\<forall>np \<in> set (sm_properties s). snd np \<in> {''string'', ''integer''}")
         (auto simp: compile_body_def json_body_canon canon_schema_def body_properties)
  qed
qed

lemma parameters_distinct: "foldR path_parameter ps ([], []) = Inr (r, acc) \<Longrightarrow> distinct (map fst acc)"
  by (drule foldR_invariant [where I = "\<lambda>s. distinct (map fst (snd s))"])
     (auto simp: path_parameter_def distinct_update split: if_splits)

lemma compile_operation_canon:
  assumes "proper_maps d"
  shows "compile_operation bs path verb (canon_operation d) = compile_operation bs path verb d"
proof -
  have "bindR (foldR path_parameter (ao_parameters d) ([], [])) (\<lambda>found. bindR (compile_body verb (canon_operation d) found) k)
      = bindR (foldR path_parameter (ao_parameters d) ([], [])) (\<lambda>found. bindR (compile_body verb d found) k)"
    if k: "\<And>r p q. map_of q = map_of p \<Longrightarrow> sort_key fst q = sort_key fst p \<Longrightarrow> k (r, q) = k (r, p)"
    for k :: "string list \<times> (string \<times> string) list \<Rightarrow> operation res"
  proof (cases "foldR path_parameter (ao_parameters d) ([], [])")
    case (Inr found)
    obtain required acc where found: "found = (required, acc)" by (rule prod.exhaust)
    have "distinct (map fst acc)" using parameters_distinct Inr found by blast
    from compile_body_canon [OF assms this, of verb required] show ?thesis
      using k Inr found by (metis bindR.simps)
  qed simp
  note step = this
  have key: "bindR (foldR path_parameter (ao_parameters d) ([], [])) (\<lambda>found.
                bindR (compile_body verb (canon_operation d) found) (\<lambda>(required, props).
                if list_ex (\<lambda>name. map_of props name \<in> {None, Some []}) required then Inl (Err ''required property missing schema'')
                else
                  let op = \<lparr>op_id = ao_id d, op_service = [], op_method = to_upper verb, op_path = path, op_behavior = behavior,
                            op_required = sort required, op_properties = sort_key fst props\<rparr> in
                  bindR (validateContract op) (\<lambda>_. Inr op)))
      = bindR (foldR path_parameter (ao_parameters d) ([], [])) (\<lambda>found.
                bindR (compile_body verb d found) (\<lambda>(required, props).
                if list_ex (\<lambda>name. map_of props name \<in> {None, Some []}) required then Inl (Err ''required property missing schema'')
                else
                  let op = \<lparr>op_id = ao_id d, op_service = [], op_method = to_upper verb, op_path = path, op_behavior = behavior,
                            op_required = sort required, op_properties = sort_key fst props\<rparr> in
                  bindR (validateContract op) (\<lambda>_. Inr op)))" for behavior
    by (rule step) (simp only: prod.case)
  show ?thesis unfolding compile_operation_def canon_fields key ..
qed

definition canon_endpoint :: "endpoint \<Rightarrow> endpoint" where
  "canon_endpoint e = (fst e, fst (snd e), canon_operation (snd (snd e)))"

text \<open>Two iterations over the same document: the same paths, and the same operations up to the order of their properties.\<close>

definition reordered :: "api_spec \<Rightarrow> api_spec \<Rightarrow> bool" where
  "reordered s t \<longleftrightarrow> as_openapi s = as_openapi t \<and> mset (map fst (as_paths s)) = mset (map fst (as_paths t))
     \<and> mset (map canon_endpoint (flat (as_paths s))) = mset (map canon_endpoint (flat (as_paths t)))
     \<and> (\<forall>e \<in> set (flat (as_paths s) @ flat (as_paths t)). proper_maps (snd (snd e)))"

lemma reordered_sym: "reordered s t \<Longrightarrow> reordered t s"
  by (auto simp: reordered_def)

lemma compile_endpoints_canon:
  "\<forall>e \<in> set es. proper_maps (snd (snd e)) \<Longrightarrow> mapR (compile_endpoint bs) (map canon_endpoint es) = mapR (compile_endpoint bs) es"
  by (induction es) (simp_all add: compile_endpoint_def canon_endpoint_def compile_operation_canon)

lemma endpoint_ids_canon: "map endpoint_id es = map endpoint_id (map canon_endpoint es)"
  by (simp add: endpoint_id_def canon_endpoint_def)

lemma compile_spec_reordered:
  assumes "reordered s t" and "mset bs = mset cs" and "distinct (map fst bs)" and "compile_spec L s bs = Inr m"
  shows "compile_spec L t cs = Inr m"
proof -
  let ?s = "flat (as_paths s)" and ?t = "flat (as_paths t)"
  have same: "mset (map canon_endpoint ?s) = mset (map canon_endpoint ?t)"
    and proper: "\<forall>e \<in> set ?s. proper_maps (snd (snd e))" "\<forall>e \<in> set ?t. proper_maps (snd (snd e))"
    using assms(1) by (simp_all add: reordered_def)
  have paths: "set (map fst (as_paths s)) = set (map fst (as_paths t))"
    by (rule mset_eq_setD) (use assms(1) in \<open>simp add: reordered_def\<close>)
  obtain new where new: "mapR (compile_endpoint bs) ?s = Inr new"
      and m: "m = \<lparr>mf_digest = digestOperations L (sort_key op_id new), mf_operations = sort_key op_id new\<rparr>"
      and slash: "\<forall>pm \<in> set (as_paths s). prefix ''/'' (fst pm)" and ids: "distinct (map endpoint_id ?s)"
      and bound: "\<forall>b \<in> set bs. fst b \<in> endpoint_id ` set ?s"
    using assms(4) unfolding compile_spec_iff by blast
  have "map_of bs = map_of cs"
    using assms(2,3) by (metis map_of_inject_set mset_eq_setD mset_map mset_eq_imp_distinct_iff)
  then have bs: "compile_endpoint bs = compile_endpoint cs"
    by (intro ext) (simp only: compile_endpoint_def compile_operation_def)
  obtain new' where "mapR (compile_endpoint cs) (map canon_endpoint ?t) = Inr new'" and perm: "mset new' = mset new"
    using mapR_perm [OF same, of "compile_endpoint cs" new] new unfolding bs compile_endpoints_canon [OF proper(1)] by blast
  then have new': "mapR (compile_endpoint cs) ?t = Inr new'" unfolding compile_endpoints_canon [OF proper(2)] by simp
  have "mset (map endpoint_id ?s) = mset (map endpoint_id ?t)"
    unfolding endpoint_ids_canon [of ?s] endpoint_ids_canon [of ?t] by (metis mset_map same)
  then have "distinct (map endpoint_id ?t)" and "endpoint_id ` set ?s = endpoint_id ` set ?t"
    using ids mset_eq_imp_distinct_iff mset_eq_setD by (metis, metis list.set_map)
  moreover have "\<forall>pm \<in> set (as_paths t). prefix ''/'' (fst pm)" using slash paths by (auto simp: image_iff) (metis (no_types) fst_conv imageI image_iff)
  moreover have "sort_key op_id new' = sort_key op_id new"
    using perm compile_endpoints_ids [OF new] ids by (metis sort_key_perm)
  ultimately show ?thesis
    unfolding compile_spec_iff using new' m bound mset_eq_setD [OF assms(2)] by auto
qed

lemma empty_first: "s \<noteq> [] \<Longrightarrow> [] < (s :: string)"
  by (cases s) simp_all

lemma check_sorted:
  "sorted_wrt (<) (prev # map op_id ops) \<Longrightarrow> \<forall>op \<in> set ops. validateContract op = Inr () \<Longrightarrow> check_operations prev ops = Inr ()"
  by (induction ops arbitrary: prev) (auto simp: text_le_iff)

text \<open>
  C36. Compiling is deterministic although the code ranges over maps: whatever order the paths,
  methods, properties and bindings of a document come in, compiling gives the same manifest or
  fails. And what it gives, if it has an operation, is a manifest that validates.
\<close>

theorem compile_deterministic:
  assumes "ya_node Y' = ya_node Y" and "ya_decode Y spec = Inr s" and "ya_decode Y' spec = Inr t" and "reordered s t"
    and "B bindings = Inr bs" and "B' bindings = Inr cs" and "mset bs = mset cs" and "distinct (map fst bs)"
  shows "(Compile L Y B spec bindings = Inr m \<longleftrightarrow> Compile L Y' B' spec bindings = Inr m)
    \<and> (Compile L Y B spec bindings = Inr m \<and> mf_operations m \<noteq> [] \<longrightarrow> ValidateManifest L m = Inr ())"
proof (intro conjI impI)
  have "distinct (map fst cs)" using assms(7,8) by (metis mset_eq_imp_distinct_iff mset_map)
  then have "compile_spec L s bs = Inr m \<longleftrightarrow> compile_spec L t cs = Inr m"
    using compile_spec_reordered [OF assms(4,7,8)] compile_spec_reordered [OF reordered_sym [OF assms(4)] assms(7) [symmetric]] by blast
  moreover have "supported_spec s \<longleftrightarrow> supported_spec t"
  proof -
    have "as_paths s = [] \<longleftrightarrow> as_paths t = []"
      using assms(4) unfolding reordered_def by (metis map_is_Nil_conv mset_zero_iff)
    then show ?thesis using assms(4) by (simp add: supported_spec_def reordered_def)
  qed
  ultimately show "Compile L Y B spec bindings = Inr m \<longleftrightarrow> Compile L Y' B' spec bindings = Inr m"
    using assms(1,2,3,5,6) by (simp add: Compile_def)
next
  assume compiled: "Compile L Y B spec bindings = Inr m \<and> mf_operations m \<noteq> []"
  then have ok: "compile_spec L s bs = Inr m \<and> mf_operations m \<noteq> []" using assms(2,5) by (auto simp: Compile_def split: if_splits)
  then obtain new where new: "mapR (compile_endpoint bs) (flat (as_paths s)) = Inr new" and ids: "distinct (map endpoint_id (flat (as_paths s)))"
      and m: "m = \<lparr>mf_digest = digestOperations L (sort_key op_id new), mf_operations = sort_key op_id new\<rparr>"
    unfolding compile_spec_iff by blast
  have each: "validateContract op = Inr () \<and> op_id op \<noteq> []" if "op \<in> set new" for op
    using mapR_known [OF new that] compile_operation_facts unfolding compile_endpoint_def by blast
  have "distinct (map op_id (sort_key op_id new))"
    using compile_endpoints_ids [OF new] ids by (metis mset_eq_imp_distinct_iff mset_map mset_sort)
  then have "sorted_wrt (<) (map op_id (sort_key op_id new))" by (simp add: strict_sorted_iff)
  then have "sorted_wrt (<) ([] # map op_id (sort_key op_id new))" using each by (auto simp: empty_first)
  then have "check_operations [] (sort_key op_id new) = Inr ()" using each by (intro check_sorted) simp_all
  then show "ValidateManifest L m = Inr ()" using ok by (simp add: ValidateManifest_def m)
qed

definition sample_id :: api_parameter where
  "sample_id = \<lparr>pm_name = ''id'', pm_in = ''path'', pm_required = True, pm_type = ''string''\<rparr>"

definition sample_get :: "string \<Rightarrow> api_operation" where
  "sample_get i = \<lparr>ao_id = i, ao_parameters = [sample_id], ao_body = None\<rparr>"

definition sample_refund_op :: "(string \<times> string) list \<Rightarrow> api_operation" where
  "sample_refund_op props = \<lparr>ao_id = ''createRefund'', ao_parameters = [], ao_body = Some \<lparr>rb_required = True,
     rb_content = [(''application/json'', \<lparr>sm_type = ''object'', sm_required = [''reason'', ''charge_id'', ''amount_cents''],
                                            sm_properties = props\<rparr>)]\<rparr>\<rparr>"

definition sample_props :: "(string \<times> string) list" where
  "sample_props = [(''reason'', ''string''), (''amount_cents'', ''integer''), (''charge_id'', ''string'')]"

definition sample_paths :: "(string \<times> string) list \<Rightarrow> (string \<times> (string \<times> api_operation) list) list" where
  "sample_paths props = [(''/refunds'', [(''post'', sample_refund_op props)]), (''/charges/{id}'', [(''get'', sample_get ''getCharge'')])]"

definition sample_yaml :: "'r \<Rightarrow> 'r yaml" where
  "sample_yaml x = \<lparr>ya_node = (\<lambda>_. Inr (Some (YMap ''!!map'' []))), ya_decode = (\<lambda>_. Inr x), ya_rest = (\<lambda>_. EndOfInput)\<rparr>"

definition sample_bindings :: bindings where
  "sample_bindings = [(''createRefund'', ''billing.createRefund''), (''getCharge'', ''billing.getCharge'')]"

lemmas sample_spec_defs = sample_id_def sample_get_def sample_refund_op_def sample_props_def sample_paths_def sample_yaml_def sample_bindings_def

theorem compile_deterministic_witness:
  "(\<exists>m. map op_id (mf_operations m) = [''createRefund'', ''getCharge'']
     \<and> Compile sample_lib (sample_yaml \<lparr>as_openapi = ''3.1.0'', as_paths = sample_paths sample_props\<rparr>) (\<lambda>_. Inr sample_bindings) ''spec'' ''bindings'' = Inr m
     \<and> Compile sample_lib (sample_yaml \<lparr>as_openapi = ''3.1.0'', as_paths = rev (sample_paths (rev sample_props))\<rparr>)
         (\<lambda>_. Inr (rev sample_bindings)) ''spec'' ''bindings'' = Inr m
     \<and> ValidateManifest sample_lib m = Inr ())"
proof -
  let ?s = "\<lparr>as_openapi = ''3.1.0'', as_paths = sample_paths sample_props\<rparr>"
  let ?t = "\<lparr>as_openapi = ''3.1.0'', as_paths = rev (sample_paths (rev sample_props))\<rparr>"
  have "map_sum (\<lambda>_. ()) (\<lambda>m. map op_id (mf_operations m)) (Compile sample_lib (sample_yaml ?s) (\<lambda>_. Inr sample_bindings) ''spec'' ''bindings'')
      = Inr [''createRefund'', ''getCharge'']"
    by code_simp
  then obtain m where m: "Compile sample_lib (sample_yaml ?s) (\<lambda>_. Inr sample_bindings) ''spec'' ''bindings'' = Inr m"
      and ids: "map op_id (mf_operations m) = [''createRefund'', ''getCharge'']"
    by (auto simp: map_sum_def split: sum.splits)
  have "reordered ?s ?t" by (simp add: reordered_def canon_endpoint_def canon_operation_def canon_schema_def proper_maps_def sample_spec_defs)
  from compile_deterministic [OF _ _ _ this, of "sample_yaml ?t" "sample_yaml ?s" "''spec''" "\<lambda>_. Inr sample_bindings" "''bindings''"
      sample_bindings "\<lambda>_. Inr (rev sample_bindings)" "rev sample_bindings" sample_lib m]
  have "Compile sample_lib (sample_yaml ?t) (\<lambda>_. Inr (rev sample_bindings)) ''spec'' ''bindings'' = Inr m \<and> ValidateManifest sample_lib m = Inr ()"
    using m ids by (auto simp: sample_yaml_def sample_bindings_def)
  then show ?thesis using m ids by (intro exI [of _ m] conjI) simp_all
qed

section \<open>Worlds that compile\<close>

text \<open>The requests a shape answers: the segments of a path, a wildcard for any.\<close>

definition answers :: "string list \<Rightarrow> string list \<Rightarrow> bool" where
  "answers shape segs \<longleftrightarrow> list_all2 (\<lambda>x s. x = ''{}'' \<or> x = s) shape segs"

lemma routesOverlap_Cons: "routesOverlap (x # a) (y # b) \<longleftrightarrow> (x = y \<or> x = ''{}'' \<or> y = ''{}'') \<and> routesOverlap a b"
  by (auto simp: routesOverlap_def)

lemma answers_Cons: "answers (x # a) segs \<longleftrightarrow> (\<exists>s rest. segs = s # rest \<and> (x = ''{}'' \<or> x = s) \<and> answers a rest)"
  by (auto simp: answers_def list_all2_Cons1)

lemma routesOverlap_exact: "routesOverlap a b \<longleftrightarrow> (\<exists>segs. answers a segs \<and> answers b segs)"
proof (induction a arbitrary: b)
  case Nil
  show ?case by (cases b) (auto simp: routesOverlap_def answers_def)
next
  case (Cons x a)
  show ?case
  proof (cases b)
    case (Cons y b')
    show ?thesis unfolding Cons routesOverlap_Cons Cons.IH [of b'] answers_Cons by blast
  qed (simp add: routesOverlap_def answers_def)
qed

text \<open>No two operations of one method answer a common request.\<close>

definition unambiguous :: "operation list \<Rightarrow> bool" where
  "unambiguous ops \<longleftrightarrow> sorted_wrt (\<lambda>o1 o2. op_method o1 = op_method o2 \<longrightarrow>
     \<not> (\<exists>segs. answers (shape_of (op_path o1)) segs \<and> answers (shape_of (op_path o2)) segs)) ops"

definition runnable_operation :: "registry \<Rightarrow> service_manifest \<Rightarrow> operation \<Rightarrow> bool" where
  "runnable_operation registry svc op \<longleftrightarrow> op_service op = sf_name svc \<and> prefix (sf_module svc @ ''.'') (op_behavior op)
     \<and> Lookup registry (op_behavior op) \<noteq> None \<and> sorted (op_required op) \<and> validateWorldOperation op = Inr ()"

lemma validate_operation_Inr:
  "validate_operation registry svc op (previous, ids, taken) = Inr s \<longleftrightarrow>
     previous < op_id op \<and> op_id op \<notin> set ids \<and> runnable_operation registry svc op
     \<and> (\<forall>t \<in> set taken. fst t = op_method op \<longrightarrow> \<not> (\<exists>segs. answers (snd t) segs \<and> answers (shape_of (op_path op)) segs))
     \<and> s = (op_id op, op_id op # ids, taken @ [(op_method op, shape_of (op_path op))])"
  by (cases "validateWorldOperation op")
     (auto simp: validate_operation_def runnable_operation_def text_le_iff list_ex_iff routesOverlap_exact not_le split: if_splits)

lemma validate_operations_Inr:
  assumes "foldR (validate_operation registry svc) ops (previous, ids, taken) = Inr (p, ids', t)"
  shows "sorted_wrt (<) (previous # map op_id ops) \<and> ids' = rev (map op_id ops) @ ids \<and> set (map op_id ops) \<inter> set ids = {}
     \<and> list_all (runnable_operation registry svc) ops \<and> unambiguous ops
     \<and> (\<forall>op \<in> set ops. \<forall>t \<in> set taken. fst t = op_method op \<longrightarrow> \<not> (\<exists>segs. answers (snd t) segs \<and> answers (shape_of (op_path op)) segs))"
  using assms
proof (induction ops arbitrary: previous ids taken)
  case (Cons op ops)
  let ?mine = "(op_method op, shape_of (op_path op))"
  from Cons.prems obtain s where step: "validate_operation registry svc op (previous, ids, taken) = Inr s"
      and more: "foldR (validate_operation registry svc) ops s = Inr (p, ids', t)" by auto
  then have s: "s = (op_id op, op_id op # ids, taken @ [?mine])" and now: "previous < op_id op" "op_id op \<notin> set ids" "runnable_operation registry svc op"
      "\<forall>t \<in> set taken. fst t = op_method op \<longrightarrow> \<not> (\<exists>segs. answers (snd t) segs \<and> answers (shape_of (op_path op)) segs)"
    unfolding validate_operation_Inr by simp_all
  note later = Cons.IH [OF more [unfolded s]]
  then have "sorted_wrt (<) (previous # map op_id (op # ops))" using now(1) by (auto intro: less_trans)
  moreover have "unambiguous (op # ops)" using later by (simp add: unambiguous_def)
  moreover have "set (map op_id (op # ops)) \<inter> set ids = {}" using later now(2) by auto
  moreover have "\<forall>o' \<in> set (op # ops). \<forall>t \<in> set taken. fst t = op_method o' \<longrightarrow>
      \<not> (\<exists>segs. answers (snd t) segs \<and> answers (shape_of (op_path o')) segs)" using later now(4) by auto
  ultimately show ?case using later now(3) by simp
qed (simp add: unambiguous_def)

definition sound_service :: "registry \<Rightarrow> service_manifest \<Rightarrow> bool" where
  "sound_service registry svc \<longleftrightarrow> sf_operations svc \<noteq> [] \<and> sorted_wrt (<) (map op_id (sf_operations svc))
     \<and> list_all (runnable_operation registry svc) (sf_operations svc) \<and> unambiguous (sf_operations svc)"

lemma validate_service_Inr:
  assumes "validate_service L registry (svc, spec) ids = Inr ids'"
  shows "sound_service registry svc \<and> sf_name svc = ss_name spec \<and> sf_module svc = ss_module spec
     \<and> ids' = rev (map op_id (sf_operations svc)) @ ids \<and> set (map op_id (sf_operations svc)) \<inter> set ids = {}"
proof -
  from assms obtain p t where "foldR (validate_operation registry svc) (sf_operations svc) ([], ids, []) = Inr (p, ids', t)"
      and meta: "sf_operations svc \<noteq> []" "sf_name svc = ss_name spec" "sf_module svc = ss_module spec"
    by (auto simp: validate_service_def Let_def split: if_splits)
  from validate_operations_Inr [OF this(1)] show ?thesis using meta by (simp add: sound_service_def)
qed

lemma validate_services_Inr:
  assumes "foldR (validate_service L registry) sps ids = Inr ids'"
  shows "(\<forall>sp \<in> set sps. sound_service registry (fst sp) \<and> sf_name (fst sp) = ss_name (snd sp) \<and> sf_module (fst sp) = ss_module (snd sp))
     \<and> distinct (map op_id (concat (map (sf_operations \<circ> fst) sps)))
     \<and> set (map op_id (concat (map (sf_operations \<circ> fst) sps))) \<inter> set ids = {}"
  using assms
proof (induction sps arbitrary: ids)
  case (Cons sp sps)
  obtain svc spec where sp: "sp = (svc, spec)" by (rule prod.exhaust)
  from Cons.prems obtain mid where mid: "validate_service L registry (svc, spec) ids = Inr mid"
      and more: "foldR (validate_service L registry) sps mid = Inr ids'" by (auto simp: sp)
  note here = validate_service_Inr [OF mid]
  have "sorted_wrt (<) (map op_id (sf_operations svc))" using here by (simp add: sound_service_def)
  then have "distinct (map op_id (sf_operations svc))" by (simp add: strict_sorted_iff)
  then show ?case using here Cons.IH [OF more] by (auto simp: sp)
qed simp

text \<open>
  C35. A world that compiles is runnable and unambiguous: in every service no two operations of one
  method answer a common request, every operation is bound to a registered behavior of the
  service's own module and has a valid shape; the services are those of the definition in the
  order of their names, and the operations of the world are the operations of its services, in
  the strict order of their IDs.
\<close>

theorem compiled_world_is_sound:
  assumes "CompileWorld L D M Y B definition loader registry = Inr m"
  shows "(\<exists>r. registry = Some r \<and> (\<forall>svc \<in> set (mf_services m). sound_service r svc))
     \<and> map sf_name (mf_services m) = map ss_name (wd_services (mf_definition m))
     \<and> sorted (map sf_name (mf_services m))
     \<and> mset (mf_operations m) = mset (concat (map sf_operations (mf_services m)))
     \<and> sorted_wrt (<) (map op_id (mf_operations m)) \<and> mf_operations m \<noteq> []
     \<and> ValidateManifestWithRegistry L D M registry (Inr m) = Inr ()"
proof -
  obtain r def where r: "registry = Some r" and def: "ParseWorldDefinition D definition = Inr def" "mf_definition m = def"
      and valid: "validate_world L D M r m = Inr ()"
    using assms by (auto simp: CompileWorld_def ValidateManifestWithRegistry_def Let_def split: option.splits)
  then obtain ids where same: "length (wd_services def) = length (mf_services m)" and some: "mf_operations m \<noteq> []"
      and all: "foldR (validate_service L r) (zip (mf_services m) (wd_services def)) [] = Inr ids"
      and ops: "sort_key op_id (concat (map sf_operations (mf_services m))) = mf_operations m"
    by (auto simp: validate_world_def split: sum.splits if_splits)
  let ?sps = "zip (mf_services m) (wd_services def)"
  have svcs: "mf_services m = map fst ?sps" and specs: "wd_services def = map snd ?sps" using same by simp_all
  note facts = validate_services_Inr [OF all]
  have "\<forall>svc \<in> set (mf_services m). sound_service r svc" using facts by (subst svcs) simp
  moreover have names: "map sf_name (mf_services m) = map ss_name (wd_services def)"
    using facts by (subst svcs, subst specs) simp
  moreover have "sorted (map ss_name (wd_services def))"
    using def(1) by (auto simp: ParseWorldDefinition_def world_definition_of_def split: if_splits)
  moreover have "distinct (map op_id (concat (map sf_operations (mf_services m))))"
    using facts by (subst svcs) (simp add: comp_def)
  then have "distinct (map op_id (mf_operations m))"
    unfolding ops [symmetric] by (metis mset_eq_imp_distinct_iff mset_map mset_sort)
  then have "sorted_wrt (<) (map op_id (mf_operations m))" by (simp add: strict_sorted_iff flip: ops)
  moreover have "mset (mf_operations m) = mset (concat (map sf_operations (mf_services m)))" by (simp flip: ops)
  ultimately show ?thesis using r def some valid by (simp add: ValidateManifestWithRegistry_def)
qed

definition sample_definition :: world_definition where
  "sample_definition = \<lparr>wd_version = 1, wd_name = ''company'', wd_seed_profile = ''company-v1'',
     wd_services = [\<lparr>ss_name = ''billing'', ss_module = ''billing'', ss_openapi = ''api.yaml'', ss_bindings = ''bindings.yaml''\<rparr>],
     wd_entities = [\<lparr>en_service = ''billing'', en_name = ''charge'', en_key = ''id'', en_fields = [''id'']\<rparr>], wd_relationships = []\<rparr>"

definition sample_spec :: api_spec where
  "sample_spec = \<lparr>as_openapi = ''3.1.0'', as_paths = [(''/charges/{id}'', [(''get'', sample_get ''getCharge'')]),
     (''/refunds'', [(''post'', sample_refund_op sample_props)])]\<rparr>"

definition sample_op_charge :: operation where
  "sample_op_charge = \<lparr>op_id = ''getCharge'', op_service = ''billing'', op_method = ''GET'', op_path = ''/charges/{id}'',
     op_behavior = ''billing.getCharge'', op_required = [''id''], op_properties = [(''id'', ''string'')]\<rparr>"

definition sample_op_refund :: operation where
  "sample_op_refund = \<lparr>op_id = ''createRefund'', op_service = ''billing'', op_method = ''POST'', op_path = ''/refunds'',
     op_behavior = ''billing.createRefund'', op_required = [''amount_cents'', ''charge_id'', ''reason''],
     op_properties = [(''amount_cents'', ''integer''), (''charge_id'', ''string''), (''reason'', ''string'')]\<rparr>"

lemmas sample_world_defs = sample_definition_def sample_spec_def sample_op_charge_def sample_op_refund_def sample_spec_defs

lemma sample_paths_ok: "worldPath ''/charges/{id}'' = Inr ([''id''], [''charges'', ''{}''])" "worldPath ''/refunds'' = Inr ([], [''refunds''])"
  by code_simp+

lemma sample_parsed: "ParseWorldDefinition (sample_yaml sample_definition) t = Inr sample_definition"
proof -
  have "world_definition_of sample_definition = Inr sample_definition" by code_simp
  then show ?thesis by (simp add: ParseWorldDefinition_def read_mapping_def version_tag_def sample_yaml_def)
qed

lemma sample_lookup:
  "Lookup (builtin L) ''billing.getCharge'' = Some (billingHandler L)" "Lookup (builtin L) ''billing.createRefund'' = Some (billingHandler L)"
  by (simp_all add: builtin_def Builtin_eq Lookup_def)

lemma sample_upper: "to_upper ''get'' = ''GET''" "to_upper ''post'' = ''POST''"
  by code_simp+

lemma sample_arguments:
  "world_arguments [''id''] ''get'' (sample_get ''getCharge'') = Inr ([''id''], [(''id'', ''string'')])"
  "world_arguments [] ''post'' (sample_refund_op sample_props) = Inr ([''reason'', ''charge_id'', ''amount_cents''], sample_props)"
  by code_simp+

lemma sample_ids: "ao_id (sample_get i) = i" "ao_id (sample_refund_op props) = ''createRefund''"
  by (simp_all add: sample_spec_defs)

lemma sample_operations:
  assumes "ss_name svc = ''billing''" and "ss_module svc = ''billing''"
  shows "service_operations (builtin sample_lib) svc sample_spec sample_bindings = Inr [sample_op_refund, sample_op_charge]"
proof -
  have "world_path_item (builtin sample_lib) svc sample_bindings (''/charges/{id}'', [(''get'', sample_get ''getCharge'')]) ([], [], [])
      = Inr ([''getCharge''], [(''get'', [''charges'', ''{}''])], [sample_op_charge])"
    using assms
    by (simp add: world_path_item_def world_method_def Let_def routesOverlap_def sample_lookup sample_upper sample_paths_ok sample_arguments sample_ids sample_bindings_def sample_op_charge_def)
  moreover have "world_path_item (builtin sample_lib) svc sample_bindings (''/refunds'', [(''post'', sample_refund_op sample_props)])
        ([''getCharge''], [(''get'', [''charges'', ''{}''])], [sample_op_charge])
      = Inr ([''createRefund'', ''getCharge''], [(''get'', [''charges'', ''{}'']), (''post'', [''refunds''])], [sample_op_charge, sample_op_refund])"
    using assms
    by (simp add: world_path_item_def world_method_def Let_def routesOverlap_def sample_lookup sample_upper sample_paths_ok sample_arguments sample_ids sample_bindings_def sample_op_refund_def) (simp add: sample_props_def)
  ultimately show ?thesis
    by (simp add: service_operations_def sample_spec_def sample_bindings_def) (simp add: sample_op_charge_def sample_op_refund_def)
qed

lemma sample_compiled:
  assumes "ss_name svc = ''billing''" and "ss_module svc = ''billing''"
  shows "compileService (sample_yaml sample_spec) (sample_yaml sample_bindings) (builtin sample_lib) svc a b = Inr [sample_op_refund, sample_op_charge]"
proof -
  have "supported_spec sample_spec" and "sample_bindings \<noteq> []" by (simp_all add: supported_spec_def sample_spec_def sample_bindings_def)
  then show ?thesis using sample_operations [OF assms]
    by (simp add: compileService_def decodeSingleYAML_def checkWorldOpenAPI_def onlyWorldKeys_def sample_yaml_def)
qed

lemma sample_valid_operations: "validateWorldOperation sample_op_charge = Inr ()" "validateWorldOperation sample_op_refund = Inr ()"
  by code_simp+

definition sample_service :: service_manifest where
  "sample_service = \<lparr>sf_name = ''billing'', sf_module = ''billing'',
     sf_digest = digestService sample_lib ''billing'' ''billing'' [sample_op_refund, sample_op_charge],
     sf_operations = [sample_op_refund, sample_op_charge]\<rparr>"

lemma sample_added:
  "foldR (add_service sample_lib (sample_yaml sample_spec) (sample_yaml sample_bindings) Inr (builtin sample_lib)) (wd_services sample_definition) ([], [])
     = Inr ([sample_op_refund, sample_op_charge], [sample_service])"
proof -
  obtain svc where svc: "wd_services sample_definition = [svc]" "ss_name svc = ''billing''" "ss_module svc = ''billing''"
    by (simp add: sample_definition_def)
  have "op_id sample_op_refund \<noteq> op_id sample_op_charge" by (simp add: sample_world_defs)
  then show ?thesis using sample_compiled svc by (simp add: add_service_def sample_service_def)
qed

lemma sample_service_valid: "\<exists>ids. validate_service sample_lib (builtin sample_lib) (sample_service, hd (wd_services sample_definition)) [] = Inr ids"
proof -
  have "validate_operation (builtin sample_lib) sample_service sample_op_refund ([], [], [])
      = Inr (''createRefund'', [''createRefund''], [(''POST'', [''refunds''])])"
    using sample_valid_operations(2)
    by (simp add: validate_operation_def text_le_iff shape_of_def sample_paths_ok sample_lookup sample_service_def sample_op_refund_def)
  moreover have "validate_operation (builtin sample_lib) sample_service sample_op_charge (''createRefund'', [''createRefund''], [(''POST'', [''refunds''])])
      = Inr (''getCharge'', [''getCharge'', ''createRefund''], [(''POST'', [''refunds'']), (''GET'', [''charges'', ''{}''])])"
    using sample_valid_operations(1)
    by (simp add: validate_operation_def text_le_iff shape_of_def sample_paths_ok sample_lookup sample_service_def sample_op_charge_def)
  moreover have "sf_operations sample_service = [sample_op_refund, sample_op_charge]"
      "digestService sample_lib (sf_name sample_service) (sf_module sample_service) [sample_op_refund, sample_op_charge] = sf_digest sample_service"
    by (simp_all add: sample_service_def)
  ultimately show ?thesis by (simp add: validate_service_def Let_def sample_definition_def) (simp add: sample_service_def)
qed

theorem compiled_world_is_sound_witness:
  "\<exists>m. CompileWorld sample_lib (sample_yaml sample_definition) (\<lambda>_. ''world'') (sample_yaml sample_spec) (sample_yaml sample_bindings)
       ''world'' (Some Inr) (Some (builtin sample_lib)) = Inr m
     \<and> map sf_name (mf_services m) = [''billing''] \<and> (\<forall>svc \<in> set (mf_services m). sound_service (builtin sample_lib) svc)"
proof -
  let ?ops = "[sample_op_refund, sample_op_charge]"
  obtain svc ids where svc: "wd_services sample_definition = [svc]" and ids: "validate_service sample_lib (builtin sample_lib) (sample_service, svc) [] = Inr ids"
    using sample_service_valid by (auto simp: sample_definition_def)
  have "sort_key op_id ?ops = ?ops" by (simp add: sample_op_charge_def sample_op_refund_def)
  then obtain m where m: "CompileWorld sample_lib (sample_yaml sample_definition) (\<lambda>_. ''world'') (sample_yaml sample_spec) (sample_yaml sample_bindings)
       ''world'' (Some Inr) (Some (builtin sample_lib)) = Inr m" and names: "map sf_name (mf_services m) = [''billing'']"
    using ids sample_added svc
    by (simp add: CompileWorld_def sample_parsed ValidateManifestWithRegistry_def validate_world_def sample_service_def digestWorld_def Let_def)
  then show ?thesis using compiled_world_is_sound [OF m] by (intro exI [of _ m] conjI) auto
qed

end
