(* ===== verification/Spec2Isabelle.thy ===== *)
theory Spec2Isabelle
  imports Fleet Seed Calls Worker Rewrite Gate Assertions Checkpoint Fork Replay Isolation Eval Counterfactual Providers Worlds
begin

text \<open>
  Twinwright runs a language-model agent against a simulated company. A compiled manifest
  names the operations the model may call; the \<^emph>\<open>runner\<close> alternates model turns and tool
  calls; the \<^emph>\<open>dispatcher\<close> executes one tool call in one database transaction, through an
  authorization policy, a fault-injection policy and the handler of one of four simulated
  services; the \<^emph>\<open>store\<close> keeps worlds, runs, an append-only event ledger, and the leases and
  queue by which a fleet of workers shares runs. Everything durable is in SQL tables, so the
  state of the model is one record of tables (\<open>Schema.db\<close>) and a transaction is a function
  from a database to an error or a result with a new database (\<open>'a tx\<close>); \<open>commit\<close> gives a
  failed transaction the database it started from, as a rollback does.

  \<^bold>\<open>Prelude\<close>. Errors as values (\<open>'a res\<close>), JSON and Go's dynamic values, the parts of Go's
  standard library the sources use, and the laws of the table operations. Library code that
  is not in the repository (SHA-256, JSON text, float rounding, calendar formatting) is a
  record of functions passed to every definition that needs it; the sample record in
  \<open>Samples\<close> instantiates it for the witnesses.

  \<^bold>\<open>Store\<close> (\<open>src/internal/store\<close>). \<open>Schema\<close>: the tables of \<open>migrate.go\<close>. \<open>Timestamp\<close>: the
  layout of coordination times, whose text order is shown to be the order of instants.
  \<open>Lease\<close>: acquiring, renewing, releasing and guarding a run lease, and the ownership log.
  \<open>Ledger\<close>: creating runs, appending events, saving turns and statuses, each with and without
  a fence. \<open>Queue\<close>: enqueueing, claiming, finishing and releasing work, and the worker table.
  \<open>Fleet\<close>: the interleaving of any number of workers as an inductive step relation; a locale
  states what a resource guarded by fencing tokens promises and the store interprets it.
  \<open>Seed\<close>: the seeded worlds.

  \<^bold>\<open>Services\<close>. \<open>Service\<close> states the contract of a handler as a locale (it keeps the world
  invariant, leaves other worlds alone, and says so when it wrote); \<open>Billing\<close>, \<open>Crm\<close>,
  \<open>Ticketing\<close> and \<open>Messaging\<close> model the four \<open>Handle\<close> functions and interpret it; \<open>Behavior\<close>
  models the registry and shows that no sequence of calls refunds more than was charged and
  that issues only move along their state machine.

  \<^bold>\<open>Policies\<close>. \<open>Manifest\<close> (\<open>compiler/compiler.go\<close>, validation), \<open>Authz\<close> (the decision and
  exposure of operations, shown equivalent to what the policy means) and \<open>Chaos\<close> (the choice
  and the counting of fault rules, snapshots, actors). \<open>Yaml\<close> holds the node tree and the strict
  reading of one document that the readers share, over the YAML library as a parameter; \<open>Policies\<close>
  models the two \<open>Parse\<close> functions, canonical JSON, digests and \<open>ValidateStored\<close>, and shows what an
  accepted policy can say and that its stored form is accepted again.

  \<^bold>\<open>Dispatcher\<close>. \<open>Dispatch\<close> models \<open>Invoke\<close> as the stages of its body; \<open>Calls\<close> shows that a
  call takes effect at most once, that a crash on either side of the commit can be retried,
  that every change is in the ledger, and that a refused call changes nothing.

  \<^bold>\<open>Runner\<close>. \<open>Interrupt\<close> models the classification of failed attempts, the wait before a
  retry and the named crash points; \<open>Runner\<close> models \<open>Execute\<close> with its helpers; \<open>Execution\<close>
  shows that the loop ends, respects the step budget and keeps requests paired with responses
  through every crash. The provider, the clock, the sleep and the crash hook are functions of
  the pass number, so they may answer differently every time. \<open>Execute\<close> takes fuel, one unit
  a pass; termination is the statement that some amount is enough and that more changes
  nothing, so no other theorem depends on the amount chosen.

  \<^bold>\<open>Workers\<close>. \<open>Worker\<close> models one claim of a worker with its renewals and every way it ends, and
  the lease around a local command (\<open>src/internal/worker\<close>); the disposition it reports is shown
  to be true of the database it leaves, and deliveries to be bounded.

  \<^bold>\<open>Checkpoints, forks and replay\<close>. \<open>Checkpoint\<close> (\<open>src/internal/checkpoint\<close>) lists the restore
  points of a recorded run and rebuilds the run at one of them by executing the recorded prefix
  in an empty database; \<open>Fork\<close> (\<open>src/internal/fork\<close>) writes a child run that starts there, in a
  world of its own, rebuilds such a start for replay and compares the worlds of two runs;
  \<open>Replay\<close> (\<open>src/internal/replay\<close>) executes a completed run again and compares all it left. The
  lemmas show that the listed checkpoints are the boundary events, that a reconstruction has the
  recorded prefix, that a fork changes nothing of any other run or world, that a replay is an
  execution of the runner, and that its verdict is exact. The readers of
  policy documents are a parameter (\<open>readers\<close>) of forks and replay. \<open>Isolation\<close> shows of the whole execution of a run
  that it writes rows of that run and its world only.

  \<^bold>\<open>Judging runs\<close>. \<open>Tables\<close> reads the world tables by name; \<open>Assertions\<close> models the assertion
  language (\<open>src/internal/assertion\<close>), its validation and evaluation; \<open>Bench\<close> the folding of the
  trials of a benchmark case and \<open>Gate\<close> the comparison of two reports (\<open>src/internal/gate\<close>).
  \<open>Eval\<close> models the checks of the built-in scenarios, the fault and security analysis of a run
  (\<open>src/internal/eval\<close>) and the comparison of a fork with its parent, and shows what the refund
  checks and the security findings mean and that forks never change another run's verdict.

  \<^bold>\<open>Counterfactual analysis\<close>. \<open>Counterfactual\<close> (\<open>src/internal/counterfactual\<close>) models the reading
  of an intervention file, the planning of forks of a failing run, their execution and the ranked
  report; its lemmas show that every plan changes one variable at an event of the run, that the
  report counts what the forks showed, and that no earlier run or world is touched.

  \<^bold>\<open>Compilers\<close>. \<open>Worlds\<close> (\<open>src/internal/compiler\<close>) models the compilation of an OpenAPI document and
  its bindings to a manifest, the reading of world definitions and the compilation and validation
  of worlds of several services. Go ranges over maps in an arbitrary order, so a decoded map is a
  list in the order of one iteration; the manifest is shown not to depend on it, and a compiled
  world to be unambiguous and bound to registered behaviors.

  \<^bold>\<open>Providers and cassettes\<close>. \<open>Redact\<close> (\<open>src/internal/redact\<close>) masks secrets, keys, tokens and URLs;
  \<open>Cassette\<close> (\<open>src/internal/agent/cassette.go\<close>) records the exchanges with a provider and replays
  them; \<open>Providers\<close> models the three HTTP adapters (\<open>openai.go\<close>, \<open>anthropic.go\<close>, \<open>chat.go\<close>): the
  request each sends, the classification of a failed exchange and the decoding of an answer. The
  network, the disk, the URL parser and the JSON codec are parameters. The lemmas show that no
  credential survives masking, that a cassette holds exactly the exchanges whose answers were
  handed on and replays them, and that only complete responses become turns.

  \<^bold>\<open>PostgreSQL\<close>. \<open>Rewrite\<close> models the translation of placeholders and shows it to be lexing,
  numbering and printing.

  \<^bold>\<open>Not modelled\<close>. The command line, the HTTP servers, the database drivers, containers and
  external agent processes, metrics, traces and report texts are I/O or presentation. The scripted
  providers are fixed scripts behind the interface the runner takes as a parameter. Running a
  benchmark suite, shadow runs against another system and the crash matrix drive the modelled
  parts and are not modelled themselves. Row locks (\<open>FOR UPDATE\<close>) order transactions that
  already run one after the other in the model. Error texts are abbreviated where nothing reads
  them.
\<close>

end
